(* ===== verification/Prelude.thy ===== *)
theory Prelude
  imports Main "HOL-Library.AList" "HOL-Library.Char_ord" "HOL-Library.List_Lexorder"
    "HOL-Library.Product_Lexorder" "HOL-Library.Sublist" "HOL-Library.Multiset"
begin

text \<open>
  Shared vocabulary of the development: results of code that may raise, loops that stop at the
  first exception, and Python dictionaries with insertion order (association lists, stored to by
  \<^const>\<open>AList.update\<close>, which overwrites in place or appends).
  The collections \<open>ok_iff\<close> (when does a fallible expression succeed) and \<open>dict_simps\<close> (what a
  dictionary holds after a store) carry the component proofs.
\<close>

named_theorems ok_iff \<open>characterisations of successful results\<close>
named_theorems dict_simps \<open>lookups and key lists of dictionaries\<close>

section \<open>Results of code that may raise\<close>

text \<open>\<^term>\<open>Inl e\<close> is the exception \<open>e\<close>, \<^term>\<open>Inr x\<close> the value \<open>x\<close>.\<close>

definition bindE :: "'e + 'a \<Rightarrow> ('a \<Rightarrow> 'e + 'b) \<Rightarrow> 'e + 'b" where
  "bindE m f = (case m of Inl e \<Rightarrow> Inl e | Inr x \<Rightarrow> f x)"

lemma bindE_simps [simp]:
  "bindE (Inl e) f = Inl e"
  "bindE (Inr x) f = f x"
  by (simp_all add: bindE_def)

lemma bindE_ok [ok_iff]: "bindE m f = Inr y \<longleftrightarrow> (\<exists>x. m = Inr x \<and> f x = Inr y)"
  by (cases m) auto

lemma bindE_err: "bindE m f = Inl e \<longleftrightarrow> m = Inl e \<or> (\<exists>x. m = Inr x \<and> f x = Inl e)"
  by (cases m) auto

lemma bindE_cong [fundef_cong]:
  "m = m' \<Longrightarrow> (\<And>x. m' = Inr x \<Longrightarrow> f x = f' x) \<Longrightarrow> bindE m f = bindE m' f'"
  by (cases m') auto

lemma if_Inl_ok [ok_iff]: "(if b then Inl e else r) = Inr y \<longleftrightarrow> \<not> b \<and> r = Inr y"
  by simp

lemma if_Inl_ok2 [ok_iff]: "(if b then r else Inl e) = Inr y \<longleftrightarrow> b \<and> r = Inr y"
  by simp

text \<open>A value that may be absent, with the exception raised when it is.\<close>

definition requireE :: "'a option \<Rightarrow> 'e \<Rightarrow> 'e + 'a" where
  "requireE v e = (case v of None \<Rightarrow> Inl e | Some x \<Rightarrow> Inr x)"

lemma requireE_simps [simp]:
  "requireE None e = Inl e"
  "requireE (Some x) e = Inr x"
  by (simp_all add: requireE_def)

lemma requireE_ok [ok_iff]: "requireE v e = Inr x \<longleftrightarrow> v = Some x"
  by (cases v) auto

text \<open>A list comprehension whose body may raise, and a loop over a mutable state.\<close>

fun mapE :: "('a \<Rightarrow> 'e + 'b) \<Rightarrow> 'a list \<Rightarrow> 'e + 'b list" where
  "mapE f [] = Inr []"
| "mapE f (x # xs) = bindE (f x) (\<lambda>y. bindE (mapE f xs) (\<lambda>ys. Inr (y # ys)))"

fun foldE :: "('s \<Rightarrow> 'a \<Rightarrow> 'e + 's) \<Rightarrow> 's \<Rightarrow> 'a list \<Rightarrow> 'e + 's" where
  "foldE f s [] = Inr s"
| "foldE f s (x # xs) = bindE (f s x) (\<lambda>s'. foldE f s' xs)"

lemma mapE_cong [fundef_cong]:
  "xs = ys \<Longrightarrow> (\<And>x. x \<in> set ys \<Longrightarrow> f x = g x) \<Longrightarrow> mapE f xs = mapE g ys"
proof (induction ys arbitrary: xs)
  case Nil
  then show ?case by simp
next
  case (Cons y ys)
  from Cons.prems(2) have "mapE f ys = mapE g ys"
    by (intro Cons.IH) auto
  with Cons.prems show ?case by simp
qed

lemma mapE_ok [ok_iff]: "mapE f xs = Inr ys \<longleftrightarrow> list_all2 (\<lambda>x y. f x = Inr y) xs ys"
  by (induction xs arbitrary: ys) (auto simp: ok_iff list_all2_Cons1)

lemma mapE_all_ok: "(\<And>x. x \<in> set xs \<Longrightarrow> f x = Inr (g x)) \<Longrightarrow> mapE f xs = Inr (map g xs)"
  by (induction xs) auto

lemma list_all2_right: "list_all2 P xs ys \<Longrightarrow> (\<And>x y. P x y \<Longrightarrow> Q y) \<Longrightarrow> \<forall>y \<in> set ys. Q y"
  by (induction rule: list_all2_induct) auto

lemma list_all2_left: "list_all2 P xs ys \<Longrightarrow> (\<And>x y. P x y \<Longrightarrow> Q x) \<Longrightarrow> \<forall>x \<in> set xs. Q x"
  by (induction rule: list_all2_induct) auto

lemma list_all2_post: "list_all2 P xs ys \<Longrightarrow> y \<in> set ys \<Longrightarrow> \<exists>x \<in> set xs. P x y"
  by (induction rule: list_all2_induct) auto

lemma list_all2_pre: "list_all2 P xs ys \<Longrightarrow> x \<in> set xs \<Longrightarrow> \<exists>y \<in> set ys. P x y"
  by (induction rule: list_all2_induct) auto

lemma mapE_length: "mapE f xs = Inr ys \<Longrightarrow> length ys = length xs"
  by (auto simp: ok_iff dest: list_all2_lengthD)

lemma foldE_append: "foldE f s (xs @ ys) = bindE (foldE f s xs) (\<lambda>s'. foldE f s' ys)"
proof (induction xs arbitrary: s)
  case Nil
  then show ?case by simp
next
  case (Cons x xs)
  then show ?case by (cases "f s x") auto
qed

text \<open>
  The loop rule: an invariant of the list consumed so far and the state, which holds before the
  loop and is kept by every step that does not raise, holds when the loop has returned.
\<close>

lemma foldE_rule:
  assumes "foldE f s xs = Inr t" and "P [] s"
    and "\<And>ys x zs u v. xs = ys @ x # zs \<Longrightarrow> P ys u \<Longrightarrow> f u x = Inr v \<Longrightarrow> P (ys @ [x]) v"
  shows "P xs t"
  using assms
proof (induction xs arbitrary: t rule: rev_induct)
  case Nil
  then show ?case by simp
next
  case (snoc x xs)
  from snoc.prems(1) obtain u where u: "foldE f s xs = Inr u" and fu: "f u x = Inr t"
    by (auto simp: foldE_append ok_iff)
  have "P xs u"
    using snoc.IH [OF u snoc.prems(2)] snoc.prems(3) by (metis append.assoc append_Cons)
  with fu show ?case
    using snoc.prems(3) [of xs x "[]" u t] by simp
qed

section \<open>Operations on a store that may raise\<close>

text \<open>
  The store is passed along, and what an operation did before it raised stays done: the result carries
  the store in either case.
\<close>

type_synonym ('s, 'e, 'a) io = "'s \<Rightarrow> ('e + 'a) \<times> 's"

definition bindS :: "('s, 'e, 'a) io \<Rightarrow> ('a \<Rightarrow> ('s, 'e, 'b) io) \<Rightarrow> ('s, 'e, 'b) io" where
  "bindS m f s = (case m s of (Inl e, s') \<Rightarrow> (Inl e, s') | (Inr x, s') \<Rightarrow> f x s')"

definition liftE :: "'e + 'a \<Rightarrow> ('s, 'e, 'a) io" where
  "liftE r s = (r, s)"

lemma bindS_ok [ok_iff]: "bindS m f s = (Inr y, t) \<longleftrightarrow> (\<exists>x u. m s = (Inr x, u) \<and> f x u = (Inr y, t))"
  by (auto simp: bindS_def split: prod.splits sum.splits)

lemma bindS_err: "bindS m f s = (Inl e, t) \<longleftrightarrow>
   m s = (Inl e, t) \<or> (\<exists>x u. m s = (Inr x, u) \<and> f x u = (Inl e, t))"
  by (auto simp: bindS_def split: prod.splits sum.splits)

lemma liftE_ok [ok_iff]: "liftE r s = (Inr y, t) \<longleftrightarrow> r = Inr y \<and> t = s"
  by (auto simp: liftE_def)

lemma bindS_liftE [simp]: "bindS (liftE (Inr x)) f s = f x s" "bindS (liftE (Inl e)) f s = (Inl e, s)"
  by (simp_all add: bindS_def liftE_def)

lemma bindS_assoc: "bindS (bindS m f) g = bindS m (\<lambda>x. bindS (f x) g)"
  by (rule ext) (auto simp: bindS_def split: prod.split sum.split)

lemma bindS_liftE_left: "bindS (liftE (Inr x)) f = f x"
  by (rule ext) simp

text \<open>A property of the store that an operation keeps on every path, raised or returned.\<close>

definition keeps :: "('s \<Rightarrow> 's \<Rightarrow> bool) \<Rightarrow> ('s, 'e, 'a) io \<Rightarrow> bool" where
  "keeps R m \<longleftrightarrow> (\<forall>s. R s (snd (m s)))"

lemma keeps_liftE [intro]: "reflp R \<Longrightarrow> keeps R (liftE r)"
  by (simp add: keeps_def liftE_def reflpD)

lemma keeps_bindS [intro]:
  "transp R \<Longrightarrow> keeps R m \<Longrightarrow> (\<And>x. keeps R (f x)) \<Longrightarrow> keeps R (bindS m f)"
  by (auto simp: keeps_def bindS_def split: prod.splits sum.splits) (metis snd_conv transpD)+

section \<open>Dictionaries in insertion order\<close>

lemma update_lookup [dict_simps]: "map_of (AList.update k v d) = (map_of d)(k \<mapsto> v)"
  by (rule AList.update_conv')

lemma update_new [dict_simps]: "map_of d k = None \<Longrightarrow> AList.update k v d = d @ [(k, v)]"
  by (induction d) (auto split: if_splits)

lemma update_keys [dict_simps]: "fst ` set (AList.update k v d) = insert k (fst ` set d)"
  by (induction d) auto

lemma map_of_snoc [dict_simps]:
  "map_of (d @ [(k, v)]) k' = (case map_of d k' of None \<Rightarrow> (if k' = k then Some v else None) | x \<Rightarrow> x)"
  by (induction d) auto

lemma map_of_None_keys: "map_of d k = None \<longleftrightarrow> k \<notin> set (map fst d)"
  by (simp add: map_of_eq_None_iff)

lemma set_keys: "set (map fst d) = dom (map_of d)"
  by (simp add: dom_map_of_conv_image_fst)

text \<open>The keys of a dictionary as Python's \<open>sorted\<close> lists them.\<close>

definition sorted_keys :: "('k::linorder) list \<Rightarrow> 'k list" where
  "sorted_keys ks = sort (remdups ks)"

lemma set_sorted_keys [simp]: "set (sorted_keys ks) = set ks"
  by (simp add: sorted_keys_def)

lemma distinct_sorted_keys [simp]: "distinct (sorted_keys ks)"
  by (simp add: sorted_keys_def)

lemma sorted_sorted_keys [simp]: "sorted (sorted_keys ks)"
  by (simp add: sorted_keys_def)

lemma sorted_keys_Nil_iff [simp]: "sorted_keys ks = [] \<longleftrightarrow> ks = []"
  by (metis set_empty set_sorted_keys)

lemma sort_Nil_iff [simp]: "sort xs = [] \<longleftrightarrow> xs = []"
  by (metis set_empty set_sort)

lemma sorted_keys_cong: "set ks = set ks' \<Longrightarrow> sorted_keys ks = sorted_keys ks'"
  by (metis sorted_distinct_set_unique distinct_sorted_keys sorted_sorted_keys set_sorted_keys)

lemma sorted_keys_of_set: "sorted_keys ks = sorted_list_of_set (set ks)"
  by (metis sorted_list_of_set.idem_if_sorted_distinct distinct_sorted_keys set_sorted_keys
      sorted_sorted_keys)

end
