(* ===== verification/Json.thy ===== *)
theory Json
  imports Complex_Main Prelude
begin

text \<open>
  The values \<open>json.load\<close> and \<open>yaml.safe_load\<close> give the program: Python's \<open>None\<close>, booleans, unbounded
  integers, finite floats (as the rational number they are), strings, lists and dictionaries.  A
  dictionary is an association list in insertion order with distinct keys (\<open>wf_json\<close>).  \<open>py_eq\<close> is
  Python's \<open>==\<close>: dictionaries compare without regard to order, and a boolean, an integer and a float
  are equal when they are the same number, so \<open>True == 1 == 1.0\<close>.
\<close>

datatype json =
    JNull
  | JBool bool
  | JInt int
  | JFloat rat
  | JStr string
  | JList "json list"
  | JObj "(string \<times> json) list"

type_synonym object = "(string \<times> json) list"

text \<open>\<open>isinstance\<close> tests that keep the value: \<open>None\<close> when it is of another type.\<close>

definition as_object :: "json \<Rightarrow> object option" where
  "as_object j = (case j of JObj d \<Rightarrow> Some d | _ \<Rightarrow> None)"

definition as_list :: "json \<Rightarrow> json list option" where
  "as_list j = (case j of JList xs \<Rightarrow> Some xs | _ \<Rightarrow> None)"

definition as_string :: "json \<Rightarrow> string option" where
  "as_string j = (case j of JStr s \<Rightarrow> Some s | _ \<Rightarrow> None)"

lemma as_simps [simp]:
  "as_object (JObj d) = Some d" "as_list (JList xs) = Some xs" "as_string (JStr s) = Some s"
  by (simp_all add: as_object_def as_list_def as_string_def)

lemma as_object_Some [simp]: "as_object j = Some d \<longleftrightarrow> j = JObj d"
  by (auto simp: as_object_def split: json.splits)

lemma Some_as_object [simp]: "Some d = as_object j \<longleftrightarrow> j = JObj d"
  by (auto simp: as_object_def split: json.splits)

lemma as_list_Some [simp]: "as_list j = Some xs \<longleftrightarrow> j = JList xs"
  by (auto simp: as_list_def split: json.splits)

lemma as_string_Some [simp]: "as_string j = Some s \<longleftrightarrow> j = JStr s"
  by (auto simp: as_string_def split: json.splits)

text \<open>\<open>d.get(k)\<close>, with \<open>None\<close> for a missing key, and the fields of a given type.\<close>

definition jget :: "object \<Rightarrow> string \<Rightarrow> json" where
  "jget d k = (case map_of d k of None \<Rightarrow> JNull | Some v \<Rightarrow> v)"

definition jget_default :: "object \<Rightarrow> string \<Rightarrow> json \<Rightarrow> json" where
  "jget_default d k v = (case map_of d k of None \<Rightarrow> v | Some w \<Rightarrow> w)"

definition truthy :: "json \<Rightarrow> bool" where
  "truthy j = (case j of
     JNull \<Rightarrow> False | JBool b \<Rightarrow> b | JInt i \<Rightarrow> i \<noteq> 0 | JFloat q \<Rightarrow> q \<noteq> 0
   | JStr s \<Rightarrow> s \<noteq> [] | JList xs \<Rightarrow> xs \<noteq> [] | JObj d \<Rightarrow> d \<noteq> [])"

section \<open>Equality\<close>

definition number_of :: "json \<Rightarrow> rat option" where
  "number_of j = (case j of
     JBool b \<Rightarrow> Some (if b then 1 else 0) | JInt i \<Rightarrow> Some (of_int i) | JFloat q \<Rightarrow> Some q | _ \<Rightarrow> None)"

function py_eq :: "json \<Rightarrow> json \<Rightarrow> bool"
  and py_eq_list :: "json list \<Rightarrow> json list \<Rightarrow> bool"
  and py_eq_entries :: "object \<Rightarrow> object \<Rightarrow> bool" where
  "py_eq x y = (case x of
     JNull \<Rightarrow> y = JNull
   | JStr s \<Rightarrow> y = JStr s
   | JList xs \<Rightarrow> (case y of JList ys \<Rightarrow> py_eq_list xs ys | _ \<Rightarrow> False)
   | JObj d \<Rightarrow> (case y of JObj e \<Rightarrow> length d = length e \<and> py_eq_entries d e | _ \<Rightarrow> False)
   | _ \<Rightarrow> number_of x = number_of y)"
| "py_eq_list [] ys = (ys = [])"
| "py_eq_list (x # xs) ys = (case ys of [] \<Rightarrow> False | y # ys' \<Rightarrow> py_eq x y \<and> py_eq_list xs ys')"
| "py_eq_entries [] e = True"
| "py_eq_entries ((k, v) # d) e =
     ((case map_of e k of None \<Rightarrow> False | Some w \<Rightarrow> py_eq v w) \<and> py_eq_entries d e)"
  by pat_completeness auto
termination
  by (relation "measure (case_sum (\<lambda>(x, y). size x) (case_sum (\<lambda>(xs, ys). size_list size xs)
        (\<lambda>(d, e). size_list (size_prod (\<lambda>_. 0) size) d)))") auto

declare py_eq.simps [simp del]

lemma py_eq_simps [simp]:
  "py_eq JNull y \<longleftrightarrow> y = JNull"
  "py_eq (JStr s) y \<longleftrightarrow> y = JStr s"
  "py_eq (JBool b) y \<longleftrightarrow> number_of y = Some (if b then 1 else 0)"
  "py_eq (JInt i) y \<longleftrightarrow> number_of y = Some (of_int i)"
  "py_eq (JFloat q) y \<longleftrightarrow> number_of y = Some q"
  "py_eq (JList xs) y \<longleftrightarrow> (\<exists>ys. y = JList ys \<and> py_eq_list xs ys)"
  "py_eq (JObj d) y \<longleftrightarrow> (\<exists>e. y = JObj e \<and> length d = length e \<and> py_eq_entries d e)"
  by (auto simp: py_eq.simps number_of_def split: json.splits)

lemma number_of_cases [simp]:
  "number_of JNull = None" "number_of (JStr s) = None" "number_of (JList xs) = None"
  "number_of (JObj d) = None" "number_of (JBool b) = Some (if b then 1 else 0)"
  "number_of (JInt i) = Some (of_int i)" "number_of (JFloat q) = Some q"
  by (simp_all add: number_of_def)

text \<open>Every dictionary in the value has distinct keys, as the parsers produce them.\<close>

function wf_json :: "json \<Rightarrow> bool"
  and wf_list :: "json list \<Rightarrow> bool"
  and wf_entries :: "object \<Rightarrow> bool" where
  "wf_json j = (case j of
     JList xs \<Rightarrow> wf_list xs | JObj d \<Rightarrow> distinct (map fst d) \<and> wf_entries d | _ \<Rightarrow> True)"
| "wf_list [] = True"
| "wf_list (x # xs) = (wf_json x \<and> wf_list xs)"
| "wf_entries [] = True"
| "wf_entries ((k, v) # d) = (wf_json v \<and> wf_entries d)"
  by pat_completeness auto
termination
  by (relation "measure (case_sum size (case_sum (size_list size)
        (size_list (size_prod (\<lambda>_. 0) size))))") auto

declare wf_json.simps [simp del]

lemma wf_json_simps [simp]:
  "wf_json JNull" "wf_json (JStr s)" "wf_json (JBool b)" "wf_json (JInt i)" "wf_json (JFloat q)"
  "wf_json (JList xs) = wf_list xs"
  "wf_json (JObj d) \<longleftrightarrow> distinct (map fst d) \<and> wf_entries d"
  by (simp_all add: wf_json.simps)

lemma wf_list_iff: "wf_list xs \<longleftrightarrow> (\<forall>x \<in> set xs. wf_json x)"
  by (induction xs) auto

lemma wf_entries_iff: "wf_entries d \<longleftrightarrow> (\<forall>(k, v) \<in> set d. wf_json v)"
  by (induction d) auto

lemma wf_member: "wf_json (JObj d) \<Longrightarrow> (k, v) \<in> set d \<Longrightarrow> wf_json v"
  by (auto simp: wf_entries_iff)

lemma py_eq_list_iff: "py_eq_list xs ys \<longleftrightarrow> list_all2 py_eq xs ys"
  by (induction xs arbitrary: ys) (auto split: list.splits simp: list_all2_Cons1)

lemma py_eq_entries_iff:
  "py_eq_entries d e \<longleftrightarrow> (\<forall>(k, v) \<in> set d. \<exists>w. map_of e k = Some w \<and> py_eq v w)"
  by (induction d) (auto split: option.splits)

text \<open>
  On dictionaries with distinct keys, equal lengths and inclusion one way are the same keys with equal
  values.
\<close>

lemma card_keys: "distinct (map fst d) \<Longrightarrow> card (dom (map_of d)) = length d"
  using distinct_card [of "map fst d"] by (simp add: dom_map_of_conv_image_fst)

lemma py_eq_object:
  assumes "distinct (map fst d)" "distinct (map fst e)"
  shows "py_eq (JObj d) (JObj e) \<longleftrightarrow>
    dom (map_of d) = dom (map_of e) \<and>
    (\<forall>k v w. map_of d k = Some v \<longrightarrow> map_of e k = Some w \<longrightarrow> py_eq v w)"
proof
  assume eq: "py_eq (JObj d) (JObj e)"
  have "dom (map_of d) \<subseteq> dom (map_of e)"
    using eq by (fastforce simp: py_eq_entries_iff dest: map_of_SomeD)
  moreover have "card (dom (map_of d)) = card (dom (map_of e))"
    using eq by (simp add: card_keys assms)
  ultimately have "dom (map_of d) = dom (map_of e)"
    by (simp add: card_subset_eq finite_dom_map_of)
  moreover have "py_eq v w" if "map_of d k = Some v" "map_of e k = Some w" for k v w
    using that eq by (force simp: py_eq_entries_iff dest: map_of_SomeD)
  ultimately show "dom (map_of d) = dom (map_of e) \<and>
    (\<forall>k v w. map_of d k = Some v \<longrightarrow> map_of e k = Some w \<longrightarrow> py_eq v w)" by blast
next
  assume R: "dom (map_of d) = dom (map_of e) \<and>
    (\<forall>k v w. map_of d k = Some v \<longrightarrow> map_of e k = Some w \<longrightarrow> py_eq v w)"
  then have "set (map fst d) = set (map fst e)"
    by (simp add: dom_map_of_conv_image_fst)
  then have "length d = length e"
    using assms by (metis distinct_card length_map)
  moreover have "\<exists>w. map_of e k = Some w \<and> py_eq v w" if "(k, v) \<in> set d" for k v
  proof -
    have dv: "map_of d k = Some v" using that assms(1) by simp
    then obtain w where "map_of e k = Some w" using R by blast
    with dv R show ?thesis by blast
  qed
  ultimately show "py_eq (JObj d) (JObj e)" by (auto simp: py_eq_entries_iff)
qed

lemma wf_lookup: "wf_entries d \<Longrightarrow> map_of d k = Some v \<Longrightarrow> wf_json v"
  by (auto simp: wf_entries_iff dest: map_of_SomeD)

lemma py_eq_refl: "wf_json x \<Longrightarrow> py_eq x x"
proof (induction x)
  case (JList xs)
  then show ?case by (auto simp: py_eq_list_iff wf_list_iff list_all2_same)
next
  case (JObj d)
  then have "py_eq v v" if "map_of d k = Some v" for k v
    using that by (auto simp: wf_entries_iff dest: map_of_SomeD)
  moreover have "distinct (map fst d)" using JObj.prems by simp
  ultimately show ?case
    unfolding py_eq_object [OF \<open>distinct (map fst d)\<close> \<open>distinct (map fst d)\<close>] by auto
qed auto

lemma py_eq_sym: "wf_json x \<Longrightarrow> wf_json y \<Longrightarrow> py_eq x y \<Longrightarrow> py_eq y x"
proof (induction x arbitrary: y)
  case (JBool b)
  then show ?case by (cases y) (auto split: if_splits)
next
  case (JInt i)
  then show ?case by (cases y) auto
next
  case (JFloat q)
  then show ?case by (cases y) auto
next
  case (JList xs)
  then obtain ys where y: "y = JList ys" and eq: "list_all2 py_eq xs ys"
    by (auto simp: py_eq_list_iff)
  have "list_all2 py_eq ys xs"
    using eq JList by (auto simp: list_all2_conv_all_nth wf_list_iff y)
  then show ?case by (simp add: y py_eq_list_iff)
next
  case (JObj d)
  then obtain e where y: "y = JObj e" by auto
  have d: "distinct (map fst d)" "distinct (map fst e)" "wf_entries d" "wf_entries e"
    using JObj.prems by (simp_all add: y)
  note R = JObj.prems(3) [unfolded y py_eq_object [OF d(1,2)]]
  have "py_eq w v" if v: "map_of d k = Some v" and w: "map_of e k = Some w" for k v w
  proof -
    have "py_eq v w" using R v w by blast
    moreover have "(k, v) \<in> set d" using v by (rule map_of_SomeD)
    ultimately show ?thesis
      using JObj.IH [of "(k, v)" v w] wf_lookup [OF d(3) v] wf_lookup [OF d(4) w] by simp
  qed
  with R show ?case unfolding y py_eq_object [OF d(2,1)] by blast
qed auto

text \<open>Fields of equal dictionaries are equal, present or not.\<close>

lemma py_eq_field:
  assumes "py_eq (JObj d) (JObj e)" "wf_json (JObj d)" "wf_json (JObj e)"
  shows "py_eq (jget d k) (jget e k)"
    and "py_eq v v \<Longrightarrow> py_eq (jget_default d k v) (jget_default e k v)"
proof -
  have D: "distinct (map fst d)" "distinct (map fst e)" using assms(2,3) by simp_all
  note R = assms(1) [unfolded py_eq_object [OF D]]
  have "map_of d k = None \<longleftrightarrow> map_of e k = None" using R by (metis domIff)
  with R show "py_eq (jget d k) (jget e k)"
    "py_eq v v \<Longrightarrow> py_eq (jget_default d k v) (jget_default e k v)"
    by (auto simp: jget_def jget_default_def split: option.splits)
qed

lemma py_eq_lookup:
  assumes "py_eq (JObj d) (JObj e)" "wf_json (JObj d)" "wf_json (JObj e)" "map_of d k = Some v"
  obtains w where "map_of e k = Some w" "py_eq v w" "wf_json v" "wf_json w"
proof -
  have D: "distinct (map fst d)" "distinct (map fst e)" "wf_entries d" "wf_entries e"
    using assms(2,3) by simp_all
  note R = assms(1) [unfolded py_eq_object [OF D(1,2)]]
  obtain w where w: "map_of e k = Some w" using R assms(4) by (metis domD domI)
  then have "py_eq v w" using R assms(4) by blast
  with w show thesis using that wf_lookup [OF D(3) assms(4)] wf_lookup [OF D(4) w] by blast
qed

lemma wf_jget: "wf_json (JObj d) \<Longrightarrow> wf_json (jget d k)"
  using wf_lookup [of d k] by (auto simp: jget_def split: option.splits)

lemma wf_jget_default: "wf_json (JObj d) \<Longrightarrow> wf_json v \<Longrightarrow> wf_json (jget_default d k v)"
  using wf_lookup [of d k] by (auto simp: jget_default_def split: option.splits)

end
