(* ===== verification/Py_Text.thy ===== *)
theory Py_Text
  imports Prelude
begin

text \<open>
  The operations of Python's \<open>str\<close> the program uses, on lists of characters. A character is a code
  point below 256, so the classes (\<open>isspace\<close>, \<open>isalpha\<close>, \<open>isalnum\<close>, \<open>isdigit\<close>) and the line
  boundaries of \<open>splitlines\<close> are Python's on that range; code points above it are outside the model.
  Case conversion is exact on ASCII and on the Latin-1 letters whose other case is in the range.
\<close>

section \<open>Character classes\<close>

definition is_space :: "char \<Rightarrow> bool" where
  "is_space c = (let n = (of_char c :: int) in
     9 \<le> n \<and> n \<le> 13 \<or> 28 \<le> n \<and> n \<le> 32 \<or> n = 133 \<or> n = 160)"

definition is_ascii_digit :: "char \<Rightarrow> bool" where
  "is_ascii_digit c = (let n = (of_char c :: int) in 48 \<le> n \<and> n \<le> 57)"

definition is_ascii_upper :: "char \<Rightarrow> bool" where
  "is_ascii_upper c = (let n = (of_char c :: int) in 65 \<le> n \<and> n \<le> 90)"

definition is_ascii_lower :: "char \<Rightarrow> bool" where
  "is_ascii_lower c = (let n = (of_char c :: int) in 97 \<le> n \<and> n \<le> 122)"

definition is_ascii_letter :: "char \<Rightarrow> bool" where
  "is_ascii_letter c \<longleftrightarrow> is_ascii_upper c \<or> is_ascii_lower c"

definition is_ascii_alnum :: "char \<Rightarrow> bool" where
  "is_ascii_alnum c \<longleftrightarrow> is_ascii_letter c \<or> is_ascii_digit c"

text \<open>\<open>str.isdigit\<close> also accepts the three superscript digits of Latin-1, which \<open>int\<close> rejects.\<close>

definition is_digit :: "char \<Rightarrow> bool" where
  "is_digit c \<longleftrightarrow> is_ascii_digit c \<or> (of_char c :: int) \<in> {178, 179, 185}"

definition is_alpha :: "char \<Rightarrow> bool" where
  "is_alpha c \<longleftrightarrow> is_ascii_letter c \<or>
     (let n = (of_char c :: int) in n \<in> {170, 181, 186} \<or> 192 \<le> n \<and> n \<noteq> 215 \<and> n \<noteq> 247)"

definition is_alnum :: "char \<Rightarrow> bool" where
  "is_alnum c \<longleftrightarrow> is_alpha c \<or> is_digit c \<or> (of_char c :: int) \<in> {188, 189, 190}"

definition is_linebreak :: "char \<Rightarrow> bool" where
  "is_linebreak c = (let n = (of_char c :: int) in 10 \<le> n \<and> n \<le> 13 \<or> 28 \<le> n \<and> n \<le> 30 \<or> n = 133)"

abbreviation LF :: char where "LF \<equiv> CHR 0x0A"
abbreviation CR :: char where "CR \<equiv> CHR 0x0D"

definition lower_char :: "char \<Rightarrow> char" where
  "lower_char c = (let n = (of_char c :: int) in
     if 65 \<le> n \<and> n \<le> 90 \<or> 192 \<le> n \<and> n \<le> 222 \<and> n \<noteq> 215 then char_of (n + 32) else c)"

definition upper_char :: "char \<Rightarrow> char" where
  "upper_char c = (let n = (of_char c :: int) in
     if 97 \<le> n \<and> n \<le> 122 \<or> 224 \<le> n \<and> n \<le> 254 \<and> n \<noteq> 247 then char_of (n - 32) else c)"

definition lower :: "string \<Rightarrow> string" where
  "lower s = map lower_char s"

definition upper :: "string \<Rightarrow> string" where
  "upper s = map upper_char s"

text \<open>\<open>str.casefold\<close>: lower case, with the sharp s folded to \<open>ss\<close>.\<close>

definition casefold :: "string \<Rightarrow> string" where
  "casefold s = concat (map (\<lambda>c. if (of_char c :: int) = 223 then ''ss'' else [lower_char c]) s)"

section \<open>Stripping\<close>

definition lstrip_of :: "(char \<Rightarrow> bool) \<Rightarrow> string \<Rightarrow> string" where
  "lstrip_of P s = dropWhile P s"

definition rstrip_of :: "(char \<Rightarrow> bool) \<Rightarrow> string \<Rightarrow> string" where
  "rstrip_of P s = rev (dropWhile P (rev s))"

definition strip_of :: "(char \<Rightarrow> bool) \<Rightarrow> string \<Rightarrow> string" where
  "strip_of P s = rstrip_of P (lstrip_of P s)"

definition strip :: "string \<Rightarrow> string" where
  "strip s = strip_of is_space s"

lemma lstrip_of_idem [simp]: "lstrip_of P (lstrip_of P s) = lstrip_of P s"
  by (simp add: lstrip_of_def)

lemma rstrip_of_idem [simp]: "rstrip_of P (rstrip_of P s) = rstrip_of P s"
  by (simp add: rstrip_of_def)

lemma lstrip_of_hd: "s = [] \<or> \<not> P (hd s) \<Longrightarrow> lstrip_of P s = s"
  by (cases s) (auto simp: lstrip_of_def)

lemma rstrip_of_last: "s = [] \<or> \<not> P (last s) \<Longrightarrow> rstrip_of P s = s"
  by (cases s rule: rev_cases) (auto simp: rstrip_of_def)

lemma hd_lstrip_of: "lstrip_of P s \<noteq> [] \<Longrightarrow> \<not> P (hd (lstrip_of P s))"
  by (simp add: lstrip_of_def hd_dropWhile)

lemma last_rstrip_of: "rstrip_of P s \<noteq> [] \<Longrightarrow> \<not> P (last (rstrip_of P s))"
  by (simp add: rstrip_of_def last_rev hd_dropWhile)

lemma rstrip_of_prefix: "prefix (rstrip_of P s) s"
proof -
  have "s = rev (dropWhile P (rev s)) @ rev (takeWhile P (rev s))"
    by (metis rev_append rev_rev_ident takeWhile_dropWhile_id)
  then show ?thesis
    unfolding rstrip_of_def by (metis prefixI)
qed

lemma hd_rstrip_of: "rstrip_of P s \<noteq> [] \<Longrightarrow> hd (rstrip_of P s) = hd s"
  using rstrip_of_prefix [of P s] by (metis hd_append2 prefix_def)

lemma strip_of_ends:
  assumes "strip_of P s \<noteq> []"
  shows "\<not> P (hd (strip_of P s))" and "\<not> P (last (strip_of P s))"
proof -
  have "lstrip_of P s \<noteq> []"
    using assms by (auto simp: strip_of_def rstrip_of_def)
  then show "\<not> P (hd (strip_of P s))"
    using assms by (metis hd_lstrip_of hd_rstrip_of strip_of_def)
  show "\<not> P (last (strip_of P s))"
    using assms by (metis last_rstrip_of strip_of_def)
qed

lemma strip_of_id: "s = [] \<or> \<not> P (hd s) \<and> \<not> P (last s) \<Longrightarrow> strip_of P s = s"
  by (auto simp: strip_of_def lstrip_of_hd rstrip_of_last)

lemma strip_of_idem [simp]: "strip_of P (strip_of P s) = strip_of P s"
  by (metis strip_of_ends strip_of_id)

lemma strip_idem [simp]: "strip (strip s) = strip s"
  by (simp add: strip_def)

lemma strip_Nil [simp]: "strip [] = []"
  by (simp add: strip_def strip_of_id)

lemma set_lstrip_of: "set (lstrip_of P s) \<subseteq> set s"
  by (auto simp: lstrip_of_def dest: set_dropWhileD)

lemma set_rstrip_of: "set (rstrip_of P s) \<subseteq> set s"
  by (auto simp: rstrip_of_def dest: set_dropWhileD)

lemma set_strip: "set (strip s) \<subseteq> set s"
  using set_lstrip_of set_rstrip_of unfolding strip_def strip_of_def by blast

lemma rstrip_of_ConsE: "\<not> P c \<Longrightarrow> rstrip_of P (c # s) = c # rstrip_of P s"
  by (simp add: rstrip_of_def dropWhile_append)

text \<open>Text without white space is its own \<open>strip\<close>.\<close>

definition no_space :: "string \<Rightarrow> bool" where
  "no_space s = list_all (\<lambda>c. \<not> is_space c) s"

lemma no_space_strip: "no_space s \<Longrightarrow> strip s = s"
  unfolding strip_def no_space_def
  by (rule strip_of_id) (metis list.set_sel(1) list_all_iff last_in_set)

lemma no_space_simps [simp]:
  "no_space []"
  "no_space (c # s) \<longleftrightarrow> \<not> is_space c \<and> no_space s"
  "no_space (s @ t) \<longleftrightarrow> no_space s \<and> no_space t"
  by (simp_all add: no_space_def)

section \<open>Searching, splitting and joining\<close>

abbreviation startswith :: "string \<Rightarrow> string \<Rightarrow> bool" where
  "startswith s p \<equiv> prefix p s"

abbreviation endswith :: "string \<Rightarrow> string \<Rightarrow> bool" where
  "endswith s p \<equiv> suffix p s"

text \<open>Substring test \<open>needle in hay\<close>.\<close>

fun contains :: "string \<Rightarrow> string \<Rightarrow> bool" where
  "contains needle [] = (needle = [])"
| "contains needle (c # cs) = (prefix needle (c # cs) \<or> contains needle cs)"

lemma contains_prefix: "prefix needle s \<Longrightarrow> contains needle s"
  by (cases s) auto

lemma contains_iff: "contains needle hay \<longleftrightarrow> (\<exists>a b. hay = a @ needle @ b)"
proof (induction hay)
  case Nil
  then show ?case by auto
next
  case (Cons c cs)
  show ?case
  proof
    assume "contains needle (c # cs)"
    then show "\<exists>a b. c # cs = a @ needle @ b"
      using Cons by (metis append_Cons append_Nil contains.simps(2) prefixE)
  next
    assume "\<exists>a b. c # cs = a @ needle @ b"
    then obtain a b where "c # cs = a @ needle @ b" by blast
    then show "contains needle (c # cs)"
      using Cons contains_prefix [of needle "c # cs"] by (cases a) (auto simp: prefix_def)
  qed
qed

text \<open>\<open>s.split(sep, 1)\<close> and \<open>s.partition(sep)\<close>: the text around the first occurrence.\<close>

fun split_first :: "string \<Rightarrow> string \<Rightarrow> (string \<times> string) option" where
  "split_first sep [] = (if sep = [] then Some ([], []) else None)"
| "split_first sep (c # cs) =
     (if prefix sep (c # cs) then Some ([], drop (length sep) (c # cs))
      else map_option (\<lambda>(a, b). (c # a, b)) (split_first sep cs))"

definition before_first :: "string \<Rightarrow> string \<Rightarrow> string" where
  "before_first sep s = (case split_first sep s of None \<Rightarrow> s | Some (a, _) \<Rightarrow> a)"

lemma split_first_Some: "split_first sep s = Some (a, b) \<Longrightarrow> s = a @ sep @ b"
proof (induction s arbitrary: a)
  case Nil
  then show ?case by (auto split: if_splits)
next
  case (Cons c cs)
  then show ?case
    by (auto split: if_splits) (metis append_eq_conv_conj prefixE)
qed

lemma split_first_None: "split_first sep s = None \<longleftrightarrow> \<not> contains sep s"
  by (induction s) auto

lemma split_first_single_app:
  "c \<notin> set a \<Longrightarrow> split_first [c] (a @ c # b) = Some (a, b)"
  by (induction a) auto

lemma split_first_single_None [simp]: "split_first [c] s = None \<longleftrightarrow> c \<notin> set s"
  by (induction s) (auto simp: prefix_Cons)

text \<open>\<open>s.split(c)\<close> for a one-character separator.\<close>

fun split_chr :: "char \<Rightarrow> string \<Rightarrow> string list" where
  "split_chr sep [] = [[]]"
| "split_chr sep (c # cs) =
     (if c = sep then [] # split_chr sep cs
      else (case split_chr sep cs of [] \<Rightarrow> [[c]] | l # ls \<Rightarrow> (c # l) # ls))"

lemma split_chr_not_Nil [simp]: "split_chr c s \<noteq> []"
  by (induction s) (auto split: list.splits)

lemma split_chr_free: "l \<in> set (split_chr c s) \<Longrightarrow> c \<notin> set l"
  by (induction s arbitrary: l) (auto split: list.splits if_splits)

lemma split_chr_notin: "c \<notin> set s \<Longrightarrow> split_chr c s = [s]"
  by (induction s) auto

lemma split_chr_app: "c \<notin> set a \<Longrightarrow> split_chr c (a @ c # b) = a # split_chr c b"
  by (induction a) auto

fun join :: "string \<Rightarrow> string list \<Rightarrow> string" where
  "join sep [] = []"
| "join sep [x] = x"
| "join sep (x # y # ys) = x @ sep @ join sep (y # ys)"

lemma join_Cons: "ys \<noteq> [] \<Longrightarrow> join sep (x # ys) = x @ sep @ join sep ys"
  by (cases ys) auto

lemma join_Cons_char: "join sep ((c # x) # ys) = c # join sep (x # ys)"
  by (cases ys) auto

lemma join_split_chr: "join [c] (split_chr c s) = s"
  by (induction s) (auto simp: join_Cons join_Cons_char split: list.splits)

text \<open>\<open>s.replace(old, new, 1)\<close> and \<open>s.replace(old, new)\<close> for a one-character \<open>old\<close>.\<close>

definition replace_once :: "string \<Rightarrow> string \<Rightarrow> string \<Rightarrow> string" where
  "replace_once old new s =
     (case split_first old s of None \<Rightarrow> s | Some (a, b) \<Rightarrow> a @ new @ b)"

definition replace_chr :: "char \<Rightarrow> string \<Rightarrow> string \<Rightarrow> string" where
  "replace_chr old new s = concat (map (\<lambda>c. if c = old then new else [c]) s)"

section \<open>Lines\<close>

text \<open>\<open>s.splitlines(keepends=True)\<close> and \<open>s.splitlines()\<close>.\<close>

fun splitlines_keep :: "string \<Rightarrow> string list" where
  "splitlines_keep [] = []"
| "splitlines_keep (c # cs) =
     (if is_linebreak c \<and> \<not> (c = CR \<and> prefix [LF] cs) then [c] # splitlines_keep cs
      else (case splitlines_keep cs of [] \<Rightarrow> [[c]] | l # ls \<Rightarrow> (c # l) # ls))"

definition drop_linebreak :: "string \<Rightarrow> string" where
  "drop_linebreak l =
     (if suffix [CR, LF] l then take (length l - 2) l
      else if l \<noteq> [] \<and> is_linebreak (last l) then butlast l else l)"

definition splitlines :: "string \<Rightarrow> string list" where
  "splitlines s = map drop_linebreak (splitlines_keep s)"

lemma concat_splitlines_keep [simp]: "concat (splitlines_keep s) = s"
  by (induction s) (auto split: list.splits)

lemma splitlines_keep_nonempty: "l \<in> set (splitlines_keep s) \<Longrightarrow> l \<noteq> []"
  by (induction s arbitrary: l) (auto split: list.splits if_splits)

lemma splitlines_keep_Nil_iff [simp]: "splitlines_keep s = [] \<longleftrightarrow> s = []"
  by (metis concat.simps(1) concat_splitlines_keep splitlines_keep.simps(1))

text \<open>Text mode reads translate every \<open>CR LF\<close> and every \<open>CR\<close> to \<open>LF\<close>.\<close>

fun universal_newlines :: "string \<Rightarrow> string" where
  "universal_newlines [] = []"
| "universal_newlines (c # cs) =
     (if c = CR then LF # universal_newlines (if prefix [LF] cs then tl cs else cs)
      else c # universal_newlines cs)"

section \<open>Numbers\<close>

definition digit_char :: "nat \<Rightarrow> char" where
  "digit_char n = char_of (48 + n)"

fun nat_str :: "nat \<Rightarrow> string" where
  "nat_str n = (if n < 10 then [digit_char n] else nat_str (n div 10) @ [digit_char (n mod 10)])"

declare nat_str.simps [simp del]

definition int_str :: "int \<Rightarrow> string" where
  "int_str i = (if i < 0 then CHR ''-'' # nat_str (nat (- i)) else nat_str (nat i))"

text \<open>\<open>int(s)\<close> on text that \<open>isdigit\<close> accepted: the value, or \<open>ValueError\<close> on a superscript digit.\<close>

definition digits_value :: "string \<Rightarrow> int option" where
  "digits_value s =
     (if s \<noteq> [] \<and> list_all is_ascii_digit s
      then Some (foldl (\<lambda>n c. 10 * n + (of_char c - 48)) 0 s) else None)"

definition py_isdigit :: "string \<Rightarrow> bool" where
  "py_isdigit s \<longleftrightarrow> s \<noteq> [] \<and> list_all is_digit s"

section \<open>Collapsing runs\<close>

text \<open>\<open>re.sub("[class]+", "d", s)\<close>: a maximal run of characters of the class becomes one character.\<close>

function sub_runs :: "(char \<Rightarrow> bool) \<Rightarrow> char \<Rightarrow> string \<Rightarrow> string" where
  "sub_runs P d [] = []"
| "sub_runs P d (c # cs) =
     (if P c then d # sub_runs P d (dropWhile P cs) else c # sub_runs P d cs)"
  by pat_completeness auto
termination by (relation "measure (\<lambda>(P, d, s). length s)") (auto simp: le_imp_less_Suc length_dropWhile_le)

lemma sub_runs_chars: "(\<And>c. \<not> P c \<Longrightarrow> Q c) \<Longrightarrow> Q d \<Longrightarrow> list_all Q (sub_runs P d s)"
  by (induction P d s rule: sub_runs.induct) simp_all

text \<open>A property of all characters, checked on the enumeration.\<close>

lemma all_chars: "enum_class.enum_all P \<Longrightarrow> P (c :: char)"
  by (simp add: enum_class.enum_all_UNIV)

end
