(* ===== verification/Py_Regex.thy ===== *)
theory Py_Regex
  imports Py_Text
begin

text \<open>
  The fragment of Python's \<open>re\<close> the program's patterns use: character classes, sequence, ordered
  alternative, greedy repetition, bounded repetition and named groups.
  \<open>ways r s\<close> lists every way \<open>r\<close> matches a prefix of \<open>s\<close> in the order the backtracking engine tries
  them, each with the text consumed, the groups captured and the text left; \<open>match\<close> takes the first,
  \<open>fullmatch\<close> the first that leaves nothing.  The patterns of the program are written as terms of
  \<open>rx\<close> beside the code that uses them.  A repetition stops when its body consumes nothing.
\<close>

datatype rx =
    Eps
  | Cls "char \<Rightarrow> bool"
  | Seq rx rx
  | Alt rx rx
  | Star rx
  | Grp string rx

type_synonym groups = "(string \<times> string) list"
datatype way = Way (way_text: string) (way_groups: groups) (way_rest: string)

definition way_then :: "way \<Rightarrow> way \<Rightarrow> way" where
  "way_then w v = Way (way_text w @ way_text v) (way_groups w @ way_groups v) (way_rest v)"

lemma way_then_simps [simp]:
  "way_text (way_then w v) = way_text w @ way_text v"
  "way_groups (way_then w v) = way_groups w @ way_groups v"
  "way_rest (way_then w v) = way_rest v"
  by (simp_all add: way_then_def)

lemma way_then_empty [simp]: "way_then (Way [] [] s) v = v"
  by (simp add: way_then_def)

function ways :: "rx \<Rightarrow> string \<Rightarrow> way list" where
  "ways Eps s = [Way [] [] s]"
| "ways (Cls P) s = (case s of [] \<Rightarrow> [] | c # cs \<Rightarrow> if P c then [Way [c] [] cs] else [])"
| "ways (Seq r1 r2) s =
     concat (map (\<lambda>w. map (way_then w) (ways r2 (way_rest w))) (ways r1 s))"
| "ways (Alt r1 r2) s = ways r1 s @ ways r2 s"
| "ways (Star r) s =
     concat (map (\<lambda>w. if length (way_rest w) < length s
                       then map (way_then w) (ways (Star r) (way_rest w)) else []) (ways r s))
     @ [Way [] [] s]"
| "ways (Grp n r) s =
     map (\<lambda>w. Way (way_text w) ((n, way_text w) # way_groups w) (way_rest w)) (ways r s)"
  by pat_completeness auto
termination
  by (relation "measures [\<lambda>(r, s). size r, \<lambda>(r, s). length s]") auto

declare ways.simps(5) [simp del]

section \<open>Derived forms\<close>

definition Opt :: "rx \<Rightarrow> rx" where "Opt r = Alt r Eps"
definition Plus :: "rx \<Rightarrow> rx" where "Plus r = Seq r (Star r)"

fun Rep :: "nat \<Rightarrow> rx \<Rightarrow> rx" where
  "Rep 0 r = Eps"
| "Rep (Suc n) r = Seq r (Rep n r)"

fun Lit :: "string \<Rightarrow> rx" where
  "Lit [] = Eps"
| "Lit (c # cs) = Seq (Cls (\<lambda>d. d = c)) (Lit cs)"

fun Seqs :: "rx list \<Rightarrow> rx" where
  "Seqs [] = Eps"
| "Seqs [r] = r"
| "Seqs (r # q # rs) = Seq r (Seqs (q # rs))"

fun Alts :: "rx list \<Rightarrow> rx" where
  "Alts [] = Eps"
| "Alts [r] = r"
| "Alts (r # q # rs) = Alt r (Alts (q # rs))"

definition rx_match :: "rx \<Rightarrow> string \<Rightarrow> way option" where
  "rx_match r s = (case ways r s of [] \<Rightarrow> None | w # _ \<Rightarrow> Some w)"

definition rx_fullmatch :: "rx \<Rightarrow> string \<Rightarrow> way option" where
  "rx_fullmatch r s = List.find (\<lambda>w. way_rest w = []) (ways r s)"

definition fullmatches :: "rx \<Rightarrow> string \<Rightarrow> bool" where
  "fullmatches r s \<longleftrightarrow> rx_fullmatch r s \<noteq> None"

definition rx_group :: "string \<Rightarrow> way \<Rightarrow> string option" where
  "rx_group n w = map_of (way_groups w) n"

section \<open>The language of a pattern\<close>

fun lang :: "rx \<Rightarrow> string set" where
  "lang Eps = {[]}"
| "lang (Cls P) = {[c] | c. P c}"
| "lang (Seq r1 r2) = {u @ v | u v. u \<in> lang r1 \<and> v \<in> lang r2}"
| "lang (Alt r1 r2) = lang r1 \<union> lang r2"
| "lang (Star r) = {concat us | us. set us \<subseteq> lang r}"
| "lang (Grp n r) = lang r"

lemma lang_Star_Cons: "u \<in> lang r \<Longrightarrow> v \<in> lang (Star r) \<Longrightarrow> u @ v \<in> lang (Star r)"
proof -
  assume u: "u \<in> lang r" and "v \<in> lang (Star r)"
  then obtain us where "v = concat us" and "set us \<subseteq> lang r" by auto
  with u have "u @ v = concat (u # us)" and "set (u # us) \<subseteq> lang r" by auto
  then show ?thesis by (metis (mono_tags, lifting) lang.simps(5) mem_Collect_eq)
qed

text \<open>Every way splits the text, and what it consumed is in the language.\<close>

lemma ways_sound:
  "w \<in> set (ways r s) \<Longrightarrow> s = way_text w @ way_rest w \<and> way_text w \<in> lang r"
proof (induction r s arbitrary: w rule: ways.induct)
  case (2 P s)
  then show ?case by (cases s) (auto split: if_splits)
next
  case (3 r1 r2 s)
  then obtain v u where v: "v \<in> set (ways r1 s)" and u: "u \<in> set (ways r2 (way_rest v))"
    and w: "w = way_then v u" by auto
  have "s = way_text v @ way_rest v" "way_text v \<in> lang r1" using "3.IH"(1) [OF v] by auto
  moreover have "way_rest v = way_text u @ way_rest u" "way_text u \<in> lang r2"
    using "3.IH"(2) [OF v u] by auto
  ultimately show ?case by (auto simp: w)
next
  case (4 r1 r2 s)
  then show ?case by auto
next
  case (5 r s)
  show ?case
  proof (cases "w = Way [] [] s")
    case True
    then show ?thesis by (auto intro: exI [of _ "[]"])
  next
    case False
    with "5.prems" obtain v u where v: "v \<in> set (ways r s)" and len: "length (way_rest v) < length s"
      and u: "u \<in> set (ways (Star r) (way_rest v))" and w: "w = way_then v u"
      by (auto simp: ways.simps(5) [of r s] split: if_splits)
    have *: "s = way_text v @ way_rest v" "way_text v \<in> lang r" using "5.IH"(1) [OF v] by auto
    have **: "way_rest v = way_text u @ way_rest u" "way_text u \<in> lang (Star r)"
      using "5.IH"(2) [OF v len u] by auto
    show ?thesis
      using * ** lang_Star_Cons [of "way_text v" r "way_text u"] by (simp only: w way_then_simps) simp
  qed
next
  case (6 n r s)
  then obtain v where "v \<in> set (ways r s)" and "way_text w = way_text v" "way_rest w = way_rest v"
    by auto
  with "6.IH" show ?case by auto
qed simp

lemma ways_empty_star [simp]: "ways (Star r) [] = [Way [] [] []]"
  by (simp add: ways.simps(5) [of r "[]"])

text \<open>Every word of the language followed by any text is found.\<close>

lemma ways_complete:
  "m \<in> lang r \<Longrightarrow> \<exists>w \<in> set (ways r (m @ t)). way_text w = m \<and> way_rest w = t"
proof (induction r arbitrary: m t)
  case (Seq r1 r2)
  then obtain u v where m: "m = u @ v" and "u \<in> lang r1" and v: "v \<in> lang r2" by auto
  then obtain w where w: "w \<in> set (ways r1 (u @ v @ t))" "way_text w = u" "way_rest w = v @ t"
    using Seq.IH(1) by blast
  obtain w' where "w' \<in> set (ways r2 (v @ t))" "way_text w' = v" "way_rest w' = t"
    using Seq.IH(2) [OF v] by blast
  with w have "way_then w w' \<in> set (ways (Seq r1 r2) (m @ t))" using \<open>w' \<in> set (ways r2 (v @ t))\<close>
    by (auto simp: m intro!: bexI [of _ w])
  then show ?case
    using w \<open>way_text w' = v\<close> \<open>way_rest w' = t\<close> by (intro bexI) (auto simp: m)
next
  case (Star r)
  then obtain us where m: "m = concat us" and us: "set us \<subseteq> lang r" by auto
  have "\<exists>w \<in> set (ways (Star r) (concat us @ t)). way_text w = concat us \<and> way_rest w = t"
    using us
  proof (induction us)
    case Nil
    then show ?case by (simp add: ways.simps(5) [of r t])
  next
    case (Cons u us)
    show ?case
    proof (cases "u = []")
      case True
      with Cons show ?thesis by simp
    next
      case False
      obtain w where w: "w \<in> set (ways r (u @ concat us @ t))" "way_text w = u"
        "way_rest w = concat us @ t"
        using Star.IH Cons.prems by (metis insert_subset list.simps(15))
      obtain w' where w': "w' \<in> set (ways (Star r) (concat us @ t))" "way_text w' = concat us"
        "way_rest w' = t"
        using Cons by auto
      have "way_then w w' \<in> set (ways (Star r) (u @ concat us @ t))"
        using w w' False by (auto simp: ways.simps(5) [of r "u @ concat us @ t"] intro!: bexI [of _ w])
      then show ?thesis
        using w w' by (intro bexI) auto
    qed
  qed
  then show ?case by (simp add: m)
next
  case (Grp n r)
  then obtain w where "w \<in> set (ways r (m @ t))" "way_text w = m" "way_rest w = t"
    by fastforce
  then show ?case by auto
qed (fastforce)+

theorem fullmatches_lang: "fullmatches r s \<longleftrightarrow> s \<in> lang r"
proof
  assume "fullmatches r s"
  then obtain w where "rx_fullmatch r s = Some w" by (auto simp: fullmatches_def)
  then have "w \<in> set (ways r s)" and "way_rest w = []"
    by (auto simp: rx_fullmatch_def find_Some_iff)
  with ways_sound [of w r s] show "s \<in> lang r" by auto
next
  assume "s \<in> lang r"
  with ways_complete [of s r "[]"] obtain w where "w \<in> set (ways r s)" "way_rest w = []" by auto
  then show "fullmatches r s"
    unfolding fullmatches_def rx_fullmatch_def find_None_iff by blast
qed

lemma rx_match_some: "rx_match r s = Some w \<Longrightarrow> w \<in> set (ways r s)"
  by (auto simp: rx_match_def split: list.splits)

lemma rx_match_prefix: "rx_match r s = Some w \<Longrightarrow> prefix (way_text w) s"
  using ways_sound rx_match_some by (metis prefixI)

lemma rx_match_splits: "rx_match r s = Some w \<Longrightarrow> s = way_text w @ way_rest w \<and> way_text w \<in> lang r"
  by (rule ways_sound) (rule rx_match_some)

lemma rx_match_None: "rx_match r s = None \<longleftrightarrow> (\<forall>m t. s = m @ t \<longrightarrow> m \<notin> lang r)"
proof -
  have "rx_match r s = None \<longleftrightarrow> ways r s = []" by (simp add: rx_match_def split: list.splits)
  also have "\<dots> \<longleftrightarrow> (\<forall>m t. s = m @ t \<longrightarrow> m \<notin> lang r)"
  proof (intro iffI allI impI notI)
    fix m t assume "ways r s = []" "s = m @ t" "m \<in> lang r"
    with ways_complete [of m r t] show False by auto
  next
    assume "\<forall>m t. s = m @ t \<longrightarrow> m \<notin> lang r"
    then have "w \<notin> set (ways r s)" for w using ways_sound [of w r s] by blast
    then show "ways r s = []" by (cases "ways r s") auto
  qed
  finally show ?thesis .
qed

text \<open>\<open>finditer\<close>: the matches from left to right, each beginning where the last one ended.\<close>

function rx_finditer :: "rx \<Rightarrow> string \<Rightarrow> way list" where
  "rx_finditer r s =
     (case rx_match r s of
        None \<Rightarrow> (if s = [] then [] else rx_finditer r (tl s))
      | Some w \<Rightarrow>
          if way_text w \<noteq> [] then w # rx_finditer r (way_rest w)
          else w # (if s = [] then [] else rx_finditer r (tl s)))"
  by pat_completeness auto
termination
proof (relation "measure (\<lambda>(r, s). length s)")
  fix r s w
  assume "rx_match r s = Some w" and "way_text w \<noteq> []"
  then show "((r, way_rest w), r, s) \<in> measure (\<lambda>(r, s). length s)"
    using rx_match_splits [of r s w] by (auto dest!: arg_cong [of s _ length])
qed auto

declare rx_finditer.simps [simp del]

section \<open>Literals, classes and groups\<close>

lemma ways_Lit: "set (ways (Lit u) s) = (if prefix u s then {Way u [] (drop (length u) s)} else {})"
proof (induction u arbitrary: s)
  case Nil
  then show ?case by simp
next
  case (Cons c u)
  then show ?case by (cases s) (auto simp: way_then_def)
qed

lemma lang_Lit [simp]: "lang (Lit u) = {u}"
  by (induction u) auto

lemma lang_Star_Cls: "u \<in> lang (Star (Cls P)) \<longleftrightarrow> list_all P u"
proof
  assume "u \<in> lang (Star (Cls P))"
  then obtain us where "u = concat us" and us: "set us \<subseteq> lang (Cls P)" by auto
  moreover have "list_all P (concat us)"
    using us by (induction us) auto
  ultimately show "list_all P u" by simp
next
  assume "list_all P u"
  then show "u \<in> lang (Star (Cls P))"
  proof (induction u)
    case Nil
    then show ?case by (auto intro: exI [of _ "[]"])
  next
    case (Cons c u)
    then have "[c] \<in> lang (Cls P)" and "u \<in> lang (Star (Cls P))" by auto
    then show ?case using lang_Star_Cons [of "[c]" "Cls P" u] by simp
  qed
qed

lemma lang_Plus_Cls: "u \<in> lang (Plus (Cls P)) \<longleftrightarrow> u \<noteq> [] \<and> list_all P u"
proof -
  have "u \<in> lang (Plus (Cls P)) \<longleftrightarrow> (\<exists>c v. u = c # v \<and> P c \<and> v \<in> lang (Star (Cls P)))"
    by (auto simp: Plus_def simp del: lang.simps(5)) (metis append_Cons append_Nil)
  then show ?thesis unfolding lang_Star_Cls by (cases u) auto
qed

fun group_free :: "rx \<Rightarrow> bool" where
  "group_free (Grp n r) = False"
| "group_free (Seq r q) = (group_free r \<and> group_free q)"
| "group_free (Alt r q) = (group_free r \<and> group_free q)"
| "group_free (Star r) = group_free r"
| "group_free _ = True"

lemma group_free_ways: "group_free r \<Longrightarrow> w \<in> set (ways r s) \<Longrightarrow> way_groups w = []"
proof (induction r s arbitrary: w rule: ways.induct)
  case (2 P s)
  then show ?case by (cases s) (auto split: if_splits)
next
  case (3 r1 r2 s)
  then obtain v u where v: "v \<in> set (ways r1 s)" and u: "u \<in> set (ways r2 (way_rest v))"
    and w: "w = way_then v u" by auto
  have "way_groups v = []" using "3.IH"(1) v "3.prems"(1) by simp
  moreover have "way_groups u = []" using "3.IH"(2) [OF v] u "3.prems"(1) by simp
  ultimately show ?case by (simp add: w)
next
  case (4 r1 r2 s)
  then show ?case by auto
next
  case (5 r s)
  show ?case
  proof (cases "w = Way [] [] s")
    case True
    then show ?thesis by simp
  next
    case False
    with "5.prems" obtain v u where v: "v \<in> set (ways r s)" and len: "length (way_rest v) < length s"
      and u: "u \<in> set (ways (Star r) (way_rest v))" and w: "w = way_then v u"
      by (auto simp: ways.simps(5) [of r s] split: if_splits)
    have "way_groups v = []" using "5.IH"(1) v "5.prems"(1) by simp
    moreover have "way_groups u = []" using "5.IH"(2) [OF v len] u "5.prems"(1) by simp
    ultimately show ?thesis by (simp add: w)
  qed
qed auto

section \<open>Greedy repetition of a class\<close>

text \<open>A repeated class takes the longest run first and gives it back one character at a time.\<close>

lemma ways_Star_Cls:
  "ways (Star (Cls P)) s =
   map (\<lambda>k. Way (take k s) [] (drop k s)) (rev [0..<Suc (length (takeWhile P s))])"
proof (induction s)
  case Nil
  then show ?case by simp
next
  case (Cons c s)
  show ?case
  proof (cases "P c")
    case False
    then show ?thesis by (simp add: ways.simps(5) [of "Cls P" "c # s"])
  next
    case True
    let ?n = "length (takeWhile P s)"
    have up: "rev [0..<Suc (Suc ?n)] = map Suc (rev [0..<Suc ?n]) @ [0]"
      by (simp add: map_Suc_upt rev_map [symmetric] upt_conv_Cons del: upt_Suc)
    have "ways (Star (Cls P)) (c # s) = map (way_then (Way [c] [] s)) (ways (Star (Cls P)) s) @ [Way [] [] (c # s)]"
      using True by (simp add: ways.simps(5) [of "Cls P" "c # s"])
    also have "\<dots> = map (\<lambda>k. Way (take k (c # s)) [] (drop k (c # s))) (map Suc (rev [0..<Suc ?n]) @ [0])"
      unfolding Cons.IH by (simp add: way_then_def)
    finally show ?thesis using True up by simp
  qed
qed

text \<open>
  When what follows cannot begin with a character of the class, only the longest run can succeed: the
  repetition is deterministic.
\<close>

lemma ways_Star_Cls_Seq:
  assumes "\<And>c t. P c \<Longrightarrow> ways r (c # t) = []"
  shows "ways (Seq (Star (Cls P)) r) s =
    map (\<lambda>w. Way (takeWhile P s @ way_text w) (way_groups w) (way_rest w)) (ways r (dropWhile P s))"
proof -
  let ?n = "length (takeWhile P s)"
  have short: "ways r (drop k s) = []" if "k < ?n" for k
  proof -
    have k: "k < length s" using that length_takeWhile_le [of P s] by linarith
    have "s ! k = takeWhile P s ! k" using that by (simp add: takeWhile_nth)
    then have "P (s ! k)" using that nth_mem set_takeWhileD by metis
    then show ?thesis using assms k by (metis Cons_nth_drop_Suc)
  qed
  have gone: "concat (map (\<lambda>k. map (way_then (Way (take k s) [] (drop k s))) (ways r (drop k s))) (rev [0..<?n])) = []"
    by (simp add: short)
  have "take ?n s = takeWhile P s" "drop ?n s = dropWhile P s"
    by (metis takeWhile_eq_take, metis dropWhile_eq_drop)
  then show ?thesis
    by (simp add: ways_Star_Cls o_def gone) (simp add: way_then_def)
qed

text \<open>The first way of a sequence is made of first ways, when those fit together.\<close>

lemma ways_Star_Cls_first: "\<exists>ws. ways (Star (Cls P)) s = Way (takeWhile P s) [] (dropWhile P s) # ws"
proof -
  have "take (length (takeWhile P s)) s = takeWhile P s" "drop (length (takeWhile P s)) s = dropWhile P s"
    by (metis takeWhile_eq_take, metis dropWhile_eq_drop)
  then show ?thesis by (simp add: ways_Star_Cls)
qed

lemma rx_match_Seq_first:
  assumes "ways r1 s = w # ws" and "rx_match r2 (way_rest w) = Some u"
  shows "rx_match (Seq r1 r2) s = Some (way_then w u)"
  using assms by (auto simp: rx_match_def split: list.splits)

lemma rx_match_Seq_only:
  assumes "ways r1 s = [w]"
  shows "rx_match (Seq r1 r2) s = map_option (way_then w) (rx_match r2 (way_rest w))"
  using assms by (auto simp: rx_match_def split: list.splits)

lemma rx_match_Star_Cls: "rx_match (Star (Cls P)) s = Some (Way (takeWhile P s) [] (dropWhile P s))"
  using ways_Star_Cls_first [of P s] by (auto simp: rx_match_def)

lemma rx_match_Grp:
  "rx_match (Grp n r) s =
   map_option (\<lambda>w. Way (way_text w) ((n, way_text w) # way_groups w) (way_rest w)) (rx_match r s)"
  by (auto simp: rx_match_def split: list.splits)

lemma rx_match_Seq_Star:
  assumes "\<And>c t. P c \<Longrightarrow> ways r (c # t) = []"
  shows "rx_match (Seq (Star (Cls P)) r) s =
    map_option (\<lambda>w. Way (takeWhile P s @ way_text w) (way_groups w) (way_rest w)) (rx_match r (dropWhile P s))"
  using ways_Star_Cls_Seq [OF assms, of P s] by (auto simp: rx_match_def split: list.splits)

lemma ways_Lit_Cons: "ways (Lit [c]) (d # s) = (if d = c then [Way [c] [] s] else [])"
  by (simp add: way_then_def)

lemma lang_Rep_iff: "u \<in> lang (Rep n (Cls P)) \<longleftrightarrow> length u = n \<and> list_all P u"
proof (induction n arbitrary: u)
  case (Suc n)
  have step: "u \<in> lang (Rep (Suc n) (Cls P)) \<longleftrightarrow> (\<exists>c v. u = c # v \<and> P c \<and> v \<in> lang (Rep n (Cls P)))"
  proof
    assume "u \<in> lang (Rep (Suc n) (Cls P))"
    then obtain c v where "u = [c] @ v" "P c" "v \<in> lang (Rep n (Cls P))"
      unfolding Rep.simps lang.simps(2,3) by blast
    then have "u = c # v" "P c" "v \<in> lang (Rep n (Cls P))" by simp_all
    then show "\<exists>c v. u = c # v \<and> P c \<and> v \<in> lang (Rep n (Cls P))" by blast
  next
    assume "\<exists>c v. u = c # v \<and> P c \<and> v \<in> lang (Rep n (Cls P))"
    then obtain c v where "u = c # v" "P c" "v \<in> lang (Rep n (Cls P))" by blast
    then have "u = [c] @ v" "P c" "v \<in> lang (Rep n (Cls P))" by simp_all
    then show "u \<in> lang (Rep (Suc n) (Cls P))" unfolding Rep.simps lang.simps(2,3) by blast
  qed
  show ?case unfolding step Suc.IH by (cases u) auto
qed auto

end
