(* ===== verification/Py_Url.thy ===== *)
theory Py_Url
  imports Py_Text
begin

text \<open>
  \<open>urllib.parse\<close> as the program uses it: \<open>urlsplit\<close> with the \<open>hostname\<close> and \<open>port\<close> of its result,
  \<open>urlparse\<close> (which also splits the parameters of the last path segment) and \<open>quote\<close> with no safe
  characters.  \<open>None\<close> is the \<open>ValueError\<close> of an unusable URL.  Authorities with square brackets (IPv6
  literals) are refused, and the Unicode normalisation check of a non-ASCII authority is left out.
\<close>

record split_result =
  su_scheme :: string
  su_netloc :: string
  su_path :: string
  su_query :: string
  su_fragment :: string

definition is_c0_or_space :: "char \<Rightarrow> bool" where
  "is_c0_or_space c \<longleftrightarrow> (of_char c :: int) \<le> 32"

definition is_unsafe_url_char :: "char \<Rightarrow> bool" where
  "is_unsafe_url_char c \<longleftrightarrow> c = CHR 0x09 \<or> c = CR \<or> c = LF"

definition is_scheme_char :: "char \<Rightarrow> bool" where
  "is_scheme_char c \<longleftrightarrow> is_ascii_alnum c \<or> c = CHR ''+'' \<or> c = CHR ''-'' \<or> c = CHR ''.''"

definition url_clean :: "string \<Rightarrow> string" where
  "url_clean url = filter (\<lambda>c. \<not> is_unsafe_url_char c) (lstrip_of is_c0_or_space url)"

definition split_scheme :: "string \<Rightarrow> string \<times> string" where
  "split_scheme url =
     (case split_first '':'' url of
        None \<Rightarrow> ([], url)
      | Some (s, rest) \<Rightarrow>
          if s \<noteq> [] \<and> is_ascii_letter (hd s) \<and> list_all is_scheme_char s then (lower s, rest)
          else ([], url))"

definition netloc_delim :: "char \<Rightarrow> bool" where
  "netloc_delim c \<longleftrightarrow> c = CHR ''/'' \<or> c = CHR ''?'' \<or> c = CHR ''#''"

definition split_netloc :: "string \<Rightarrow> string \<times> string" where
  "split_netloc url =
     (if prefix ''//'' url
      then (takeWhile (\<lambda>c. \<not> netloc_delim c) (drop 2 url),
            dropWhile (\<lambda>c. \<not> netloc_delim c) (drop 2 url))
      else ([], url))"

definition cut_at :: "char \<Rightarrow> string \<Rightarrow> string \<times> string" where
  "cut_at d s = (takeWhile (\<lambda>c. c \<noteq> d) s, tl (dropWhile (\<lambda>c. c \<noteq> d) s))"

definition urlsplit :: "string \<Rightarrow> split_result option" where
  "urlsplit url =
     (let (scheme, rest) = split_scheme (url_clean url);
          (netloc, rest) = split_netloc rest
      in if CHR ''['' \<in> set netloc \<or> CHR '']'' \<in> set netloc then None
         else let (rest, fragment) = cut_at (CHR ''#'') rest;
                  (path, query) = cut_at (CHR ''?'') rest
              in Some \<lparr>su_scheme = scheme, su_netloc = netloc, su_path = path,
                       su_query = query, su_fragment = fragment\<rparr>)"

text \<open>The authority without user information, and its host and port.\<close>

definition hostinfo :: "string \<Rightarrow> string" where
  "hostinfo netloc = rev (takeWhile (\<lambda>c. c \<noteq> CHR ''@'') (rev netloc))"

definition su_hostname :: "split_result \<Rightarrow> string option" where
  "su_hostname u =
     (let host = fst (cut_at (CHR '':'') (hostinfo (su_netloc u)));
          (name, zone) = (takeWhile (\<lambda>c. c \<noteq> CHR ''%'') host, dropWhile (\<lambda>c. c \<noteq> CHR ''%'') host)
      in if host = [] then None else Some (lower name @ zone))"

text \<open>The port: \<open>None\<close> is the \<open>ValueError\<close> of a malformed one, \<open>Some None\<close> no port.\<close>

definition su_port :: "split_result \<Rightarrow> int option option" where
  "su_port u =
     (let port = snd (cut_at (CHR '':'') (hostinfo (su_netloc u)))
      in if port = [] then Some None
         else case digits_value port of
                None \<Rightarrow> None
              | Some n \<Rightarrow> if n \<le> 65535 then Some (Some n) else None)"

text \<open>\<open>urlparse\<close>: the parameters are cut from the last segment of the path.\<close>

definition params_schemes :: "string list" where
  "params_schemes = [[], ''ftp'', ''hdl'', ''prospero'', ''http'', ''https'', ''shttp'', ''rtsp'',
     ''rtsps'', ''sip'', ''sips'', ''mms'', ''sftp'', ''tel'']"

definition split_params :: "string \<Rightarrow> string \<times> string" where
  "split_params path =
     (let last_segment = rev (takeWhile (\<lambda>c. c \<noteq> CHR ''/'') (rev path));
          before = take (length path - length last_segment) path
      in if CHR '';'' \<in> set last_segment
         then (before @ fst (cut_at (CHR '';'') last_segment), snd (cut_at (CHR '';'') last_segment))
         else (path, []))"

definition urlparse :: "string \<Rightarrow> (split_result \<times> string) option" where
  "urlparse url =
     (case urlsplit url of
        None \<Rightarrow> None
      | Some u \<Rightarrow>
          if su_scheme u \<in> set params_schemes
          then let (path, params) = split_params (su_path u) in Some (u\<lparr>su_path := path\<rparr>, params)
          else Some (u, []))"

section \<open>Percent encoding\<close>

definition is_always_safe :: "char \<Rightarrow> bool" where
  "is_always_safe c \<longleftrightarrow> is_ascii_alnum c \<or> c = CHR ''_'' \<or> c = CHR ''.'' \<or> c = CHR ''-'' \<or> c = CHR ''~''"

definition hex_digit :: "int \<Rightarrow> char" where
  "hex_digit n = (if n < 10 then char_of (48 + n) else char_of (55 + n))"

definition percent_byte :: "int \<Rightarrow> string" where
  "percent_byte b = [CHR ''%'', hex_digit (b div 16), hex_digit (b mod 16)]"

text \<open>The UTF-8 bytes of a code point below 256.\<close>

definition utf8_bytes :: "char \<Rightarrow> int list" where
  "utf8_bytes c = (let n = (of_char c :: int) in
     if n < 128 then [n] else [192 + n div 64, 128 + n mod 64])"

definition quote_char :: "char \<Rightarrow> string" where
  "quote_char c = (if is_always_safe c then [c] else concat (map percent_byte (utf8_bytes c)))"

definition quote :: "string \<Rightarrow> string" where
  "quote s = concat (map quote_char s)"

text \<open>Characters \<open>quote\<close> can produce: the safe ones and the percent sign.\<close>

lemma of_char_bounds: "(of_char c :: int) < 256" "0 \<le> (of_char c :: int)"
proof -
  have "(of_char c :: int) mod 256 = of_char c" by (rule of_char_mod_256)
  then show "(of_char c :: int) < 256" "0 \<le> (of_char c :: int)" by presburger+
qed

lemma hex_digit_safe: "0 \<le> n \<Longrightarrow> n < 16 \<Longrightarrow> is_always_safe (hex_digit n)"
  by (auto simp: hex_digit_def is_always_safe_def is_ascii_alnum_def is_ascii_letter_def
      is_ascii_upper_def is_ascii_digit_def Let_def)

lemma percent_byte_chars: "0 \<le> b \<Longrightarrow> b < 256 \<Longrightarrow> c \<in> set (percent_byte b) \<Longrightarrow> c = CHR ''%'' \<or> is_always_safe c"
  by (auto simp: percent_byte_def hex_digit_safe less_mult_imp_div_less)

lemma utf8_bytes_bound: "b \<in> set (utf8_bytes c) \<Longrightarrow> 0 \<le> b \<and> b < 256"
proof -
  have "(of_char c :: int) div 64 < 64" "0 \<le> (of_char c :: int) div 64"
    using of_char_bounds [of c] by linarith+
  then show "b \<in> set (utf8_bytes c) \<Longrightarrow> 0 \<le> b \<and> b < 256"
    using of_char_bounds [of c] by (auto simp: utf8_bytes_def Let_def split: if_splits)
qed

lemma quote_char_chars: "c \<in> set (quote_char d) \<Longrightarrow> c = CHR ''%'' \<or> is_always_safe c"
  by (auto simp: quote_char_def split: if_splits dest!: utf8_bytes_bound dest: percent_byte_chars)

lemma quote_chars: "c \<in> set (quote s) \<Longrightarrow> c = CHR ''%'' \<or> is_always_safe c"
  by (auto simp: quote_def dest: quote_char_chars)

lemma quote_char_not_Nil: "quote_char c \<noteq> []"
  by (simp add: quote_char_def utf8_bytes_def percent_byte_def Let_def)

lemma quote_not_Nil: "quote s = [] \<longleftrightarrow> s = []"
  by (cases s) (auto simp: quote_def quote_char_not_Nil)

lemma quote_free:
  assumes "d = CHR ''/'' \<or> d = CHR ''{'' \<or> d = CHR ''}'' \<or> d = CHR ''?'' \<or> d = CHR ''#''"
  shows "d \<notin> set (quote s)"
proof
  assume "d \<in> set (quote s)"
  from quote_chars [OF this] assms show False
    by (auto simp: is_always_safe_def is_ascii_alnum_def is_ascii_letter_def is_ascii_upper_def
        is_ascii_lower_def is_ascii_digit_def)
qed

section \<open>Targets below an origin\<close>

text \<open>
  A request target that begins with one slash has neither scheme nor authority: its path is the text
  up to the query or the fragment.
\<close>

lemma split_scheme_slash: "split_scheme (CHR ''/'' # u) = ([], CHR ''/'' # u)"
  by (auto simp: split_scheme_def is_ascii_letter_def is_ascii_upper_def is_ascii_lower_def
      split: option.splits)

lemma url_clean_slash:
  "url_clean (CHR ''/'' # u) = CHR ''/'' # filter (\<lambda>c. \<not> is_unsafe_url_char c) u"
  by (simp add: url_clean_def lstrip_of_def is_c0_or_space_def is_unsafe_url_char_def)

lemma urlsplit_target:
  assumes "\<not> prefix ''/'' (filter (\<lambda>c. \<not> is_unsafe_url_char c) u)"
  shows "\<exists>s. urlsplit (CHR ''/'' # u) = Some s \<and> su_scheme s = [] \<and> su_netloc s = [] \<and>
    su_path s = takeWhile (\<lambda>c. c \<noteq> CHR ''?'')
      (takeWhile (\<lambda>c. c \<noteq> CHR ''#'') (url_clean (CHR ''/'' # u)))"
  using assms
  by (auto simp: urlsplit_def url_clean_slash split_scheme_slash split_netloc_def cut_at_def)

end
