(* ===== verification/Client.thy ===== *)
theory Client
  imports Complex_Main Py_Url
begin

text \<open>
  \<open>src/api_tests/client.py\<close>: the four public rate policies and the classification of request targets,
  the pacer that spaces request starts, the process-wide pacing that owns one pacer per policy, the
  gateway client's request entry points and the same-origin test of the browser flows.
  Clock readings are rational numbers; a call of \<open>RequestPacer.wait\<close> holds its lock from the first
  reading to the second, so calls on one pacer are a sequence of such pairs.  Floating-point rounding
  of the interval is not modelled.
\<close>

datatype url_error = InvalidUrl

section \<open>Rate policies\<close>

datatype policy_name = LOGIN_INITIATION | LOGIN_COMPLETION | SESSION_OPERATIONS | API_REQUESTS

record rate_policy =
  rp_name :: policy_name
  rp_families :: "string list"
  rp_rate :: rat

definition LOGIN_INITIATION_REQUESTS_PER_SECOND :: rat where
  "LOGIN_INITIATION_REQUESTS_PER_SECOND = 8 / 10"
definition LOGIN_COMPLETION_REQUESTS_PER_SECOND :: rat where
  "LOGIN_COMPLETION_REQUESTS_PER_SECOND = 16 / 10"
definition SESSION_OPERATIONS_REQUESTS_PER_SECOND :: rat where
  "SESSION_OPERATIONS_REQUESTS_PER_SECOND = 4"
definition API_REQUESTS_PER_SECOND :: rat where
  "API_REQUESTS_PER_SECOND = 8"

lemmas request_rates = LOGIN_INITIATION_REQUESTS_PER_SECOND_def
  LOGIN_COMPLETION_REQUESTS_PER_SECOND_def SESSION_OPERATIONS_REQUESTS_PER_SECOND_def
  API_REQUESTS_PER_SECOND_def

definition in_family :: "string \<Rightarrow> string \<Rightarrow> bool" where
  "in_family path family \<longleftrightarrow> path = family \<or> startswith path (family @ ''/'')"

definition rate_policy_matches :: "rate_policy \<Rightarrow> string \<Rightarrow> url_error + bool" where
  "rate_policy_matches policy request_target =
     bindE (requireE (urlsplit request_target) InvalidUrl) (\<lambda>u.
       Inr (list_ex (in_family (su_path u)) (rp_families policy)))"

definition LOGIN_INITIATION_RATE_POLICY :: rate_policy where
  "LOGIN_INITIATION_RATE_POLICY = \<lparr>rp_name = LOGIN_INITIATION, rp_families = [''/oauth2''],
     rp_rate = LOGIN_INITIATION_REQUESTS_PER_SECOND\<rparr>"
definition LOGIN_COMPLETION_RATE_POLICY :: rate_policy where
  "LOGIN_COMPLETION_RATE_POLICY = \<lparr>rp_name = LOGIN_COMPLETION, rp_families = [''/login/oauth2''],
     rp_rate = LOGIN_COMPLETION_REQUESTS_PER_SECOND\<rparr>"
definition SESSION_OPERATIONS_RATE_POLICY :: rate_policy where
  "SESSION_OPERATIONS_RATE_POLICY = \<lparr>rp_name = SESSION_OPERATIONS,
     rp_families = [''/auth'', ''/logout''], rp_rate = SESSION_OPERATIONS_REQUESTS_PER_SECOND\<rparr>"
definition API_RATE_POLICY :: rate_policy where
  "API_RATE_POLICY = \<lparr>rp_name = API_REQUESTS, rp_families = [''/api''],
     rp_rate = API_REQUESTS_PER_SECOND\<rparr>"

definition PUBLIC_RATE_POLICIES :: "rate_policy list" where
  "PUBLIC_RATE_POLICIES = [LOGIN_INITIATION_RATE_POLICY, LOGIN_COMPLETION_RATE_POLICY,
     SESSION_OPERATIONS_RATE_POLICY, API_RATE_POLICY]"

lemmas rate_policies = PUBLIC_RATE_POLICIES_def LOGIN_INITIATION_RATE_POLICY_def
  LOGIN_COMPLETION_RATE_POLICY_def SESSION_OPERATIONS_RATE_POLICY_def API_RATE_POLICY_def

fun first_matching_policy :: "rate_policy list \<Rightarrow> string \<Rightarrow> url_error + rate_policy option" where
  "first_matching_policy [] request_target = Inr None"
| "first_matching_policy (policy # policies) request_target =
     bindE (rate_policy_matches policy request_target) (\<lambda>matched.
       if matched then Inr (Some policy) else first_matching_policy policies request_target)"

definition classify_public_rate_policy :: "string \<Rightarrow> url_error + rate_policy option" where
  "classify_public_rate_policy request_target =
     first_matching_policy PUBLIC_RATE_POLICIES request_target"

text \<open>Two families neither of which is the other or below it have no path in common.\<close>

definition apart :: "string \<Rightarrow> string \<Rightarrow> bool" where
  "apart f g \<longleftrightarrow> \<not> prefix (f @ ''/'') (g @ ''/'') \<and> \<not> prefix (g @ ''/'') (f @ ''/'')"

lemma in_family_slash: "in_family path f \<longleftrightarrow> prefix (f @ ''/'') (path @ ''/'')"
proof -
  have "prefix (f @ ''/'') (path @ ''/'') \<longleftrightarrow> f @ ''/'' = path @ ''/'' \<or> prefix (f @ ''/'') path"
    by (simp add: prefix_snoc)
  then show ?thesis by (auto simp: in_family_def)
qed

lemma apart_disjoint:
  assumes "apart f g" and "in_family path f"
  shows "\<not> in_family path g"
  using assms prefix_same_cases unfolding apart_def in_family_slash by blast

lemma public_families_apart:
  "\<forall>p \<in> set PUBLIC_RATE_POLICIES. \<forall>q \<in> set PUBLIC_RATE_POLICIES. rp_name p \<noteq> rp_name q \<longrightarrow>
     (\<forall>f \<in> set (rp_families p). \<forall>g \<in> set (rp_families q). apart f g)"
  by (simp add: rate_policies apart_def)

lemma public_names_unique:
  "\<forall>p \<in> set PUBLIC_RATE_POLICIES. \<forall>q \<in> set PUBLIC_RATE_POLICIES. rp_name p = rp_name q \<longrightarrow> p = q"
  by (simp add: rate_policies)

lemma first_matching_policy_ok:
  "urlsplit t = Some u \<Longrightarrow> first_matching_policy ps t =
     Inr (List.find (\<lambda>p. list_ex (in_family (su_path u)) (rp_families p)) ps)"
  by (induction ps) (auto simp: rate_policy_matches_def)

lemma classify_ok:
  "urlsplit t = Some u \<Longrightarrow> classify_public_rate_policy t =
     Inr (List.find (\<lambda>p. list_ex (in_family (su_path u)) (rp_families p)) PUBLIC_RATE_POLICIES)"
  by (simp add: classify_public_rate_policy_def first_matching_policy_ok)

lemma find_unique:
  assumes "\<And>q. q \<in> set ps \<Longrightarrow> P q \<Longrightarrow> q = p" and "p \<in> set ps" "P p"
  shows "List.find P ps = Some p"
proof (cases "List.find P ps")
  case None
  with assms(2,3) show ?thesis by (simp add: find_None_iff)
next
  case (Some q)
  then have "q \<in> set ps" "P q" by (auto simp: find_Some_iff)
  with Some assms(1) show ?thesis by simp
qed

lemma public_policy_unique:
  assumes "p \<in> set PUBLIC_RATE_POLICIES" "q \<in> set PUBLIC_RATE_POLICIES"
    and "list_ex (in_family path) (rp_families p)" "list_ex (in_family path) (rp_families q)"
  shows "p = q"
proof (rule ccontr)
  assume "p \<noteq> q"
  with assms(1,2) have "rp_name p \<noteq> rp_name q" using public_names_unique by blast
  moreover obtain f g where "f \<in> set (rp_families p)" "in_family path f"
    "g \<in> set (rp_families q)" "in_family path g"
    using assms(3,4) by (auto simp: list_ex_iff)
  ultimately show False
    using public_families_apart assms(1,2) apart_disjoint by blast
qed

section \<open>Pacers\<close>

datatype pacer_error = NonPositiveRate

record pacer =
  pc_minimum_interval :: rat
  pc_next_request_at :: "rat option"

definition RequestPacer :: "rat \<Rightarrow> pacer_error + pacer" where
  "RequestPacer requests_per_second =
     (if requests_per_second \<le> 0 then Inl NonPositiveRate
      else Inr \<lparr>pc_minimum_interval = 1 / requests_per_second, pc_next_request_at = None\<rparr>)"

definition request_at :: "pacer \<Rightarrow> rat \<Rightarrow> rat" where
  "request_at p now = (case pc_next_request_at p of None \<Rightarrow> now | Some t \<Rightarrow> max now t)"

text \<open>
  One call of \<open>wait\<close> with its two clock readings: the time it sleeps, when it does, and the pacer
  after it.  The request starts at the second reading.
\<close>

definition pacer_wait :: "pacer \<Rightarrow> rat \<Rightarrow> rat \<Rightarrow> rat option \<times> pacer" where
  "pacer_wait p now after =
     (let delay = request_at p now - now
      in (if delay > 0 then Some delay else None,
          p\<lparr>pc_next_request_at := Some (after + pc_minimum_interval p)\<rparr>))"

definition pacer_serve :: "pacer \<Rightarrow> rat \<Rightarrow> rat \<Rightarrow> pacer" where
  "pacer_serve p now after = snd (pacer_wait p now after)"

text \<open>Starts at least \<open>interval\<close> apart, and how many of them a window can hold.\<close>

definition spaced :: "rat \<Rightarrow> rat list \<Rightarrow> bool" where
  "spaced interval starts = sorted_wrt (\<lambda>a b. a + interval \<le> b) starts"

lemma spaced_span:
  assumes "spaced I (x # xs)" "0 < I" "y \<in> set (x # xs)" "\<forall>z \<in> set (x # xs). z \<le> y"
  shows "x + I * of_nat (length xs) \<le> y"
  using assms
proof (induction xs arbitrary: x)
  case (Cons z zs)
  then have "x + I \<le> z" "spaced I (z # zs)" by (auto simp: spaced_def)
  moreover have "y \<in> set (z # zs)"
    using Cons.prems \<open>x + I \<le> z\<close> by force
  ultimately have "z + I * of_nat (length zs) \<le> y"
    using Cons.IH [of z] Cons.prems by auto
  with \<open>x + I \<le> z\<close> show ?case by (simp add: algebra_simps)
qed simp

lemma spaced_window:
  assumes "spaced I xs" "0 < I" "0 \<le> d"
  shows "length (filter (\<lambda>x. t \<le> x \<and> x \<le> t + d) xs) \<le> nat \<lfloor>d / I\<rfloor> + 1"
proof (cases "filter (\<lambda>x. t \<le> x \<and> x \<le> t + d) xs")
  case Nil
  then show ?thesis by simp
next
  case (Cons y ys)
  have sp: "spaced I (y # ys)"
    using assms(1) unfolding spaced_def Cons [symmetric] by (rule sorted_wrt_filter)
  have mem: "\<forall>x \<in> set (y # ys). t \<le> x \<and> x \<le> t + d"
    unfolding Cons [symmetric] by simp
  define m where "m = Max (set (y # ys))"
  have m: "m \<in> set (y # ys)" "\<forall>z \<in> set (y # ys). z \<le> m"
    unfolding m_def by (rule Max_in) (auto intro: Max_ge)
  have "y + I * of_nat (length ys) \<le> m" by (rule spaced_span [OF sp assms(2) m])
  with mem m(1) have "I * of_nat (length ys) \<le> d" by force
  then have "of_nat (length ys) \<le> d / I" using assms(2) by (simp add: pos_le_divide_eq mult.commute)
  then have "int (length ys) \<le> \<lfloor>d / I\<rfloor>" by (simp add: le_floor_iff)
  then show ?thesis unfolding Cons by simp
qed

text \<open>
  The interface of a rate limiter: serving a request records that the next start comes no earlier
  than one interval after this one.  The client of the interface supplies clock readings whose second
  component is not before the granted start, which is what sleeping for the delay guarantees.
\<close>

locale rate_limiter =
  fixes serve :: "'s \<Rightarrow> rat \<Rightarrow> rat \<Rightarrow> 's"
    and start_at :: "'s \<Rightarrow> rat \<Rightarrow> rat"
    and inv :: "'s \<Rightarrow> bool"
    and interval :: rat
  assumes interval_pos: "0 < interval"
    and inv_serve: "inv s \<Longrightarrow> inv (serve s now after)"
    and start_after_serve: "inv s \<Longrightarrow> after + interval \<le> start_at (serve s now after) now'"
begin

fun timely :: "'s \<Rightarrow> (rat \<times> rat) list \<Rightarrow> bool" where
  "timely s [] = True"
| "timely s ((now, after) # readings) =
     (start_at s now \<le> after \<and> timely (serve s now after) readings)"

lemma timely_not_before:
  "inv s \<Longrightarrow> (\<And>now. e \<le> start_at s now) \<Longrightarrow> timely s readings \<Longrightarrow> x \<in> snd ` set readings \<Longrightarrow> e \<le> x"
proof (induction readings arbitrary: s)
  case (Cons r readings)
  obtain now after where r: "r = (now, after)" by force
  from Cons.prems r have e: "e \<le> after" by (metis order_trans timely.simps(2))
  have e': "e \<le> start_at (serve s now after) now'" for now'
    using start_after_serve [OF Cons.prems(1), of after now now'] interval_pos e by linarith
  from Cons.prems r consider "x = after" | "x \<in> snd ` set readings" by auto
  then show ?case
  proof cases
    case 2
    with Cons.prems r show ?thesis
      by (intro Cons.IH [OF inv_serve [OF Cons.prems(1)] e']) auto
  qed (simp add: e)
qed simp

lemma timely_spaced: "inv s \<Longrightarrow> timely s readings \<Longrightarrow> spaced interval (map snd readings)"
proof (induction readings arbitrary: s)
  case (Cons r readings)
  obtain now after where r: "r = (now, after)" by force
  have inv': "inv (serve s now after)" by (rule inv_serve [OF Cons.prems(1)])
  have rest: "timely (serve s now after) readings" using Cons.prems r by simp
  have "after + interval \<le> x" if "x \<in> snd ` set readings" for x
    by (rule timely_not_before [OF inv' start_after_serve [OF Cons.prems(1)] rest that])
  with Cons.IH [OF inv' rest] show ?case by (auto simp: spaced_def r)
qed (simp add: spaced_def)

lemma timely_window:
  "inv s \<Longrightarrow> timely s readings \<Longrightarrow> 0 \<le> d \<Longrightarrow>
   length (filter (\<lambda>x. t \<le> x \<and> x \<le> t + d) (map snd readings)) \<le> nat \<lfloor>d / interval\<rfloor> + 1"
  by (rule spaced_window [OF timely_spaced interval_pos])

end

lemma pacer_limiter:
  "0 < I \<Longrightarrow> rate_limiter pacer_serve request_at (\<lambda>p. pc_minimum_interval p = I) I"
  by unfold_locales (auto simp: pacer_serve_def pacer_wait_def request_at_def Let_def)

interpretation login_initiation_pacer:
  rate_limiter pacer_serve request_at
    "\<lambda>p. pc_minimum_interval p = 1 / LOGIN_INITIATION_REQUESTS_PER_SECOND"
    "1 / LOGIN_INITIATION_REQUESTS_PER_SECOND"
  by (rule pacer_limiter) (simp add: request_rates)

interpretation login_completion_pacer:
  rate_limiter pacer_serve request_at
    "\<lambda>p. pc_minimum_interval p = 1 / LOGIN_COMPLETION_REQUESTS_PER_SECOND"
    "1 / LOGIN_COMPLETION_REQUESTS_PER_SECOND"
  by (rule pacer_limiter) (simp add: request_rates)

interpretation session_operations_pacer:
  rate_limiter pacer_serve request_at
    "\<lambda>p. pc_minimum_interval p = 1 / SESSION_OPERATIONS_REQUESTS_PER_SECOND"
    "1 / SESSION_OPERATIONS_REQUESTS_PER_SECOND"
  by (rule pacer_limiter) (simp add: request_rates)

interpretation api_requests_pacer:
  rate_limiter pacer_serve request_at
    "\<lambda>p. pc_minimum_interval p = 1 / API_REQUESTS_PER_SECOND" "1 / API_REQUESTS_PER_SECOND"
  by (rule pacer_limiter) (simp add: request_rates)

section \<open>The shared pacing\<close>

type_synonym pacing = "policy_name \<Rightarrow> pacer"

definition GatewayRequestPacing :: "pacer \<Rightarrow> pacer \<Rightarrow> pacer \<Rightarrow> pacer \<Rightarrow> pacing" where
  "GatewayRequestPacing login_initiation_pacer login_completion_pacer session_operations_pacer
       api_requests_pacer = (\<lambda>name. case name of
     LOGIN_INITIATION \<Rightarrow> login_initiation_pacer
   | LOGIN_COMPLETION \<Rightarrow> login_completion_pacer
   | SESSION_OPERATIONS \<Rightarrow> session_operations_pacer
   | API_REQUESTS \<Rightarrow> api_requests_pacer)"

definition pacing_wait :: "pacing \<Rightarrow> string \<Rightarrow> rat \<Rightarrow> rat \<Rightarrow> url_error + pacing" where
  "pacing_wait pacers request_target now after =
     bindE (classify_public_rate_policy request_target) (\<lambda>policy. case policy of
       None \<Rightarrow> Inr pacers
     | Some p \<Rightarrow> Inr (pacers(rp_name p := pacer_serve (pacers (rp_name p)) now after)))"

definition SHARED_GATEWAY_REQUEST_PACING :: "pacer_error + pacing" where
  "SHARED_GATEWAY_REQUEST_PACING =
     bindE (RequestPacer (rp_rate LOGIN_INITIATION_RATE_POLICY)) (\<lambda>login_initiation_pacer.
     bindE (RequestPacer (rp_rate LOGIN_COMPLETION_RATE_POLICY)) (\<lambda>login_completion_pacer.
     bindE (RequestPacer (rp_rate SESSION_OPERATIONS_RATE_POLICY)) (\<lambda>session_operations_pacer.
     bindE (RequestPacer (rp_rate API_RATE_POLICY)) (\<lambda>api_requests_pacer.
       Inr (GatewayRequestPacing login_initiation_pacer login_completion_pacer
              session_operations_pacer api_requests_pacer)))))"

text \<open>
  A run of calls of \<open>wait\<close> on the shared pacing, from any number of clients and browser flows: each
  event is the request target and the two clock readings of the call.  In a timely run every call
  returns no earlier than the start it was granted.
\<close>

type_synonym wait_event = "string \<times> rat \<times> rat"

fun pacing_run :: "pacing \<Rightarrow> wait_event list \<Rightarrow> url_error + pacing" where
  "pacing_run pacers [] = Inr pacers"
| "pacing_run pacers ((target, now, after) # events) =
     bindE (pacing_wait pacers target now after) (\<lambda>pacers'. pacing_run pacers' events)"

fun timely_run :: "pacing \<Rightarrow> wait_event list \<Rightarrow> bool" where
  "timely_run pacers [] = True"
| "timely_run pacers ((target, now, after) # events) =
     (case classify_public_rate_policy target of
        Inl _ \<Rightarrow> False
      | Inr None \<Rightarrow> timely_run pacers events
      | Inr (Some p) \<Rightarrow> request_at (pacers (rp_name p)) now \<le> after \<and>
          timely_run (pacers(rp_name p := pacer_serve (pacers (rp_name p)) now after)) events)"

definition governed_by :: "policy_name \<Rightarrow> string \<Rightarrow> bool" where
  "governed_by name target =
     (case classify_public_rate_policy target of Inr (Some p) \<Rightarrow> rp_name p = name | _ \<Rightarrow> False)"

definition readings_of :: "policy_name \<Rightarrow> wait_event list \<Rightarrow> (rat \<times> rat) list" where
  "readings_of name events = map snd (filter (\<lambda>e. governed_by name (fst e)) events)"

definition starts_of :: "policy_name \<Rightarrow> wait_event list \<Rightarrow> rat list" where
  "starts_of name events = map snd (readings_of name events)"

text \<open>Each policy sees exactly its own calls: the run projects to a timely run of every pacer.\<close>

lemma timely_run_projects:
  "timely_run pacers events \<Longrightarrow>
   rate_limiter.timely pacer_serve request_at (pacers name) (readings_of name events)"
proof (induction pacers events rule: timely_run.induct)
  case (1 pacers)
  then show ?case by (simp add: readings_of_def api_requests_pacer.timely.simps)
next
  case (2 pacers target now after events)
  show ?case
  proof (cases "classify_public_rate_policy target")
    case (Inl e)
    with 2 show ?thesis by simp
  next
    case (Inr policy)
    show ?thesis
    proof (cases policy)
      case None
      with Inr 2 show ?thesis by (simp add: readings_of_def governed_by_def)
    next
      case (Some p)
      with Inr 2 show ?thesis
        by (cases "rp_name p = name")
          (auto simp: readings_of_def governed_by_def api_requests_pacer.timely.simps
            fun_upd_same fun_upd_other simp del: fun_upd_apply)
    qed
  qed
qed

lemma shared_pacing_intervals:
  assumes "SHARED_GATEWAY_REQUEST_PACING = Inr pacers" and "p \<in> set PUBLIC_RATE_POLICIES"
  shows "pc_minimum_interval (pacers (rp_name p)) = 1 / rp_rate p"
  using assms
  by (auto simp: SHARED_GATEWAY_REQUEST_PACING_def GatewayRequestPacing_def RequestPacer_def
      rate_policies request_rates)

lemma policy_window:
  assumes "pc_minimum_interval q = 1 / rp_rate p" and "p \<in> set PUBLIC_RATE_POLICIES"
    and "rate_limiter.timely pacer_serve request_at q readings" and "0 \<le> d"
  shows "length (filter (\<lambda>x. t \<le> x \<and> x \<le> t + d) (map snd readings)) \<le> nat \<lfloor>d * rp_rate p\<rfloor> + 1"
proof -
  have "0 < 1 / rp_rate p" using assms(2) by (auto simp: rate_policies request_rates)
  from rate_limiter.timely_window [OF pacer_limiter [OF this] assms(1,3,4)]
  show ?thesis by simp
qed

section \<open>The gateway client\<close>

definition absolute_path :: "string \<Rightarrow> string" where
  "absolute_path path = (if startswith path ''/'' then path else ''/'' @ path)"

definition join_paths :: "string \<Rightarrow> string \<Rightarrow> string" where
  "join_paths path_prefix path =
     rstrip_of (\<lambda>c. c = CHR ''/'') path_prefix @ ''/'' @ lstrip_of (\<lambda>c. c = CHR ''/'') path"

text \<open>
  A client: the API base path of its configuration and the pacing it shares.  The HTTP library is the
  parameter \<open>send\<close>, which takes the method, the target and the state of the world.
\<close>

record gateway_client =
  gc_api_base_path :: string
  gc_pacing :: pacing

definition raw_request ::
    "(string \<Rightarrow> string \<Rightarrow> 'w \<Rightarrow> 'r \<times> 'w) \<Rightarrow> rat \<times> rat \<Rightarrow> gateway_client \<Rightarrow> string \<Rightarrow> string \<Rightarrow> 'w
      \<Rightarrow> url_error + ('r \<times> gateway_client \<times> 'w)" where
  "raw_request send clock client method path world =
     (let request_target = absolute_path path
      in bindE (pacing_wait (gc_pacing client) request_target (fst clock) (snd clock)) (\<lambda>pacers.
           case send method request_target world of
             (response, world') \<Rightarrow> Inr (response, client\<lparr>gc_pacing := pacers\<rparr>, world')))"

definition api_request ::
    "(string \<Rightarrow> string \<Rightarrow> 'w \<Rightarrow> 'r \<times> 'w) \<Rightarrow> rat \<times> rat \<Rightarrow> gateway_client \<Rightarrow> string \<Rightarrow> string \<Rightarrow> 'w
      \<Rightarrow> url_error + ('r \<times> gateway_client \<times> 'w)" where
  "api_request send clock client method path world =
     raw_request send clock client method (join_paths (gc_api_base_path client) path) world"

section \<open>Origins\<close>

definition normalized_origin :: "split_result \<Rightarrow> (string \<times> string \<times> int) option" where
  "normalized_origin parsed =
     (let scheme = casefold (su_scheme parsed)
      in case su_hostname parsed of
           None \<Rightarrow> None
         | Some host \<Rightarrow>
             if scheme \<notin> {''http'', ''https''} then None
             else case su_port parsed of
                    None \<Rightarrow> None
                  | Some None \<Rightarrow> Some (scheme, casefold host, if scheme = ''https'' then 443 else 80)
                  | Some (Some port) \<Rightarrow> Some (scheme, casefold host, port))"

definition is_same_origin :: "string \<Rightarrow> string \<Rightarrow> url_error + bool" where
  "is_same_origin request_url origin =
     bindE (requireE (urlsplit request_url) InvalidUrl) (\<lambda>request.
     bindE (requireE (urlsplit origin) InvalidUrl) (\<lambda>selected.
       Inr (normalized_origin request \<noteq> None \<and>
            normalized_origin request = normalized_origin selected)))"

definition request_path_from_url :: "string \<Rightarrow> url_error + string" where
  "request_path_from_url request_url =
     bindE (requireE (urlsplit request_url) InvalidUrl) (\<lambda>u. Inr (su_path u))"

text \<open>An HTTPS URL splits at its authority, whatever follows it.\<close>

definition plain_authority :: "string \<Rightarrow> bool" where
  "plain_authority netloc = list_all (\<lambda>c. \<not> netloc_delim c \<and> \<not> is_unsafe_url_char c \<and>
     c \<noteq> CHR ''['' \<and> c \<noteq> CHR '']'') netloc"

lemma split_scheme_https: "split_scheme (''https:'' @ rest) = (''https'', rest)"
proof -
  have "split_first '':'' (''https'' @ CHR '':'' # rest) = Some (''https'', rest)"
    by (rule split_first_single_app) simp
  then show ?thesis
    by (simp add: split_scheme_def is_ascii_letter_def is_ascii_lower_def is_scheme_char_def
        is_ascii_alnum_def) code_simp
qed

lemma url_clean_https:
  "url_clean (''https:'' @ rest) = ''https:'' @ filter (\<lambda>c. \<not> is_unsafe_url_char c) rest"
  by (simp add: url_clean_def lstrip_of_def is_c0_or_space_def is_unsafe_url_char_def)

lemma split_netloc_plain:
  assumes "plain_authority netloc" and "rest = [] \<or> netloc_delim (hd rest)"
  shows "split_netloc (''//'' @ netloc @ rest) = (netloc, rest)"
proof -
  have "\<forall>c \<in> set netloc. \<not> netloc_delim c"
    using assms(1) by (auto simp: plain_authority_def list_all_iff)
  then show ?thesis
    using assms(2) by (cases rest) (auto simp: split_netloc_def)
qed

lemma urlsplit_https:
  assumes "plain_authority netloc" and "rest = [] \<or> netloc_delim (hd rest)"
  shows "\<exists>u. urlsplit (''https://'' @ netloc @ rest) = Some u \<and> su_scheme u = ''https'' \<and> su_netloc u = netloc"
proof -
  define rest' where "rest' = filter (\<lambda>c. \<not> is_unsafe_url_char c) rest"
  have clean: "filter (\<lambda>c. \<not> is_unsafe_url_char c) netloc = netloc"
    using assms(1) by (auto simp: plain_authority_def list_all_iff)
  have "rest' = [] \<or> netloc_delim (hd rest')"
    using assms(2) by (cases rest) (auto simp: rest'_def is_unsafe_url_char_def netloc_delim_def)
  then have sn: "split_netloc (''//'' @ netloc @ rest') = (netloc, rest')"
    by (rule split_netloc_plain [OF assms(1)])
  have "url_clean (''https://'' @ netloc @ rest) = ''https:'' @ ''//'' @ netloc @ rest'"
    using url_clean_https [of "''//'' @ netloc @ rest"] clean
    by (simp add: rest'_def is_unsafe_url_char_def)
  moreover have "CHR ''['' \<notin> set netloc" "CHR '']'' \<notin> set netloc"
    using assms(1) by (auto simp: plain_authority_def list_all_iff)
  ultimately show ?thesis
    unfolding urlsplit_def
    by (simp only: split_scheme_https Let_def prod.case sn) (simp split: prod.splits)
qed

lemma normalized_origin_authority:
  "su_scheme u = su_scheme v \<Longrightarrow> su_netloc u = su_netloc v \<Longrightarrow> normalized_origin u = normalized_origin v"
proof -
  assume u: "su_scheme u = su_scheme v" "su_netloc u = su_netloc v"
  then have "su_hostname u = su_hostname v" "su_port u = su_port v"
    by (simp_all only: su_hostname_def su_port_def)
  with u(1) show ?thesis by (simp only: normalized_origin_def)
qed

lemma is_same_origin_split:
  "urlsplit a = Some u \<Longrightarrow> urlsplit b = Some v \<Longrightarrow>
   is_same_origin a b = Inr (normalized_origin u \<noteq> None \<and> normalized_origin u = normalized_origin v)"
  by (simp add: is_same_origin_def)

lemma classify_matching:
  assumes "p \<in> set PUBLIC_RATE_POLICIES" "rate_policy_matches p target = Inr True"
  shows "classify_public_rate_policy target = Inr (Some p)"
proof (cases "urlsplit target")
  case None
  with assms(2) show ?thesis by (simp add: rate_policy_matches_def)
next
  case (Some u)
  with assms(2) have "list_ex (in_family (su_path u)) (rp_families p)"
    by (simp add: rate_policy_matches_def)
  then have "List.find (\<lambda>p. list_ex (in_family (su_path u)) (rp_families p)) PUBLIC_RATE_POLICIES = Some p"
    by (intro find_unique public_policy_unique assms(1))
  with Some show ?thesis by (simp add: classify_ok)
qed

lemma classify_sound:
  assumes "classify_public_rate_policy target = Inr (Some p)"
  shows "p \<in> set PUBLIC_RATE_POLICIES \<and> rate_policy_matches p target = Inr True"
proof (cases "urlsplit target")
  case None
  with assms show ?thesis
    by (simp add: classify_public_rate_policy_def rate_policy_matches_def PUBLIC_RATE_POLICIES_def)
next
  case (Some u)
  with assms show ?thesis
    by (auto simp: classify_ok rate_policy_matches_def find_Some_iff)
qed

section \<open>Properties\<close>





lemma takeWhile_api: "takeWhile P (''/api/'' @ s) =
    (if \<forall>c \<in> set ''/api/''. P c then ''/api/'' @ takeWhile P s else takeWhile P ''/api/'')"
  by (simp add: takeWhile_append)

lemma classify_api_target: "classify_public_rate_policy (''/api/'' @ s) = Inr (Some API_RATE_POLICY)"
proof -
  let ?c = "filter (\<lambda>c. \<not> is_unsafe_url_char c) s"
  have clean: "filter (\<lambda>c. \<not> is_unsafe_url_char c) (''api/'' @ s) = ''api/'' @ ?c"
    by (simp add: is_unsafe_url_char_def)
  obtain u where u: "urlsplit (''/api/'' @ s) = Some u"
    and path: "su_path u = takeWhile (\<lambda>c. c \<noteq> CHR ''?'') (takeWhile (\<lambda>c. c \<noteq> CHR ''#'') (''/api/'' @ ?c))"
    using urlsplit_target [of "''api/'' @ s"] clean url_clean_slash [of "''api/'' @ s"] by auto
  have "prefix ''/api/'' (su_path u)" by (simp add: path)
  then have "rate_policy_matches API_RATE_POLICY (''/api/'' @ s) = Inr True"
    using u by (simp add: rate_policy_matches_def API_RATE_POLICY_def in_family_def)
  moreover have "API_RATE_POLICY \<in> set PUBLIC_RATE_POLICIES" by (simp add: PUBLIC_RATE_POLICIES_def)
  ultimately show ?thesis by (blast intro: classify_matching)
qed

text \<open>An API request is always paced by the API policy and no other, and is sent exactly once, to
  the API base path joined to the relative path by one slash.\<close>

theorem api_request_paced_and_sent_once:
  assumes "gc_api_base_path client = ''/api''"
  shows "api_request send (now, after) client method path world =
    (case send method (''/api/'' @ lstrip_of (\<lambda>c. c = CHR ''/'') path) world of
       (response, world') \<Rightarrow>
         Inr (response,
           client\<lparr>gc_pacing := (gc_pacing client)
             (API_REQUESTS := pacer_serve (gc_pacing client API_REQUESTS) now after)\<rparr>, world'))"
proof -
  have "join_paths (gc_api_base_path client) path = ''/api/'' @ lstrip_of (\<lambda>c. c = CHR ''/'') path"
    by (simp add: assms join_paths_def rstrip_of_def)
  then show ?thesis
    using classify_api_target [of "lstrip_of (\<lambda>c. c = CHR ''/'') path"]
    by (simp add: api_request_def raw_request_def absolute_path_def pacing_wait_def
        API_RATE_POLICY_def Let_def)
qed

theorem api_request_paced_and_sent_once_witness:
  "gc_api_base_path (\<lparr>gc_api_base_path = ''/api'', gc_pacing = (\<lambda>_. \<lparr>pc_minimum_interval = 1, pc_next_request_at = None\<rparr>)\<rparr>) = ''/api'' \<and>
   (\<exists>c. api_request (\<lambda>m t w. (t, w @ [m])) (0, 0)
      (\<lparr>gc_api_base_path = ''/api'', gc_pacing = (\<lambda>_. \<lparr>pc_minimum_interval = 1, pc_next_request_at = None\<rparr>)\<rparr>)
      ''GET'' ''//v1/views'' [] = Inr (''/api/v1/views'', c, [''GET'']))"
  by (simp add: api_request_paced_and_sent_once lstrip_of_def)

text \<open>Nothing after the authority of an HTTPS URL can change the origin decision: paths, queries
  and fragments are irrelevant to \<open>is_same_origin\<close>.\<close>

theorem same_origin_decided_by_authority:
  assumes "plain_authority a" "plain_authority b"
    and "r = [] \<or> netloc_delim (hd r)" "s = [] \<or> netloc_delim (hd s)"
  shows "is_same_origin (''https://'' @ a @ r) (''https://'' @ b @ s) =
         is_same_origin (''https://'' @ a) (''https://'' @ b)"
proof -
  from urlsplit_https [OF assms(1,3)] obtain u where
    u: "urlsplit (''https://'' @ a @ r) = Some u" "su_scheme u = ''https''" "su_netloc u = a" by blast
  from urlsplit_https [OF assms(2,4)] obtain v where
    v: "urlsplit (''https://'' @ b @ s) = Some v" "su_scheme v = ''https''" "su_netloc v = b" by blast
  from urlsplit_https [OF assms(1), of "[]"] obtain u' where
    u': "urlsplit (''https://'' @ a) = Some u'" "su_scheme u' = ''https''" "su_netloc u' = a" by auto
  from urlsplit_https [OF assms(2), of "[]"] obtain v' where
    v': "urlsplit (''https://'' @ b) = Some v'" "su_scheme v' = ''https''" "su_netloc v' = b" by auto
  have "normalized_origin u = normalized_origin u'" "normalized_origin v = normalized_origin v'"
    using u v u' v' by (simp_all only: normalized_origin_authority)
  with u(1) v(1) u'(1) v'(1) show ?thesis by (simp only: is_same_origin_split)
qed

theorem same_origin_decided_by_authority_witness:
  "is_same_origin (''https://'' @ ''h:443'' @ ''/p?q'') (''https://'' @ ''H'' @ []) = Inr True"
proof -
  have a: "plain_authority ''h:443''" "plain_authority ''H''" "netloc_delim (hd ''/p?q'')"
    by code_simp+
  have r: "''/p?q'' = [] \<or> netloc_delim (hd ''/p?q'')" "([] :: string) = [] \<or> netloc_delim (hd ([] :: string))"
    using a(3) by simp_all
  note same_origin_decided_by_authority [of "''h:443''" "''H''" "''/p?q''" "[]", OF a(1,2) r]
  also have "is_same_origin (''https://'' @ ''h:443'') (''https://'' @ ''H'') = Inr True" by code_simp
  finally show ?thesis .
qed

end
