(* ===== verification/Open_Api.thy ===== *)
theory Open_Api
  imports Json Py_Regex Client
begin

text \<open>
  \<open>src/api_tests/openapi.py\<close>: the operations of an OpenAPI document, their validation, the request
  cases built from them (path templates filled with examples or typed fallbacks), their safety
  markers, the documented responses and the forbidden-response manifest.  The document is the parsed
  JSON; one constructor of \<open>openapi_error\<close> per \<open>raise\<close>.  The text Python prints for a float is the
  parameter \<open>float_str\<close>.
\<close>

section \<open>Methods, contracts and operations\<close>

datatype http_method = GET | POST | PUT | PATCH | DELETE

fun method_name :: "http_method \<Rightarrow> string" where
  "method_name GET = ''GET''"
| "method_name POST = ''POST''"
| "method_name PUT = ''PUT''"
| "method_name PATCH = ''PATCH''"
| "method_name DELETE = ''DELETE''"

lemma method_name_inj [simp]: "method_name m = method_name n \<longleftrightarrow> m = n"
  by (cases m; cases n) simp_all

text \<open>Methods are strings in the code and sort as such.\<close>

instantiation http_method :: linorder
begin

definition less_eq_http_method :: "http_method \<Rightarrow> http_method \<Rightarrow> bool" where
  "less_eq_http_method m n \<longleftrightarrow> method_name m \<le> method_name n"

definition less_http_method :: "http_method \<Rightarrow> http_method \<Rightarrow> bool" where
  "less_http_method m n \<longleftrightarrow> method_name m < method_name n"

instance
  by standard (auto simp: less_eq_http_method_def less_http_method_def less_le
      dest: antisym)

end

datatype contract_key = Unified | SessionGateway

fun contract_name :: "contract_key \<Rightarrow> string" where
  "contract_name Unified = ''unified''"
| "contract_name SessionGateway = ''session_gateway''"

lemma contract_name_inj [simp]: "contract_name c = contract_name d \<longleftrightarrow> c = d"
  by (cases c; cases d) simp_all

instantiation contract_key :: linorder
begin

definition less_eq_contract_key :: "contract_key \<Rightarrow> contract_key \<Rightarrow> bool" where
  "less_eq_contract_key c d \<longleftrightarrow> contract_name c \<le> contract_name d"

definition less_contract_key :: "contract_key \<Rightarrow> contract_key \<Rightarrow> bool" where
  "less_contract_key c d \<longleftrightarrow> contract_name c < contract_name d"

instance
  by standard (auto simp: less_eq_contract_key_def less_contract_key_def less_le
      dest: antisym)

end

definition METHODS :: "http_method list" where
  "METHODS = [GET, POST, PUT, PATCH, DELETE]"

definition HTTP_METHODS :: "string list" where
  "HTTP_METHODS = [''get'', ''post'', ''put'', ''patch'', ''delete'']"

definition method_of_name :: "string \<Rightarrow> http_method option" where
  "method_of_name s = List.find (\<lambda>m. method_name m = s) METHODS"

lemma method_of_name_name [simp]: "method_of_name (method_name m) = Some m"
  by (cases m) (simp_all add: method_of_name_def METHODS_def)

lemma method_of_name_Some: "method_of_name s = Some m \<longleftrightarrow> s = method_name m"
proof
  assume "method_of_name s = Some m"
  then show "s = method_name m" unfolding method_of_name_def find_Some_iff by blast
qed simp

record openapi_operation =
  op_contract :: contract_key
  op_id :: string
  op_method :: http_method
  op_path :: string

record operation_entry =
  en_operation :: openapi_operation
  en_path_item :: object
  en_raw :: object

record request_case =
  rc_contract :: contract_key
  rc_id :: string
  rc_method :: http_method
  rc_path :: string

datatype openapi_error =
    NotASnapshotFormat string
  | SnapshotNotObject string
  | FetchFailed string int
  | ResponseNotObject string
  | TransportUrl url_error
  | MissingMapping string
  | OperationNotObject string string
  | MissingOperationId string string
  | UnsupportedMethod string
  | DuplicateOperationId openapi_operation openapi_operation
  | MissingResponse openapi_operation string
  | ResponseNotMapping openapi_operation string
  | MissingJsonContent openapi_operation string
  | MissingJsonSchema openapi_operation string
  | UnsupportedTemplate openapi_operation
  | DuplicatePlaceholder openapi_operation string
  | UndeclaredParameter openapi_operation string
  | UnusedParameter openapi_operation string
  | ParametersNotArray openapi_operation
  | ParameterNotObject openapi_operation nat
  | ParameterWithoutName openapi_operation nat
  | DuplicateParameter openapi_operation string
  | ParameterNotRequired openapi_operation string
  | ParameterWithoutSchema openapi_operation string
  | UnsupportedExample openapi_operation string
  | EmptyExample openapi_operation string
  | UnsupportedSchema openapi_operation string
  | OperationNotFound string

section \<open>Documents\<close>

definition required_mapping :: "object \<Rightarrow> string \<Rightarrow> openapi_error + object" where
  "required_mapping parent key = requireE (as_object (jget parent key)) (MissingMapping key)"

definition normalize_method :: "string \<Rightarrow> openapi_error + http_method" where
  "normalize_method raw = requireE (method_of_name (upper raw)) (UnsupportedMethod raw)"

text \<open>The loops over the paths and over the methods of one path share the entries and the ids seen.\<close>

record entry_state =
  es_entries :: "operation_entry list"
  es_by_id :: "(string \<times> openapi_operation) list"

definition entry_step ::
    "contract_key \<Rightarrow> string \<Rightarrow> object \<Rightarrow> entry_state \<Rightarrow> string \<times> json \<Rightarrow> openapi_error + entry_state" where
  "entry_step contract path path_item st member =
     (let (raw_method, operation) = member in
      if raw_method \<notin> set HTTP_METHODS then Inr st
      else bindE (requireE (as_object operation) (OperationNotObject (upper raw_method) path)) (\<lambda>raw.
           case jget raw ''operationId'' of
             JStr operation_id \<Rightarrow>
               if strip operation_id = [] then Inl (MissingOperationId (upper raw_method) path)
               else bindE (normalize_method raw_method) (\<lambda>m.
                 let parsed = \<lparr>op_contract = contract, op_id = operation_id, op_method = m, op_path = path\<rparr>
                 in case map_of (es_by_id st) operation_id of
                      Some previous \<Rightarrow> Inl (DuplicateOperationId previous parsed)
                    | None \<Rightarrow> Inr
                        \<lparr>es_entries = es_entries st
                           @ [\<lparr>en_operation = parsed, en_path_item = path_item, en_raw = raw\<rparr>],
                         es_by_id = AList.update operation_id parsed (es_by_id st)\<rparr>)
           | _ \<Rightarrow> Inl (MissingOperationId (upper raw_method) path)))"

definition path_step ::
    "contract_key \<Rightarrow> entry_state \<Rightarrow> string \<times> json \<Rightarrow> openapi_error + entry_state" where
  "path_step contract st member =
     (case as_object (snd member) of
        None \<Rightarrow> Inr st
      | Some path_item \<Rightarrow> foldE (entry_step contract (fst member) path_item) st path_item)"

definition validated_operation_entries ::
    "contract_key \<Rightarrow> object \<Rightarrow> openapi_error + operation_entry list" where
  "validated_operation_entries contract doc =
     bindE (required_mapping doc ''paths'') (\<lambda>paths.
     bindE (foldE (path_step contract) \<lparr>es_entries = [], es_by_id = []\<rparr> paths) (\<lambda>st.
       Inr (es_entries st)))"

definition iter_operations :: "contract_key \<Rightarrow> object \<Rightarrow> openapi_error + openapi_operation list" where
  "iter_operations contract doc =
     bindE (validated_operation_entries contract doc) (\<lambda>entries. Inr (map en_operation entries))"

section \<open>Documented responses\<close>

datatype status = StatusInt int | StatusStr string

fun status_str :: "status \<Rightarrow> string" where
  "status_str (StatusInt i) = int_str i"
| "status_str (StatusStr s) = s"

definition documents_response :: "object \<Rightarrow> string \<Rightarrow> bool" where
  "documents_response operation status_key =
     (case as_object (jget operation ''responses'') of
        None \<Rightarrow> False
      | Some responses \<Rightarrow> map_of responses status_key \<noteq> None)"

definition operation_sort_key :: "openapi_operation \<Rightarrow> string \<times> http_method \<times> string" where
  "operation_sort_key o' = (op_path o', op_method o', op_id o')"

definition operations_documenting_response ::
    "contract_key \<Rightarrow> object \<Rightarrow> status \<Rightarrow> openapi_error + openapi_operation list" where
  "operations_documenting_response contract doc status =
     bindE (validated_operation_entries contract doc) (\<lambda>entries.
       Inr (sort_key operation_sort_key
         (map en_operation
           (filter (\<lambda>e. documents_response (en_raw e) (status_str status)) entries))))"

definition require_json_response_schema :: "operation_entry \<Rightarrow> string \<Rightarrow> openapi_error + unit" where
  "require_json_response_schema entry status_key =
     (let context = en_operation entry in
      bindE (requireE (as_object (jget (en_raw entry) ''responses'')) (MissingResponse context status_key))
        (\<lambda>responses.
      bindE (requireE (map_of responses status_key) (MissingResponse context status_key)) (\<lambda>response.
      bindE (requireE (as_object response) (ResponseNotMapping context status_key)) (\<lambda>response.
      bindE (requireE (as_object (jget response ''content'')) (MissingJsonContent context status_key))
        (\<lambda>content.
      bindE (requireE (as_object (jget content ''application/json''))
               (MissingJsonSchema context status_key)) (\<lambda>media.
      bindE (requireE (as_object (jget media ''schema'')) (MissingJsonSchema context status_key))
        (\<lambda>_. Inr ())))))))"

text \<open>\<open>operation_response_schema\<close>: the first raw operation with the id decides.\<close>

definition raw_operations :: "object \<Rightarrow> object list" where
  "raw_operations paths =
     concat (map (\<lambda>(_, path_item). case as_object path_item of
         None \<Rightarrow> []
       | Some item \<Rightarrow> List.map_filter (\<lambda>(raw_method, operation).
           if raw_method \<in> set HTTP_METHODS then as_object operation else None) item) paths)"

definition response_schema_of :: "object \<Rightarrow> string \<Rightarrow> json" where
  "response_schema_of operation status_key =
     (case as_object (jget operation ''responses'') of
        None \<Rightarrow> JNull
      | Some responses \<Rightarrow>
          let response = (if truthy (jget responses status_key) then jget responses status_key
                          else jget responses ''default'')
          in case as_object response of
               None \<Rightarrow> JNull
             | Some response \<Rightarrow>
                 (case as_object (jget response ''content'') of
                    None \<Rightarrow> JNull
                  | Some content \<Rightarrow>
                      (case as_object (jget content ''application/json'') of
                         None \<Rightarrow> JNull
                       | Some media \<Rightarrow> jget media ''schema'')))"

definition operation_response_schema ::
    "object \<Rightarrow> string \<Rightarrow> status \<Rightarrow> openapi_error + json" where
  "operation_response_schema doc operation_id status =
     bindE (required_mapping doc ''paths'') (\<lambda>paths.
       case List.find (\<lambda>operation. jget operation ''operationId'' = JStr operation_id)
              (raw_operations paths) of
         None \<Rightarrow> Inl (OperationNotFound operation_id)
       | Some operation \<Rightarrow> Inr (response_schema_of operation (status_str status)))"

section \<open>Path templates\<close>

definition is_brace :: "char \<Rightarrow> bool" where
  "is_brace c \<longleftrightarrow> c = CHR ''{'' \<or> c = CHR ''}''"

definition PATH_PARAMETER_PATTERN :: rx where
  "PATH_PARAMETER_PATTERN =
     Seqs [Lit ''{'', Grp ''1'' (Plus (Cls (\<lambda>c. \<not> is_brace c))), Lit ''}'']"

definition UUID_PATH_FALLBACK :: string where
  "UUID_PATH_FALLBACK = ''00000000-0000-4000-8000-000000000001''"

definition placeholders_of :: "string \<Rightarrow> string list" where
  "placeholders_of path = map (\<lambda>w. the (rx_group ''1'' w)) (rx_finditer PATH_PARAMETER_PATTERN path)"

type_synonym parameters = "(string \<times> object) list"

text \<open>One parameter of the path item or of the operation; \<open>index\<close> counts from zero.\<close>

definition parameter_step ::
    "openapi_operation \<Rightarrow> parameters \<Rightarrow> nat \<times> json \<Rightarrow> openapi_error + parameters" where
  "parameter_step context parameters indexed =
     (let (index, raw) = indexed in
      bindE (requireE (as_object raw) (ParameterNotObject context (index + 1))) (\<lambda>parameter.
        if jget parameter ''in'' \<noteq> JStr ''path'' then Inr parameters
        else case jget parameter ''name'' of
          JStr name \<Rightarrow>
            if name = [] then Inl (ParameterWithoutName context (index + 1))
            else if map_of parameters name \<noteq> None then Inl (DuplicateParameter context name)
            else if jget parameter ''required'' \<noteq> JBool True then Inl (ParameterNotRequired context name)
            else Inr (AList.update name parameter parameters)
        | _ \<Rightarrow> Inl (ParameterWithoutName context (index + 1))))"

definition owner_step ::
    "openapi_operation \<Rightarrow> parameters \<Rightarrow> json \<Rightarrow> openapi_error + parameters" where
  "owner_step context parameters raw_parameters =
     bindE (requireE (as_list raw_parameters) (ParametersNotArray context)) (\<lambda>raws.
       foldE (parameter_step context) parameters (List.enumerate 0 raws))"

definition path_parameters :: "operation_entry \<Rightarrow> openapi_error + parameters" where
  "path_parameters entry =
     foldE (owner_step (en_operation entry)) []
       [jget_default (en_path_item entry) ''parameters'' (JList []),
        jget_default (en_raw entry) ''parameters'' (JList [])]"

definition path_parameter_value ::
    "(rat \<Rightarrow> string) \<Rightarrow> openapi_operation \<Rightarrow> string \<Rightarrow> object \<Rightarrow> openapi_error + string" where
  "path_parameter_value float_str context name parameter =
     bindE (requireE (as_object (jget parameter ''schema'')) (ParameterWithoutSchema context name))
       (\<lambda>schema.
       let example = (if jget parameter ''example'' = JNull then jget schema ''example''
                      else jget parameter ''example'');
           example_value = (\<lambda>value. if value = [] then Inl (EmptyExample context name)
                                    else Inr (quote value))
       in case example of
            JNull \<Rightarrow>
              if jget schema ''type'' = JStr ''integer'' then Inr ''1''
              else if jget schema ''type'' = JStr ''string'' \<and> jget schema ''format'' = JStr ''uuid''
                   then Inr UUID_PATH_FALLBACK
              else if jget schema ''type'' = JStr ''string'' then Inr ''example''
              else Inl (UnsupportedSchema context name)
          | JStr s \<Rightarrow> example_value s
          | JInt i \<Rightarrow> example_value (int_str i)
          | JFloat q \<Rightarrow> example_value (float_str q)
          | _ \<Rightarrow> Inl (UnsupportedExample context name))"

fun first_duplicate :: "'a set \<Rightarrow> 'a list \<Rightarrow> 'a option" where
  "first_duplicate seen [] = None"
| "first_duplicate seen (x # xs) =
     (if x \<in> seen then Some x else first_duplicate (insert x seen) xs)"

definition fill_step ::
    "(rat \<Rightarrow> string) \<Rightarrow> openapi_operation \<Rightarrow> parameters \<Rightarrow> string \<Rightarrow> string \<Rightarrow> openapi_error + string" where
  "fill_step float_str operation parameters materialized placeholder =
     bindE (path_parameter_value float_str operation placeholder
              (the (map_of parameters placeholder))) (\<lambda>v.
       Inr (replace_once (''{'' @ placeholder @ ''}'') v materialized))"

definition materialize_operation_path ::
    "(rat \<Rightarrow> string) \<Rightarrow> operation_entry \<Rightarrow> openapi_error + string" where
  "materialize_operation_path float_str entry =
     (let operation = en_operation entry;
          path = op_path operation;
          placeholders = placeholders_of path
      in if count_list path CHR ''{'' \<noteq> length placeholders
            \<or> count_list path CHR ''}'' \<noteq> length placeholders
         then Inl (UnsupportedTemplate operation)
         else case first_duplicate {} placeholders of
           Some p \<Rightarrow> Inl (DuplicatePlaceholder operation p)
         | None \<Rightarrow>
           bindE (path_parameters entry) (\<lambda>parameters.
             case List.find (\<lambda>p. map_of parameters p = None) placeholders of
               Some p \<Rightarrow> Inl (UndeclaredParameter operation p)
             | None \<Rightarrow>
               (case List.find (\<lambda>n. n \<notin> set placeholders) (map fst parameters) of
                  Some n \<Rightarrow> Inl (UnusedParameter operation n)
                | None \<Rightarrow> foldE (fill_step float_str operation parameters) path placeholders)))"

section \<open>Request cases\<close>

definition case_sort_key :: "request_case \<Rightarrow> string \<times> http_method \<times> string" where
  "case_sort_key c = (rc_path c, rc_method c, rc_id c)"

definition request_case_of ::
    "(rat \<Rightarrow> string) \<Rightarrow> string list \<Rightarrow> operation_entry \<Rightarrow> openapi_error + request_case" where
  "request_case_of float_str status_keys entry =
     bindE (mapE (require_json_response_schema entry) status_keys) (\<lambda>_.
     bindE (materialize_operation_path float_str entry) (\<lambda>path.
       Inr \<lparr>rc_contract = op_contract (en_operation entry), rc_id = op_id (en_operation entry),
            rc_method = op_method (en_operation entry), rc_path = path\<rparr>))"

text \<open>\<open>dict.fromkeys\<close> keeps the first occurrence of every status.\<close>

fun dict_fromkeys :: "'a list \<Rightarrow> 'a list" where
  "dict_fromkeys [] = []"
| "dict_fromkeys (x # xs) = x # dict_fromkeys (filter (\<lambda>y. y \<noteq> x) xs)"

definition build_operation_request_cases ::
    "(rat \<Rightarrow> string) \<Rightarrow> contract_key \<Rightarrow> object \<Rightarrow> status list \<Rightarrow> openapi_error + request_case list" where
  "build_operation_request_cases float_str contract doc required =
     (let status_keys = dict_fromkeys (map status_str required) in
      bindE (validated_operation_entries contract doc) (\<lambda>entries.
      bindE (mapE (request_case_of float_str status_keys) entries) (\<lambda>cases.
        Inr (sort_key case_sort_key cases))))"

definition DESTRUCTIVE_UNAUTHENTICATED_OPERATION_IDS :: "string list" where
  "DESTRUCTIVE_UNAUTHENTICATED_OPERATION_IDS =
     [''batchImportTransactions'', ''bulkDeleteTransactions'', ''deactivateUser'',
      ''deleteTransaction'', ''deleteView'', ''hideFormat'', ''importLatestExchangeRates'',
      ''updateViewTransactions'']"

definition unauthenticated_request_safety_markers :: "request_case \<Rightarrow> string list" where
  "unauthenticated_request_safety_markers c =
     (if rc_method c = GET then [''readonly'', ''production_safe'']
      else if rc_method c = DELETE \<or> rc_id c \<in> set DESTRUCTIVE_UNAUTHENTICATED_OPERATION_IDS
           then [''mutation'', ''destructive'']
      else [''mutation''])"

definition execute_openapi_request_case ::
    "(string \<Rightarrow> string \<Rightarrow> 'w \<Rightarrow> 'r \<times> 'w) \<Rightarrow> rat \<times> rat \<Rightarrow> gateway_client \<Rightarrow> request_case \<Rightarrow> 'w
      \<Rightarrow> url_error + ('r \<times> gateway_client \<times> 'w)" where
  "execute_openapi_request_case send clock client c world =
     api_request send clock client (method_name (rc_method c)) (rc_path c) world"

section \<open>Reading documents\<close>

text \<open>
  \<open>Path.suffix\<close> of a file name, and the two readers: the parsers of the libraries are parameters that
  give the parsed value of a file.  A response is its status and its parsed body.
\<close>

definition path_suffix :: "string \<Rightarrow> string" where
  "path_suffix name =
     (let ext = rev (takeWhile (\<lambda>c. c \<noteq> CHR ''.'') (rev name));
          stem = take (length name - length ext - 1) name
      in if CHR ''.'' \<in> set name \<and> ext \<noteq> [] \<and> stem \<noteq> []
         then CHR ''.'' # ext else [])"

definition load_snapshot ::
    "(string \<Rightarrow> json) \<Rightarrow> (string \<Rightarrow> json) \<Rightarrow> string \<Rightarrow> openapi_error + object" where
  "load_snapshot read_json read_yaml name =
     (let suffix = lower (path_suffix name) in
      bindE (if suffix = ''.json'' then Inr (read_json name)
             else if suffix \<in> set [''.yaml'', ''.yml''] then Inr (read_yaml name)
             else Inl (NotASnapshotFormat name)) (\<lambda>raw.
        requireE (as_object raw) (SnapshotNotObject name)))"

record http_response =
  status_code :: int
  response_json :: json

definition fetch_live_openapi ::
    "(string \<Rightarrow> string \<Rightarrow> 'w \<Rightarrow> http_response \<times> 'w) \<Rightarrow> rat \<times> rat \<Rightarrow> gateway_client \<Rightarrow> string \<Rightarrow> 'w
      \<Rightarrow> (openapi_error + object) \<times> gateway_client \<times> 'w" where
  "fetch_live_openapi send clock client path world =
     (case raw_request send clock client ''GET'' path world of
        Inl e \<Rightarrow> (Inl (TransportUrl e), client, world)
      | Inr (response, client', world') \<Rightarrow>
          (if status_code response \<noteq> 200 then Inl (FetchFailed path (status_code response))
           else requireE (as_object (response_json response)) (ResponseNotObject path),
           client', world'))"

section \<open>The forbidden-response manifest\<close>

datatype deferral_reason =
    NoRestrictedScenario | AdminIdentityRequired | GlobalMutationNotAuthorized

fun reason_name :: "deferral_reason \<Rightarrow> string" where
  "reason_name NoRestrictedScenario = ''no_restricted_normal_user_scenario''"
| "reason_name AdminIdentityRequired = ''admin_identity_and_safety_plan_required''"
| "reason_name GlobalMutationNotAuthorized = ''global_mutation_not_authorized''"

definition reason_of_name :: "string \<Rightarrow> deferral_reason option" where
  "reason_of_name s = List.find (\<lambda>r. reason_name r = s)
     [NoRestrictedScenario, AdminIdentityRequired, GlobalMutationNotAuthorized]"

record forbidden_deferral =
  fd_id :: string
  fd_method :: http_method
  fd_path :: string
  fd_reason :: deferral_reason

datatype manifest_error =
    ManifestNotMapping
  | ManifestWithoutList
  | EntryNotMapping nat
  | EntryWithoutId nat
  | EntryMethod string
  | EntryPath string
  | EntryReason string

text \<open>The checks the two operation manifests share: id, method and path of entry number \<open>index + 1\<close>.\<close>

definition manifest_operation ::
    "object \<Rightarrow> nat \<Rightarrow> manifest_error + (string \<times> http_method \<times> string)" where
  "manifest_operation raw index =
     bindE (requireE (as_string (jget raw ''operationId'')) (EntryWithoutId (index + 1))) (\<lambda>operation_id.
       if operation_id = [] then Inl (EntryWithoutId (index + 1))
       else bindE (requireE (Option.bind (as_string (jget raw ''method'')) method_of_name)
                     (EntryMethod operation_id)) (\<lambda>m.
            bindE (requireE (as_string (jget raw ''path'')) (EntryPath operation_id)) (\<lambda>path.
              if startswith path ''/'' then Inr (operation_id, m, path)
              else Inl (EntryPath operation_id))))"

definition manifest_list :: "string \<Rightarrow> json \<Rightarrow> manifest_error + json list" where
  "manifest_list field raw_manifest =
     bindE (requireE (as_object raw_manifest) ManifestNotMapping) (\<lambda>manifest.
       requireE (as_list (jget manifest field)) ManifestWithoutList)"

definition load_forbidden_deferral :: "nat \<times> json \<Rightarrow> manifest_error + forbidden_deferral" where
  "load_forbidden_deferral indexed =
     (let (index, raw_deferral) = indexed in
      bindE (requireE (as_object raw_deferral) (EntryNotMapping (index + 1))) (\<lambda>raw.
      bindE (manifest_operation raw index) (\<lambda>(operation_id, m, path).
      bindE (requireE (Option.bind (as_string (jget raw ''reason'')) reason_of_name)
               (EntryReason operation_id)) (\<lambda>r.
        Inr \<lparr>fd_id = operation_id, fd_method = m, fd_path = path, fd_reason = r\<rparr>))))"

definition load_forbidden_response_deferrals ::
    "json \<Rightarrow> manifest_error + forbidden_deferral list" where
  "load_forbidden_response_deferrals raw_manifest =
     bindE (manifest_list ''deferred_forbidden_responses'' raw_manifest) (\<lambda>raws.
       mapE load_forbidden_deferral (List.enumerate 0 raws))"

section \<open>The entries of a document\<close>

text \<open>
  The members of a document that are operations, and the entry one of them describes: \<open>None\<close> when it is
  malformed.
\<close>

type_synonym member = "string \<times> object \<times> string \<times> json"

definition documented_members :: "object \<Rightarrow> member list" where
  "documented_members paths =
     concat (map (\<lambda>(path, path_item). case as_object path_item of
         None \<Rightarrow> []
       | Some item \<Rightarrow> map (\<lambda>m. (path, item, m)) (filter (\<lambda>m. fst m \<in> set HTTP_METHODS) item)) paths)"

lemma documented_members_mem:
  "(path, item, m, operation) \<in> set (documented_members paths) \<longleftrightarrow>
   (path, JObj item) \<in> set paths \<and> (m, operation) \<in> set item \<and> m \<in> set HTTP_METHODS"
proof (induction paths)
  case (Cons p paths)
  obtain q v where p: "p = (q, v)" by (cases p)
  show ?case
    using Cons by (cases "as_object v") (auto simp: p documented_members_def)
qed (simp add: documented_members_def)

text \<open>
  The contract of a loop over the documented operations: a step skips the members that are not
  operations, and on an operation it succeeds exactly when the member is well formed (\<open>describe\<close> gives
  what it describes) and its key is new, which it then records.  Two components loop this way.
\<close>

locale operation_loop =
  fixes step :: "string \<Rightarrow> object \<Rightarrow> 's \<Rightarrow> string \<times> json \<Rightarrow> 'e + 's"
    and describe :: "member \<Rightarrow> 'd option"
    and key :: "'d \<Rightarrow> string"
    and state :: "'d list \<Rightarrow> 's"
  assumes skip: "fst m \<notin> set HTTP_METHODS \<Longrightarrow> step path item st m = Inr st"
    and accept: "fst m \<in> set HTTP_METHODS \<Longrightarrow> step path item (state ds) m = Inr st \<longleftrightarrow>
      (\<exists>d. describe (path, item, m) = Some d \<and> key d \<notin> set (map key ds) \<and> st = state (ds @ [d]))"
begin

lemma flat_item:
  "foldE (step path item) st ms =
   foldE (\<lambda>st x. step (fst x) (fst (snd x)) st (snd (snd x))) st
     (map (\<lambda>m. (path, item, m)) (filter (\<lambda>m. fst m \<in> set HTTP_METHODS) ms))"
proof (induction ms arbitrary: st)
  case (Cons m ms)
  then show ?case by (cases "fst m \<in> set HTTP_METHODS") (simp_all add: skip)
qed simp

lemma flat_paths:
  "foldE (\<lambda>st p. case as_object (snd p) of None \<Rightarrow> Inr st | Some item \<Rightarrow> foldE (step (fst p) item) st item)
     st paths =
   foldE (\<lambda>st x. step (fst x) (fst (snd x)) st (snd (snd x))) st (documented_members paths)"
proof (induction paths arbitrary: st)
  case (Cons p paths)
  obtain path v where p: "p = (path, v)" by (cases p)
  show ?case
    using Cons by (cases "as_object v") (simp_all add: p documented_members_def flat_item foldE_append)
qed (simp add: documented_members_def)

lemma members_ok:
  assumes "\<forall>x \<in> set xs. fst (snd (snd x)) \<in> set HTTP_METHODS"
  shows "foldE (\<lambda>st x. step (fst x) (fst (snd x)) st (snd (snd x))) (state ds) xs = Inr st \<longleftrightarrow>
    (\<exists>new. list_all2 (\<lambda>x d. describe x = Some d) xs new \<and>
       distinct (map key new) \<and> set (map key ds) \<inter> set (map key new) = {} \<and> st = state (ds @ new))"
  using assms
proof (induction xs arbitrary: ds)
  case (Cons x xs)
  then have x: "fst (snd (snd x)) \<in> set HTTP_METHODS" by simp
  note first = accept [OF x, of "fst x" "fst (snd x)", unfolded prod.collapse]
  have IH: "foldE (\<lambda>st x. step (fst x) (fst (snd x)) st (snd (snd x))) (state (ds @ [d])) xs = Inr st \<longleftrightarrow>
    (\<exists>new. list_all2 (\<lambda>x d. describe x = Some d) xs new \<and> distinct (map key new) \<and>
       set (map key (ds @ [d])) \<inter> set (map key new) = {} \<and> st = state (ds @ d # new))" for d
    using Cons.IH [of "ds @ [d]"] Cons.prems by simp
  have "foldE (\<lambda>st x. step (fst x) (fst (snd x)) st (snd (snd x))) (state ds) (x # xs) = Inr st \<longleftrightarrow>
    (\<exists>d new. describe x = Some d \<and> key d \<notin> set (map key ds) \<and>
       list_all2 (\<lambda>x d. describe x = Some d) xs new \<and> distinct (map key new) \<and>
       set (map key (ds @ [d])) \<inter> set (map key new) = {} \<and> st = state (ds @ d # new))"
    by (simp only: foldE.simps bindE_ok first) (use IH in blast)
  also have "\<dots> \<longleftrightarrow> (\<exists>d new. describe x = Some d \<and>
       list_all2 (\<lambda>x d. describe x = Some d) xs new \<and> distinct (map key (d # new)) \<and>
       set (map key ds) \<inter> set (map key (d # new)) = {} \<and> st = state (ds @ d # new))"
    by auto
  also have "\<dots> \<longleftrightarrow> (\<exists>new. list_all2 (\<lambda>x d. describe x = Some d) (x # xs) new \<and>
       distinct (map key new) \<and> set (map key ds) \<inter> set (map key new) = {} \<and> st = state (ds @ new))"
    by (simp only: list_all2_Cons1) blast
  finally show ?case .
qed auto

text \<open>The whole loop, from the empty state.\<close>

lemma loop_ok:
  "foldE (\<lambda>st p. case as_object (snd p) of None \<Rightarrow> Inr st | Some item \<Rightarrow> foldE (step (fst p) item) st item)
     (state []) paths = Inr st \<longleftrightarrow>
   (\<exists>ds. list_all2 (\<lambda>x d. describe x = Some d) (documented_members paths) ds \<and>
      distinct (map key ds) \<and> st = state ds)"
proof -
  have "\<forall>x \<in> set (documented_members paths). fst (snd (snd x)) \<in> set HTTP_METHODS"
    by (auto simp: documented_members_def split: option.splits)
  from members_ok [OF this, of "[]" st] show ?thesis by (simp add: flat_paths)
qed

end

definition entry_of :: "contract_key \<Rightarrow> member \<Rightarrow> operation_entry option" where
  "entry_of contract x =
     (let (path, item, raw_method, operation) = x in
      case (operation, method_of_name (upper raw_method)) of
        (JObj raw, Some m) \<Rightarrow>
          (case jget raw ''operationId'' of
             JStr operation_id \<Rightarrow>
               if strip operation_id = [] then None
               else Some \<lparr>en_operation = \<lparr>op_contract = contract, op_id = operation_id,
                            op_method = m, op_path = path\<rparr>, en_path_item = item, en_raw = raw\<rparr>
           | _ \<Rightarrow> None)
      | _ \<Rightarrow> None)"

abbreviation entry_id :: "operation_entry \<Rightarrow> string" where
  "entry_id e \<equiv> op_id (en_operation e)"

definition state_of :: "operation_entry list \<Rightarrow> entry_state" where
  "state_of es = \<lparr>es_entries = es, es_by_id = map (\<lambda>e. (entry_id e, en_operation e)) es\<rparr>"

lemma http_methods_known: "m \<in> set HTTP_METHODS \<Longrightarrow> \<exists>k. method_of_name (upper m) = Some k"
proof -
  have "\<forall>m \<in> set HTTP_METHODS. method_of_name (upper m) \<noteq> None" by code_simp
  then show "m \<in> set HTTP_METHODS \<Longrightarrow> \<exists>k. method_of_name (upper m) = Some k" by auto
qed

lemma map_of_state: "map_of (es_by_id (state_of es)) i = None \<longleftrightarrow> i \<notin> set (map entry_id es)"
  by (force simp: state_of_def map_of_eq_None_iff)

lemma entry_step_accept:
  assumes m: "fst m \<in> set HTTP_METHODS"
  shows "entry_step contract path item (state_of es) m = Inr st \<longleftrightarrow>
    (\<exists>e. entry_of contract (path, item, m) = Some e \<and> entry_id e \<notin> set (map entry_id es) \<and>
       st = state_of (es @ [e]))"
proof -
  obtain k operation where x: "m = (k, operation)" by (cases m)
  have k: "k \<in> set HTTP_METHODS" using m by (simp add: x)
  then obtain h where h: "method_of_name (upper k) = Some h" using http_methods_known by blast
  show ?thesis
  proof (cases operation)
    case (JObj raw)
    show ?thesis
    proof (cases "jget raw ''operationId''")
      case (JStr i)
      show ?thesis
      proof (cases "i \<in> set (map entry_id es)")
        case True
        then obtain q where "map_of (es_by_id (state_of es)) i = Some q"
          using map_of_state [of es i] by auto
        then show ?thesis
          using True by (simp add: x entry_step_def entry_of_def JObj JStr k h
              normalize_method_def Let_def)
      next
        case False
        then have "map_of (es_by_id (state_of es)) i = None" using map_of_state by blast
        then show ?thesis
          using False by (auto simp: x entry_step_def entry_of_def JObj JStr k h
              normalize_method_def Let_def update_new state_of_def)
      qed
    qed (simp_all add: x entry_step_def entry_of_def JObj k h Let_def)
  qed (simp_all add: x entry_step_def entry_of_def as_object_def k)
qed

lemma entry_step_skip: "fst m \<notin> set HTTP_METHODS \<Longrightarrow> entry_step contract path item st m = Inr st"
  by (cases m) (simp add: entry_step_def)

interpretation entry_loop: operation_loop "entry_step contract" "entry_of contract" entry_id state_of
  for contract
  by unfold_locales (erule entry_step_skip, erule entry_step_accept)

lemma validated_entries_iff:
  "validated_operation_entries contract doc = Inr entries \<longleftrightarrow>
   (\<exists>paths. jget doc ''paths'' = JObj paths \<and>
      list_all2 (\<lambda>x e. entry_of contract x = Some e) (documented_members paths) entries \<and>
      distinct (map entry_id entries))"
proof -
  have init: "\<lparr>es_entries = [], es_by_id = []\<rparr> = state_of []" by (simp add: state_of_def)
  have es: "es_entries (state_of es) = es" for es by (simp add: state_of_def)
  have "foldE (path_step contract) (state_of []) paths = Inr st \<longleftrightarrow>
    (\<exists>es. list_all2 (\<lambda>x e. entry_of contract x = Some e) (documented_members paths) es \<and>
       distinct (map entry_id es) \<and> st = state_of es)" for paths st
    unfolding path_step_def by (rule entry_loop.loop_ok)
  then show ?thesis
    unfolding validated_operation_entries_def required_mapping_def init
    by (auto simp: ok_iff es) (metis es)
qed

section \<open>Filling a template\<close>

text \<open>
  The specification of a template: literal pieces without braces and named holes.  A template text that
  passes the brace count is one, and the loop of first-occurrence replacements fills its holes.
\<close>

datatype piece = Text string | Hole string

fun piece_text :: "piece \<Rightarrow> string" where
  "piece_text (Text u) = u"
| "piece_text (Hole n) = ''{'' @ n @ ''}''"

fun piece_ok :: "piece \<Rightarrow> bool" where
  "piece_ok (Text u) = list_all (\<lambda>c. \<not> is_brace c) u"
| "piece_ok (Hole n) = (n \<noteq> [] \<and> list_all (\<lambda>c. \<not> is_brace c) n)"

definition template_text :: "piece list \<Rightarrow> string" where
  "template_text ps = concat (map piece_text ps)"

fun holes :: "piece list \<Rightarrow> string list" where
  "holes [] = []"
| "holes (Text u # ps) = holes ps"
| "holes (Hole n # ps) = n # holes ps"

fun expand :: "(string \<Rightarrow> string) \<Rightarrow> piece list \<Rightarrow> string" where
  "expand f [] = []"
| "expand f (Text u # ps) = u @ expand f ps"
| "expand f (Hole n # ps) = f n @ expand f ps"

lemma PATH_PARAMETER_match:
  assumes "rx_match PATH_PARAMETER_PATTERN s = Some w"
  shows "\<exists>n. n \<noteq> [] \<and> list_all (\<lambda>c. \<not> is_brace c) n \<and> s = ''{'' @ n @ ''}'' @ way_rest w \<and>
    way_text w \<noteq> [] \<and> rx_group ''1'' w = Some n"
proof -
  let ?name = "Plus (Cls (\<lambda>c. \<not> is_brace c))"
  have w: "w \<in> set (ways PATH_PARAMETER_PATTERN s)" using assms by (rule rx_match_some)
  obtain a v b where a: "a \<in> set (ways (Lit ''{'') s)" and v: "v \<in> set (ways ?name (way_rest a))"
    and b: "b \<in> set (ways (Lit ''}'') (way_rest v))"
    and wt: "way_text w = way_text a @ way_text v @ way_text b"
      "way_groups w = way_groups a @ (''1'', way_text v) # way_groups v @ way_groups b"
      "way_rest w = way_rest b"
    using w unfolding PATH_PARAMETER_PATTERN_def by (auto simp del: Lit.simps)
  have "way_text v \<in> lang ?name" and vs: "way_rest a = way_text v @ way_rest v"
    using ways_sound [OF v] by auto
  then have n: "way_text v \<noteq> []" "list_all (\<lambda>c. \<not> is_brace c) (way_text v)"
    using lang_Plus_Cls by blast+
  have av: "a = Way ''{'' [] (drop 1 s)" "prefix ''{'' s" using a by (auto simp: ways_Lit simp del: Lit.simps split: if_splits)
  have bv: "b = Way ''}'' [] (drop 1 (way_rest v))" "prefix ''}'' (way_rest v)"
    using b by (auto simp: ways_Lit simp del: Lit.simps split: if_splits)
  have "way_groups v = []" using group_free_ways [OF _ v] by (simp add: Plus_def)
  moreover have "s = ''{'' @ way_text v @ ''}'' @ way_rest w"
    using av bv vs wt by (auto simp: prefix_def)
  ultimately show ?thesis
    using n av bv wt by (auto simp: rx_group_def)
qed

lemma is_brace_count:
  "list_all (\<lambda>c. \<not> is_brace c) n \<Longrightarrow> count_list n CHR ''{'' = 0 \<and> count_list n CHR ''}'' = 0"
  by (induction n) (auto simp: is_brace_def)

lemma placeholders_of_match:
  assumes "rx_match PATH_PARAMETER_PATTERN s = Some w"
  shows "\<exists>n. n \<noteq> [] \<and> list_all (\<lambda>c. \<not> is_brace c) n \<and> s = ''{'' @ n @ ''}'' @ way_rest w \<and>
    placeholders_of s = n # placeholders_of (way_rest w)"
  using PATH_PARAMETER_match [OF assms] assms
  by (auto simp: placeholders_of_def rx_finditer.simps [of _ s])

lemma placeholders_of_nomatch:
  "rx_match PATH_PARAMETER_PATTERN (c # s) = None \<Longrightarrow> placeholders_of (c # s) = placeholders_of s"
  by (simp add: placeholders_of_def rx_finditer.simps [of _ "c # s"])

lemma placeholders_of_Nil: "placeholders_of [] = []"
proof (cases "rx_match PATH_PARAMETER_PATTERN []")
  case None
  then show ?thesis by (simp add: placeholders_of_def rx_finditer.simps [of _ "[]"])
next
  case (Some w)
  then show ?thesis using placeholders_of_match [of "[]" w] by auto
qed

text \<open>Every placeholder accounts for one brace of either kind; when no brace is left over, the text is a template.\<close>

lemma placeholders_template:
  "length (placeholders_of s) \<le> count_list s CHR ''{'' \<and>
   length (placeholders_of s) \<le> count_list s CHR ''}'' \<and>
   (count_list s CHR ''{'' = length (placeholders_of s) \<and>
    count_list s CHR ''}'' = length (placeholders_of s) \<longrightarrow>
      (\<exists>ps. list_all piece_ok ps \<and> s = template_text ps \<and> holes ps = placeholders_of s))"
proof (induction s rule: length_induct)
  case (1 s)
  show ?case
  proof (cases s)
    case Nil
    then show ?thesis
      by (auto simp: placeholders_of_Nil template_text_def intro: exI [of _ "[]"])
  next
    case (Cons c t)
    show ?thesis
    proof (cases "rx_match PATH_PARAMETER_PATTERN s")
      case None
      have IH: "length (placeholders_of t) \<le> count_list t CHR ''{''"
        "length (placeholders_of t) \<le> count_list t CHR ''}''"
        "count_list t CHR ''{'' = length (placeholders_of t) \<and>
         count_list t CHR ''}'' = length (placeholders_of t) \<Longrightarrow>
         \<exists>ps. list_all piece_ok ps \<and> t = template_text ps \<and> holes ps = placeholders_of t"
        using 1 [rule_format, of t] by (auto simp: Cons)
      have s: "placeholders_of s = placeholders_of t"
        using None placeholders_of_nomatch Cons by simp
      have "\<exists>ps. list_all piece_ok ps \<and> s = template_text ps \<and> holes ps = placeholders_of s"
        if c: "count_list s CHR ''{'' = length (placeholders_of s)"
          "count_list s CHR ''}'' = length (placeholders_of s)"
      proof -
        have "\<not> is_brace c" "count_list t CHR ''{'' = length (placeholders_of t)"
          "count_list t CHR ''}'' = length (placeholders_of t)"
          using c IH(1,2) by (auto simp: Cons s [unfolded Cons] is_brace_def split: if_splits)
        with IH(3) obtain ps where ps: "list_all piece_ok ps" "t = template_text ps"
          "holes ps = placeholders_of t" by blast
        then have "list_all piece_ok (Text [c] # ps)" "s = template_text (Text [c] # ps)"
          "holes (Text [c] # ps) = placeholders_of s"
          using \<open>\<not> is_brace c\<close> s by (auto simp: Cons template_text_def)
        then show ?thesis by blast
      qed
      then show ?thesis
        using IH(1,2) s by (auto simp: Cons)
    next
      case (Some w)
      obtain n where n: "n \<noteq> []" "list_all (\<lambda>c. \<not> is_brace c) n" "s = ''{'' @ n @ ''}'' @ way_rest w"
        "placeholders_of s = n # placeholders_of (way_rest w)"
        using placeholders_of_match [OF Some] by blast
      let ?t = "way_rest w"
      have "length ?t < length s" by (simp add: n(3))
      then have IH: "length (placeholders_of ?t) \<le> count_list ?t CHR ''{''"
        "length (placeholders_of ?t) \<le> count_list ?t CHR ''}''"
        "count_list ?t CHR ''{'' = length (placeholders_of ?t) \<and>
         count_list ?t CHR ''}'' = length (placeholders_of ?t) \<Longrightarrow>
         \<exists>ps. list_all piece_ok ps \<and> ?t = template_text ps \<and> holes ps = placeholders_of ?t"
        using 1 by blast+
      have count: "count_list s CHR ''{'' = Suc (count_list ?t CHR ''{'')"
        "count_list s CHR ''}'' = Suc (count_list ?t CHR ''}'')"
        using is_brace_count [OF n(2)] by (simp_all add: n(3))
      have "\<exists>ps. list_all piece_ok ps \<and> s = template_text ps \<and> holes ps = placeholders_of s"
        if "count_list ?t CHR ''{'' = length (placeholders_of ?t) \<and>
            count_list ?t CHR ''}'' = length (placeholders_of ?t)"
      proof -
        from IH(3) [OF that] obtain ps where "list_all piece_ok ps" "?t = template_text ps"
          "holes ps = placeholders_of ?t" by blast
        then have "list_all piece_ok (Hole n # ps)" "s = template_text (Hole n # ps)"
          "holes (Hole n # ps) = placeholders_of s"
          using n by (simp_all add: template_text_def)
        then show ?thesis by blast
      qed
      then show ?thesis
        using IH(1,2) count n(4) by auto
    qed
  qed
qed

lemma replace_once_at:
  "CHR ''{'' \<notin> set done \<Longrightarrow>
   replace_once (CHR ''{'' # u) v (done @ CHR ''{'' # u @ rest) = done @ v @ rest"
proof -
  have "CHR ''{'' \<notin> set done \<Longrightarrow>
    split_first (CHR ''{'' # u) (done @ CHR ''{'' # u @ rest) = Some (done, rest)"
    by (induction "done") auto
  then show "CHR ''{'' \<notin> set done \<Longrightarrow> ?thesis" by (simp add: replace_once_def)
qed

definition unreserved_segment :: "string \<Rightarrow> bool" where
  "unreserved_segment v \<longleftrightarrow> v \<noteq> [] \<and>
     list_all (\<lambda>c. c \<notin> set ''/?#{}'') v"

lemma unreserved_quote: "s \<noteq> [] \<Longrightarrow> unreserved_segment (quote s)"
  using quote_free [of _ s] by (auto simp: unreserved_segment_def quote_not_Nil list_all_iff)

lemma path_parameter_value_segment:
  assumes "path_parameter_value float_str context name parameter = Inr v"
  shows "unreserved_segment v"
proof -
  have "unreserved_segment ''1''" "unreserved_segment UUID_PATH_FALLBACK" "unreserved_segment ''example''"
    by (simp_all add: unreserved_segment_def UUID_PATH_FALLBACK_def)
  note fallbacks = this
  obtain schema where schema: "jget parameter ''schema'' = JObj schema"
    using assms by (auto simp: path_parameter_value_def ok_iff)
  define example where "example = (if jget parameter ''example'' = JNull then jget schema ''example''
    else jget parameter ''example'')"
  show ?thesis
    using assms fallbacks unfolding path_parameter_value_def schema
    by (cases example) (auto simp: Let_def unreserved_quote simp flip: example_def split: if_splits)
qed

lemma fill_ok:
  fixes float_str :: "rat \<Rightarrow> string" and operation :: openapi_operation and parameters :: parameters
  assumes "list_all piece_ok ps" and "CHR ''{'' \<notin> set done"
  defines "val \<equiv> \<lambda>n. path_parameter_value float_str operation n (the (map_of parameters n))"
  shows "foldE (fill_step float_str operation parameters) (done @ template_text ps) (holes ps) = Inr m
    \<longleftrightarrow> (\<forall>n \<in> set (holes ps). \<exists>v. val n = Inr v) \<and> m = done @ expand (\<lambda>n. projr (val n)) ps"
  using assms(1,2)
proof (induction ps arbitrary: "done" rule: holes.induct)
  case 1
  then show ?case by (auto simp: template_text_def)
next
  case (2 u ps)
  then have free: "CHR ''{'' \<notin> set (done @ u)" by (auto simp: list_all_iff is_brace_def)
  have "list_all piece_ok ps" using "2.prems"(1) by simp
  from "2.IH" [OF this free] show ?case by (simp add: template_text_def)
next
  case (3 n ps)
  show ?case
  proof (cases "val n")
    case (Inl e)
    then show ?thesis by (simp add: fill_step_def val_def)
  next
    case (Inr v)
    then have "unreserved_segment v" unfolding val_def by (rule path_parameter_value_segment)
    then have free: "CHR ''{'' \<notin> set (done @ v)"
      using "3.prems"(2) by (auto simp: unreserved_segment_def list_all_iff)
    have "fill_step float_str operation parameters (done @ template_text (Hole n # ps)) n
        = Inr ((done @ v) @ template_text ps)"
      using Inr replace_once_at [OF "3.prems"(2), of "n @ ''}''" v "template_text ps"]
      by (simp add: fill_step_def val_def template_text_def)
    moreover have "list_all piece_ok ps" using "3.prems"(1) by simp
    ultimately show ?thesis
      using "3.IH" [OF _ free] Inr by simp
  qed
qed

lemma first_duplicate_None: "first_duplicate seen xs = None \<longleftrightarrow> distinct xs \<and> set xs \<inter> seen = {}"
  by (induction xs arbitrary: seen) auto

text \<open>The template behind a path text is found again: the scan sees its holes.\<close>

lemma template_counts:
  "list_all piece_ok ps \<Longrightarrow> count_list (template_text ps) CHR ''{'' = length (holes ps) \<and>
     count_list (template_text ps) CHR ''}'' = length (holes ps)"
proof (induction ps rule: holes.induct)
  case (2 u ps)
  then show ?case using is_brace_count [of u] by (simp add: template_text_def)
next
  case (3 n ps)
  then show ?case using is_brace_count [of n] by (simp add: template_text_def)
qed (simp add: template_text_def)

lemma placeholders_of_plain:
  "list_all (\<lambda>c. \<not> is_brace c) u \<Longrightarrow> placeholders_of (u @ s) = placeholders_of s"
proof (induction u)
  case (Cons c u)
  have "rx_match PATH_PARAMETER_PATTERN (c # u @ s) = None"
  proof (rule ccontr)
    assume "rx_match PATH_PARAMETER_PATTERN (c # u @ s) \<noteq> None"
    then obtain w where "rx_match PATH_PARAMETER_PATTERN (c # u @ s) = Some w" by blast
    from PATH_PARAMETER_match [OF this] Cons.prems show False by (auto simp: is_brace_def)
  qed
  then show ?case using Cons placeholders_of_nomatch by simp
qed simp

lemma brace_free_append:
  assumes "list_all (\<lambda>c. \<not> is_brace c) n" "list_all (\<lambda>c. \<not> is_brace c) n'"
    and "n @ CHR ''}'' # s = n' @ CHR ''}'' # s'"
  shows "n = n' \<and> s = s'"
proof -
  have "takeWhile (\<lambda>c. \<not> is_brace c) (n @ CHR ''}'' # s) = n"
    "takeWhile (\<lambda>c. \<not> is_brace c) (n' @ CHR ''}'' # s') = n'"
    using assms(1,2) by (simp_all add: takeWhile_append2 list_all_iff is_brace_def)
  with assms(3) show ?thesis by simp
qed

lemma placeholders_of_hole:
  assumes "n \<noteq> []" "list_all (\<lambda>c. \<not> is_brace c) n"
  shows "placeholders_of (''{'' @ n @ ''}'' @ s) = n # placeholders_of s"
proof -
  let ?t = "''{'' @ n @ ''}'' @ s"
  have "n \<in> lang (Plus (Cls (\<lambda>c. \<not> is_brace c)))" using assms by (simp add: lang_Plus_Cls)
  then have "''{'' @ n @ ''}'' \<in> lang PATH_PARAMETER_PATTERN"
    unfolding PATH_PARAMETER_PATTERN_def by (auto simp del: Lit.simps)
  moreover have "?t = (''{'' @ n @ ''}'') @ s" by simp
  ultimately obtain w where w: "rx_match PATH_PARAMETER_PATTERN ?t = Some w"
    using rx_match_None [of PATH_PARAMETER_PATTERN ?t] by blast
  from placeholders_of_match [OF this] obtain n' where
    n': "list_all (\<lambda>c. \<not> is_brace c) n'" "?t = ''{'' @ n' @ ''}'' @ way_rest w"
    "placeholders_of ?t = n' # placeholders_of (way_rest w)" by blast
  have "n @ CHR ''}'' # s = n' @ CHR ''}'' # way_rest w" using n'(2) by simp
  from brace_free_append [OF assms(2) n'(1) this] n'(3) show ?thesis by simp
qed

lemma placeholders_of_template:
  "list_all piece_ok ps \<Longrightarrow> placeholders_of (template_text ps) = holes ps"
proof (induction ps rule: holes.induct)
  case 1
  then show ?case by (simp add: template_text_def placeholders_of_Nil)
next
  case (2 u ps)
  then show ?case by (simp add: template_text_def placeholders_of_plain)
next
  case (3 n ps)
  then show ?case
    using placeholders_of_hole [of n "template_text ps"] by (simp add: template_text_def)
qed

lemma materialize_complete:
  assumes "\<exists>ps parameters value_of. list_all piece_ok ps \<and>
    op_path (en_operation entry) = template_text ps \<and>
    distinct (holes ps) \<and> path_parameters entry = Inr parameters \<and>
    set (map fst parameters) = set (holes ps) \<and>
    (\<forall>n \<in> set (holes ps). path_parameter_value float_str (en_operation entry) n
       (the (map_of parameters n)) = Inr (value_of n)) \<and> m = expand value_of ps"
  shows "materialize_operation_path float_str entry = Inr m"
proof -
  let ?path = "op_path (en_operation entry)"
  obtain ps parameters value_of where ps: "list_all piece_ok ps" "?path = template_text ps"
    "distinct (holes ps)" and params: "path_parameters entry = Inr parameters"
    "set (map fst parameters) = set (holes ps)"
    and vals: "\<forall>n \<in> set (holes ps). path_parameter_value float_str (en_operation entry) n
       (the (map_of parameters n)) = Inr (value_of n)" and m: "m = expand value_of ps"
    using assms by blast
  have scan: "placeholders_of ?path = holes ps" "count_list ?path CHR ''{'' = length (holes ps)"
    "count_list ?path CHR ''}'' = length (holes ps)"
    using placeholders_of_template template_counts ps(1,2) by auto
  have "first_duplicate {} (holes ps) = None" using ps(3) by (simp add: first_duplicate_None)
  moreover have "List.find (\<lambda>p. map_of parameters p = None) (holes ps) = None"
    using params(2) by (auto simp: find_None_iff map_of_eq_None_iff)
  moreover have "List.find (\<lambda>n. n \<notin> set (holes ps)) (map fst parameters) = None"
    using params(2) by (auto simp: find_None_iff)
  moreover have "expand (\<lambda>n. projr (path_parameter_value float_str (en_operation entry) n
      (the (map_of parameters n)))) ps = m"
    using vals unfolding m by (induction ps rule: holes.induct) auto
  then have "foldE (fill_step float_str (en_operation entry) parameters) ?path (holes ps) = Inr m"
    using fill_ok [OF ps(1), of "[]" float_str "en_operation entry" parameters m] vals ps(2) by auto
  ultimately show ?thesis
    by (simp add: materialize_operation_path_def Let_def scan params(1))
qed

lemma materialize_sound:
  assumes "materialize_operation_path float_str entry = Inr m"
  shows "\<exists>ps parameters value_of. list_all piece_ok ps \<and>
    op_path (en_operation entry) = template_text ps \<and>
    distinct (holes ps) \<and> path_parameters entry = Inr parameters \<and>
    set (map fst parameters) = set (holes ps) \<and>
    (\<forall>n \<in> set (holes ps). path_parameter_value float_str (en_operation entry) n
       (the (map_of parameters n)) = Inr (value_of n)) \<and> m = expand value_of ps"
proof -
  note m = assms
  let ?path = "op_path (en_operation entry)"
  from m have counts: "count_list ?path CHR ''{'' = length (placeholders_of ?path)"
    "count_list ?path CHR ''}'' = length (placeholders_of ?path)"
    and dup: "distinct (placeholders_of ?path)"
    by (auto simp: materialize_operation_path_def Let_def first_duplicate_None
        split: if_splits option.splits)
  then obtain ps where ps: "list_all piece_ok ps" "?path = template_text ps"
    "holes ps = placeholders_of ?path"
    using placeholders_template [of ?path] by blast
  from m counts dup obtain parameters where
    params: "path_parameters entry = Inr parameters"
    and declared: "\<forall>p \<in> set (holes ps). map_of parameters p \<noteq> None"
    and used: "\<forall>n \<in> set (map fst parameters). n \<in> set (holes ps)"
    and fill: "foldE (fill_step float_str (en_operation entry) parameters) ?path (holes ps) = Inr m"
    by (auto simp: materialize_operation_path_def Let_def ps(3) ok_iff find_None_iff
        split: if_splits option.splits)
  have keys: "set (map fst parameters) = set (holes ps)"
    using declared used by (auto simp: map_of_eq_None_iff)
  let ?val = "\<lambda>n. path_parameter_value float_str (en_operation entry) n (the (map_of parameters n))"
  have filled: "\<forall>n \<in> set (holes ps). \<exists>v. ?val n = Inr v" "m = expand (\<lambda>n. projr (?val n)) ps"
    using fill fill_ok [OF ps(1), of "[]" float_str "en_operation entry" parameters m]
    by (auto simp: ps(2))
  have vals: "\<forall>n \<in> set (holes ps). ?val n = Inr (projr (?val n))"
    using filled(1) by fastforce
  have "distinct (holes ps)" using dup ps(3) by simp
  with ps(1,2) params keys filled(2) vals
  show "\<exists>ps parameters value_of. list_all piece_ok ps \<and> ?path = template_text ps \<and>
      distinct (holes ps) \<and> path_parameters entry = Inr parameters \<and>
      set (map fst parameters) = set (holes ps) \<and>
      (\<forall>n \<in> set (holes ps). path_parameter_value float_str (en_operation entry) n
         (the (map_of parameters n)) = Inr (value_of n)) \<and> m = expand value_of ps"
    by (intro exI [of _ ps] exI [of _ parameters] exI [of _ "\<lambda>n. projr (?val n)"]) blast
qed

lemma unreserved_brace_free: "unreserved_segment v \<Longrightarrow> list_all (\<lambda>c. \<not> is_brace c) v"
  by (auto simp: unreserved_segment_def is_brace_def list_all_iff)

lemma expand_brace_free:
  "list_all piece_ok ps \<Longrightarrow> \<forall>n \<in> set (holes ps). list_all (\<lambda>c. \<not> is_brace c) (f n) \<Longrightarrow>
   list_all (\<lambda>c. \<not> is_brace c) (expand f ps)"
  by (induction ps rule: holes.induct) simp_all

lemma entries_contract:
  assumes "validated_operation_entries contract doc = Inr entries"
  shows "\<forall>e \<in> set entries. op_contract (en_operation e) = contract"
proof -
  have c: "entry_of contract x = Some e \<Longrightarrow> op_contract (en_operation e) = contract" for x e
    by (auto simp: entry_of_def split: prod.splits json.splits option.splits if_splits)
  obtain xs where "list_all2 (\<lambda>x e. entry_of contract x = Some e) xs entries"
    using assms validated_entries_iff by blast
  then show ?thesis by (rule list_all2_right) (rule c)
qed

lemma set_dict_fromkeys [simp]: "set (dict_fromkeys xs) = set xs"
  by (induction xs rule: dict_fromkeys.induct) auto

lemma mapE_unit_ok: "mapE f xs = Inr (us :: unit list) \<Longrightarrow> x \<in> set xs \<Longrightarrow> f x = Inr ()"
  by (auto simp: mapE_ok list_all2_conv_all_nth in_set_conv_nth)

definition example_entry :: operation_entry where
  "example_entry = \<lparr>en_operation = \<lparr>op_contract = Unified, op_id = ''getView'', op_method = GET,
       op_path = ''/v1/views/{id}''\<rparr>,
     en_path_item = [],
     en_raw = [(''parameters'', JList [JObj [(''in'', JStr ''path''), (''name'', JStr ''id''),
       (''required'', JBool True), (''example'', JStr ''a/b?c''),
       (''schema'', JObj [(''type'', JStr ''string'')])]])]\<rparr>"

section \<open>Properties\<close>

text \<open>C4. The nested loops over a document with their table of seen ids return exactly the entries of
  its documented operations, in document order, and they return if and only if every documented
  operation is an object with a non-blank operation id and no id occurs twice.\<close>

theorem validated_entries_are_the_documented_operations:
  "validated_operation_entries contract doc = Inr entries \<longleftrightarrow>
   (\<exists>paths. jget doc ''paths'' = JObj paths \<and>
      list_all2 (\<lambda>x e. entry_of contract x = Some e) (documented_members paths) entries \<and>
      distinct (map entry_id entries))"
  by (rule validated_entries_iff)

text \<open>C3. The scan, the declaration checks and the loop of first-occurrence replacements fill a path
  template: a path is materialised exactly when it is a template with distinct holes, its holes are
  the declared path parameters, and every parameter has a value; the result is the template with each
  hole replaced by its value.\<close>

theorem materialized_path_fills_the_template:
  "materialize_operation_path float_str entry = Inr m \<longleftrightarrow>
   (\<exists>ps parameters value_of. list_all piece_ok ps \<and> op_path (en_operation entry) = template_text ps \<and>
      distinct (holes ps) \<and> path_parameters entry = Inr parameters \<and>
      set (map fst parameters) = set (holes ps) \<and>
      (\<forall>n \<in> set (holes ps). path_parameter_value float_str (en_operation entry) n
         (the (map_of parameters n)) = Inr (value_of n)) \<and>
      m = expand value_of ps)"
  using materialize_sound materialize_complete by blast

theorem materialized_path_fills_the_template_witness:
  "materialize_operation_path (\<lambda>_. ''0.5'') example_entry = Inr (''/v1/views/'' @ ''a%2Fb%3Fc'')"
proof -
  let ?ps = "[Text ''/v1/views/'', Hole ''id'']"
  define parameters where "parameters = [(''id'', [(''in'', JStr ''path''), (''name'', JStr ''id''),
       (''required'', JBool True), (''example'', JStr ''a/b?c''),
       (''schema'', JObj [(''type'', JStr ''string'')])])]"
  have "path_parameters example_entry = Inr parameters"
    unfolding parameters_def by code_simp
  moreover have "path_parameter_value (\<lambda>_. ''0.5'') (en_operation example_entry) ''id''
      (the (map_of parameters ''id'')) = Inr ''a%2Fb%3Fc''"
    unfolding parameters_def by code_simp
  moreover have "list_all piece_ok ?ps" by code_simp
  moreover have "op_path (en_operation example_entry) = template_text ?ps" by code_simp
  moreover have "set (map fst parameters) = set (holes ?ps)" by (simp add: parameters_def)
  ultimately show ?thesis
    unfolding materialized_path_fills_the_template
    by (intro exI [of _ ?ps] exI [of _ parameters] exI [of _ "\<lambda>_. ''a%2Fb%3Fc''"]) simp
qed

text \<open>No parameter example can add a path segment, a query or a fragment to a request: the values put
  into the holes of a template are non-empty and free of slashes, question marks, hashes and braces,
  and no brace is left in the materialised path.\<close>

theorem materialized_path_is_one_target:
  assumes "materialize_operation_path float_str entry = Inr m"
  shows "list_all (\<lambda>c. \<not> is_brace c) m \<and>
    (\<exists>ps value_of. list_all piece_ok ps \<and> op_path (en_operation entry) = template_text ps \<and>
       m = expand value_of ps \<and> (\<forall>n \<in> set (holes ps). unreserved_segment (value_of n)))"
proof -
  obtain ps parameters value_of where
    ps: "list_all piece_ok ps" "op_path (en_operation entry) = template_text ps" "m = expand value_of ps"
    and vals: "\<forall>n \<in> set (holes ps). path_parameter_value float_str (en_operation entry) n
       (the (map_of parameters n)) = Inr (value_of n)"
    using materialize_sound [OF assms] by blast
  have seg: "\<forall>n \<in> set (holes ps). unreserved_segment (value_of n)"
    using vals path_parameter_value_segment by blast
  have "list_all (\<lambda>c. \<not> is_brace c) (expand value_of ps)"
    by (rule expand_brace_free [OF ps(1)]) (use seg unreserved_brace_free in blast)
  with ps seg show ?thesis by blast
qed

theorem materialized_path_is_one_target_witness:
  "materialize_operation_path (\<lambda>_. ''0.5'') example_entry = Inr ''/v1/views/a%2Fb%3Fc'' \<and>
   list_all (\<lambda>c. \<not> is_brace c) ''/v1/views/a%2Fb%3Fc''"
proof -
  have m: "materialize_operation_path (\<lambda>_. ''0.5'') example_entry = Inr ''/v1/views/a%2Fb%3Fc''"
    by code_simp
  with materialized_path_is_one_target [OF m] show ?thesis by blast
qed

text \<open>The request cases of a document are one per validated operation, with its contract, id, method
  and materialised path, sorted by path, method and id, with no id twice, and every operation documents
  a JSON schema for every required status.\<close>

theorem request_cases_cover_the_operations:
  assumes "build_operation_request_cases float_str contract doc required = Inr cases"
  shows "\<exists>entries. validated_operation_entries contract doc = Inr entries \<and>
    mset (map (\<lambda>c. (rc_contract c, rc_id c, rc_method c, Inr (rc_path c))) cases) =
      mset (map (\<lambda>e. (contract, entry_id e, op_method (en_operation e),
                      materialize_operation_path float_str e)) entries) \<and>
    sorted (map case_sort_key cases) \<and> distinct (map rc_id cases) \<and>
    (\<forall>e \<in> set entries. \<forall>s \<in> set required. require_json_response_schema e (status_str s) = Inr ())"
proof -
  obtain entries raw where e: "validated_operation_entries contract doc = Inr entries"
    and r: "list_all2 (\<lambda>e c. request_case_of float_str (dict_fromkeys (map status_str required)) e = Inr c)
       entries raw" and c: "cases = sort_key case_sort_key raw"
    using assms by (auto simp: build_operation_request_cases_def Let_def ok_iff)
  have rows: "map (\<lambda>c. (rc_contract c, rc_id c, rc_method c, Inr (rc_path c))) raw =
    map (\<lambda>e. (contract, entry_id e, op_method (en_operation e),
       materialize_operation_path float_str e)) entries"
    using r entries_contract [OF e] by (induction rule: list_all2_induct) (auto simp: request_case_of_def ok_iff)
  have ids: "map rc_id raw = map entry_id entries"
    using r by (induction rule: list_all2_induct) (auto simp: request_case_of_def ok_iff)
  have "distinct (map entry_id entries)" using e validated_entries_iff by blast
  then have "distinct (map rc_id cases)"
    unfolding c ids [symmetric] using mset_eq_imp_distinct_iff [of "map rc_id (sort_key case_sort_key raw)" "map rc_id raw"]
    by simp
  moreover have "\<forall>e \<in> set entries. \<forall>s \<in> set required. require_json_response_schema e (status_str s) = Inr ()"
    using r
  proof (rule list_all2_left)
    fix e c assume "request_case_of float_str (dict_fromkeys (map status_str required)) e = Inr c"
    then obtain us where "mapE (require_json_response_schema e) (dict_fromkeys (map status_str required)) = Inr us"
      by (auto simp: request_case_of_def bindE_ok)
    from mapE_unit_ok [OF this] show "\<forall>s \<in> set required. require_json_response_schema e (status_str s) = Inr ()"
      by simp
  qed
  ultimately show ?thesis
    using e by (intro exI [of _ entries]) (simp add: c rows [symmetric])
qed

definition example_document :: object where
  "example_document = [(''paths'', JObj
     [(''/v1/views/{id}'', JObj
        [(''parameters'', JList [JObj [(''in'', JStr ''path''), (''name'', JStr ''id''),
            (''required'', JBool True), (''schema'', JObj [(''type'', JStr ''integer'')])]]),
         (''get'', JObj [(''operationId'', JStr ''getView'')]),
         (''delete'', JObj [(''operationId'', JStr ''deleteView'')])]),
      (''/v1/views'', JObj [(''post'', JObj [(''operationId'', JStr ''createView'')])])])]"

theorem request_cases_cover_the_operations_witness:
  "\<exists>cases entries. build_operation_request_cases (\<lambda>_. []) Unified example_document [] = Inr cases \<and>
     validated_operation_entries Unified example_document = Inr entries \<and>
     map rc_id cases = [''createView'', ''deleteView'', ''getView''] \<and> distinct (map rc_id cases)"
proof -
  obtain cases where c: "build_operation_request_cases (\<lambda>_. []) Unified example_document [] = Inr cases"
    "map rc_id cases = [''createView'', ''deleteView'', ''getView'']"
  proof -
    have "build_operation_request_cases (\<lambda>_. []) Unified example_document [] =
      Inr [\<lparr>rc_contract = Unified, rc_id = ''createView'', rc_method = POST, rc_path = ''/v1/views''\<rparr>,
           \<lparr>rc_contract = Unified, rc_id = ''deleteView'', rc_method = DELETE, rc_path = ''/v1/views/1''\<rparr>,
           \<lparr>rc_contract = Unified, rc_id = ''getView'', rc_method = GET, rc_path = ''/v1/views/1''\<rparr>]"
      by code_simp
    with that show ?thesis by simp
  qed
  obtain entries where "validated_operation_entries Unified example_document = Inr entries"
    "distinct (map rc_id cases)"
    using request_cases_cover_the_operations [OF c(1)] by blast
  with c show ?thesis by (intro exI [of _ cases] exI [of _ entries]) simp
qed

definition deferral_json :: "forbidden_deferral \<Rightarrow> json" where
  "deferral_json d = JObj [(''operationId'', JStr (fd_id d)), (''method'', JStr (method_name (fd_method d))),
     (''path'', JStr (fd_path d)), (''reason'', JStr (reason_name (fd_reason d)))]"

lemma reason_of_name_name [simp]: "reason_of_name (reason_name r) = Some r"
  by (cases r) (simp_all add: reason_of_name_def)

definition deferral_ok :: "forbidden_deferral \<Rightarrow> bool" where
  "deferral_ok d \<longleftrightarrow> fd_id d \<noteq> [] \<and> startswith (fd_path d) ''/''"

lemma load_deferral_json:
  "deferral_ok d \<Longrightarrow> load_forbidden_deferral (i, deferral_json d) = Inr d"
  by (simp add: load_forbidden_deferral_def deferral_json_def manifest_operation_def jget_def
      deferral_ok_def)

lemma manifest_operation_ok:
  "manifest_operation raw i = Inr (oid, m, path) \<Longrightarrow> oid \<noteq> [] \<and> startswith path ''/''"
  by (auto simp: manifest_operation_def ok_iff split: if_splits)

lemma load_deferral_ok: "load_forbidden_deferral x = Inr d \<Longrightarrow> deferral_ok d"
  by (auto simp: load_forbidden_deferral_def deferral_ok_def ok_iff split: prod.splits
      dest: manifest_operation_ok)

text \<open>C6. A manifest of deferrals with non-empty ids and absolute paths, written field by field, is read
  back as it is; the loader accepts nothing else.\<close>

theorem forbidden_manifest_roundtrip:
  "((\<exists>m. load_forbidden_response_deferrals m = Inr ds) \<longleftrightarrow> list_all deferral_ok ds) \<and>
   (load_forbidden_response_deferrals
       (JObj [(''deferred_forbidden_responses'', JList (map deferral_json ds))]) = Inr ds
     \<longleftrightarrow> list_all deferral_ok ds)"
proof -
  have only_ok: "list_all deferral_ok ds" if m: "load_forbidden_response_deferrals m = Inr ds" for m
  proof -
    obtain xs where "list_all2 (\<lambda>x d. load_forbidden_deferral x = Inr d) xs ds"
      using m by (auto simp: load_forbidden_response_deferrals_def ok_iff)
    then have "\<forall>d \<in> set ds. deferral_ok d"
      by (rule list_all2_right) (rule load_deferral_ok)
    then show ?thesis by (simp add: list_all_iff)
  qed
  have again: "load_forbidden_response_deferrals
       (JObj [(''deferred_forbidden_responses'', JList (map deferral_json ds))]) = Inr ds"
    if ok: "list_all deferral_ok ds"
  proof -
    have "list_all2 (\<lambda>x d. load_forbidden_deferral x = Inr d) (List.enumerate 0 (map deferral_json ds)) ds"
      using ok by (simp add: list_all2_conv_all_nth nth_enumerate_eq load_deferral_json list_all_length)
    then show ?thesis
      by (simp add: load_forbidden_response_deferrals_def manifest_list_def jget_def mapE_ok)
  qed
  show ?thesis using only_ok again by blast
qed

end
