(* ===== verification/Drift.thy ===== *)
theory Drift
  imports Open_Api
begin

text \<open>
  \<open>src/api_tests/openapi_drift.py\<close>: the structural comparison of the committed OpenAPI document with
  the live one.  A document is reduced to its operation contracts and its component schemas; the
  differences are listed as removals, additions and changes, each group in the order of the names.
\<close>

datatype drift_change = Added | Removed | Changed

record difference =
  df_location :: string
  df_change :: drift_change
  df_baseline :: "string option"
  df_live :: "string option"

record operation_contract =
  oc_method :: http_method
  oc_path :: string
  oc_parameters :: json
  oc_request_body :: json
  oc_responses :: json

datatype drift_error =
    PathsNotObject
  | ContractNotObject string string
  | ContractWithoutId string string
  | DuplicateContract string
  | ContractMethod string
  | ComponentsNotObject
  | SchemasNotObject

type_synonym contracts = "(string \<times> operation_contract) list"

definition drift_http_method :: "string \<Rightarrow> drift_error + http_method" where
  "drift_http_method raw =
     (let normalized = upper raw in
      if normalized = ''GET'' then Inr GET
      else if normalized = ''POST'' then Inr POST
      else if normalized = ''PUT'' then Inr PUT
      else if normalized = ''PATCH'' then Inr PATCH
      else if normalized = ''DELETE'' then Inr DELETE
      else Inl (ContractMethod raw))"

definition contract_step ::
    "string \<Rightarrow> json \<Rightarrow> contracts \<Rightarrow> string \<times> json \<Rightarrow> drift_error + contracts" where
  "contract_step path shared_parameters contracts member =
     (let (raw_method, raw) = member in
      if raw_method \<notin> set HTTP_METHODS then Inr contracts
      else bindE (requireE (as_object raw) (ContractNotObject (upper raw_method) path)) (\<lambda>raw_operation.
           bindE (requireE (as_string (jget raw_operation ''operationId''))
                    (ContractWithoutId (upper raw_method) path)) (\<lambda>operation_id.
           if operation_id = [] then Inl (ContractWithoutId (upper raw_method) path)
           else if map_of contracts operation_id \<noteq> None then Inl (DuplicateContract operation_id)
           else bindE (drift_http_method raw_method) (\<lambda>m.
             Inr (AList.update operation_id
               \<lparr>oc_method = m, oc_path = path,
                oc_parameters = JList [shared_parameters,
                  jget_default raw_operation ''parameters'' (JList [])],
                oc_request_body = jget raw_operation ''requestBody'',
                oc_responses = jget raw_operation ''responses''\<rparr> contracts)))))"

definition contracts_path_step :: "contracts \<Rightarrow> string \<times> json \<Rightarrow> drift_error + contracts" where
  "contracts_path_step contracts member =
     (case as_object (snd member) of
        None \<Rightarrow> Inr contracts
      | Some raw_path_item \<Rightarrow>
          foldE (contract_step (fst member) (jget_default raw_path_item ''parameters'' (JList [])))
            contracts raw_path_item)"

definition operation_contracts :: "object \<Rightarrow> drift_error + contracts" where
  "operation_contracts document =
     bindE (requireE (as_object (jget document ''paths'')) PathsNotObject) (\<lambda>raw_paths.
       foldE contracts_path_step [] raw_paths)"

definition component_schemas :: "object \<Rightarrow> drift_error + object" where
  "component_schemas document =
     (if jget document ''components'' = JNull then Inr []
      else bindE (requireE (as_object (jget document ''components'')) ComponentsNotObject) (\<lambda>components.
        if jget components ''schemas'' = JNull then Inr []
        else requireE (as_object (jget components ''schemas'')) SchemasNotObject))"

section \<open>Differences\<close>

definition scalar_change :: "string \<Rightarrow> string \<Rightarrow> string \<Rightarrow> difference list" where
  "scalar_change location baseline live =
     (if baseline \<noteq> live
      then [\<lparr>df_location = location, df_change = Changed, df_baseline = Some baseline, df_live = Some live\<rparr>]
      else [])"

definition structural_change :: "string \<Rightarrow> json \<Rightarrow> json \<Rightarrow> difference list" where
  "structural_change location baseline live =
     (if \<not> py_eq baseline live
      then [\<lparr>df_location = location, df_change = Changed, df_baseline = None, df_live = None\<rparr>]
      else [])"

text \<open>The three loops over two dictionaries: keys only left, keys only right, common keys, each sorted.\<close>

definition keys_minus :: "(string \<times> 'a) list \<Rightarrow> (string \<times> 'b) list \<Rightarrow> string list" where
  "keys_minus d e = sorted_keys (filter (\<lambda>k. map_of e k = None) (map fst d))"

definition keys_common :: "(string \<times> 'a) list \<Rightarrow> (string \<times> 'b) list \<Rightarrow> string list" where
  "keys_common d e = sorted_keys (filter (\<lambda>k. map_of e k \<noteq> None) (map fst d))"

definition operation_text :: "operation_contract \<Rightarrow> string" where
  "operation_text c = method_name (oc_method c) @ '' '' @ oc_path c"

definition operation_changes :: "string \<Rightarrow> operation_contract \<Rightarrow> operation_contract \<Rightarrow> difference list" where
  "operation_changes operation_id baseline live =
     (let location = ''operations.'' @ operation_id in
      scalar_change (location @ ''.method'') (method_name (oc_method baseline)) (method_name (oc_method live))
      @ scalar_change (location @ ''.path'') (oc_path baseline) (oc_path live)
      @ structural_change (location @ ''.parameters'') (oc_parameters baseline) (oc_parameters live)
      @ structural_change (location @ ''.requestBody'') (oc_request_body baseline) (oc_request_body live)
      @ structural_change (location @ ''.responses'') (oc_responses baseline) (oc_responses live))"

definition schema_differences :: "object \<Rightarrow> object \<Rightarrow> difference list" where
  "schema_differences baseline live =
     map (\<lambda>n. \<lparr>df_location = ''components.schemas.'' @ n, df_change = Removed,
               df_baseline = None, df_live = None\<rparr>) (keys_minus baseline live)
     @ map (\<lambda>n. \<lparr>df_location = ''components.schemas.'' @ n, df_change = Added,
               df_baseline = None, df_live = None\<rparr>) (keys_minus live baseline)
     @ concat (map (\<lambda>n. structural_change (''components.schemas.'' @ n)
         (the (map_of baseline n)) (the (map_of live n))) (keys_common baseline live))"

definition operation_differences :: "contracts \<Rightarrow> contracts \<Rightarrow> difference list" where
  "operation_differences baseline live =
     map (\<lambda>i. \<lparr>df_location = ''operations.'' @ i, df_change = Removed,
               df_baseline = Some (operation_text (the (map_of baseline i))), df_live = None\<rparr>)
       (keys_minus baseline live)
     @ map (\<lambda>i. \<lparr>df_location = ''operations.'' @ i, df_change = Added, df_baseline = None,
               df_live = Some (operation_text (the (map_of live i)))\<rparr>)
       (keys_minus live baseline)
     @ concat (map (\<lambda>i. operation_changes i (the (map_of baseline i)) (the (map_of live i)))
         (keys_common baseline live))"

definition compare_openapi_documents :: "object \<Rightarrow> object \<Rightarrow> drift_error + difference list" where
  "compare_openapi_documents baseline live =
     bindE (operation_contracts baseline) (\<lambda>baseline_operations.
     bindE (operation_contracts live) (\<lambda>live_operations.
     bindE (component_schemas baseline) (\<lambda>baseline_schemas.
     bindE (component_schemas live) (\<lambda>live_schemas.
       Inr (operation_differences baseline_operations live_operations
            @ schema_differences baseline_schemas live_schemas)))))"

section \<open>The drift artifact\<close>

definition change_name :: "drift_change \<Rightarrow> string" where
  "change_name c = (case c of Added \<Rightarrow> ''added'' | Removed \<Rightarrow> ''removed'' | Changed \<Rightarrow> ''changed'')"

definition optional_text :: "string option \<Rightarrow> json" where
  "optional_text v = (case v of None \<Rightarrow> JNull | Some s \<Rightarrow> JStr s)"

definition difference_json :: "difference \<Rightarrow> json" where
  "difference_json d = JObj [(''location'', JStr (df_location d)), (''change'', JStr (change_name (df_change d))),
     (''baseline'', optional_text (df_baseline d)), (''live'', optional_text (df_live d))]"

definition drift_artifact :: "difference list \<Rightarrow> string \<Rightarrow> string \<Rightarrow> json" where
  "drift_artifact differences baseline_path live_url =
     JObj [(''baseline'', JStr baseline_path), (''live_url'', JStr live_url),
       (''status'', JStr (if differences = [] then ''match'' else ''different'')),
       (''difference_count'', JInt (int (length differences))),
       (''differences'', JList (map difference_json differences))]"

section \<open>The contracts of a document\<close>

definition contract_of :: "member \<Rightarrow> (string \<times> operation_contract) option" where
  "contract_of x =
     (let (path, item, raw_method, operation) = x in
      case (operation, method_of_name (upper raw_method)) of
        (JObj raw, Some m) \<Rightarrow>
          (case jget raw ''operationId'' of
             JStr operation_id \<Rightarrow>
               if operation_id = [] then None
               else Some (operation_id, \<lparr>oc_method = m, oc_path = path,
                 oc_parameters = JList [jget_default item ''parameters'' (JList []),
                   jget_default raw ''parameters'' (JList [])],
                 oc_request_body = jget raw ''requestBody'', oc_responses = jget raw ''responses''\<rparr>)
           | _ \<Rightarrow> None)
      | _ \<Rightarrow> None)"

lemma drift_http_method_ok: "drift_http_method s = Inr m \<longleftrightarrow> method_of_name (upper s) = Some m"
  by (cases m) (auto simp: drift_http_method_def method_of_name_Some Let_def)

lemma contract_step_skip: "fst m \<notin> set HTTP_METHODS \<Longrightarrow> contract_step path shared st m = Inr st"
  by (cases m) (simp add: contract_step_def)

lemma contract_step_accept:
  assumes m: "fst m \<in> set HTTP_METHODS"
  shows "contract_step path (jget_default item ''parameters'' (JList [])) ds m = Inr st \<longleftrightarrow>
    (\<exists>d. contract_of (path, item, m) = Some d \<and> fst d \<notin> set (map fst ds) \<and> st = ds @ [d])"
proof -
  obtain k operation where x: "m = (k, operation)" by (cases m)
  have k: "k \<in> set HTTP_METHODS" using m by (simp add: x)
  then obtain h where h: "method_of_name (upper k) = Some h" using http_methods_known by blast
  then have d: "drift_http_method k = Inr h" by (simp add: drift_http_method_ok)
  show ?thesis
  proof (cases operation)
    case (JObj raw)
    show ?thesis
    proof (cases "jget raw ''operationId''")
      case (JStr i)
      show ?thesis
      proof (cases "map_of ds i")
        case None
        then have "i \<notin> set (map fst ds)" by (simp add: map_of_eq_None_iff)
        then show ?thesis
          using None by (auto simp: x contract_step_def contract_of_def JObj JStr k h d Let_def update_new)
      next
        case (Some q)
        then have "i \<in> set (map fst ds)" by (force dest: map_of_SomeD)
        then show ?thesis
          using Some by (auto simp: x contract_step_def contract_of_def JObj JStr k h d)
      qed
    qed (simp_all add: x contract_step_def contract_of_def JObj k h as_string_def)
  qed (simp_all add: x contract_step_def contract_of_def as_object_def k)
qed

interpretation contract_loop:
  operation_loop "\<lambda>path item. contract_step path (jget_default item ''parameters'' (JList []))"
    contract_of fst "\<lambda>ds. ds"
  by unfold_locales (erule contract_step_skip, erule contract_step_accept)

lemma operation_contracts_iff:
  "operation_contracts document = Inr cs \<longleftrightarrow>
   (\<exists>paths. jget document ''paths'' = JObj paths \<and>
      list_all2 (\<lambda>x c. contract_of x = Some c) (documented_members paths) cs \<and> distinct (map fst cs))"
proof -
  have "foldE contracts_path_step [] paths = Inr st \<longleftrightarrow>
    (\<exists>cs. list_all2 (\<lambda>x c. contract_of x = Some c) (documented_members paths) cs \<and>
       distinct (map fst cs) \<and> st = cs)" for paths st
    unfolding contracts_path_step_def by (rule contract_loop.loop_ok)
  then show ?thesis by (auto simp: operation_contracts_def ok_iff)
qed

section \<open>Agreement\<close>

text \<open>The specification of the comparison: the same names with equal members.\<close>

definition same_contract :: "operation_contract \<Rightarrow> operation_contract \<Rightarrow> bool" where
  "same_contract b l \<longleftrightarrow> oc_method b = oc_method l \<and> oc_path b = oc_path l \<and>
     py_eq (oc_parameters b) (oc_parameters l) \<and> py_eq (oc_request_body b) (oc_request_body l) \<and>
     py_eq (oc_responses b) (oc_responses l)"

definition agree :: "('a \<Rightarrow> 'a \<Rightarrow> bool) \<Rightarrow> (string \<times> 'a) list \<Rightarrow> (string \<times> 'a) list \<Rightarrow> bool" where
  "agree P d e \<longleftrightarrow> dom (map_of d) = dom (map_of e) \<and>
     (\<forall>k v w. map_of d k = Some v \<longrightarrow> map_of e k = Some w \<longrightarrow> P v w)"

lemma set_keys_minus: "set (keys_minus d e) = dom (map_of d) - dom (map_of e)"
  by (auto simp: keys_minus_def dom_map_of_conv_image_fst map_of_eq_None_iff)

lemma set_keys_common: "set (keys_common d e) = dom (map_of d) \<inter> dom (map_of e)"
proof -
  have "set (keys_common d e) = {k \<in> set (map fst d). map_of e k \<noteq> None}" by (simp add: keys_common_def)
  then show ?thesis unfolding set_keys by auto
qed

lemma changes_empty:
  "operation_changes i b l = [] \<longleftrightarrow> same_contract b l"
  by (auto simp: operation_changes_def scalar_change_def structural_change_def same_contract_def Let_def)

lemma keys_empty:
  "(keys_minus d e = [] \<and> keys_minus e d = [] \<and>
    (\<forall>k \<in> set (keys_common d e). P (the (map_of d k)) (the (map_of e k)))) \<longleftrightarrow> agree P d e"
proof -
  have "(keys_minus d e = [] \<and> keys_minus e d = []) \<longleftrightarrow> dom (map_of d) = dom (map_of e)"
    using set_keys_minus [of d e] set_keys_minus [of e d]
    by (metis Diff_eq_empty_iff set_empty subset_antisym subset_refl)
  moreover have "(\<forall>k \<in> set (keys_common d e). P (the (map_of d k)) (the (map_of e k))) \<longleftrightarrow>
    (\<forall>k v w. map_of d k = Some v \<longrightarrow> map_of e k = Some w \<longrightarrow> P v w)"
    by (force simp: set_keys_common dom_def)
  ultimately show ?thesis unfolding agree_def by blast
qed

lemma operation_differences_empty: "operation_differences b l = [] \<longleftrightarrow> agree same_contract b l"
  unfolding keys_empty [symmetric] operation_differences_def by (auto simp: changes_empty)

lemma schema_differences_empty: "schema_differences b l = [] \<longleftrightarrow> agree py_eq b l"
  unfolding keys_empty [symmetric] schema_differences_def by (auto simp: structural_change_def)

lemma compare_ok:
  "compare_openapi_documents baseline live = Inr ds \<longleftrightarrow>
   (\<exists>bo lo bs ls. operation_contracts baseline = Inr bo \<and> operation_contracts live = Inr lo \<and>
      component_schemas baseline = Inr bs \<and> component_schemas live = Inr ls \<and>
      ds = operation_differences bo lo @ schema_differences bs ls)"
  by (auto simp: compare_openapi_documents_def ok_iff)

text \<open>A contract of one document has its counterpart in an equal one.\<close>

lemma contract_of_eq:
  assumes "contract_of (path, item, m, JObj raw) = Some (i, c)"
    and "py_eq (JObj item) (JObj item')" "wf_json (JObj item)" "wf_json (JObj item')"
    and "py_eq (JObj raw) (JObj raw')" "wf_json (JObj raw)" "wf_json (JObj raw')"
  shows "\<exists>c'. contract_of (path, item', m, JObj raw') = Some (i, c') \<and> same_contract c c'"
proof -
  obtain h where h: "method_of_name (upper m) = Some h" and i: "jget raw ''operationId'' = JStr i" "i \<noteq> []"
    and c: "c = \<lparr>oc_method = h, oc_path = path,
      oc_parameters = JList [jget_default item ''parameters'' (JList []), jget_default raw ''parameters'' (JList [])],
      oc_request_body = jget raw ''requestBody'', oc_responses = jget raw ''responses''\<rparr>"
    using assms(1) by (auto simp: contract_of_def split: json.splits option.splits if_splits)
  note item = py_eq_field [OF assms(2-4)] and raw = py_eq_field [OF assms(5-7)]
  have i': "jget raw' ''operationId'' = JStr i" using raw(1) [of "''operationId''"] by (simp add: i)
  have "py_eq (JList []) (JList [])" by simp
  then show ?thesis
    using item(2) [of "JList []"] raw h i(2) i' by (simp add: contract_of_def c same_contract_def)
qed

lemma documented_member_eq:
  assumes x: "(path, item, m, op) \<in> set (documented_members ps)"
    and eq: "py_eq (JObj ps) (JObj qs)" "wf_json (JObj ps)" "wf_json (JObj qs)"
  obtains item' op' where "(path, item', m, op') \<in> set (documented_members qs)"
    "py_eq (JObj item) (JObj item')" "wf_json (JObj item)" "wf_json (JObj item')"
    "py_eq op op'" "wf_json op" "wf_json op'"
proof -
  have mem: "(path, JObj item) \<in> set ps" "(m, op) \<in> set item" "m \<in> set HTTP_METHODS"
    using x by (simp_all add: documented_members_mem)
  then have "map_of ps path = Some (JObj item)" using eq(2) by simp
  from py_eq_lookup [OF eq this] obtain v where v: "map_of qs path = Some v" "py_eq (JObj item) v"
    "wf_json (JObj item)" "wf_json v" by blast
  then obtain item' where item': "v = JObj item'" by auto
  have "map_of item m = Some op" using mem(2) v(3) by simp
  from py_eq_lookup [OF v(2) [unfolded item'] v(3) v(4) [unfolded item'] this]
  obtain op' where op': "map_of item' m = Some op'" "py_eq op op'" "wf_json op" "wf_json op'" by blast
  have "(path, item', m, op') \<in> set (documented_members qs)"
    using map_of_SomeD [OF v(1)] map_of_SomeD [OF op'(1)] mem(3)
    by (simp add: documented_members_mem item')
  from that [OF this v(2) [unfolded item'] v(3) v(4) [unfolded item'] op'(2-4)] show thesis .
qed

lemma contract_counterpart:
  assumes C: "list_all2 (\<lambda>x c. contract_of x = Some c) (documented_members ps) cs"
    and D: "list_all2 (\<lambda>x c. contract_of x = Some c) (documented_members qs) ds"
    and eq: "py_eq (JObj ps) (JObj qs)" "wf_json (JObj ps)" "wf_json (JObj qs)"
    and c: "(i, c) \<in> set cs"
  shows "\<exists>d. (i, d) \<in> set ds \<and> same_contract c d"
proof -
  obtain x where x: "x \<in> set (documented_members ps)" "contract_of x = Some (i, c)"
    using list_all2_post [OF C c] by blast
  obtain path item m op where xs: "x = (path, item, m, op)" by (cases x)
  obtain raw where raw: "op = JObj raw"
    using x(2) by (auto simp: xs contract_of_def split: json.splits)
  from documented_member_eq [OF x(1) [unfolded xs] eq] obtain item' op' where
    y: "(path, item', m, op') \<in> set (documented_members qs)"
    and item: "py_eq (JObj item) (JObj item')" "wf_json (JObj item)" "wf_json (JObj item')"
    and op: "py_eq op op'" "wf_json op" "wf_json op'" by blast
  obtain raw' where raw': "op' = JObj raw'" using op(1) by (auto simp: raw)
  obtain d where d: "contract_of (path, item', m, op') = Some (i, d)" "same_contract c d"
    using contract_of_eq [OF x(2) [unfolded xs raw] item op [unfolded raw raw']] raw' by blast
  have "(i, d) \<in> set ds"
    using list_all2_pre [OF D y] d(1) by auto
  with d(2) show ?thesis by blast
qed

lemma contract_of_wf:
  assumes "contract_of (path, item, m, op) = Some (i, c)" "wf_json (JObj item)" "wf_json op"
  shows "wf_json (oc_parameters c)" "wf_json (oc_request_body c)" "wf_json (oc_responses c)"
proof -
  obtain raw where op: "op = JObj raw"
    and c: "oc_parameters c = JList [jget_default item ''parameters'' (JList []), jget_default raw ''parameters'' (JList [])]"
      "oc_request_body c = jget raw ''requestBody''" "oc_responses c = jget raw ''responses''"
    using assms(1) by (auto simp: contract_of_def split: json.splits option.splits if_splits)
  have "wf_json (JObj raw)" using assms(3) by (simp add: op)
  then show "wf_json (oc_parameters c)" "wf_json (oc_request_body c)" "wf_json (oc_responses c)"
    using wf_jget [of raw] wf_jget_default [of raw "JList []"] wf_jget_default [OF assms(2), of "JList []"]
    by (simp_all add: c)
qed

lemma same_contract_sym:
  assumes "\<forall>c \<in> {b, l}. wf_json (oc_parameters c) \<and> wf_json (oc_request_body c) \<and> wf_json (oc_responses c)"
  shows "same_contract b l \<longleftrightarrow> same_contract l b"
  using assms py_eq_sym by (auto simp: same_contract_def)

lemma operation_contracts_wf:
  assumes "operation_contracts doc = Inr cs" "wf_json (JObj doc)" "(i, c) \<in> set cs"
  shows "wf_json (oc_parameters c) \<and> wf_json (oc_request_body c) \<and> wf_json (oc_responses c)"
proof -
  obtain paths where paths: "jget doc ''paths'' = JObj paths"
    "list_all2 (\<lambda>x c. contract_of x = Some c) (documented_members paths) cs"
    using assms(1) by (auto simp: operation_contracts_iff)
  have wf: "wf_json (JObj paths)" using wf_jget [OF assms(2)] paths(1) by metis
  obtain x where x: "x \<in> set (documented_members paths)" "contract_of x = Some (i, c)"
    using list_all2_post [OF paths(2) assms(3)] by blast
  obtain path item m op where xs: "x = (path, item, m, op)" by (cases x)
  have mem: "(path, JObj item) \<in> set paths" "(m, op) \<in> set item"
    using x(1) by (simp_all add: xs documented_members_mem)
  have "wf_json (JObj item)" using wf mem(1) by (rule wf_member)
  moreover from this have "wf_json op" using mem(2) by (rule wf_member)
  ultimately show ?thesis using contract_of_wf x(2) by (simp add: xs)
qed

lemma agree_contracts:
  assumes b: "operation_contracts baseline = Inr bo" and l: "operation_contracts live = Inr lo"
    and wf: "wf_json (JObj baseline)" "wf_json (JObj live)"
    and eq: "py_eq (jget baseline ''paths'') (jget live ''paths'')"
  shows "agree same_contract bo lo"
proof -
  obtain ps where ps: "jget baseline ''paths'' = JObj ps" "distinct (map fst bo)"
    "list_all2 (\<lambda>x c. contract_of x = Some c) (documented_members ps) bo"
    using b by (auto simp: operation_contracts_iff)
  obtain qs where qs: "jget live ''paths'' = JObj qs" "distinct (map fst lo)"
    "list_all2 (\<lambda>x c. contract_of x = Some c) (documented_members qs) lo"
    using l by (auto simp: operation_contracts_iff)
  have wfp: "wf_json (JObj ps)" "wf_json (JObj qs)"
    using wf_jget [OF wf(1)] wf_jget [OF wf(2)] ps(1) qs(1) by metis+
  have eq1: "py_eq (JObj ps) (JObj qs)" using eq by (simp only: ps(1) qs(1))
  have eq2: "py_eq (JObj qs) (JObj ps)" using py_eq_sym [OF wfp eq1] .
  have fwd: "\<exists>d. map_of lo i = Some d \<and> same_contract c d" if "map_of bo i = Some c" for i c
  proof -
    have "(i, c) \<in> set bo" using that by (rule map_of_SomeD)
    from contract_counterpart [OF ps(3) qs(3) eq1 wfp this] show ?thesis using qs(2) by auto
  qed
  have bwd: "\<exists>d. map_of bo i = Some d" if "map_of lo i = Some c" for i c
  proof -
    have "(i, c) \<in> set lo" using that by (rule map_of_SomeD)
    from contract_counterpart [OF qs(3) ps(3) eq2 wfp(2,1) this] show ?thesis using ps(2) by auto
  qed
  show ?thesis unfolding agree_def
  proof (intro conjI allI impI)
    show "dom (map_of bo) = dom (map_of lo)" using fwd bwd by (auto simp: dom_def) blast+
    fix i v w assume "map_of bo i = Some v" "map_of lo i = Some w"
    with fwd show "same_contract v w" by fastforce
  qed
qed

lemma agree_schemas:
  assumes b: "component_schemas baseline = Inr bs" and l: "component_schemas live = Inr ls"
    and wf: "wf_json (JObj baseline)" "wf_json (JObj live)"
    and eq: "py_eq (jget baseline ''components'') (jget live ''components'')"
  shows "agree py_eq bs ls"
proof (cases "jget baseline ''components'' = JNull")
  case True
  then have "jget live ''components'' = JNull" using eq by simp
  with True show ?thesis using b l by (simp add: component_schemas_def agree_def)
next
  case False
  then obtain c where c: "jget baseline ''components'' = JObj c"
    using b by (auto simp: component_schemas_def ok_iff)
  then obtain c' where c': "jget live ''components'' = JObj c'" using eq by auto
  have wfc: "wf_json (JObj c)" "wf_json (JObj c')"
    using wf_jget [OF wf(1)] wf_jget [OF wf(2)] c c' by metis+
  have eqc: "py_eq (JObj c) (JObj c')" using eq by (simp only: c c')
  note eqs = py_eq_field(1) [OF eqc wfc, of "''schemas''"]
  show ?thesis
  proof (cases "jget c ''schemas'' = JNull")
    case True
    then have "jget c' ''schemas'' = JNull" using eqs by simp
    with True c c' show ?thesis using b l by (simp add: component_schemas_def agree_def)
  next
    case False
    then have s: "jget c ''schemas'' = JObj bs" using b c by (auto simp: component_schemas_def ok_iff)
    then obtain d where "jget c' ''schemas'' = JObj d" using eqs by auto
    then have s': "jget c' ''schemas'' = JObj ls" using l c' by (simp add: component_schemas_def)
    have "wf_json (JObj bs)" "wf_json (JObj ls)"
      using wf_jget [OF wfc(1)] wf_jget [OF wfc(2)] s s' by metis+
    then have "distinct (map fst bs)" "distinct (map fst ls)" by simp_all
    from eqs [unfolded s s' py_eq_object [OF this]] show ?thesis unfolding agree_def .
  qed
qed

section \<open>Swapping the documents\<close>

definition flip :: "difference \<Rightarrow> difference" where
  "flip d = \<lparr>df_location = df_location d,
     df_change = (case df_change d of Added \<Rightarrow> Removed | Removed \<Rightarrow> Added | Changed \<Rightarrow> Changed),
     df_baseline = df_live d, df_live = df_baseline d\<rparr>"

lemma keys_common_sym: "keys_common d e = keys_common e d"
  unfolding keys_common_def
  by (rule sorted_keys_cong) (use set_keys_common [of d e] set_keys_common [of e d] in
      \<open>auto simp: keys_common_def\<close>)

lemma scalar_change_flip: "map flip (scalar_change loc b l) = scalar_change loc l b"
  by (auto simp: scalar_change_def flip_def)

lemma structural_change_flip:
  "wf_json b \<Longrightarrow> wf_json l \<Longrightarrow> map flip (structural_change loc b l) = structural_change loc l b"
  using py_eq_sym [of b l] py_eq_sym [of l b] by (auto simp: structural_change_def flip_def)

definition wf_contract :: "operation_contract \<Rightarrow> bool" where
  "wf_contract c \<longleftrightarrow> wf_json (oc_parameters c) \<and> wf_json (oc_request_body c) \<and> wf_json (oc_responses c)"

lemma operation_changes_flip:
  "wf_contract b \<Longrightarrow> wf_contract l \<Longrightarrow> map flip (operation_changes i b l) = operation_changes i l b"
  by (simp add: operation_changes_def Let_def scalar_change_flip structural_change_flip wf_contract_def)

lemma concat_flip:
  "(\<And>k. k \<in> set ks \<Longrightarrow> map flip (f k) = g k) \<Longrightarrow> map flip (concat (map f ks)) = concat (map g ks)"
  by (induction ks) auto

lemma operation_differences_flip:
  assumes "\<forall>(i, c) \<in> set b. wf_contract c" "\<forall>(i, c) \<in> set l. wf_contract c"
  shows "image_mset flip (mset (operation_differences b l)) = mset (operation_differences l b)"
proof -
  have "map flip (operation_changes i (the (map_of b i)) (the (map_of l i))) =
      operation_changes i (the (map_of l i)) (the (map_of b i))" if i: "i \<in> set (keys_common b l)" for i
  proof -
    obtain c d where "map_of b i = Some c" "map_of l i = Some d" using i by (auto simp: set_keys_common)
    moreover from this assms have "wf_contract c" "wf_contract d" by (auto dest!: map_of_SomeD)
    ultimately show ?thesis by (simp add: operation_changes_flip)
  qed
  then have "map flip (concat (map (\<lambda>i. operation_changes i (the (map_of b i)) (the (map_of l i))) (keys_common b l)))
     = concat (map (\<lambda>i. operation_changes i (the (map_of l i)) (the (map_of b i))) (keys_common b l))"
    by (rule concat_flip)
  from arg_cong [OF this, of mset] show ?thesis
    unfolding operation_differences_def keys_common_sym [of l b]
    by (simp add: multiset.map_comp flip_def o_def add_ac)
qed

lemma schema_differences_flip:
  assumes "wf_entries b" "wf_entries l"
  shows "image_mset flip (mset (schema_differences b l)) = mset (schema_differences l b)"
proof -
  have "map flip (structural_change (''components.schemas.'' @ n) (the (map_of b n)) (the (map_of l n))) =
      structural_change (''components.schemas.'' @ n) (the (map_of l n)) (the (map_of b n))"
    if n: "n \<in> set (keys_common b l)" for n
  proof -
    obtain c d where "map_of b n = Some c" "map_of l n = Some d" using n by (auto simp: set_keys_common)
    moreover from this assms have "wf_json c" "wf_json d" using wf_lookup by blast+
    ultimately show ?thesis by (simp add: structural_change_flip)
  qed
  then have "map flip (concat (map (\<lambda>n. structural_change (''components.schemas.'' @ n)
       (the (map_of b n)) (the (map_of l n))) (keys_common b l)))
     = concat (map (\<lambda>n. structural_change (''components.schemas.'' @ n)
       (the (map_of l n)) (the (map_of b n))) (keys_common b l))"
    by (rule concat_flip)
  from arg_cong [OF this, of mset] show ?thesis
    unfolding schema_differences_def keys_common_sym [of l b]
    by (simp add: multiset.map_comp flip_def o_def add_ac)
qed

lemma component_schemas_wf:
  assumes "component_schemas doc = Inr s" "wf_json (JObj doc)"
  shows "wf_entries s"
proof (cases "s = []")
  case False
  then obtain c where c: "jget doc ''components'' = JObj c" "jget c ''schemas'' = JObj s"
    using assms(1) by (auto simp: component_schemas_def ok_iff split: if_splits)
  then have "wf_json (JObj c)" using wf_jget [OF assms(2)] by metis
  then have "wf_json (JObj s)" using wf_jget [of c] c(2) by metis
  then show ?thesis by simp
qed simp

section \<open>Properties\<close>

text \<open>C23. The comparison reports nothing exactly when both documents are well formed and agree: the same
  operation ids with the same method, path and equal parameters, request body and responses, and the
  same schema names with equal schemas.\<close>

theorem no_drift_iff_agreement:
  "compare_openapi_documents baseline live = Inr [] \<longleftrightarrow>
   (\<exists>bo lo bs ls. operation_contracts baseline = Inr bo \<and> operation_contracts live = Inr lo \<and>
      component_schemas baseline = Inr bs \<and> component_schemas live = Inr ls \<and>
      agree same_contract bo lo \<and> agree py_eq bs ls)"
  unfolding compare_ok by (auto simp: operation_differences_empty schema_differences_empty)

text \<open>Document metadata and key order are ignored: two documents whose paths and components are equal
  as Python values, however their keys are ordered and whatever else they hold, show no drift.\<close>

theorem key_order_and_metadata_ignored:
  assumes "compare_openapi_documents baseline live = Inr ds"
    and "wf_json (JObj baseline)" "wf_json (JObj live)"
    and "py_eq (jget baseline ''paths'') (jget live ''paths'')"
    and "py_eq (jget baseline ''components'') (jget live ''components'')"
  shows "ds = []"
  using assms(1) agree_contracts [OF _ _ assms(2,3,4)] agree_schemas [OF _ _ assms(2,3,5)]
  by (auto simp: compare_ok operation_differences_empty schema_differences_empty)

theorem key_order_and_metadata_ignored_witness:
  "\<exists>ds. compare_openapi_documents example_document
      ((''info'', JStr ''x'') # [(''paths'', JObj (rev (case jget example_document ''paths'' of JObj p \<Rightarrow> p | _ \<Rightarrow> [])))])
      = Inr ds \<and> ds = []"
proof -
  let ?live = "(''info'', JStr ''x'') #
    [(''paths'', JObj (rev (case jget example_document ''paths'' of JObj p \<Rightarrow> p | _ \<Rightarrow> [])))]"
  obtain ds where ds: "compare_openapi_documents example_document ?live = Inr ds"
  proof -
    have "\<not> (case compare_openapi_documents example_document ?live of Inl e \<Rightarrow> True | Inr d \<Rightarrow> False)"
      by code_simp
    with that show thesis by (auto split: sum.splits)
  qed
  have "wf_json (JObj example_document)" "wf_json (JObj ?live)"
    "py_eq (jget example_document ''paths'') (jget ?live ''paths'')"
    "py_eq (jget example_document ''components'') (jget ?live ''components'')"
    by code_simp+
  from key_order_and_metadata_ignored [OF ds this] ds show ?thesis by blast
qed

text \<open>The report is symmetric: comparing the documents the other way round reports the same
  differences with additions and removals exchanged.\<close>

theorem drift_report_symmetric:
  assumes "compare_openapi_documents baseline live = Inr ds"
    and "wf_json (JObj baseline)" "wf_json (JObj live)"
  shows "\<exists>ds'. compare_openapi_documents live baseline = Inr ds' \<and>
    mset ds' = image_mset flip (mset ds)"
proof -
  obtain bo lo bs ls where parts: "operation_contracts baseline = Inr bo" "operation_contracts live = Inr lo"
    "component_schemas baseline = Inr bs" "component_schemas live = Inr ls"
    and ds: "ds = operation_differences bo lo @ schema_differences bs ls"
    using assms(1) by (auto simp: compare_ok)
  have "\<forall>(i, c) \<in> set bo. wf_contract c" "\<forall>(i, c) \<in> set lo. wf_contract c"
    using operation_contracts_wf [OF parts(1) assms(2)] operation_contracts_wf [OF parts(2) assms(3)]
    by (auto simp: wf_contract_def)
  moreover have "wf_entries bs" "wf_entries ls"
    using component_schemas_wf parts(3,4) assms(2,3) by blast+
  ultimately have "image_mset flip (mset ds) = mset (operation_differences lo bo @ schema_differences ls bs)"
    by (simp add: ds operation_differences_flip schema_differences_flip)
  then show ?thesis using parts by (auto simp: compare_ok)
qed

theorem drift_report_symmetric_witness:
  "\<exists>ds'. compare_openapi_documents [(''paths'', JObj [])] example_document = Inr ds' \<and> length ds' = 3"
proof -
  obtain ds where ds: "compare_openapi_documents example_document [(''paths'', JObj [])] = Inr ds" "length ds = 3"
  proof -
    have "case compare_openapi_documents example_document [(''paths'', JObj [])] of
        Inl e \<Rightarrow> False | Inr d \<Rightarrow> length d = 3" by code_simp
    with that show thesis by (auto split: sum.splits)
  qed
  have "wf_json (JObj example_document)" "wf_json (JObj [(''paths'', JObj [])])" by code_simp+
  from drift_report_symmetric [OF ds(1) this] obtain ds' where
    "compare_openapi_documents [(''paths'', JObj [])] example_document = Inr ds'"
    "mset ds' = image_mset flip (mset ds)" by blast
  moreover from this(2) ds(2) have "length ds' = 3" by (metis size_image_mset size_mset)
  ultimately show ?thesis by blast
qed

text \<open>
  Python's equality of booleans and numbers hides one kind of change: a schema whose
  \<open>exclusiveMinimum\<close> goes from \<open>true\<close> (a flag) to \<open>1\<close> (a bound) shows no drift.
\<close>

theorem boolean_to_number_change_unreported:
  "compare_openapi_documents
     [(''paths'', JObj []), (''components'', JObj [(''schemas'', JObj [(''Amount'', JObj
        [(''type'', JStr ''integer''), (''exclusiveMinimum'', JBool True)])])])]
     [(''paths'', JObj []), (''components'', JObj [(''schemas'', JObj [(''Amount'', JObj
        [(''type'', JStr ''integer''), (''exclusiveMinimum'', JInt 1)])])])]
   = Inr []"
  by code_simp

end
