(* ===== verification/Config.thy ===== *)
theory Config
  imports Complex_Main Py_Url
begin

text \<open>
  \<open>src/api_tests/config.py\<close>: the environment configuration, its field validators, its policy
  validators and the session-mode override.  The records are the pydantic models.  Pydantic itself is
  a library: its structural work (unknown keys, types, the literals) is what makes a raw mapping a
  value of these record types, so a raw and a validated configuration have the same type,
  \<open>model_dump\<close> is the identity, and \<open>validate_environment\<close> applies the repository's validators.
  Pydantic reports every failing field at once; the model returns the first in field order.
\<close>

datatype environment_type = Local | Staging | Production
datatype auth_mode = SuppliedSessions | BrowserPreprovisioned
datatype cookie_same_site = SameSiteStrict | SameSiteLax | SameSiteNone

datatype config_error =
    EmptyEnvVarName
  | InvalidEnvVarName string
  | BrowserPathNotAbsolute
  | BrowserPathHasOrigin
  | InvalidHostSuffixes
  | TimeoutNotPositive
  | TimeoutOrder
  | EmptyField
  | OriginNotHttps
  | OriginHasPath
  | PathWithoutSlash
  | PathDuplicateSlash
  | UnparsableUrl
  | ProductionMutation
  | ProductionDestructive
  | ProductionAuthMode
  | ProductionBrowser
  | StagingWithoutSecondary
  | StagingWithoutBrowser
  | BrowserWithoutSettings
  | DestructiveWithoutMutation
  | InvalidEnvironmentName
  | EnvironmentFileNotFound

record supplied_session_config =
  primary_session_env :: string
  secondary_session_env :: "string option"
  admin_session_env :: "string option"

record browser_config =
  headless :: bool
  primary_username_env :: string
  primary_password_env :: string
  secondary_username_env :: string
  secondary_password_env :: string
  admin_username_env :: string
  admin_password_env :: string

record auth_config =
  auth_mode_of :: auth_mode
  supplied_sessions :: supplied_session_config
  browser :: "browser_config option"

record browser_auth_contract =
  callback_path :: string
  default_return_path :: string
  admin_return_path :: string
  logout_return_path :: string
  provider_logout_path :: string
  provider_host_suffixes :: "string list"
  session_cookie_same_site :: cookie_same_site

record timeout_config =
  request_seconds :: rat
  eventually_seconds :: rat

record environment_config =
  env_name :: string
  origin :: string
  api_base_path :: string
  openapi_path :: string
  environment_type_of :: environment_type
  allow_mutation :: bool
  allow_destructive :: bool
  session_cookie_name :: string
  auth :: auth_config
  browser_contract :: browser_auth_contract
  timeouts :: timeout_config

section \<open>Field validators\<close>

definition py_isalnum :: "string \<Rightarrow> bool" where
  "py_isalnum s \<longleftrightarrow> s \<noteq> [] \<and> list_all is_alnum s"

definition validate_env_var_name :: "string \<Rightarrow> config_error + string" where
  "validate_env_var_name raw =
     (let value = strip raw in
      if value = [] then Inl EmptyEnvVarName
      else if \<not> py_isalnum (filter (\<lambda>c. c \<noteq> CHR ''_'') value) \<or> \<not> is_alpha (hd value)
           then Inl (InvalidEnvVarName value)
      else Inr value)"

definition validate_optional_session_env :: "string option \<Rightarrow> config_error + string option" where
  "validate_optional_session_env value =
     (case value of None \<Rightarrow> Inr None | Some v \<Rightarrow> bindE (validate_env_var_name v) (\<lambda>n. Inr (Some n)))"

definition validate_browser_path :: "string \<Rightarrow> config_error + string" where
  "validate_browser_path raw =
     (let value = strip raw in
      case urlparse value of
        None \<Rightarrow> Inl UnparsableUrl
      | Some (parsed, _) \<Rightarrow>
          if \<not> startswith value ''/'' \<or> startswith value ''//'' then Inl BrowserPathNotAbsolute
          else if su_scheme parsed \<noteq> [] \<or> su_netloc parsed \<noteq> [] \<or> su_fragment parsed \<noteq> []
               then Inl BrowserPathHasOrigin
          else Inr value)"

definition normalize_suffix :: "string \<Rightarrow> string" where
  "normalize_suffix item = lstrip_of (\<lambda>c. c = CHR ''.'') (casefold (strip item))"

definition validate_provider_host_suffixes :: "string list \<Rightarrow> config_error + string list" where
  "validate_provider_host_suffixes value =
     (let normalized = map normalize_suffix value in
      if normalized = [] \<or> list_ex (\<lambda>item. item = [] \<or> CHR ''/'' \<in> set item) normalized
      then Inl InvalidHostSuffixes else Inr normalized)"

definition validate_timeouts :: "timeout_config \<Rightarrow> config_error + timeout_config" where
  "validate_timeouts t =
     (if request_seconds t \<le> 0 \<or> eventually_seconds t \<le> 0 then Inl TimeoutNotPositive
      else if eventually_seconds t < request_seconds t then Inl TimeoutOrder
      else Inr t)"

definition validate_non_empty_string :: "string \<Rightarrow> config_error + string" where
  "validate_non_empty_string raw =
     (let value = strip raw in if value = [] then Inl EmptyField else Inr value)"

definition rstrip_slash :: "string \<Rightarrow> string" where
  "rstrip_slash s = rstrip_of (\<lambda>c. c = CHR ''/'') s"

definition validate_origin :: "string \<Rightarrow> config_error + string" where
  "validate_origin raw =
     (let value = rstrip_slash (strip raw) in
      case urlparse value of
        None \<Rightarrow> Inl UnparsableUrl
      | Some (parsed, params) \<Rightarrow>
          if su_scheme parsed \<noteq> ''https'' \<or> su_netloc parsed = [] then Inl OriginNotHttps
          else if su_path parsed \<noteq> [] \<or> params \<noteq> [] \<or> su_query parsed \<noteq> [] \<or> su_fragment parsed \<noteq> []
               then Inl OriginHasPath
          else Inr value)"

definition validate_absolute_path :: "string \<Rightarrow> config_error + string" where
  "validate_absolute_path raw =
     (let value = strip raw in
      if \<not> startswith value ''/'' then Inl PathWithoutSlash
      else if contains ''//'' value then Inl PathDuplicateSlash
      else Inr (if value \<noteq> ''/'' then rstrip_slash value else value))"

section \<open>Models\<close>

definition validate_supplied :: "supplied_session_config \<Rightarrow> config_error + supplied_session_config" where
  "validate_supplied s =
     bindE (validate_env_var_name (primary_session_env s)) (\<lambda>p.
     bindE (validate_optional_session_env (secondary_session_env s)) (\<lambda>q.
     bindE (validate_optional_session_env (admin_session_env s)) (\<lambda>a.
       Inr \<lparr>primary_session_env = p, secondary_session_env = q, admin_session_env = a\<rparr>)))"

definition validate_browser :: "browser_config \<Rightarrow> config_error + browser_config" where
  "validate_browser b =
     bindE (validate_env_var_name (primary_username_env b)) (\<lambda>pu.
     bindE (validate_env_var_name (primary_password_env b)) (\<lambda>pp.
     bindE (validate_env_var_name (secondary_username_env b)) (\<lambda>su.
     bindE (validate_env_var_name (secondary_password_env b)) (\<lambda>sp.
     bindE (validate_env_var_name (admin_username_env b)) (\<lambda>au.
     bindE (validate_env_var_name (admin_password_env b)) (\<lambda>ap.
       Inr \<lparr>headless = headless b, primary_username_env = pu, primary_password_env = pp,
            secondary_username_env = su, secondary_password_env = sp,
            admin_username_env = au, admin_password_env = ap\<rparr>))))))"

definition validate_auth :: "auth_config \<Rightarrow> config_error + auth_config" where
  "validate_auth a =
     bindE (validate_supplied (supplied_sessions a)) (\<lambda>s.
     case browser a of
       None \<Rightarrow> Inr (a\<lparr>supplied_sessions := s\<rparr>)
     | Some b \<Rightarrow> bindE (validate_browser b) (\<lambda>b'. Inr (a\<lparr>supplied_sessions := s, browser := Some b'\<rparr>)))"

definition validate_contract :: "browser_auth_contract \<Rightarrow> config_error + browser_auth_contract" where
  "validate_contract k =
     bindE (validate_browser_path (callback_path k)) (\<lambda>c.
     bindE (validate_browser_path (default_return_path k)) (\<lambda>d.
     bindE (validate_browser_path (admin_return_path k)) (\<lambda>a.
     bindE (validate_browser_path (logout_return_path k)) (\<lambda>l.
     bindE (validate_browser_path (provider_logout_path k)) (\<lambda>p.
     bindE (validate_provider_host_suffixes (provider_host_suffixes k)) (\<lambda>hs.
       Inr \<lparr>callback_path = c, default_return_path = d, admin_return_path = a,
            logout_return_path = l, provider_logout_path = p, provider_host_suffixes = hs,
            session_cookie_same_site = session_cookie_same_site k\<rparr>))))))"

definition validate_environment_policy :: "environment_config \<Rightarrow> config_error + environment_config" where
  "validate_environment_policy c =
     (let production = environment_type_of c = Production;
          staging = environment_type_of c = Staging;
          mode = auth_mode_of (auth c)
      in if production \<and> allow_mutation c then Inl ProductionMutation
         else if production \<and> allow_destructive c then Inl ProductionDestructive
         else if production \<and> mode \<noteq> SuppliedSessions then Inl ProductionAuthMode
         else if production \<and> browser (auth c) \<noteq> None then Inl ProductionBrowser
         else if staging \<and> mode = SuppliedSessions
                 \<and> secondary_session_env (supplied_sessions (auth c)) = None
              then Inl StagingWithoutSecondary
         else if staging \<and> mode = BrowserPreprovisioned \<and> browser (auth c) = None
              then Inl StagingWithoutBrowser
         else if mode = BrowserPreprovisioned \<and> production then Inl ProductionBrowser
         else if mode = BrowserPreprovisioned \<and> browser (auth c) = None
              then Inl BrowserWithoutSettings
         else if allow_destructive c \<and> \<not> allow_mutation c then Inl DestructiveWithoutMutation
         else Inr c)"

definition validate_environment :: "environment_config \<Rightarrow> config_error + environment_config" where
  "validate_environment c =
     bindE (validate_non_empty_string (env_name c)) (\<lambda>n.
     bindE (validate_origin (origin c)) (\<lambda>orig.
     bindE (validate_absolute_path (api_base_path c)) (\<lambda>api.
     bindE (validate_absolute_path (openapi_path c)) (\<lambda>oas.
     bindE (validate_non_empty_string (session_cookie_name c)) (\<lambda>cookie.
     bindE (validate_auth (auth c)) (\<lambda>a.
     bindE (validate_contract (browser_contract c)) (\<lambda>k.
     bindE (validate_timeouts (timeouts c)) (\<lambda>t.
       validate_environment_policy
         (c\<lparr>env_name := n, origin := orig, api_base_path := api, openapi_path := oas,
            session_cookie_name := cookie, auth := a, browser_contract := k, timeouts := t\<rparr>)))))))))"

section \<open>Loading and overriding\<close>

text \<open>
  \<open>read_config\<close> stands for the file system, the YAML parser and pydantic's structural checks: the raw
  configuration an environment file holds, \<open>None\<close> when there is no such file.
\<close>

definition environment_path :: "string \<Rightarrow> config_error + string" where
  "environment_path name =
     (if CHR ''/'' \<in> set name \<or> CHR 0x5C \<in> set name \<or> name \<in> {[], ''.'', ''..''}
      then Inl InvalidEnvironmentName else Inr (name @ ''.yaml''))"

definition load_environment ::
    "(string \<Rightarrow> environment_config option) \<Rightarrow> string \<Rightarrow> config_error + environment_config" where
  "load_environment read_config name =
     bindE (environment_path name) (\<lambda>file.
     bindE (requireE (read_config file) EnvironmentFileNotFound) validate_environment)"

definition with_session_mode ::
    "environment_config \<Rightarrow> auth_mode option \<Rightarrow> config_error + environment_config" where
  "with_session_mode config mode =
     (case mode of
        None \<Rightarrow> Inr config
      | Some m \<Rightarrow>
          if m = auth_mode_of (auth config) then Inr config
          else validate_environment (config\<lparr>auth := (auth config)\<lparr>auth_mode_of := m\<rparr>\<rparr>))"

section \<open>Validated values are stable\<close>

named_theorems config_idem \<open>a validated value validates to itself\<close>

lemma validate_env_var_name_idem [config_idem]:
  "validate_env_var_name v = Inr w \<Longrightarrow> validate_env_var_name w = Inr w"
  by (auto simp: validate_env_var_name_def Let_def split: if_splits)

lemma validate_optional_session_env_idem [config_idem]:
  "validate_optional_session_env v = Inr w \<Longrightarrow> validate_optional_session_env w = Inr w"
  by (auto simp: validate_optional_session_env_def ok_iff config_idem split: option.splits)

lemma validate_browser_path_idem [config_idem]:
  "validate_browser_path v = Inr w \<Longrightarrow> validate_browser_path w = Inr w"
  by (auto simp: validate_browser_path_def Let_def split: option.splits prod.splits if_splits)

lemma validate_non_empty_string_idem [config_idem]:
  "validate_non_empty_string v = Inr w \<Longrightarrow> validate_non_empty_string w = Inr w"
  by (auto simp: validate_non_empty_string_def Let_def split: if_splits)

lemma validate_timeouts_idem [config_idem]:
  "validate_timeouts v = Inr w \<Longrightarrow> validate_timeouts w = Inr w"
  by (auto simp: validate_timeouts_def split: if_splits)

lemma validate_supplied_idem [config_idem]:
  "validate_supplied v = Inr w \<Longrightarrow> validate_supplied w = Inr w"
  by (auto simp: validate_supplied_def ok_iff config_idem)

lemma validate_browser_idem [config_idem]:
  "validate_browser v = Inr w \<Longrightarrow> validate_browser w = Inr w"
  by (auto simp: validate_browser_def ok_iff config_idem)

lemma validate_auth_idem [config_idem]:
  "validate_auth v = Inr w \<Longrightarrow> validate_auth w = Inr w"
  by (auto simp: validate_auth_def ok_iff config_idem split: option.splits)

lemma validate_environment_policy_ok:
  "validate_environment_policy c = Inr c' \<Longrightarrow> c' = c"
  by (auto simp: validate_environment_policy_def Let_def split: if_splits)

text \<open>The remaining validators strip white space before they strip other characters.\<close>

lemma lower_char_idem [simp]: "lower_char (lower_char c) = lower_char c"
  using of_char_bounds [of c] by (auto simp: lower_char_def Let_def of_char_of)

lemma of_lower_char_223: "(of_char (lower_char c) :: int) = 223 \<longleftrightarrow> (of_char c :: int) = 223"
  using of_char_bounds [of c] by (auto simp: lower_char_def Let_def of_char_of)

lemma casefold_fixed:
  "\<forall>c \<in> set s. lower_char c = c \<and> (of_char c :: int) \<noteq> 223 \<Longrightarrow> casefold s = s"
  by (induction s) (auto simp: casefold_def)

lemma lower_char_s: "lower_char CHR ''s'' = CHR ''s''" "(of_char CHR ''s'' :: int) \<noteq> 223"
  by (simp_all add: lower_char_def)

lemma set_casefold: "c \<in> set (casefold s) \<Longrightarrow> lower_char c = c \<and> (of_char c :: int) \<noteq> 223"
  by (auto simp: casefold_def of_lower_char_223 lower_char_s split: if_splits)

lemma normalize_suffix_idem:
  assumes "strip (normalize_suffix item) = normalize_suffix item"
  shows "normalize_suffix (normalize_suffix item) = normalize_suffix item"
proof -
  have "\<forall>c \<in> set (normalize_suffix item). lower_char c = c \<and> (of_char c :: int) \<noteq> 223"
    using set_lstrip_of set_casefold unfolding normalize_suffix_def by blast
  then have "casefold (normalize_suffix item) = normalize_suffix item" by (rule casefold_fixed)
  then show ?thesis
    using assms by (simp add: normalize_suffix_def)
qed

lemma validate_provider_host_suffixes_idem:
  assumes "validate_provider_host_suffixes v = Inr w" and "\<forall>s \<in> set w. strip s = s"
  shows "validate_provider_host_suffixes w = Inr w"
proof -
  have w: "w = map normalize_suffix v"
    and ok: "\<not> (w = [] \<or> list_ex (\<lambda>item. item = [] \<or> CHR ''/'' \<in> set item) w)"
    using assms(1) by (auto simp: validate_provider_host_suffixes_def Let_def split: if_splits)
  have "map normalize_suffix w = w"
    using assms(2) normalize_suffix_idem by (auto simp: w intro!: map_idI)
  with ok show ?thesis by (simp add: validate_provider_host_suffixes_def)
qed

lemma validate_origin_idem:
  "validate_origin v = Inr w \<Longrightarrow> strip w = w \<Longrightarrow> validate_origin w = Inr w"
  by (auto simp: validate_origin_def rstrip_slash_def Let_def split: option.splits prod.splits if_splits)

lemma rstrip_slash_nonempty:
  assumes "startswith v ''/''" "\<not> contains ''//'' v" "v \<noteq> ''/''"
  shows "startswith (rstrip_slash v) ''/''"
proof -
  obtain x r where v: "v = CHR ''/'' # x # r" and x: "x \<noteq> CHR ''/''"
  proof (cases v)
    case (Cons c u)
    with assms that show ?thesis by (cases u) auto
  qed (use assms in simp)
  have "x \<in> set (rev v)" by (simp add: v)
  with x have ne: "rstrip_slash v \<noteq> []" by (auto simp: rstrip_slash_def rstrip_of_def)
  then have "hd (rstrip_slash v) = CHR ''/''"
    using hd_rstrip_of by (simp add: v rstrip_slash_def)
  with ne show ?thesis by (cases "rstrip_slash v") auto
qed

lemma validate_absolute_path_idem:
  assumes "validate_absolute_path v = Inr w" "strip w = w"
  shows "validate_absolute_path w = Inr w"
proof -
  let ?s = "strip v"
  have s: "startswith ?s ''/''" "\<not> contains ''//'' ?s"
    and w: "w = (if ?s \<noteq> ''/'' then rstrip_slash ?s else ?s)"
    using assms(1) by (auto simp: validate_absolute_path_def Let_def split: if_splits)
  have "prefix w ?s" by (simp add: w rstrip_slash_def rstrip_of_prefix)
  then obtain z where z: "?s = w @ z" by (auto simp: prefix_def)
  have "\<not> contains ''//'' w"
  proof
    assume "contains ''//'' w"
    then obtain a b where "w = a @ ''//'' @ b" using contains_iff by blast
    then have "?s = a @ ''//'' @ (b @ z)" by (simp only: z append_assoc)
    then show False using s(2) contains_iff by blast
  qed
  moreover have "startswith w ''/''"
    using s rstrip_slash_nonempty w by auto
  moreover have "rstrip_slash w = w \<or> w = ''/''" by (auto simp: w rstrip_slash_def)
  ultimately show ?thesis
    using assms(2) by (auto simp: validate_absolute_path_def Let_def)
qed

text \<open>No validated text ends in white space: what the slash and dot stripping leaves exposed.\<close>

definition stable_text :: "environment_config \<Rightarrow> bool" where
  "stable_text c = list_all (\<lambda>s. strip s = s)
     ([origin c, api_base_path c, openapi_path c] @ provider_host_suffixes (browser_contract c))"

lemma validate_contract_idem:
  assumes "validate_contract k = Inr k'" "\<forall>s \<in> set (provider_host_suffixes k'). strip s = s"
  shows "validate_contract k' = Inr k'"
  using assms
  by (auto simp: validate_contract_def ok_iff config_idem validate_provider_host_suffixes_idem)

lemma validate_environment_parts:
  assumes "validate_environment raw = Inr c"
  shows "validate_non_empty_string (env_name raw) = Inr (env_name c)"
    "validate_origin (origin raw) = Inr (origin c)"
    "validate_absolute_path (api_base_path raw) = Inr (api_base_path c)"
    "validate_absolute_path (openapi_path raw) = Inr (openapi_path c)"
    "validate_non_empty_string (session_cookie_name raw) = Inr (session_cookie_name c)"
    "validate_auth (auth raw) = Inr (auth c)"
    "validate_contract (browser_contract raw) = Inr (browser_contract c)"
    "validate_timeouts (timeouts raw) = Inr (timeouts c)"
    "validate_environment_policy c = Inr c"
  by (insert assms, unfold validate_environment_def bindE_ok,
      (elim exE conjE, frule validate_environment_policy_ok, simp)+)

text \<open>A configuration all of whose fields are validated is subject to the policy alone.\<close>

lemma validate_environment_fields:
  assumes "validate_non_empty_string (env_name c) = Inr (env_name c)"
    and "validate_origin (origin c) = Inr (origin c)"
    and "validate_absolute_path (api_base_path c) = Inr (api_base_path c)"
    and "validate_absolute_path (openapi_path c) = Inr (openapi_path c)"
    and "validate_non_empty_string (session_cookie_name c) = Inr (session_cookie_name c)"
    and "validate_auth (auth c) = Inr (auth c)"
    and "validate_contract (browser_contract c) = Inr (browser_contract c)"
    and "validate_timeouts (timeouts c) = Inr (timeouts c)"
  shows "validate_environment c = validate_environment_policy c"
  using assms by (simp add: validate_environment_def)

lemma validated_fields:
  assumes "validate_environment raw = Inr c" and "stable_text c"
  shows "validate_non_empty_string (env_name c) = Inr (env_name c)"
    "validate_origin (origin c) = Inr (origin c)"
    "validate_absolute_path (api_base_path c) = Inr (api_base_path c)"
    "validate_absolute_path (openapi_path c) = Inr (openapi_path c)"
    "validate_non_empty_string (session_cookie_name c) = Inr (session_cookie_name c)"
    "validate_auth (auth c) = Inr (auth c)"
    "validate_contract (browser_contract c) = Inr (browser_contract c)"
    "validate_timeouts (timeouts c) = Inr (timeouts c)"
proof -
  note parts = validate_environment_parts [OF assms(1)]
  have stable: "strip (origin c) = origin c" "strip (api_base_path c) = api_base_path c"
    "strip (openapi_path c) = openapi_path c"
    "\<forall>s \<in> set (provider_host_suffixes (browser_contract c)). strip s = s"
    using assms(2) by (auto simp: stable_text_def list_all_iff)
  show "validate_non_empty_string (env_name c) = Inr (env_name c)"
    "validate_origin (origin c) = Inr (origin c)"
    "validate_absolute_path (api_base_path c) = Inr (api_base_path c)"
    "validate_absolute_path (openapi_path c) = Inr (openapi_path c)"
    "validate_non_empty_string (session_cookie_name c) = Inr (session_cookie_name c)"
    "validate_auth (auth c) = Inr (auth c)"
    "validate_contract (browser_contract c) = Inr (browser_contract c)"
    "validate_timeouts (timeouts c) = Inr (timeouts c)"
    using parts stable
    by (blast intro: config_idem validate_origin_idem validate_absolute_path_idem
        validate_contract_idem)+
qed

lemma validate_auth_mode:
  "validate_auth a = Inr a' \<Longrightarrow> validate_auth (a\<lparr>auth_mode_of := m\<rparr>) = Inr (a'\<lparr>auth_mode_of := m\<rparr>)"
  by (cases "browser a") (auto simp: validate_auth_def ok_iff)

lemma with_session_mode_cases:
  assumes "with_session_mode config mode = Inr c"
  shows "c = config \<or> (\<exists>raw. validate_environment raw = Inr c)"
  using assms by (auto simp: with_session_mode_def split: option.splits if_splits)

lemma loaded_validated:
  assumes "load_environment read_config name = Inr c"
  shows "\<exists>raw. validate_environment raw = Inr c"
  using assms by (auto simp: load_environment_def ok_iff)

definition local_example :: environment_config where
  "local_example = \<lparr>env_name = ''local'', origin = ''https://app.example'', api_base_path = ''/api'',
     openapi_path = ''/api/docs'', environment_type_of = Local, allow_mutation = True,
     allow_destructive = False, session_cookie_name = ''SID'',
     auth = \<lparr>auth_mode_of = SuppliedSessions,
       supplied_sessions = \<lparr>primary_session_env = ''P'', secondary_session_env = Some ''S'',
         admin_session_env = None\<rparr>, browser = None\<rparr>,
     browser_contract = \<lparr>callback_path = ''/c'', default_return_path = ''/d'',
       admin_return_path = ''/a'', logout_return_path = ''/l'', provider_logout_path = ''/p'',
       provider_host_suffixes = [''idp.example''], session_cookie_same_site = SameSiteLax\<rparr>,
     timeouts = \<lparr>request_seconds = 5, eventually_seconds = 10\<rparr>\<rparr>"

definition production_example :: environment_config where
  "production_example = local_example\<lparr>environment_type_of := Production, allow_mutation := False\<rparr>"

lemma example_valid: "validate_environment local_example = Inr local_example"
  by code_simp

lemma production_example_valid: "validate_environment production_example = Inr production_example"
  by code_simp

lemma example_stable: "stable_text local_example"
  by code_simp

section \<open>Properties\<close>

text \<open>C5. No configuration that was loaded, with or without a session-mode override, can allow what
  production forbids, and destructive tests are never allowed without mutation.\<close>

theorem loaded_environment_safe:
  assumes "load_environment read_config name = Inr config"
    and "with_session_mode config mode = Inr c"
  shows "(allow_destructive c \<longrightarrow> allow_mutation c) \<and>
    (environment_type_of c = Production \<longrightarrow> \<not> allow_mutation c \<and>
       auth_mode_of (auth c) = SuppliedSessions \<and> browser (auth c) = None) \<and>
    (auth_mode_of (auth c) = BrowserPreprovisioned \<longrightarrow> browser (auth c) \<noteq> None)"
proof -
  obtain raw where "validate_environment raw = Inr c"
    using with_session_mode_cases [OF assms(2)] loaded_validated [OF assms(1)] by blast
  then have "validate_environment_policy c = Inr c" by (rule validate_environment_parts(9))
  then show ?thesis
    by (auto simp: validate_environment_policy_def Let_def split: if_splits)
qed

theorem loaded_environment_safe_witness:
  "load_environment (\<lambda>_. Some production_example) ''production'' = Inr production_example \<and>
   with_session_mode production_example (Some SuppliedSessions) = Inr production_example \<and>
   \<not> allow_mutation production_example"
proof -
  have l: "load_environment (\<lambda>_. Some production_example) ''production'' = Inr production_example"
    by (simp add: load_environment_def environment_path_def production_example_valid)
  have w: "with_session_mode production_example (Some SuppliedSessions) = Inr production_example"
    by (simp add: with_session_mode_def production_example_def local_example_def)
  show ?thesis
    using loaded_environment_safe [OF l w] l w by (simp add: production_example_def)
qed

text \<open>Validation is stable: a validated configuration whose origin, paths and host suffixes end in
  no white space (which slash and dot stripping can expose) validates to itself, field by field, so
  the dump and reload behind a session-mode override changes nothing but the mode: the override is
  exactly the policy check of the configuration with the new mode.\<close>

theorem session_mode_override_changes_only_the_mode:
  assumes "validate_environment raw = Inr config" and "stable_text config"
  shows "validate_environment config = Inr config \<and>
    with_session_mode config (Some m) =
      validate_environment_policy (config\<lparr>auth := (auth config)\<lparr>auth_mode_of := m\<rparr>\<rparr>)"
proof -
  note fields = validated_fields [OF assms]
  have policy: "validate_environment_policy config = Inr config"
    by (rule validate_environment_parts(9) [OF assms(1)])
  have same: "validate_environment config = Inr config"
    using validate_environment_fields [OF fields] policy by simp
  let ?c = "config\<lparr>auth := (auth config)\<lparr>auth_mode_of := m\<rparr>\<rparr>"
  have "validate_environment ?c = validate_environment_policy ?c"
    by (rule validate_environment_fields) (simp_all add: fields validate_auth_mode)
  then show ?thesis
    using same policy by (auto simp: with_session_mode_def)
qed

theorem session_mode_override_changes_only_the_mode_witness:
  "with_session_mode local_example (Some BrowserPreprovisioned) = Inl BrowserWithoutSettings"
proof -
  have "validate_environment_policy
    (local_example\<lparr>auth := (auth local_example)\<lparr>auth_mode_of := BrowserPreprovisioned\<rparr>\<rparr>)
    = Inl BrowserWithoutSettings" by code_simp
  with session_mode_override_changes_only_the_mode [OF example_valid example_stable]
  show ?thesis by simp
qed

text \<open>
  The white space condition is needed: stripping the slashes of an origin can expose white space that
  a second validation strips.
\<close>

theorem origin_validation_not_stable:
  "validate_origin ''https://h /'' = Inr ''https://h '' \<and>
   validate_origin ''https://h '' = Inr ''https://h''"
  by code_simp

end
