(* ===== verification/Credential_File.thy ===== *)
theory Credential_File
  imports Py_Regex
begin

text \<open>
  The credential file of \<open>src/api_tests/local_credentials.py\<close>: its assignment pattern, the value parser,
  \<open>_read_credential_file\<close> and \<open>_update_credential_file\<close>.  The path is a node of the file system: absent,
  something that is not a file, or a regular file with its text and its permission bits.  A write
  replaces the file atomically; a crash between the writes of the temporary file is not modelled.
\<close>

datatype node = Absent | NotAFile | RegularFile (node_text: string) (node_mode: nat)

datatype credential_error =
    NotExactLocalTarget
  | CredentialPathNotAFile
  | DuplicateVariable string nat
  | PartialEnvironmentCredentials
  | PartialStoredCredentials
  | InvalidAccountState
  | StateWithoutPair
  | SameUsername string string
  | ChangedWhileProvisioning
  | BrowserSettingsMissing
  | EmptyProvenance
  | UnsafeRecordName
  | IncompleteDisposable
  | ProvenanceMismatch
  | InvalidDisposableState
  | PartialBinding
  | BindingWhilePending
  | DisposableUsernameReused
  | DisposableUsernameRetained
  | NotCurrentExecution
  | SignupIncomplete
  | EmptyIdentity
  | ReusableIdentity
  | SubjectAlreadyBound
  | UserIdAlreadyBound
  | SubjectChanged
  | UserIdChanged
  | NoCompletedBinding
  | IdentityMismatch

type_synonym vars = "(string \<times> string) list"
type_synonym 'a credential_io = "(node, credential_error, 'a) io"

definition OWNER_READ_WRITE :: nat where
  "OWNER_READ_WRITE = 384"

section \<open>Assignments\<close>

definition is_ident_start :: "char \<Rightarrow> bool" where
  "is_ident_start c \<longleftrightarrow> is_ascii_letter c \<or> c = CHR ''_''"

definition is_ident_char :: "char \<Rightarrow> bool" where
  "is_ident_char c \<longleftrightarrow> is_ascii_alnum c \<or> c = CHR ''_''"

definition ASSIGNMENT_RE :: rx where
  "ASSIGNMENT_RE = Seqs
     [Star (Cls is_space), Opt (Seq (Lit ''export'') (Plus (Cls is_space))),
      Grp ''name'' (Seq (Cls is_ident_start) (Star (Cls is_ident_char))),
      Star (Cls is_space), Lit ''='', Star (Cls is_space),
      Grp ''value'' (Star (Cls (\<lambda>c. c \<noteq> LF)))]"

text \<open>
  The match of a line without its line feed: the greedy last group reaches the end of the line, where
  the pattern's dollar sign holds.
\<close>

definition match_assignment :: "string \<Rightarrow> (string \<times> string) option" where
  "match_assignment line =
     map_option (\<lambda>w. (the (rx_group ''name'' w), the (rx_group ''value'' w))) (rx_match ASSIGNMENT_RE line)"

definition is_quoted :: "string \<Rightarrow> bool" where
  "is_quoted v \<longleftrightarrow> 2 \<le> length v \<and> hd v = last v \<and> hd v \<in> {CHR 0x27, CHR 0x22}"

definition parse_value :: "string \<Rightarrow> string" where
  "parse_value raw_value =
     (let v = strip raw_value in
      if is_quoted v then butlast (tl v) else strip (before_first '' #'' v))"

section \<open>Reading\<close>

definition read_step :: "vars \<Rightarrow> nat \<times> string \<Rightarrow> credential_error + vars" where
  "read_step values numbered =
     (case match_assignment (snd numbered) of
        None \<Rightarrow> Inr values
      | Some (name, raw) \<Rightarrow>
          if map_of values name \<noteq> None then Inl (DuplicateVariable name (fst numbered))
          else Inr (AList.update name (parse_value raw) values))"

definition read_content :: "string \<Rightarrow> credential_error + vars" where
  "read_content content = foldE read_step [] (List.enumerate 1 (splitlines content))"

definition read_credential_file :: "vars credential_io" where
  "read_credential_file path =
     (case path of
        Absent \<Rightarrow> (Inr [], path)
      | NotAFile \<Rightarrow> (Inl CredentialPathNotAFile, path)
      | RegularFile raw mode \<Rightarrow>
          (read_content (universal_newlines raw), RegularFile raw OWNER_READ_WRITE))"

section \<open>Updating\<close>

definition assignment_line :: "string \<times> string \<Rightarrow> string" where
  "assignment_line p = fst p @ ''='' @ snd p @ [LF]"

definition line_name :: "string \<Rightarrow> string option" where
  "line_name line = map_option fst (match_assignment (rstrip_of (\<lambda>c. c = CR \<or> c = LF) line))"

text \<open>The loop over the lines: the lines written and the updates that remain.\<close>

fun update_lines :: "vars \<Rightarrow> string list \<Rightarrow> string list \<times> vars" where
  "update_lines remaining [] = ([], remaining)"
| "update_lines remaining (line # lines) =
     (case Option.bind (line_name line) (\<lambda>n. map_option (Pair n) (map_of remaining n)) of
        Some p \<Rightarrow>
          (case update_lines (AList.delete (fst p) remaining) lines of
             (updated, rest) \<Rightarrow> (assignment_line p # updated, rest))
      | None \<Rightarrow>
          (case update_lines remaining lines of (updated, rest) \<Rightarrow> (line # updated, rest)))"

definition finish_lines :: "string list \<Rightarrow> vars \<Rightarrow> string list" where
  "finish_lines updated remaining =
     (let closed = (if updated \<noteq> [] \<and> \<not> endswith (last updated) [LF] \<and> \<not> endswith (last updated) [CR]
                    then butlast updated @ [last updated @ [LF]] else updated);
          spaced = (if remaining \<noteq> [] \<and> closed \<noteq> [] \<and> strip (last closed) \<noteq> []
                    then closed @ [[LF]] else closed)
      in spaced @ map assignment_line remaining)"

definition update_content :: "vars \<Rightarrow> string \<Rightarrow> string" where
  "update_content updates content =
     (case update_lines updates (splitlines_keep content) of
        (updated, remaining) \<Rightarrow> concat (finish_lines updated remaining))"

definition update_credential_file :: "vars \<Rightarrow> unit credential_io" where
  "update_credential_file updates path =
     (case path of
        NotAFile \<Rightarrow> (Inl CredentialPathNotAFile, path)
      | Absent \<Rightarrow> (Inr (), RegularFile (update_content updates []) OWNER_READ_WRITE)
      | RegularFile raw mode \<Rightarrow>
          (Inr (), RegularFile (update_content updates (universal_newlines raw)) OWNER_READ_WRITE))"

section \<open>What a written line reads as\<close>

definition ident :: "string \<Rightarrow> bool" where
  "ident n \<longleftrightarrow> (case n of [] \<Rightarrow> False | c # cs \<Rightarrow> is_ident_start c \<and> list_all is_ident_char cs)"

text \<open>Values that the parser returns as they are.\<close>

definition plain_value :: "string \<Rightarrow> bool" where
  "plain_value v \<longleftrightarrow> list_all (\<lambda>c. \<not> is_linebreak c) v \<and> strip v = v \<and> \<not> is_quoted v \<and> \<not> contains '' #'' v"

lemma plain_value_parse: "plain_value v \<Longrightarrow> parse_value v = v"
  by (simp add: plain_value_def parse_value_def before_first_def split_first_None [symmetric])

lemma strip_lstrip: "strip (lstrip_of is_space v) = strip v"
  by (simp add: strip_def strip_of_def)

lemma parse_value_lstrip: "parse_value (dropWhile is_space v) = parse_value v"
  using strip_lstrip [of v] by (simp add: parse_value_def lstrip_of_def)

lemma char_classes:
  "is_space c \<Longrightarrow> \<not> is_ident_char c \<and> \<not> is_ident_start c \<and> c \<noteq> CHR ''='' \<and> c \<noteq> CHR ''e''"
  "is_ident_start c \<Longrightarrow> is_ident_char c"
  "is_ident_char c \<Longrightarrow> c \<noteq> CHR ''='' \<and> \<not> is_space c \<and> \<not> is_linebreak c"
  by (auto simp: is_ident_char_def is_ident_start_def is_ascii_alnum_def is_ascii_letter_def
      is_ascii_upper_def is_ascii_lower_def is_ascii_digit_def is_space_def is_linebreak_def Let_def)

lemma equals_class: "\<not> is_space CHR ''=''" "\<not> is_ident_char CHR ''=''"
  by (simp_all add: is_space_def is_ident_char_def is_ascii_alnum_def is_ascii_letter_def
      is_ascii_upper_def is_ascii_lower_def is_ascii_digit_def)

text \<open>A group of one character and a run, followed by what cannot begin with a character of the run.\<close>

lemma ways_word_Seq:
  assumes "\<And>c t. P c \<Longrightarrow> ways r (c # t) = []"
  shows "ways (Seq (Grp g (Seq (Cls Q) (Star (Cls P)))) r) (c # s) =
    (if Q c then map (\<lambda>w. Way (c # takeWhile P s @ way_text w) ((g, c # takeWhile P s) # way_groups w) (way_rest w))
       (ways r (dropWhile P s)) else [])"
proof (cases "Q c")
  case True
  let ?n = "length (takeWhile P s)"
  have short: "ways r (drop k s) = []" if "k < ?n" for k
  proof -
    have k: "k < length s" using that length_takeWhile_le [of P s] by linarith
    have "s ! k = takeWhile P s ! k" using that by (simp add: takeWhile_nth)
    then have "P (s ! k)" using that nth_mem set_takeWhileD by metis
    then show ?thesis using assms k by (metis Cons_nth_drop_Suc)
  qed
  have gone: "concat (map (\<lambda>k. map (way_then (Way (c # take k s) [(g, c # take k s)] (drop k s))) (ways r (drop k s)))
      (rev [0..<?n])) = []"
    by (simp add: short)
  have "take ?n s = takeWhile P s" "drop ?n s = dropWhile P s"
    by (metis takeWhile_eq_take, metis dropWhile_eq_drop)
  then show ?thesis
    using True by (simp add: ways_Star_Cls o_def way_then_def gone)
qed simp

lemma rx_match_word_Seq:
  assumes "\<And>c t. P c \<Longrightarrow> ways r (c # t) = []" and "Q c"
  shows "rx_match (Seq (Grp g (Seq (Cls Q) (Star (Cls P)))) r) (c # s) =
    map_option (\<lambda>w. Way (c # takeWhile P s @ way_text w) ((g, c # takeWhile P s) # way_groups w) (way_rest w))
      (rx_match r (dropWhile P s))"
  using ways_word_Seq [OF assms(1), of P g Q c s] assms(2)
  by (simp add: rx_match_def split: list.splits)

definition after_name :: rx where
  "after_name = Seq (Star (Cls is_space)) (Seq (Lit ''='') (Seq (Star (Cls is_space))
     (Grp ''value'' (Star (Cls (\<lambda>c. c \<noteq> LF))))))"

definition name_part :: rx where
  "name_part = Seq (Opt (Seq (Lit ''export'') (Plus (Cls is_space))))
     (Seq (Grp ''name'' (Seq (Cls is_ident_start) (Star (Cls is_ident_char)))) after_name)"

lemma ASSIGNMENT_RE_parts: "ASSIGNMENT_RE = Seq (Star (Cls is_space)) name_part"
  by (simp add: ASSIGNMENT_RE_def name_part_def after_name_def)

text \<open>The first way of the value: the white space and then everything.\<close>

lemma value_way:
  assumes "LF \<notin> set v"
  shows "rx_match (Seq (Star (Cls is_space)) (Grp ''value'' (Star (Cls (\<lambda>c. c \<noteq> LF))))) v =
    Some (Way v [(''value'', dropWhile is_space v)] [])"
proof -
  obtain ws where ws: "ways (Star (Cls is_space)) v = Way (takeWhile is_space v) [] (dropWhile is_space v) # ws"
    using ways_Star_Cls_first by blast
  have free: "\<forall>c \<in> set (dropWhile is_space v). c \<noteq> LF"
    using assms by (auto dest: set_dropWhileD)
  then have "rx_match (Grp ''value'' (Star (Cls (\<lambda>c. c \<noteq> LF)))) (dropWhile is_space v) =
    Some (Way (dropWhile is_space v) [(''value'', dropWhile is_space v)] [])"
    by (simp add: rx_match_Grp rx_match_Star_Cls takeWhile_eq_all_conv [THEN iffD2] dropWhile_eq_Nil_conv [THEN iffD2])
  with rx_match_Seq_first [OF ws] show ?thesis by (simp add: way_then_def)
qed

lemma after_name_way:
  assumes "LF \<notin> set v"
  shows "rx_match after_name (CHR ''='' # v) = Some (Way (CHR ''='' # v) [(''value'', dropWhile is_space v)] [])"
proof -
  let ?r = "Seq (Star (Cls is_space)) (Grp ''value'' (Star (Cls (\<lambda>c. c \<noteq> LF))))"
  have none: "ways (Seq (Lit ''='') ?r) (c # t) = []" if "is_space c" for c t
    using char_classes(1) [OF that] by simp
  have "rx_match (Seq (Lit ''='') ?r) (CHR ''='' # v) =
    map_option (way_then (Way ''='' [] v)) (rx_match ?r (way_rest (Way ''='' [] v)))"
    by (rule rx_match_Seq_only) (simp add: ways_Lit_Cons del: Lit.simps)
  also have "\<dots> = Some (Way (CHR ''='' # v) [(''value'', dropWhile is_space v)] [])"
    by (simp add: value_way [OF assms] way_then_def)
  finally have eq: "rx_match (Seq (Lit ''='') ?r) (CHR ''='' # v) =
    Some (Way (CHR ''='' # v) [(''value'', dropWhile is_space v)] [])" .
  have "rx_match after_name (CHR ''='' # v) =
    map_option (\<lambda>w. Way (takeWhile is_space (CHR ''='' # v) @ way_text w) (way_groups w) (way_rest w))
      (rx_match (Seq (Lit ''='') ?r) (dropWhile is_space (CHR ''='' # v)))"
    unfolding after_name_def by (rule rx_match_Seq_Star) (rule none)
  then show ?thesis
    by (simp add: equals_class eq del: Lit.simps)
qed

lemma after_name_ident: "is_ident_char c \<Longrightarrow> ways after_name (c # t) = []"
  using char_classes(3) [of c] by (simp add: after_name_def ways_Star_Cls)

lemma name_part_space: "is_space c \<Longrightarrow> ways name_part (c # t) = []"
  using char_classes(1) [of c] by (simp add: name_part_def Opt_def Plus_def)

lemma dropWhile_ident: "list_all is_ident_char cs \<Longrightarrow> takeWhile is_ident_char (cs @ CHR ''='' # v) = cs \<and>
   dropWhile is_ident_char (cs @ CHR ''='' # v) = CHR ''='' # v"
  by (induction cs) (simp_all add: equals_class)

lemma prefix_before: "prefix u (n @ c # v) \<Longrightarrow> c \<notin> set u \<Longrightarrow> prefix u n"
  by (auto simp: prefix_append prefix_Cons)

text \<open>A line \<open>name=value\<close> matches with its name and its value.\<close>

lemma match_assignment_line:
  assumes n: "ident n" and v: "LF \<notin> set v"
  shows "match_assignment (n @ ''='' @ v) = Some (n, dropWhile is_space v)"
proof -
  obtain c cs where cs: "n = c # cs" "is_ident_start c" "list_all is_ident_char cs"
    using n by (auto simp: ident_def split: list.splits)
  let ?s = "cs @ CHR ''='' # v"
  let ?name = "Grp ''name'' (Seq (Cls is_ident_start) (Star (Cls is_ident_char)))"
  have d: "takeWhile is_ident_char ?s = cs" "dropWhile is_ident_char ?s = CHR ''='' # v"
    using dropWhile_ident [OF cs(3)] by simp_all
  have "rx_match (Seq ?name after_name) (c # ?s) =
      map_option (\<lambda>w. Way (c # takeWhile is_ident_char ?s @ way_text w)
        ((''name'', c # takeWhile is_ident_char ?s) # way_groups w) (way_rest w))
        (rx_match after_name (dropWhile is_ident_char ?s))"
    by (rule rx_match_word_Seq) (use cs(2) after_name_ident in auto)
  then have named: "rx_match (Seq ?name after_name) (c # ?s) =
      Some (Way (c # ?s) [(''name'', n), (''value'', dropWhile is_space v)] [])"
    by (simp add: d after_name_way [OF v] cs(1))
  have "ways (Opt (Seq (Lit ''export'') (Plus (Cls is_space)))) (c # ?s) = [Way [] [] (c # ?s)]"
  proof -
    have "ways (Plus (Cls is_space)) (way_rest w) = []" if w: "w \<in> set (ways (Lit ''export'') (c # ?s))" for w
    proof -
      have pre: "prefix ''export'' (n @ CHR ''='' # v)" and rest: "way_rest w = drop (length ''export'') (n @ CHR ''='' # v)"
        using w unfolding ways_Lit by (simp_all add: cs(1) split: if_splits)
      obtain n' where n': "n = ''export'' @ n'" using prefix_before [OF pre] by (auto simp: prefix_def)
      have "list_all is_ident_char n'" using cs n' char_classes(2) [OF cs(2)] by (auto simp: list_all_iff)
      moreover have "way_rest w = n' @ CHR ''='' # v" by (simp add: rest n')
      ultimately show ?thesis
        using char_classes(3) by (cases n') (auto simp: Plus_def equals_class)
    qed
    then show ?thesis by (simp add: Opt_def del: Lit.simps)
  qed
  from rx_match_Seq_only [OF this] have "rx_match name_part (c # ?s) =
      Some (Way (c # ?s) [(''name'', n), (''value'', dropWhile is_space v)] [])"
    by (simp add: name_part_def named way_then_def)
  moreover have "\<not> is_space c" using char_classes(2,3) cs(2) by blast
  moreover have "rx_match ASSIGNMENT_RE (c # ?s) =
    map_option (\<lambda>w. Way (takeWhile is_space (c # ?s) @ way_text w) (way_groups w) (way_rest w))
      (rx_match name_part (dropWhile is_space (c # ?s)))"
    unfolding ASSIGNMENT_RE_parts by (rule rx_match_Seq_Star) (rule name_part_space)
  ultimately show ?thesis by (simp add: match_assignment_def cs(1) rx_group_def)
qed

section \<open>Lines\<close>

text \<open>Text mode leaves no carriage return; the other line boundaries of Python are excluded.\<close>

definition lf_only :: "string \<Rightarrow> bool" where
  "lf_only s \<longleftrightarrow> list_all (\<lambda>c. is_linebreak c \<longrightarrow> c = LF) s"

definition plain_breaks :: "string \<Rightarrow> bool" where
  "plain_breaks s \<longleftrightarrow> list_all (\<lambda>c. is_linebreak c \<longrightarrow> c = LF \<or> c = CR) s"

lemma linebreaks: "is_linebreak LF" "is_linebreak CR" "\<not> is_linebreak CHR ''=''"
  by (simp_all add: is_linebreak_def)

lemma universal_newlines_chars:
  "c \<in> set (universal_newlines s) \<Longrightarrow> c \<noteq> CR \<and> (c \<in> set s \<or> c = LF)"
proof (induction s rule: universal_newlines.induct)
  case (2 d cs)
  then show ?case by (cases cs) (auto split: if_splits)
qed simp

lemma universal_newlines_id: "CR \<notin> set s \<Longrightarrow> universal_newlines s = s"
  by (induction s rule: universal_newlines.induct) auto

lemma lf_only_universal: "plain_breaks s \<Longrightarrow> lf_only (universal_newlines s)"
  using universal_newlines_chars by (fastforce simp: lf_only_def plain_breaks_def list_all_iff)

lemma lf_only_no_CR: "lf_only s \<Longrightarrow> CR \<notin> set s"
  using linebreaks(2) by (fastforce simp: lf_only_def list_all_iff)

lemma lf_only_plain: "lf_only s \<Longrightarrow> plain_breaks s"
  by (auto simp: lf_only_def plain_breaks_def list_all_iff)

text \<open>A line is a body without line boundary, ended by a line feed (all but the last must be).\<close>

definition body_ok :: "string \<Rightarrow> bool" where
  "body_ok b \<longleftrightarrow> list_all (\<lambda>c. \<not> is_linebreak c) b"

lemma splitlines_keep_body: "body_ok b \<Longrightarrow> b \<noteq> [] \<Longrightarrow> splitlines_keep b = [b]"
proof (induction b)
  case (Cons c b)
  then show ?case by (cases b) (auto simp: body_ok_def)
qed simp

lemma splitlines_keep_line: "body_ok b \<Longrightarrow> splitlines_keep (b @ LF # t) = (b @ [LF]) # splitlines_keep t"
  by (induction b) (auto simp: body_ok_def linebreaks(1))

lemma split_body:
  assumes "lf_only s"
  shows "body_ok s \<or> (\<exists>b t. s = b @ LF # t \<and> body_ok b \<and> lf_only t)"
  using assms
proof (induction s)
  case (Cons c s)
  show ?case
  proof (cases "c = LF")
    case True
    then have "c # s = [] @ LF # s \<and> body_ok [] \<and> lf_only s"
      using Cons.prems by (simp add: body_ok_def lf_only_def)
    then show ?thesis by blast
  next
    case False
    then have c: "\<not> is_linebreak c" and s: "lf_only s" using Cons.prems by (auto simp: lf_only_def)
    from Cons.IH [OF s] show ?thesis
    proof
      assume "body_ok s"
      then show ?thesis using c by (simp add: body_ok_def)
    next
      assume "\<exists>b t. s = b @ LF # t \<and> body_ok b \<and> lf_only t"
      then obtain b t where "s = b @ LF # t" "body_ok b" "lf_only t" by blast
      then have "c # s = (c # b) @ LF # t \<and> body_ok (c # b) \<and> lf_only t" using c by (simp add: body_ok_def)
      then show ?thesis by blast
    qed
  qed
qed (simp add: body_ok_def)

definition terminated :: "string \<Rightarrow> bool" where
  "terminated l \<longleftrightarrow> (\<exists>b. body_ok b \<and> l = b @ [LF])"

text \<open>The lines of a text: terminated ones, and perhaps a last one without line feed.\<close>

lemma lines_shape:
  assumes "lf_only s"
  shows "\<exists>ls e. splitlines_keep s = ls @ e \<and> list_all terminated ls \<and> (e = [] \<or> (\<exists>b. e = [b] \<and> body_ok b \<and> b \<noteq> []))"
  using assms
proof (induction s rule: length_induct)
  case (1 s)
  from split_body [OF 1(2)] show ?case
  proof
    assume "body_ok s"
    then show ?thesis
    proof (cases "s = []")
      case True
      then show ?thesis by (intro exI [of _ "[]"]) simp
    next
      case False
      with \<open>body_ok s\<close> show ?thesis
        by (intro exI [of _ "[]"] exI [of _ "[s]"]) (simp add: splitlines_keep_body)
    qed
  next
    assume "\<exists>b t. s = b @ LF # t \<and> body_ok b \<and> lf_only t"
    then obtain b t where s: "s = b @ LF # t" "body_ok b" "lf_only t" by blast
    have "length t < length s" by (simp add: s(1))
    with 1(1) s(3) obtain ls e where t: "splitlines_keep t = ls @ e" "list_all terminated ls"
      "e = [] \<or> (\<exists>b. e = [b] \<and> body_ok b \<and> b \<noteq> [])" by blast
    have "splitlines_keep s = ((b @ [LF]) # ls) @ e" "list_all terminated ((b @ [LF]) # ls)"
      using s t by (auto simp: splitlines_keep_line terminated_def)
    with t(3) show ?thesis by blast
  qed
qed

lemma splitlines_keep_concat: "list_all terminated ls \<Longrightarrow> splitlines_keep (concat ls) = ls"
  by (induction ls) (auto simp: terminated_def splitlines_keep_line)

lemma body_ends: "body_ok b \<Longrightarrow> rstrip_of (\<lambda>c. c = CR \<or> c = LF) b = b"
  by (rule rstrip_of_last) (metis body_ok_def last_in_set linebreaks(1,2) list_all_iff)

lemma drop_linebreak_body: "body_ok b \<Longrightarrow> drop_linebreak b = b"
proof -
  assume b: "body_ok b"
  then have "LF \<notin> set b" using linebreaks(1) by (auto simp: body_ok_def list_all_iff)
  then have "\<not> suffix [CR, LF] b" by (auto simp: suffix_def)
  moreover have "b = [] \<or> \<not> is_linebreak (last b)" using b by (cases b rule: rev_cases) (auto simp: body_ok_def)
  ultimately show ?thesis by (auto simp: drop_linebreak_def)
qed

lemma drop_linebreak_line: "body_ok b \<Longrightarrow> drop_linebreak (b @ [LF]) = b \<and> rstrip_of (\<lambda>c. c = CR \<or> c = LF) (b @ [LF]) = b"
proof -
  assume b: "body_ok b"
  have "CR \<notin> set b" using b linebreaks(2) by (auto simp: body_ok_def list_all_iff)
  then have "\<not> suffix [CR, LF] (b @ [LF])" by (cases b rule: rev_cases) (auto simp: suffix_def append_eq_Cons_conv)
  then have "drop_linebreak (b @ [LF]) = b" by (simp add: drop_linebreak_def linebreaks(1))
  moreover have "rstrip_of (\<lambda>c. c = CR \<or> c = LF) (b @ [LF]) = rstrip_of (\<lambda>c. c = CR \<or> c = LF) b"
    by (simp add: rstrip_of_def)
  ultimately show ?thesis using body_ends [OF b] by simp
qed

section \<open>Reading is collecting the assignments\<close>

definition pair_of :: "string \<Rightarrow> (string \<times> string) option" where
  "pair_of body = map_option (\<lambda>(n, r). (n, parse_value r)) (match_assignment body)"

definition line_pair :: "string \<Rightarrow> (string \<times> string) option" where
  "line_pair l = pair_of (rstrip_of (\<lambda>c. c = CR \<or> c = LF) l)"

definition assignments :: "string list \<Rightarrow> vars" where
  "assignments ls = List.map_filter line_pair ls"

lemma assignments_simps [simp]:
  "assignments [] = []"
  "assignments (l # ls) = (case line_pair l of None \<Rightarrow> assignments ls | Some p \<Rightarrow> p # assignments ls)"
  "assignments (ls @ ms) = assignments ls @ assignments ms"
  by (simp_all add: assignments_def map_filter_simps map_filter_def split: option.splits)

lemma read_fold:
  "foldE read_step vs (List.enumerate k bs) = Inr ws \<longleftrightarrow>
   distinct (map fst (List.map_filter pair_of bs)) \<and>
   set (map fst (List.map_filter pair_of bs)) \<inter> dom (map_of vs) = {} \<and>
   ws = vs @ List.map_filter pair_of bs"
proof (induction bs arbitrary: vs k)
  case Nil
  then show ?case by (auto simp: map_filter_simps)
next
  case (Cons b bs)
  show ?case
  proof (cases "match_assignment b")
    case None
    then have "read_step vs (k, b) = Inr vs" "pair_of b = None" by (simp_all add: read_step_def pair_of_def)
    then show ?thesis using Cons.IH by (simp add: map_filter_simps)
  next
    case (Some q)
    obtain n r where q: "q = (n, r)" by (cases q)
    have pair: "pair_of b = Some (n, parse_value r)" using Some by (simp add: pair_of_def q)
    show ?thesis
    proof (cases "map_of vs n")
      case None
      then have step: "read_step vs (k, b) = Inr (vs @ [(n, parse_value r)])"
        using Some by (simp add: read_step_def q update_new)
      have dom: "dom (map_of (vs @ [(n, parse_value r)])) = insert n (dom (map_of vs))"
        by (simp add: dom_map_of_conv_image_fst)
      have "n \<notin> dom (map_of vs)" using None by (simp add: domIff)
      then have disj: "K \<inter> insert n (dom (map_of vs)) = {} \<longleftrightarrow> n \<notin> K \<and> insert n K \<inter> dom (map_of vs) = {}" for K
        by auto
      show ?thesis
        unfolding enumerate_simps foldE.simps step bindE_simps Cons.IH dom disj map_filter_simps pair
        by (simp only: option.case list.map list.set distinct.simps append_assoc append_Cons append_Nil fst_conv) blast
    next
      case (Some w)
      then have "n \<in> dom (map_of vs)" by (rule domI)
      then show ?thesis using Some \<open>match_assignment b = Some q\<close>
        by (simp add: read_step_def q map_filter_simps pair)
    qed
  qed
qed

lemma line_pair_body: "body_ok b \<Longrightarrow> line_pair b = pair_of b \<and> line_pair (b @ [LF]) = pair_of b"
  using body_ends drop_linebreak_line by (simp add: line_pair_def)

lemma map_filter_drop:
  "(\<And>l. l \<in> set xs \<Longrightarrow> f l = g (h l)) \<Longrightarrow> List.map_filter g (map h xs) = List.map_filter f xs"
  by (induction xs) (auto simp: map_filter_simps split: option.splits)

lemma read_content_ok:
  assumes "lf_only content"
  shows "read_content content = Inr vs \<longleftrightarrow>
    distinct (map fst (assignments (splitlines_keep content))) \<and> vs = assignments (splitlines_keep content)"
proof -
  obtain ls e where shape: "splitlines_keep content = ls @ e" "list_all terminated ls"
    "e = [] \<or> (\<exists>b. e = [b] \<and> body_ok b \<and> b \<noteq> [])"
    using lines_shape [OF assms] by blast
  have "line_pair l = pair_of (drop_linebreak l)" if mem: "l \<in> set (ls @ e)" for l
  proof -
    consider b where "body_ok b" "l = b @ [LF]" | b where "body_ok b" "l = b"
      using mem shape(2,3) by (auto simp: list_all_iff terminated_def)
    then show ?thesis
      using line_pair_body drop_linebreak_body drop_linebreak_line by cases auto
  qed
  then have "List.map_filter pair_of (map drop_linebreak (ls @ e)) = assignments (ls @ e)"
    unfolding assignments_def by (rule map_filter_drop)
  then show ?thesis
    unfolding read_content_def splitlines_def read_fold shape(1) by simp
qed

section \<open>Updating is overriding the assignments\<close>

definition updates_ok :: "vars \<Rightarrow> bool" where
  "updates_ok u \<longleftrightarrow> distinct (map fst u) \<and> list_all (\<lambda>(n, v). ident n \<and> plain_value v) u"

definition override :: "vars \<Rightarrow> string \<times> string \<Rightarrow> string \<times> string" where
  "override u p = (fst p, case map_of u (fst p) of Some w \<Rightarrow> w | None \<Rightarrow> snd p)"

lemma updates_ok_delete: "updates_ok u \<Longrightarrow> updates_ok (AList.delete n u)"
  by (auto simp: updates_ok_def AList.delete_eq list_all_iff intro: AList.distinct_delete [unfolded AList.delete_eq])

lemma ident_body: "ident n \<Longrightarrow> list_all (\<lambda>c. \<not> is_linebreak c) n"
  by (cases n) (auto simp: ident_def list_all_iff dest: char_classes(2) char_classes(3))

lemma assignment_line_terminated:
  assumes "ident n" "plain_value v"
  shows "terminated (assignment_line (n, v))" and "line_pair (assignment_line (n, v)) = Some (n, v)"
proof -
  have b: "body_ok (n @ ''='' @ v)"
    using assms ident_body [OF assms(1)] linebreaks(3) by (simp add: body_ok_def plain_value_def)
  then show "terminated (assignment_line (n, v))"
    unfolding terminated_def assignment_line_def by (intro exI [of _ "n @ ''='' @ v"]) simp
  have "LF \<notin> set v" using assms(2) linebreaks(1) by (auto simp: plain_value_def list_all_iff)
  from match_assignment_line [OF assms(1) this] have "pair_of (n @ ''='' @ v) = Some (n, v)"
    by (simp add: pair_of_def parse_value_lstrip plain_value_parse [OF assms(2)])
  then show "line_pair (assignment_line (n, v)) = Some (n, v)"
    using line_pair_body [OF b] by (simp add: assignment_line_def)
qed

lemma line_name_pair: "line_name l = map_option fst (line_pair l)"
  by (cases "match_assignment (rstrip_of (\<lambda>c. c = CR \<or> c = LF) l)")
    (auto simp: line_name_def line_pair_def pair_of_def)

lemma override_delete:
  "fst p \<noteq> n \<Longrightarrow> override (AList.delete n u) p = override u p"
  by (simp add: override_def AList.delete_conv')

lemma update_lines_spec:
  assumes "updates_ok u" "distinct (map fst (assignments ls))" "update_lines u ls = (out, rem)"
  shows "assignments out = map (override u) (assignments ls) \<and>
    rem = filter (\<lambda>p. fst p \<notin> set (map fst (assignments ls))) u \<and>
    list_all2 (\<lambda>o' l. o' = l \<or> terminated o') out ls"
  using assms
proof (induction ls arbitrary: u out rem)
  case Nil
  then show ?case by simp
next
  case (Cons l ls)
  have dls: "distinct (map fst (assignments ls))"
    using Cons.prems(2) by (auto split: option.splits)
  show ?case
  proof (cases "Option.bind (line_name l) (\<lambda>n. map_option (Pair n) (map_of u n))")
    case None
    obtain out' where out': "update_lines u ls = (out', rem)" "out = l # out'"
      using Cons.prems(3) None by (auto split: prod.splits)
    note IH = Cons.IH [OF Cons.prems(1) dls out'(1)]
    show ?thesis
    proof (cases "line_pair l")
      case None
      then show ?thesis using IH out'(2) by simp
    next
      case (Some p)
      then have free: "map_of u (fst p) = None" using \<open>Option.bind _ _ = None\<close> by (simp add: line_name_pair)
      then have "override u p = p" by (simp add: override_def)
      moreover have "\<forall>x \<in> set u. fst x \<noteq> fst p" using free by (auto simp: map_of_eq_None_iff image_iff)
      then have "filter (\<lambda>q. fst q \<notin> insert (fst p) A) u = filter (\<lambda>q. fst q \<notin> A) u" for A
        by (intro filter_cong) auto
      ultimately show ?thesis using IH out'(2) Some by simp
    qed
  next
    case (Some q)
    then obtain p v where p: "line_pair l = Some p" "map_of u (fst p) = Some v" "q = (fst p, v)"
      by (auto simp: line_name_pair bind_eq_Some_conv)
    obtain out' where out': "update_lines (AList.delete (fst p) u) ls = (out', rem)" "out = assignment_line q # out'"
      using Cons.prems(3) Some p(3) by (auto split: prod.splits)
    note IH = Cons.IH [OF updates_ok_delete [OF Cons.prems(1)] dls out'(1)]
    have "(fst p, v) \<in> set u" using p(2) by (rule map_of_SomeD)
    then have "ident (fst p)" "plain_value v" using Cons.prems(1) by (auto simp: updates_ok_def list_all_iff)
    note written = assignment_line_terminated [OF this]
    have new: "fst p \<notin> fst ` set (assignments ls)" using Cons.prems(2) p(1) by simp
    then have "map (override (AList.delete (fst p) u)) (assignments ls) = map (override u) (assignments ls)"
      by (intro map_cong refl override_delete) (metis image_eqI)
    moreover have "override u p = q" by (simp add: override_def p)
    moreover have "filter (\<lambda>r. fst r \<notin> A) (AList.delete (fst p) u) = filter (\<lambda>r. fst r \<notin> insert (fst p) A) u" for A
      by (auto simp: AList.delete_eq intro!: filter_cong)
    ultimately show ?thesis
      using IH out'(2) written p(1,3) by simp
  qed
qed

lemma blank_line: "line_pair [LF] = None" "terminated [LF]"
proof -
  have "match_assignment [] = None" by code_simp
  then show "line_pair [LF] = None" by (simp add: line_pair_def pair_of_def rstrip_of_def)
  show "terminated [LF]" by (auto simp: terminated_def body_ok_def)
qed

lemma finish_lines_spec:
  assumes "list_all terminated ls" "e = [] \<or> (\<exists>b. e = [b] \<and> (body_ok b \<or> terminated b) \<and> b \<noteq> [])"
    and "list_all (\<lambda>(n, v). ident n \<and> plain_value v) rem"
  shows "list_all terminated (finish_lines (ls @ e) rem) \<and>
    assignments (finish_lines (ls @ e) rem) = assignments (ls @ e) @ rem"
proof -
  have tail: "list_all terminated (map assignment_line rem) \<and> assignments (map assignment_line rem) = rem"
    using assms(3) by (induction rem) (auto simp: assignment_line_terminated)
  have ends: "endswith t [LF]" if "terminated t" for t using that by (auto simp: terminated_def)
  define closed where "closed = (if ls @ e \<noteq> [] \<and> \<not> endswith (last (ls @ e)) [LF] \<and> \<not> endswith (last (ls @ e)) [CR]
                    then butlast (ls @ e) @ [last (ls @ e) @ [LF]] else ls @ e)"
  have closed: "list_all terminated closed \<and> assignments closed = assignments (ls @ e)"
  proof (cases "list_all terminated e")
    case True
    then have "ls @ e \<noteq> [] \<Longrightarrow> terminated (last (ls @ e))" using assms(1) by (metis last_in_set list_all_append list_all_iff)
    then have "closed = ls @ e" using ends by (auto simp: closed_def)
    then show ?thesis using True assms(1) by simp
  next
    case False
    then obtain b where b: "e = [b]" "body_ok b" "b \<noteq> []" using assms(2) by auto
    have "\<not> suffix [LF] b" "\<not> suffix [CR] b"
      using b(2) linebreaks(1,2) by (auto simp: body_ok_def list_all_iff suffix_def)
    then have "closed = ls @ [b @ [LF]]" by (simp add: closed_def b(1))
    moreover have "terminated (b @ [LF])" using b(2) by (auto simp: terminated_def)
    ultimately show ?thesis using assms(1) line_pair_body [OF b(2)] by (simp add: b(1))
  qed
  show ?thesis
    unfolding finish_lines_def Let_def closed_def [symmetric] using closed tail blank_line by simp
qed

lemma terminated_nonempty: "terminated l \<Longrightarrow> l \<noteq> []"
  by (auto simp: terminated_def)

lemma terminated_lf: "terminated l \<Longrightarrow> lf_only l"
  using linebreaks by (auto simp: terminated_def lf_only_def body_ok_def list_all_iff)

lemma lf_only_concat: "list_all lf_only ls \<Longrightarrow> lf_only (concat ls)"
  by (induction ls) (auto simp: lf_only_def)

text \<open>An update keeps the text readable, and what is read is the old assignments overridden and extended.\<close>

lemma update_content_spec:
  assumes c: "lf_only content" and r: "read_content content = Inr vs" and u: "updates_ok u"
  shows "lf_only (update_content u content) \<and>
    read_content (update_content u content) =
      Inr (map (override u) vs @ filter (\<lambda>p. fst p \<notin> set (map fst vs)) u)"
proof -
  obtain ls e where shape: "splitlines_keep content = ls @ e" "list_all terminated ls"
    "e = [] \<or> (\<exists>b. e = [b] \<and> body_ok b \<and> b \<noteq> [])"
    using lines_shape [OF c] by blast
  have vs: "vs = assignments (ls @ e)" "distinct (map fst (assignments (ls @ e)))"
    using r by (auto simp: read_content_ok [OF c] shape(1))
  obtain out rem where out: "update_lines u (ls @ e) = (out, rem)" by fastforce
  have spec: "assignments out = map (override u) vs"
    "rem = filter (\<lambda>p. fst p \<notin> set (map fst vs)) u"
    "list_all2 (\<lambda>o' l. o' = l \<or> terminated o') out (ls @ e)"
    using update_lines_spec [OF u vs(2) out] vs(1) by blast+
  obtain os oe where os: "out = os @ oe" "list_all2 (\<lambda>o' l. o' = l \<or> terminated o') os ls"
    "list_all2 (\<lambda>o' l. o' = l \<or> terminated o') oe e"
    using spec(3) by (auto simp: list_all2_append2)
  have "list_all terminated os"
    using os(2) shape(2) by (induction rule: list_all2_induct) auto
  moreover have "oe = [] \<or> (\<exists>b. oe = [b] \<and> (body_ok b \<or> terminated b) \<and> b \<noteq> [])"
    using os(3) shape(3) terminated_nonempty by (auto simp: list_all2_Cons2)
  moreover have "list_all (\<lambda>(n, v). ident n \<and> plain_value v) rem"
    using u by (auto simp: spec(2) updates_ok_def list_all_iff)
  ultimately have fin: "list_all terminated (finish_lines out rem)"
    "assignments (finish_lines out rem) = assignments out @ rem"
    using finish_lines_spec unfolding os(1) by blast+
  have upd: "update_content u content = concat (finish_lines out rem)"
    by (simp add: update_content_def shape(1) out)
  have lf: "lf_only (update_content u content)"
    unfolding upd using fin(1) terminated_lf by (intro lf_only_concat) (auto simp: list_all_iff)
  have "map fst (map (override u) vs) = map fst vs" by (simp add: override_def)
  moreover have "distinct (map fst rem)"
    using u by (simp add: spec(2) updates_ok_def distinct_map_filter)
  moreover have "set (map fst vs) \<inter> set (map fst rem) = {}" by (force simp: spec(2))
  ultimately have "distinct (map fst (assignments out @ rem))"
    using vs by (simp only: spec(1) map_append distinct_append)
  moreover have "assignments (splitlines_keep (update_content u content)) = assignments out @ rem"
    unfolding upd by (simp add: splitlines_keep_concat [OF fin(1)] fin(2))
  ultimately have "read_content (update_content u content) = Inr (assignments out @ rem)"
    by (simp only: read_content_ok [OF lf] simp_thms)
  then show ?thesis using lf by (simp only: spec(1,2) simp_thms)
qed

lemma map_of_filter_fst: "map_of (filter (\<lambda>p. fst p \<notin> A) u) n = (if n \<in> A then None else map_of u n)"
  by (induction u) auto

lemma map_of_override:
  "map_of (map (override u) vs @ filter (\<lambda>p. fst p \<notin> set (map fst vs)) u) = map_of vs ++ map_of u"
proof
  fix n
  have "map_of (map (override u) vs) n = (case map_of vs n of None \<Rightarrow> None
      | Some v \<Rightarrow> Some (case map_of u n of None \<Rightarrow> v | Some w \<Rightarrow> w))"
    by (induction vs) (auto simp: override_def)
  moreover have "map_of (filter (\<lambda>p. fst p \<notin> set (map fst vs)) u) n = (if n \<in> set (map fst vs) then None else map_of u n)"
    by (rule map_of_filter_fst)
  moreover have "n \<in> set (map fst vs) \<longleftrightarrow> map_of vs n \<noteq> None"
    using map_of_eq_None_iff [of vs n] by simp
  ultimately show "map_of (map (override u) vs @ filter (\<lambda>p. fst p \<notin> set (map fst vs)) u) n = (map_of vs ++ map_of u) n"
    by (simp add: map_add_def split: option.splits)
qed

section \<open>The interface of the credential store\<close>

text \<open>
  What the account code relies on: reading a sound store gives its variables and leaves a sound store
  that reads the same; an update of writable variables succeeds on a store that can be read, and then
  the updated variables have their new values and every other variable keeps its own.
\<close>

locale credential_store =
  fixes read :: "('s, 'e, 'v) io"
    and store :: "('k \<times> 'a) list \<Rightarrow> ('s, 'e, unit) io"
    and lookup :: "'v \<Rightarrow> 'k \<Rightarrow> 'a option"
    and sound :: "'s \<Rightarrow> bool"
    and writable :: "('k \<times> 'a) list \<Rightarrow> bool"
  assumes read_sound: "sound s \<Longrightarrow> read s = (r, t) \<Longrightarrow> sound t \<and> read t = (r, t)"
    and store_read: "sound s \<Longrightarrow> read s = (Inr vs, t) \<Longrightarrow> writable u \<Longrightarrow>
      \<exists>t' vs'. store u t = (Inr (), t') \<and> sound t' \<and> read t' = (Inr vs', t') \<and>
        (\<forall>k. lookup vs' k = (case map_of u k of None \<Rightarrow> lookup vs k | Some v \<Rightarrow> Some v))"
begin

lemma store_same:
  assumes "sound s" "read s = (Inr vs, t)" "writable u" "store u t = (r, t')" "map_of u k = Some v"
  shows "\<exists>vs'. read t' = (Inr vs', t') \<and> lookup vs' k = Some v"
  using store_read [OF assms(1-3)] assms(4,5) by force

lemma store_other:
  assumes "sound s" "read s = (Inr vs, t)" "writable u" "store u t = (r, t')" "map_of u k = None"
  shows "\<exists>vs'. read t' = (Inr vs', t') \<and> lookup vs' k = lookup vs k"
  using store_read [OF assms(1-3)] assms(4,5) by force

text \<open>The last of two writes to a variable wins, and writes to other variables commute for a reader.\<close>

lemma store_store:
  assumes "sound s" "read s = (Inr vs, t)" "writable u" "writable w"
  shows "\<exists>t1 t2 vs2. store u t = (Inr (), t1) \<and> store w t1 = (Inr (), t2) \<and> read t2 = (Inr vs2, t2) \<and>
    (\<forall>k. lookup vs2 k = (case map_of w k of Some v \<Rightarrow> Some v
        | None \<Rightarrow> (case map_of u k of Some v \<Rightarrow> Some v | None \<Rightarrow> lookup vs k)))"
proof -
  obtain t1 vs1 where 1: "store u t = (Inr (), t1)" "sound t1" "read t1 = (Inr vs1, t1)"
    "\<forall>k. lookup vs1 k = (case map_of u k of None \<Rightarrow> lookup vs k | Some v \<Rightarrow> Some v)"
    using store_read [OF assms(1-3)] by blast
  obtain t2 vs2 where 2: "store w t1 = (Inr (), t2)" "read t2 = (Inr vs2, t2)"
    "\<forall>k. lookup vs2 k = (case map_of w k of None \<Rightarrow> lookup vs1 k | Some v \<Rightarrow> Some v)"
    using store_read [OF 1(2,3) assms(4)] by blast
  with 1 show ?thesis by (intro exI [of _ t1] exI [of _ t2] exI [of _ vs2]) (auto split: option.splits)
qed

end

definition sound_node :: "node \<Rightarrow> bool" where
  "sound_node p = (case p of RegularFile raw mode \<Rightarrow> plain_breaks raw | _ \<Rightarrow> True)"

lemma updates_from_nothing:
  assumes "updates_ok u"
  shows "lf_only (update_content u []) \<and> read_content (update_content u []) = Inr u"
proof -
  have "read_content [] = Inr []" by (simp add: read_content_def splitlines_def)
  from update_content_spec [OF _ this assms] show ?thesis by (simp add: lf_only_def)
qed

lemma read_written:
  "lf_only c \<Longrightarrow> read_credential_file (RegularFile c m) = (read_content c, RegularFile c OWNER_READ_WRITE)"
  by (simp add: read_credential_file_def universal_newlines_id lf_only_no_CR)

interpretation credential_file:
  credential_store read_credential_file update_credential_file map_of sound_node updates_ok
proof unfold_locales
  fix s t :: node and r :: "credential_error + vars"
  assume "sound_node s" "read_credential_file s = (r, t)"
  then show "sound_node t \<and> read_credential_file t = (r, t)"
    by (cases s) (auto simp: read_credential_file_def sound_node_def)
next
  fix s t :: node and vs u :: vars
  assume s: "sound_node s" and r: "read_credential_file s = (Inr vs, t)" and u: "updates_ok u"
  show "\<exists>t' vs'. update_credential_file u t = (Inr (), t') \<and> sound_node t' \<and>
      read_credential_file t' = (Inr vs', t') \<and>
      (\<forall>k. map_of vs' k = (case map_of u k of None \<Rightarrow> map_of vs k | Some v \<Rightarrow> Some v))"
  proof (cases s)
    case Absent
    then have "t = Absent" "vs = []" using r by (auto simp: read_credential_file_def)
    then show ?thesis
      using updates_from_nothing [OF u]
      by (auto simp: update_credential_file_def read_written sound_node_def lf_only_plain split: option.splits)
  next
    case NotAFile
    then show ?thesis using r by (simp add: read_credential_file_def)
  next
    case (RegularFile raw mode)
    then have t: "t = RegularFile raw OWNER_READ_WRITE" and vs: "read_content (universal_newlines raw) = Inr vs"
      using r by (auto simp: read_credential_file_def)
    have "lf_only (universal_newlines raw)"
      using s by (simp add: RegularFile sound_node_def lf_only_universal)
    from update_content_spec [OF this vs u] map_of_override [of u vs] show ?thesis
      by (auto simp: t update_credential_file_def read_written sound_node_def lf_only_plain map_add_def split: option.splits)
  qed
qed

section \<open>An update is what the next read returns\<close>

lemma credential_read_after_update:
  assumes "sound_node s" "read_credential_file s = (Inr vs, t)" "updates_ok u"
  shows "\<exists>t' vs'. update_credential_file u t = (Inr (), t') \<and> sound_node t' \<and>
    read_credential_file t' = (Inr vs', t') \<and> map_of vs' = map_of vs ++ map_of u"
proof -
  obtain t' vs' where "update_credential_file u t = (Inr (), t')" "sound_node t'" "read_credential_file t' = (Inr vs', t')"
    "\<forall>k. map_of vs' k = (case map_of u k of None \<Rightarrow> map_of vs k | Some v \<Rightarrow> Some v)"
    using credential_file.store_read [OF assms] by blast
  moreover from this(4) have "map_of vs' = map_of vs ++ map_of u"
    by (intro ext) (simp add: map_add_def)
  ultimately show ?thesis by blast
qed

text \<open>
  C40. The credential file is a store of variables.  After an update of well-formed names to plain
  values, on any file that could be read (absent, or with comments, blank lines, exported, quoted and
  indented assignments, with or without a final newline), reading gives every updated variable its new
  value and every other variable the value it had, and reading again changes nothing.
\<close>

theorem updated_variables_read_back:
  assumes "sound_node s" "read_credential_file s = (Inr vs, t)" "updates_ok u"
  shows "\<exists>t' vs'. update_credential_file u t = (Inr (), t') \<and> sound_node t' \<and>
    read_credential_file t' = (Inr vs', t') \<and> map_of vs' = map_of vs ++ map_of u"
  using assms by (rule credential_read_after_update)

definition sample_file :: node where
  "sample_file = RegularFile (''# local'' @ [LF, CR, LF] @ ''export A = 'x y' '' @ [LF] @ ''B=1 # one'') 420"

lemma updated_variables_read_back_witness:
  "\<exists>t' vs'. update_credential_file [(''C'', ''3''), (''A'', ''2'')] (snd (read_credential_file sample_file)) = (Inr (), t') \<and>
    sound_node t' \<and> read_credential_file t' = (Inr vs', t') \<and>
    map_of vs' = map_of [(''A'', ''x y''), (''B'', ''1'')] ++ map_of [(''C'', ''3''), (''A'', ''2'')]"
proof (rule updated_variables_read_back)
  show "sound_node sample_file" by code_simp
  show "read_credential_file sample_file = (Inr [(''A'', ''x y''), (''B'', ''1'')], snd (read_credential_file sample_file))"
    by code_simp
  show "updates_ok [(''C'', ''3''), (''A'', ''2'')]" by code_simp
qed

end
