(* ===== verification/Local_Credentials.thy ===== *)
theory Local_Credentials
  imports Config Credential_File
begin

text \<open>
  The reusable role accounts of \<open>src/api_tests/local_credentials.py\<close>, kept as variables of the
  credential file.  Every operation is a credential operation on the file node; the process environment
  is a lookup function and the credentials a generator would return are an argument.
\<close>

definition LOCAL_ENVIRONMENT_NAME :: string where
  "LOCAL_ENVIRONMENT_NAME = ''local''"

definition LOCAL_ORIGIN :: string where
  "LOCAL_ORIGIN = ''https://app.budgetanalyzer.localhost''"

datatype session_role = Primary | Secondary | Admin
datatype credential_state = External | Pending | Complete

record credentials =
  username :: string
  password :: string

record local_record =
  lr_credentials :: credentials
  lr_state :: credential_state

type_synonym lookup = "string \<Rightarrow> string option"

definition role_name :: "session_role \<Rightarrow> string" where
  "role_name r = (case r of Primary \<Rightarrow> ''primary'' | Secondary \<Rightarrow> ''secondary'' | Admin \<Rightarrow> ''admin'')"

definition SESSION_ROLES :: "session_role list" where
  "SESSION_ROLES = [Primary, Secondary, Admin]"

text \<open>\<open>source.get(name, "").strip()\<close>\<close>

definition get_stripped :: "lookup \<Rightarrow> string \<Rightarrow> string" where
  "get_stripped source name = strip (case source name of None \<Rightarrow> [] | Some v \<Rightarrow> v)"

definition ensure_exact_local_target :: "environment_config \<Rightarrow> credential_error + unit" where
  "ensure_exact_local_target config =
     (if env_name config \<noteq> LOCAL_ENVIRONMENT_NAME \<or> environment_type_of config \<noteq> Local
         \<or> origin config \<noteq> LOCAL_ORIGIN
      then Inl NotExactLocalTarget else Inr ())"

definition variable_names ::
  "environment_config \<Rightarrow> session_role \<Rightarrow> credential_error + (string \<times> string \<times> string)" where
  "variable_names config role =
     bindE (requireE (browser (auth config)) BrowserSettingsMissing) (\<lambda>b. Inr
       (case role of
          Primary \<Rightarrow> (primary_username_env b, primary_password_env b, ''BA_PRIMARY_TEST_ACCOUNT_STATE'')
        | Secondary \<Rightarrow> (secondary_username_env b, secondary_password_env b, ''BA_SECONDARY_TEST_ACCOUNT_STATE'')
        | Admin \<Rightarrow> (admin_username_env b, admin_password_env b, ''BA_ADMIN_TEST_ACCOUNT_STATE'')))"

text \<open>
  The username another slot resolves to: the external pair when both halves are set, nothing when one
  half is, and otherwise the saved pair when it is complete.
\<close>

definition slot_username :: "lookup \<Rightarrow> lookup \<Rightarrow> string \<Rightarrow> string \<Rightarrow> string option" where
  "slot_username source saved user_name pass_name =
     (if get_stripped source user_name \<noteq> [] \<and> get_stripped source pass_name \<noteq> []
      then Some (get_stripped source user_name)
      else if get_stripped source user_name \<noteq> [] \<or> get_stripped source pass_name \<noteq> [] then None
      else if get_stripped saved user_name = [] \<or> get_stripped saved pass_name = [] then None
      else Some (get_stripped saved user_name))"

definition other_slot_step ::
  "environment_config \<Rightarrow> session_role \<Rightarrow> string \<Rightarrow> lookup \<Rightarrow> lookup \<Rightarrow> unit \<Rightarrow> session_role \<Rightarrow> credential_error + unit" where
  "other_slot_step config role user source saved u other_role =
     (if other_role = role then Inr ()
      else bindE (variable_names config other_role) (\<lambda>(user_name, pass_name, _).
        if slot_username source saved user_name pass_name = Some user
        then Inl (SameUsername (role_name role) (role_name other_role)) else Inr ()))"

definition ensure_distinct_role_username ::
  "environment_config \<Rightarrow> session_role \<Rightarrow> string \<Rightarrow> lookup \<Rightarrow> lookup option \<Rightarrow> unit credential_io" where
  "ensure_distinct_role_username config role user source saved_values =
     bindS (case saved_values of
              Some saved \<Rightarrow> liftE (Inr saved)
            | None \<Rightarrow> bindS read_credential_file (\<lambda>values. liftE (Inr (map_of values))))
       (\<lambda>saved. liftE (foldE (other_slot_step config role user source saved) () SESSION_ROLES))"

definition parse_state :: "string \<Rightarrow> credential_state option" where
  "parse_state s = (if s = ''pending'' then Some Pending else if s = ''complete'' then Some Complete else None)"

definition state_name :: "credential_state \<Rightarrow> string" where
  "state_name s = (case s of External \<Rightarrow> ''external'' | Pending \<Rightarrow> ''pending'' | Complete \<Rightarrow> ''complete'')"

section \<open>The reusable accounts\<close>

text \<open>\<open>values.get(state_name, "complete").strip()\<close>: a record without a state is a completed one.\<close>

definition stored_local_record ::
  "environment_config \<Rightarrow> session_role \<Rightarrow> lookup \<Rightarrow> lookup \<Rightarrow> string \<times> string \<times> string \<Rightarrow> local_record credential_io" where
  "stored_local_record config role source saved names =
     (case names of (user_name, pass_name, st_name) \<Rightarrow>
        let raw_state = strip (case saved st_name of None \<Rightarrow> ''complete'' | Some v \<Rightarrow> v);
            user = get_stripped saved user_name in
        bindS (liftE (requireE (parse_state raw_state) InvalidAccountState)) (\<lambda>st.
        bindS (ensure_distinct_role_username config role user source (Some saved)) (\<lambda>_.
        liftE (Inr \<lparr>lr_credentials = \<lparr>username = user, password = get_stripped saved pass_name\<rparr>, lr_state = st\<rparr>))))"

definition create_local_record ::
  "environment_config \<Rightarrow> session_role \<Rightarrow> lookup \<Rightarrow> credentials \<Rightarrow> lookup \<Rightarrow> string \<times> string \<times> string \<Rightarrow> local_record credential_io" where
  "create_local_record config role source generated saved names =
     (case names of (user_name, pass_name, st_name) \<Rightarrow>
        if get_stripped saved st_name \<noteq> [] then liftE (Inl StateWithoutPair)
        else
        bindS (ensure_distinct_role_username config role (username generated) source (Some saved)) (\<lambda>_.
        bindS (update_credential_file
                 (AList.update st_name ''pending''
                   (AList.update pass_name (password generated) [(user_name, username generated)]))) (\<lambda>_.
        liftE (Inr \<lparr>lr_credentials = generated, lr_state = Pending\<rparr>))))"

definition load_or_create_local_credentials ::
  "environment_config \<Rightarrow> session_role \<Rightarrow> lookup \<Rightarrow> credentials \<Rightarrow> local_record credential_io" where
  "load_or_create_local_credentials config role source generated =
     bindS (liftE (ensure_exact_local_target config)) (\<lambda>_.
     bindS (liftE (variable_names config role)) (\<lambda>(user_name, pass_name, st_name).
       let supplied_user = get_stripped source user_name;
           supplied_pass = get_stripped source pass_name in
       if (supplied_user \<noteq> []) \<noteq> (supplied_pass \<noteq> []) then liftE (Inl PartialEnvironmentCredentials)
       else if supplied_user \<noteq> [] then
         bindS (ensure_distinct_role_username config role supplied_user source None) (\<lambda>_.
         liftE (Inr \<lparr>lr_credentials = \<lparr>username = supplied_user, password = supplied_pass\<rparr>, lr_state = External\<rparr>))
       else
         bindS read_credential_file (\<lambda>values.
           let saved = map_of values;
               stored_user = get_stripped saved user_name;
               stored_pass = get_stripped saved pass_name in
           if (stored_user \<noteq> []) \<noteq> (stored_pass \<noteq> []) then liftE (Inl PartialStoredCredentials)
           else if stored_user \<noteq> []
           then stored_local_record config role source saved (user_name, pass_name, st_name)
           else create_local_record config role source generated saved (user_name, pass_name, st_name))))"

definition mark_local_credentials_complete ::
  "environment_config \<Rightarrow> session_role \<Rightarrow> credentials \<Rightarrow> unit credential_io" where
  "mark_local_credentials_complete config role creds =
     bindS (liftE (ensure_exact_local_target config)) (\<lambda>_.
     bindS (liftE (variable_names config role)) (\<lambda>(user_name, pass_name, st_name).
     bindS read_credential_file (\<lambda>values.
       if get_stripped (map_of values) user_name \<noteq> username creds
          \<or> get_stripped (map_of values) pass_name \<noteq> password creds
       then liftE (Inl ChangedWhileProvisioning)
       else update_credential_file [(st_name, ''complete'')])))"

text \<open>
  The default generator: \<open>token_hex\<close> is the token the \<open>secrets\<close> module returns, and \<open>choice i\<close> the
  index of the character that its \<open>i\<close>-th choice returns.
\<close>

definition PASSWORD_ALPHABET :: string where
  "PASSWORD_ALPHABET = ''abcdefghijklmnopqrstuvwxyzABCDEFGHIJKLMNOPQRSTUVWXYZ0123456789!@%_-''"

definition generate_local_credentials :: "string \<Rightarrow> (nat \<Rightarrow> nat) \<Rightarrow> credentials" where
  "generate_local_credentials token choice =
     \<lparr>username = ''ba-api-test-'' @ token @ ''@test.com'',
      password = ''Ba9!'' @ map (\<lambda>i. PASSWORD_ALPHABET ! choice i) [0..<28]\<rparr>"

section \<open>The file as the accounts see it\<close>

text \<open>
  A readable node gives its variables; the first read leaves the node on which every later read gives the
  same.  These are the laws of the credential store at work.
\<close>

definition readable :: "node \<Rightarrow> vars \<Rightarrow> bool" where
  "readable s vs \<longleftrightarrow> sound_node s \<and> fst (read_credential_file s) = Inr vs"

definition settled :: "node \<Rightarrow> vars \<Rightarrow> bool" where
  "settled s vs \<longleftrightarrow> sound_node s \<and> read_credential_file s = (Inr vs, s)"

lemma settled_readable: "settled s vs \<Longrightarrow> readable s vs"
  by (simp add: settled_def readable_def)

lemma settledD: "settled s vs \<Longrightarrow> read_credential_file s = (Inr vs, s)"
  by (simp add: settled_def)

lemma readableE:
  assumes "readable s vs"
  obtains t where "read_credential_file s = (Inr vs, t)" "settled t vs"
proof -
  obtain t where t: "read_credential_file s = (Inr vs, t)" and s: "sound_node s"
    using assms by (cases "read_credential_file s") (simp add: readable_def)
  from credential_file.read_sound [OF s t] that t show ?thesis by (simp add: settled_def)
qed

lemma settled_update:
  assumes "settled s vs" "updates_ok u"
  obtains t vs' where "update_credential_file u s = (Inr (), t)" "settled t vs'" "map_of vs' = map_of vs ++ map_of u"
  using credential_read_after_update [of s vs s u] assms that by (auto simp: settled_def)

text \<open>A raised update never happens on a settled node, so an update decides the file after it.\<close>

lemma settled_updateD:
  assumes "settled s vs" "updates_ok u" "update_credential_file u s = (r, t)"
  shows "r = Inr ()" "\<exists>vs'. settled t vs' \<and> map_of vs' = map_of vs ++ map_of u"
  using settled_update [OF assms(1,2)] assms(3) by (metis prod.inject)+

section \<open>Names and values that can be stored\<close>

text \<open>The settings of two roles: identifiers, distinct in each slot and apart between slots.\<close>

definition names_apart :: "environment_config \<Rightarrow> session_role \<Rightarrow> session_role \<Rightarrow> bool" where
  "names_apart config r r' \<longleftrightarrow>
     (case (variable_names config r, variable_names config r') of
        (Inr (u, p, st), Inr (u', p', _)) \<Rightarrow>
          distinct [u, p, st] \<and> list_all ident [u, p, st] \<and>
          (r' = r \<or> list_all (\<lambda>n. n \<notin> set [u, p, st]) [u', p'])
      | _ \<Rightarrow> False)"

definition names_ok :: "environment_config \<Rightarrow> bool" where
  "names_ok config \<longleftrightarrow> list_all (\<lambda>r. list_all (names_apart config r) SESSION_ROLES) SESSION_ROLES"

definition credentials_ok :: "credentials \<Rightarrow> bool" where
  "credentials_ok c \<longleftrightarrow> username c \<noteq> [] \<and> password c \<noteq> [] \<and> plain_value (username c) \<and> plain_value (password c)"

lemma plain_strip: "plain_value v \<Longrightarrow> strip v = v"
  by (simp add: plain_value_def)

lemma state_plain: "plain_value ''pending''" "plain_value ''complete''"
  by code_simp+

lemma state_strip: "strip ''pending'' = ''pending''" "strip ''complete'' = ''complete''"
  using state_plain by (simp_all only: plain_strip)

lemma parse_state_simps [simp]:
  "parse_state ''pending'' = Some Pending" "parse_state ''complete'' = Some Complete" "parse_state [] = None"
  by (simp_all add: parse_state_def)

lemma roles: "r \<in> set SESSION_ROLES"
  by (cases r) (simp_all add: SESSION_ROLES_def)

lemma names_okD: "names_ok config \<Longrightarrow> names_apart config r r'"
  using roles by (simp add: names_ok_def list_all_iff)

lemma names_okE:
  assumes "names_ok config"
  obtains u p st where "variable_names config role = Inr (u, p, st)" "distinct [u, p, st]" "list_all ident [u, p, st]"
  using names_okD [OF assms, of role role]
  by (cases "variable_names config role") (auto simp: names_apart_def)

lemma names_ok_other:
  assumes "names_ok config" "variable_names config role = Inr (u, p, st)" "other \<noteq> role"
  obtains u' p' st' where "variable_names config other = Inr (u', p', st')" "u' \<notin> {u, p, st}" "p' \<notin> {u, p, st}"
  using names_okD [OF assms(1), of role other] assms(2,3)
  by (cases "variable_names config other") (auto simp: names_apart_def)

section \<open>The distinctness check\<close>

lemma other_slots_ok:
  "foldE (other_slot_step config role user source saved) () SESSION_ROLES = Inr () \<longleftrightarrow>
   (\<forall>other. other \<noteq> role \<longrightarrow> (\<exists>u p st. variable_names config other = Inr (u, p, st) \<and>
      slot_username source saved u p \<noteq> Some user))"
proof -
  have step: "other_slot_step config role user source saved () other = Inr () \<longleftrightarrow> other = role \<or>
    (\<exists>u p st. variable_names config other = Inr (u, p, st) \<and> slot_username source saved u p \<noteq> Some user)" for other
    by (cases "variable_names config other") (auto simp: other_slot_step_def)
  have "foldE (other_slot_step config role user source saved) () rs = Inr () \<longleftrightarrow>
    (\<forall>other \<in> set rs. other_slot_step config role user source saved () other = Inr ())" for rs
    by (induction rs) (auto simp: ok_iff)
  moreover have "set SESSION_ROLES = UNIV" using roles by blast
  ultimately show ?thesis by (simp add: step) blast
qed

text \<open>The check depends on the saved variables only through the names of the other slots.\<close>

lemma other_slots_cong:
  assumes "names_ok config" "variable_names config role = Inr (u, p, st)"
    and "\<And>n. n \<notin> {u, p, st} \<Longrightarrow> saved' n = saved n"
    and "foldE (other_slot_step config role user source saved) () SESSION_ROLES = Inr ()"
  shows "foldE (other_slot_step config role user source saved') () SESSION_ROLES = Inr ()"
  unfolding other_slots_ok
proof (intro allI impI)
  fix other assume "other \<noteq> role"
  then obtain u' p' st' where o: "variable_names config other = Inr (u', p', st')" "u' \<notin> {u, p, st}" "p' \<notin> {u, p, st}"
    using names_ok_other [OF assms(1,2)] by blast
  have "slot_username source saved u' p' \<noteq> Some user"
    using assms(4) \<open>other \<noteq> role\<close> o(1) unfolding other_slots_ok by fastforce
  moreover have "slot_username source saved' u' p' = slot_username source saved u' p'"
    using assms(3) o(2,3) by (simp add: slot_username_def get_stripped_def)
  ultimately show "\<exists>u p st. variable_names config other = Inr (u, p, st) \<and> slot_username source saved' u p \<noteq> Some user"
    using o(1) by auto
qed

section \<open>What loading a reusable account does\<close>

definition external_pair :: "lookup \<Rightarrow> string \<Rightarrow> string \<Rightarrow> bool" where
  "external_pair source u p \<longleftrightarrow> get_stripped source u \<noteq> [] \<and> get_stripped source p \<noteq> []"

definition no_external :: "lookup \<Rightarrow> string \<Rightarrow> string \<Rightarrow> bool" where
  "no_external source u p \<longleftrightarrow> get_stripped source u = [] \<and> get_stripped source p = []"

definition stored_as :: "lookup \<Rightarrow> string \<times> string \<times> string \<Rightarrow> local_record \<Rightarrow> bool" where
  "stored_as saved names r \<longleftrightarrow> (case names of (u, p, st) \<Rightarrow>
     lr_credentials r = \<lparr>username = get_stripped saved u, password = get_stripped saved p\<rparr> \<and>
     username (lr_credentials r) \<noteq> [] \<and> password (lr_credentials r) \<noteq> [] \<and>
     parse_state (strip (case saved st of None \<Rightarrow> ''complete'' | Some v \<Rightarrow> v)) = Some (lr_state r))"

abbreviation "slots_ok config role source saved user \<equiv>
  foldE (other_slot_step config role user source saved) () SESSION_ROLES = Inr ()"

definition created_values :: "string \<times> string \<times> string \<Rightarrow> credentials \<Rightarrow> vars" where
  "created_values names c = (case names of (u, p, st) \<Rightarrow>
     AList.update st ''pending'' (AList.update p (password c) [(u, username c)]))"

text \<open>The load as a function of the variables of the file.\<close>

lemma load_local_eq:
  assumes "ensure_exact_local_target config = Inr ()" and "variable_names config role = Inr (u, p, st)"
    and "read_credential_file s = (Inr vs, t)"
  shows "load_or_create_local_credentials config role source g s =
    (if (get_stripped source u \<noteq> []) \<noteq> (get_stripped source p \<noteq> []) then (Inl PartialEnvironmentCredentials, s)
     else if get_stripped source u \<noteq> []
     then (bindE (foldE (other_slot_step config role (get_stripped source u) source (map_of vs)) () SESSION_ROLES)
            (\<lambda>_. Inr \<lparr>lr_credentials = \<lparr>username = get_stripped source u, password = get_stripped source p\<rparr>, lr_state = External\<rparr>), t)
     else if (get_stripped (map_of vs) u \<noteq> []) \<noteq> (get_stripped (map_of vs) p \<noteq> []) then (Inl PartialStoredCredentials, t)
     else if get_stripped (map_of vs) u \<noteq> [] then stored_local_record config role source (map_of vs) (u, p, st) t
     else create_local_record config role source g (map_of vs) (u, p, st) t)"
  using assms
  by (simp add: load_or_create_local_credentials_def ensure_distinct_role_username_def Let_def bindS_def liftE_def
      bindE_def split: sum.splits)

lemma stored_local_ok:
  "stored_local_record config role source saved (u, p, st) t = (Inr r, t') \<longleftrightarrow>
     t' = t \<and> slots_ok config role source saved (username (lr_credentials r)) \<and>
     parse_state (strip (case saved st of None \<Rightarrow> ''complete'' | Some v \<Rightarrow> v)) = Some (lr_state r) \<and>
     lr_credentials r = \<lparr>username = get_stripped saved u, password = get_stripped saved p\<rparr>"
  by (cases r) (auto simp: stored_local_record_def ensure_distinct_role_username_def ok_iff Let_def)

lemma create_local_ok:
  "create_local_record config role source g saved (u, p, st) t = (Inr r, t') \<longleftrightarrow>
     get_stripped saved st = [] \<and> slots_ok config role source saved (username g) \<and>
     update_credential_file (created_values (u, p, st) g) t = (Inr (), t') \<and>
     r = \<lparr>lr_credentials = g, lr_state = Pending\<rparr>"
  by (cases "get_stripped saved st = []")
    (auto simp: create_local_record_def ensure_distinct_role_username_def created_values_def ok_iff liftE_def)

text \<open>A successful load is one of three: an external pair, a stored record, a created one.\<close>

lemma exact_local_first:
  "load_or_create_local_credentials config role source g s = (Inr r, t') \<Longrightarrow> ensure_exact_local_target config = Inr ()"
  by (simp add: load_or_create_local_credentials_def ok_iff)

lemma load_localD:
  assumes load: "load_or_create_local_credentials config role source g s = (Inr r, t')"
    and names: "variable_names config role = Inr (u, p, st)"
    and rd: "read_credential_file s = (Inr vs, t)"
  shows "external_pair source u p \<and> t' = t \<and> lr_state r = External \<and>
       lr_credentials r = \<lparr>username = get_stripped source u, password = get_stripped source p\<rparr> \<and>
       slots_ok config role source (map_of vs) (username (lr_credentials r)) \<or>
     no_external source u p \<and> t' = t \<and> stored_as (map_of vs) (u, p, st) r \<and>
       slots_ok config role source (map_of vs) (username (lr_credentials r)) \<or>
     no_external source u p \<and> get_stripped (map_of vs) u = [] \<and> get_stripped (map_of vs) p = [] \<and>
       get_stripped (map_of vs) st = [] \<and> lr_credentials r = g \<and> lr_state r = Pending \<and>
       slots_ok config role source (map_of vs) (username g) \<and>
       update_credential_file (created_values (u, p, st) g) t = (Inr (), t')"
  using load unfolding load_local_eq [OF exact_local_first [OF load] names rd]
  by (auto simp: stored_local_ok create_local_ok external_pair_def no_external_def stored_as_def ok_iff split: if_splits)

lemma load_external:
  assumes "ensure_exact_local_target config = Inr ()" "variable_names config role = Inr (u, p, st)"
    and "read_credential_file s = (Inr vs, t)" "external_pair source u p"
    and "slots_ok config role source (map_of vs) (get_stripped source u)"
  shows "load_or_create_local_credentials config role source g s =
    (Inr \<lparr>lr_credentials = \<lparr>username = get_stripped source u, password = get_stripped source p\<rparr>, lr_state = External\<rparr>, t)"
  using assms(4,5) unfolding load_local_eq [OF assms(1-3)] by (simp add: external_pair_def)

lemma load_stored:
  assumes "ensure_exact_local_target config = Inr ()" "variable_names config role = Inr (u, p, st)"
    and "read_credential_file s = (Inr vs, t)" "no_external source u p" "stored_as (map_of vs) (u, p, st) r"
    and "slots_ok config role source (map_of vs) (username (lr_credentials r))"
  shows "load_or_create_local_credentials config role source g s = (Inr r, t)"
proof -
  have "get_stripped (map_of vs) u \<noteq> []" "get_stripped (map_of vs) p \<noteq> []"
    using assms(5) by (auto simp: stored_as_def)
  then show ?thesis
    using assms(4-6) unfolding load_local_eq [OF assms(1-3)]
    by (simp add: no_external_def stored_as_def stored_local_ok)
qed

lemma created_values_eq:
  "distinct [u, p, st] \<Longrightarrow> created_values (u, p, st) g = [(u, username g), (p, password g), (st, ''pending'')]"
  by (simp add: created_values_def)

lemma created_values_ok:
  assumes "distinct [u, p, st]" "list_all ident [u, p, st]" "credentials_ok g"
  shows "updates_ok (created_values (u, p, st) g)"
  using assms state_plain by (simp add: created_values_eq updates_ok_def credentials_ok_def)

lemma created_stored_as:
  assumes "distinct [u, p, st]" "credentials_ok g" "map_of vs' = map_of vs ++ map_of (created_values (u, p, st) g)"
  shows "stored_as (map_of vs') (u, p, st) \<lparr>lr_credentials = g, lr_state = Pending\<rparr>"
proof -
  have "map_of vs' u = Some (username g)" "map_of vs' p = Some (password g)" "map_of vs' st = Some ''pending''"
    unfolding assms(3) created_values_eq [OF assms(1)] using assms(1) by (auto simp: map_add_def)
  then show ?thesis
    using assms(2) by (simp add: stored_as_def get_stripped_def credentials_ok_def plain_strip state_strip)
qed

lemma slots_after_update:
  assumes "names_ok config" "variable_names config role = Inr (u, p, st)"
    and "map_of vs' = map_of vs ++ map_of w" "fst ` set w \<subseteq> {u, p, st}"
    and "slots_ok config role source (map_of vs) user"
  shows "slots_ok config role source (map_of vs') user"
proof (rule other_slots_cong [OF assms(1,2) _ assms(5)])
  fix n assume "n \<notin> {u, p, st}"
  then have "map_of w n = None" using assms(4) by (auto simp: map_of_eq_None_iff)
  then show "map_of vs' n = map_of vs n" by (simp add: assms(3) map_add_def)
qed

text \<open>
  After a load the file holds what was returned, and it holds it on a settled node: the common ground of
  the properties below.
\<close>

lemma load_local_leaves:
  assumes "names_ok config" "credentials_ok g" "readable s vs"
    and load: "load_or_create_local_credentials config role source g s = (Inr r, t')"
    and names: "variable_names config role = Inr (u, p, st)" "distinct [u, p, st]" "list_all ident [u, p, st]"
  obtains vs' where "settled t' vs'" "slots_ok config role source (map_of vs') (username (lr_credentials r))"
    "\<And>k v. map_of vs k = Some v \<Longrightarrow> strip v \<noteq> [] \<Longrightarrow> map_of vs' k = Some v"
    "external_pair source u p \<and> lr_state r = External \<and>
       lr_credentials r = \<lparr>username = get_stripped source u, password = get_stripped source p\<rparr> \<or>
     no_external source u p \<and> stored_as (map_of vs') (u, p, st) r"
proof -
  obtain t where rd: "read_credential_file s = (Inr vs, t)" and t: "settled t vs" using readableE [OF assms(3)] by blast
  note cases = load_localD [OF load names(1) rd]
  show ?thesis
  proof (cases "t' = t \<and> slots_ok config role source (map_of vs) (username (lr_credentials r)) \<and>
      (external_pair source u p \<and> lr_state r = External \<and>
       lr_credentials r = \<lparr>username = get_stripped source u, password = get_stripped source p\<rparr> \<or>
       no_external source u p \<and> stored_as (map_of vs) (u, p, st) r)")
    case True
    with t show ?thesis by (intro that [of vs]) auto
  next
    case False
    with cases have new: "no_external source u p" "get_stripped (map_of vs) u = []" "get_stripped (map_of vs) p = []"
      "get_stripped (map_of vs) st = []" "r = \<lparr>lr_credentials = g, lr_state = Pending\<rparr>"
      "slots_ok config role source (map_of vs) (username g)"
      "update_credential_file (created_values (u, p, st) g) t = (Inr (), t')"
      by auto
    note upd_ok = created_values_ok [OF names(2,3) assms(2)]
    obtain vs' where vs': "settled t' vs'" "map_of vs' = map_of vs ++ map_of (created_values (u, p, st) g)"
      using settled_updateD(2) [OF t upd_ok new(7)] by blast
    have only: "fst ` set (created_values (u, p, st) g) \<subseteq> {u, p, st}"
      by (simp add: created_values_eq [OF names(2)])
    have "map_of vs' k = Some v" if "map_of vs k = Some v" "strip v \<noteq> []" for k v
    proof -
      have "k \<notin> {u, p, st}" using that new(2-4) by (auto simp: get_stripped_def)
      then have "map_of (created_values (u, p, st) g) k = None" using only by (auto simp: map_of_eq_None_iff)
      then show ?thesis using that(1) by (simp add: vs'(2) map_add_def)
    qed
    moreover have "slots_ok config role source (map_of vs') (username g)"
      using slots_after_update [OF assms(1) names(1) vs'(2) only new(6)] .
    moreover have "stored_as (map_of vs') (u, p, st) r"
      unfolding new(5) by (rule created_stored_as [OF names(2) assms(2) vs'(2)])
    ultimately show ?thesis using vs'(1) new(1,5) by (intro that [of vs']) auto
  qed
qed

lemma load_local_again:
  assumes "ensure_exact_local_target config = Inr ()" "variable_names config role = Inr (u, p, st)" "settled t vs"
    and "slots_ok config role source (map_of vs) (username (lr_credentials r))"
    and "external_pair source u p \<and> lr_state r = External \<and>
       lr_credentials r = \<lparr>username = get_stripped source u, password = get_stripped source p\<rparr> \<or>
     no_external source u p \<and> stored_as (map_of vs) (u, p, st) r"
  shows "load_or_create_local_credentials config role source g' t = (Inr r, t)"
proof (cases "external_pair source u p")
  case True
  then have "r = \<lparr>lr_credentials = \<lparr>username = get_stripped source u, password = get_stripped source p\<rparr>, lr_state = External\<rparr>"
    using assms(5) by (cases r) (auto simp: external_pair_def no_external_def)
  with load_external [OF assms(1,2) settledD [OF assms(3)] True, of g'] assms(4) show ?thesis by simp
next
  case False
  with assms(5) show ?thesis
    using load_stored [OF assms(1,2) settledD [OF assms(3)]] assms(4) by blast
qed

lemma get_stripped_kept:
  "(\<And>k v. m k = Some v \<Longrightarrow> strip v \<noteq> [] \<Longrightarrow> m' k = Some v) \<Longrightarrow> get_stripped m n \<noteq> [] \<Longrightarrow>
   get_stripped m' n = get_stripped m n"
  by (cases "m n") (auto simp: get_stripped_def)

text \<open>What the other slots resolve to is the account the file or the environment holds for them.\<close>

lemma slot_username_account:
  assumes "external_pair source u p \<and> lr_credentials r = \<lparr>username = get_stripped source u, password = get_stripped source p\<rparr> \<or>
     no_external source u p \<and> stored_as m (u, p, st) r"
    and "\<And>k v. m k = Some v \<Longrightarrow> strip v \<noteq> [] \<Longrightarrow> m' k = Some v"
  shows "slot_username source m' u p = Some (username (lr_credentials r))"
proof (cases "external_pair source u p")
  case True
  then show ?thesis using assms(1) by (auto simp: slot_username_def external_pair_def no_external_def)
next
  case False
  with assms(1) have n: "no_external source u p" and s: "stored_as m (u, p, st) r" by auto
  then have "get_stripped m u \<noteq> []" "get_stripped m p \<noteq> []" by (auto simp: stored_as_def)
  with get_stripped_kept [OF assms(2)] n s show ?thesis
    by (simp add: slot_username_def no_external_def stored_as_def)
qed

lemma stored_as_complete:
  assumes "stored_as m (u, p, st) r" "distinct [u, p, st]"
  shows "stored_as (m(st \<mapsto> ''complete'')) (u, p, st) (r\<lparr>lr_state := Complete\<rparr>)"
  using assms state_strip by (auto simp: stored_as_def get_stripped_def)

section \<open>The reusable accounts are stable, distinct and never lost\<close>

lemma local_load_stable:
  assumes "names_ok config" "credentials_ok g" "readable s vs"
    and "load_or_create_local_credentials config role source g s = (Inr r, t)"
  shows "load_or_create_local_credentials config role source g' t = (Inr r, t)"
proof -
  obtain u p st where n: "variable_names config role = Inr (u, p, st)" "distinct [u, p, st]" "list_all ident [u, p, st]"
    using names_okE [OF assms(1)] by blast
  from load_local_leaves [OF assms n] load_local_again [OF exact_local_first [OF assms(4)] n(1)]
  show ?thesis by metis
qed

text \<open>
  Loading an account again, whatever a generator would return the second time, gives the same account
  in the same state and leaves the file as it is: the account a first load created (before its signup)
  is the one every later load finds.
\<close>

theorem load_twice_same_account:
  assumes "names_ok config" "credentials_ok g" "readable s vs"
    and "load_or_create_local_credentials config role source g s = (Inr r, t)"
  shows "load_or_create_local_credentials config role source g' t = (Inr r, t)"
  using assms by (rule local_load_stable)

text \<open>
  A load never loses a value: whatever it returns or raises, every variable that was not blank has the
  value it had, and when it raises, the file reads exactly as before.
\<close>

theorem load_keeps_stored_values:
  assumes "names_ok config" "credentials_ok g" "readable s vs"
    and "load_or_create_local_credentials config role source g s = (res, t)"
  shows "\<exists>vs'. readable t vs' \<and> (isl res \<longrightarrow> vs' = vs) \<and>
    (\<forall>k v. map_of vs k = Some v \<longrightarrow> strip v \<noteq> [] \<longrightarrow> map_of vs' k = Some v)"
proof -
  obtain u p st where n: "variable_names config role = Inr (u, p, st)" "distinct [u, p, st]" "list_all ident [u, p, st]"
    using names_okE [OF assms(1)] by blast
  show ?thesis
  proof (cases res)
    case (Inr r)
    from load_local_leaves [OF assms(1-3) assms(4) [unfolded Inr] n] obtain vs' where
      "settled t vs'" "\<forall>k v. map_of vs k = Some v \<longrightarrow> strip v \<noteq> [] \<longrightarrow> map_of vs' k = Some v" by metis
    then show ?thesis using settled_readable unfolding Inr by (intro exI [of _ vs']) simp
  next
    case (Inl e)
    obtain t0 where rd: "read_credential_file s = (Inr vs, t0)" and t0: "settled t0 vs" using readableE [OF assms(3)] by blast
    have "t = s \<or> t = t0"
    proof (cases "ensure_exact_local_target config")
      case (Inl e')
      then show ?thesis using assms(4) by (simp add: load_or_create_local_credentials_def)
    next
      case (Inr x)
      then have exact: "ensure_exact_local_target config = Inr ()" by simp
      have upd: "fst (update_credential_file (created_values (u, p, st) g) t0) = Inr ()"
        using settled_updateD(1) [OF t0 created_values_ok [OF n(2,3) assms(2)]] by (metis prod.collapse)
      from assms(4) show ?thesis
        unfolding load_local_eq [OF exact n(1) rd] Inl
        using upd by (auto simp: stored_local_record_def create_local_record_def ensure_distinct_role_username_def
            created_values_def bindS_err liftE_def Let_def split: if_splits prod.splits)
    qed
    then have "readable t vs" using assms(3) t0 settled_readable by auto
    then show ?thesis by blast
  qed
qed

lemma local_account_completes:
  assumes "names_ok config" "credentials_ok g" "readable s vs"
    and "load_or_create_local_credentials config role source g s = (Inr r, t)" "lr_state r \<noteq> External"
  shows "\<exists>t'. mark_local_credentials_complete config role (lr_credentials r) t = (Inr (), t') \<and>
    load_or_create_local_credentials config role source g' t' = (Inr (r\<lparr>lr_state := Complete\<rparr>), t')"
proof -
  obtain u p st where n: "variable_names config role = Inr (u, p, st)" "distinct [u, p, st]" "list_all ident [u, p, st]"
    using names_okE [OF assms(1)] by blast
  obtain vs' where vs': "settled t vs'" "slots_ok config role source (map_of vs') (username (lr_credentials r))"
    "no_external source u p" "stored_as (map_of vs') (u, p, st) r"
    using load_local_leaves [OF assms(1-4) n] assms(5) by metis
  have "updates_ok [(st, ''complete'')]" using n(3) state_plain by (simp add: updates_ok_def)
  then obtain t' vs'' where t': "update_credential_file [(st, ''complete'')] t = (Inr (), t')" "settled t' vs''"
    "map_of vs'' = map_of vs' ++ map_of [(st, ''complete'')]"
    using settled_update [OF vs'(1)] by blast
  have "mark_local_credentials_complete config role (lr_credentials r) t = (Inr (), t')"
    using vs'(4) settledD [OF vs'(1)] t'(1) exact_local_first [OF assms(4)] n(1)
    by (simp add: mark_local_credentials_complete_def bindS_def liftE_def stored_as_def)
  moreover have "stored_as (map_of vs'') (u, p, st) (r\<lparr>lr_state := Complete\<rparr>)"
    using stored_as_complete [OF vs'(4) n(2)] by (simp add: t'(3))
  moreover have "slots_ok config role source (map_of vs'') (username (lr_credentials (r\<lparr>lr_state := Complete\<rparr>)))"
    using slots_after_update [OF assms(1) n(1) t'(3) _ vs'(2)] by simp
  ultimately show ?thesis
    using load_local_again [OF exact_local_first [OF assms(4)] n(1) t'(2)] vs'(3) by metis
qed

text \<open>
  The life of an account: a load that creates or finds a stored account, the signup outside, and the
  mark of completion leave a file from which the same credentials are loaded, now complete.
\<close>

theorem completed_account_is_loaded_complete:
  assumes "names_ok config" "credentials_ok g" "readable s vs"
    and "load_or_create_local_credentials config role source g s = (Inr r, t)" "lr_state r \<noteq> External"
  shows "\<exists>t'. mark_local_credentials_complete config role (lr_credentials r) t = (Inr (), t') \<and>
    load_or_create_local_credentials config role source g' t' = (Inr (r\<lparr>lr_state := Complete\<rparr>), t')"
  using assms by (rule local_account_completes)

text \<open>Two roles loaded one after the other, in any order, from any file, never share a username.\<close>

theorem roles_never_share_an_account:
  assumes "names_ok config" "credentials_ok g" "credentials_ok g'" "readable s vs" "role' \<noteq> role"
    and "load_or_create_local_credentials config role source g s = (Inr r, t)"
    and "load_or_create_local_credentials config role' source g' t = (Inr r', t')"
  shows "username (lr_credentials r') \<noteq> username (lr_credentials r)"
proof -
  obtain u p st where n: "variable_names config role = Inr (u, p, st)" "distinct [u, p, st]" "list_all ident [u, p, st]"
    using names_okE [OF assms(1)] by blast
  obtain u' p' st' where n': "variable_names config role' = Inr (u', p', st')" "distinct [u', p', st']" "list_all ident [u', p', st']"
    using names_okE [OF assms(1)] by blast
  obtain vs1 where vs1: "settled t vs1" "external_pair source u p \<and> lr_credentials r = \<lparr>username = get_stripped source u, password = get_stripped source p\<rparr> \<or>
     no_external source u p \<and> stored_as (map_of vs1) (u, p, st) r"
    using load_local_leaves [OF assms(1,2,4,6) n] by metis
  obtain vs2 where vs2: "slots_ok config role' source (map_of vs2) (username (lr_credentials r'))"
    "\<And>k v. map_of vs1 k = Some v \<Longrightarrow> strip v \<noteq> [] \<Longrightarrow> map_of vs2 k = Some v"
    using load_local_leaves [OF assms(1,3) settled_readable [OF vs1(1)] assms(7) n'] by metis
  have "slot_username source (map_of vs2) u p = Some (username (lr_credentials r))"
    by (rule slot_username_account [OF vs1(2) vs2(2)])
  moreover have "slot_username source (map_of vs2) u p \<noteq> Some (username (lr_credentials r'))"
    using vs2(1) n(1) assms(5) unfolding other_slots_ok by fastforce
  ultimately show ?thesis by auto
qed

section \<open>Generated accounts can be stored\<close>

definition stored_char :: "char \<Rightarrow> bool" where
  "stored_char c \<longleftrightarrow> is_ascii_alnum c \<or> c \<in> set ''!@%_-.''"

lemma stored_char_plain: "stored_char c \<Longrightarrow> \<not> is_space c \<and> \<not> is_linebreak c \<and> c \<notin> {CHR 0x27, CHR 0x22, CHR '' ''}"
proof -
  have "stored_char c \<longrightarrow> \<not> is_space c \<and> \<not> is_linebreak c \<and> c \<notin> {CHR 0x27, CHR 0x22, CHR '' ''}"
    by (rule all_chars) code_simp
  then show "stored_char c \<Longrightarrow> ?thesis" by blast
qed

lemma stored_text_plain:
  assumes "list_all stored_char v" "v \<noteq> []"
  shows "plain_value v"
proof -
  have c: "\<not> is_space c \<and> \<not> is_linebreak c \<and> c \<notin> {CHR 0x27, CHR 0x22, CHR '' ''}" if "c \<in> set v" for c
    using assms(1) that stored_char_plain by (auto simp only: list_all_iff)
  have "strip v = v" unfolding strip_def
    using c hd_in_set [OF assms(2)] last_in_set [OF assms(2)] by (intro strip_of_id) blast
  moreover have "\<not> is_quoted v" using c [OF hd_in_set [OF assms(2)]] by (simp add: is_quoted_def)
  moreover have "\<not> contains '' #'' v"
  proof
    assume "contains '' #'' v"
    then have "CHR '' '' \<in> set v" by (auto simp: contains_iff)
    then show False using c by blast
  qed
  moreover have "list_all (\<lambda>c. \<not> is_linebreak c) v" using c by (simp add: list_all_iff)
  ultimately show ?thesis by (simp add: plain_value_def)
qed

text \<open>
  Whatever the random source returns (a token of letters and digits, choices from the alphabet), the
  generated credentials are values that the credential file returns as they were written, and the password
  has thirty-two characters.
\<close>

theorem generated_credentials_can_be_stored:
  assumes "list_all is_ascii_alnum token" "\<And>i. choice i < length PASSWORD_ALPHABET"
  shows "credentials_ok (generate_local_credentials token choice) \<and>
    length (password (generate_local_credentials token choice)) = 32"
proof -
  have "list_all stored_char ''ba-api-test-''" "list_all stored_char ''@test.com''" "list_all stored_char ''Ba9!''"
    "list_all stored_char PASSWORD_ALPHABET" by code_simp+
  moreover have "list_all stored_char token"
    using assms(1) by (simp add: list_all_iff stored_char_def)
  moreover from calculation(4) have "list_all stored_char (map (\<lambda>i. PASSWORD_ALPHABET ! choice i) is)" for "is"
    using assms(2) by (simp add: list_all_iff del: PASSWORD_ALPHABET_def)
  ultimately have "list_all stored_char (username (generate_local_credentials token choice))"
    "list_all stored_char (password (generate_local_credentials token choice))"
    by (simp_all only: generate_local_credentials_def credentials.simps list_all_append simp_thms)
  moreover have "username (generate_local_credentials token choice) \<noteq> []" "password (generate_local_credentials token choice) \<noteq> []"
    by (simp_all add: generate_local_credentials_def)
  moreover have "length (password (generate_local_credentials token choice)) = 32"
    by (simp add: generate_local_credentials_def)
  ultimately show ?thesis using stored_text_plain by (simp add: credentials_ok_def)
qed

section \<open>Witnesses\<close>

definition sample_config :: environment_config where
  "sample_config = local_example\<lparr>env_name := LOCAL_ENVIRONMENT_NAME, origin := LOCAL_ORIGIN,
     auth := (auth local_example)\<lparr>auth_mode_of := BrowserPreprovisioned,
       browser := Some \<lparr>headless = True,
         primary_username_env = ''BA_PRIMARY_TEST_USERNAME'', primary_password_env = ''BA_PRIMARY_TEST_PASSWORD'',
         secondary_username_env = ''BA_SECONDARY_TEST_USERNAME'', secondary_password_env = ''BA_SECONDARY_TEST_PASSWORD'',
         admin_username_env = ''BA_ADMIN_TEST_USERNAME'', admin_password_env = ''BA_ADMIN_TEST_PASSWORD''\<rparr>\<rparr>\<rparr>"

definition first_account :: credentials where
  "first_account = \<lparr>username = ''one@test.com'', password = ''Ba9!a''\<rparr>"

definition second_account :: credentials where
  "second_account = \<lparr>username = ''two@test.com'', password = ''Ba9!b''\<rparr>"

abbreviation "nothing_set \<equiv> (\<lambda>_. None) :: lookup"

definition after_first :: node where
  "after_first = snd (load_or_create_local_credentials sample_config Primary nothing_set first_account Absent)"

definition after_second :: node where
  "after_second = snd (load_or_create_local_credentials sample_config Secondary nothing_set second_account after_first)"

lemma samples_ok: "names_ok sample_config" "credentials_ok first_account" "credentials_ok second_account" "readable Absent []"
  by code_simp+

lemma sample_loads:
  "load_or_create_local_credentials sample_config Primary nothing_set first_account Absent =
    (Inr \<lparr>lr_credentials = first_account, lr_state = Pending\<rparr>, after_first)"
  "load_or_create_local_credentials sample_config Secondary nothing_set second_account after_first =
    (Inr \<lparr>lr_credentials = second_account, lr_state = Pending\<rparr>, after_second)"
  by code_simp+

lemma load_twice_same_account_witness:
  "load_or_create_local_credentials sample_config Primary nothing_set second_account after_first =
    (Inr \<lparr>lr_credentials = first_account, lr_state = Pending\<rparr>, after_first)"
  by (rule load_twice_same_account [OF samples_ok(1,2,4) sample_loads(1)])

lemma load_keeps_stored_values_witness:
  "\<exists>vs'. readable (snd (load_or_create_local_credentials sample_config Secondary nothing_set first_account after_first)) vs' \<and>
    vs' = [(''BA_PRIMARY_TEST_USERNAME'', ''one@test.com''), (''BA_PRIMARY_TEST_PASSWORD'', ''Ba9!a''),
           (''BA_PRIMARY_TEST_ACCOUNT_STATE'', ''pending'')]"
proof -
  let ?res = "load_or_create_local_credentials sample_config Secondary nothing_set first_account after_first"
  have r: "readable after_first [(''BA_PRIMARY_TEST_USERNAME'', ''one@test.com''), (''BA_PRIMARY_TEST_PASSWORD'', ''Ba9!a''),
      (''BA_PRIMARY_TEST_ACCOUNT_STATE'', ''pending'')]" by code_simp
  have "isl (fst ?res)" by code_simp
  then show ?thesis
    using load_keeps_stored_values [OF samples_ok(1,2) r, of Secondary nothing_set "fst ?res" "snd ?res"] by auto
qed

lemma completed_account_is_loaded_complete_witness:
  "\<exists>t'. mark_local_credentials_complete sample_config Primary first_account after_first = (Inr (), t') \<and>
    load_or_create_local_credentials sample_config Primary nothing_set second_account t' =
      (Inr \<lparr>lr_credentials = first_account, lr_state = Complete\<rparr>, t')"
  using completed_account_is_loaded_complete [OF samples_ok(1,2,4) sample_loads(1), of second_account] by simp

lemma roles_never_share_an_account_witness: "username second_account \<noteq> username first_account"
  using roles_never_share_an_account [OF samples_ok _ sample_loads] by simp

lemma generated_credentials_can_be_stored_witness:
  "credentials_ok (generate_local_credentials ''00ff'' (\<lambda>i. i mod 7))"
proof -
  have "list_all is_ascii_alnum ''00ff''" by code_simp
  moreover have "i mod 7 < length PASSWORD_ALPHABET" for i
  proof -
    have "length PASSWORD_ALPHABET = 67" by code_simp
    then show ?thesis using mod_less_divisor [of 7 i] by linarith
  qed
  ultimately show ?thesis by (rule generated_credentials_can_be_stored [THEN conjunct1])
qed

end
