(* ===== verification/Disposable_Credentials.thy ===== *)
theory Disposable_Credentials
  imports Local_Credentials
begin

text \<open>
  The disposable accounts of \<open>src/api_tests/local_credentials.py\<close>: the accounts of the deactivation
  scenario, one record of seven variables per execution (run and scenario) in the credential file, and
  the binding of the identity that the execution owns.
\<close>

definition DISPOSABLE_RECORD_PREFIX :: string where
  "DISPOSABLE_RECORD_PREFIX = ''BA_ADMIN_DEACTIVATION_''"

record disposable_record =
  dr_run_id :: string
  dr_scenario_id :: string
  dr_credentials :: credentials
  dr_state :: credential_state
  dr_subject :: "string option"
  dr_user_id :: "string option"

record disposable_names =
  n_run_id :: string
  n_scenario_id :: string
  n_username :: string
  n_password :: string
  n_state :: string
  n_subject :: string
  n_user_id :: string

definition disposable_variable_prefix :: "string \<Rightarrow> string \<Rightarrow> credential_error + string" where
  "disposable_variable_prefix run_id scenario_id =
     (if run_id = [] \<or> scenario_id = [] then Inl EmptyProvenance
      else let token = upper (strip_of (\<lambda>c. c = CHR ''_'') (sub_runs (\<lambda>c. \<not> is_ascii_alnum c) CHR ''_'' (run_id @ ''_'' @ scenario_id))) in
        if token = [] then Inl UnsafeRecordName else Inr (DISPOSABLE_RECORD_PREFIX @ token))"

definition disposable_variable_names :: "string \<Rightarrow> disposable_names" where
  "disposable_variable_names record_prefix =
     \<lparr>n_run_id = record_prefix @ ''_RUN_ID'', n_scenario_id = record_prefix @ ''_SCENARIO_ID'',
      n_username = record_prefix @ ''_USERNAME'', n_password = record_prefix @ ''_PASSWORD'',
      n_state = record_prefix @ ''_ACCOUNT_STATE'', n_subject = record_prefix @ ''_IDP_SUBJECT'',
      n_user_id = record_prefix @ ''_USER_ID''\<rparr>"

definition reusable_slot_step ::
  "environment_config \<Rightarrow> string \<Rightarrow> lookup \<Rightarrow> lookup \<Rightarrow> unit \<Rightarrow> session_role \<Rightarrow> credential_error + unit" where
  "reusable_slot_step config user source saved u role =
     bindE (variable_names config role) (\<lambda>(user_name, pass_name, _).
       if slot_username source saved user_name pass_name = Some user
       then Inl DisposableUsernameReused else Inr ())"

text \<open>Whether another record of the file holds the value in the variable with this suffix.\<close>

definition held_elsewhere :: "string \<Rightarrow> string \<Rightarrow> string \<Rightarrow> string \<times> string \<Rightarrow> bool" where
  "held_elsewhere ending own val p \<longleftrightarrow>
     startswith (fst p) DISPOSABLE_RECORD_PREFIX \<and> endswith (fst p) ending \<and> fst p \<noteq> own \<and> strip (snd p) = val"

definition ensure_disposable_username_is_distinct ::
  "environment_config \<Rightarrow> string \<Rightarrow> lookup \<Rightarrow> string \<Rightarrow> vars \<Rightarrow> credential_error + unit" where
  "ensure_disposable_username_is_distinct config user environ record_prefix values =
     bindE (foldE (reusable_slot_step config user environ (map_of values)) () SESSION_ROLES) (\<lambda>_.
     if list_ex (held_elsewhere ''_USERNAME'' (n_username (disposable_variable_names record_prefix)) user) values
     then Inl DisposableUsernameRetained else Inr ())"

definition require_saved_disposable_record ::
  "lookup \<Rightarrow> disposable_names \<Rightarrow> disposable_record \<Rightarrow> credential_error + unit" where
  "require_saved_disposable_record saved names r =
     (if get_stripped saved (n_run_id names) \<noteq> dr_run_id r
         \<or> get_stripped saved (n_scenario_id names) \<noteq> dr_scenario_id r
         \<or> get_stripped saved (n_username names) \<noteq> username (dr_credentials r)
         \<or> get_stripped saved (n_password names) \<noteq> password (dr_credentials r)
         \<or> get_stripped saved (n_state names) \<noteq> state_name (dr_state r)
      then Inl ChangedWhileProvisioning else Inr ())"

definition require_current_disposable_provenance ::
  "disposable_record \<Rightarrow> string \<Rightarrow> string \<Rightarrow> credential_error + unit" where
  "require_current_disposable_provenance r run_id scenario_id =
     (if dr_run_id r \<noteq> run_id \<or> dr_scenario_id r \<noteq> scenario_id then Inl NotCurrentExecution else Inr ())"

definition optional_value :: "string \<Rightarrow> string option" where
  "optional_value s = (if s = [] then None else Some s)"

definition stored_disposable_record ::
  "environment_config \<Rightarrow> string \<Rightarrow> string \<Rightarrow> lookup \<Rightarrow> string \<Rightarrow> vars \<Rightarrow> disposable_names \<Rightarrow>
     credential_error + disposable_record" where
  "stored_disposable_record config run_id scenario_id environ record_prefix values names =
     (let get = get_stripped (map_of values);
          stored_run_id = get (n_run_id names);
          stored_scenario_id = get (n_scenario_id names);
          user = get (n_username names);
          pass = get (n_password names);
          subject = get (n_subject names);
          user_id = get (n_user_id names)
      in if stored_run_id = [] \<or> stored_scenario_id = [] \<or> user = [] \<or> pass = [] then Inl IncompleteDisposable
      else if stored_run_id \<noteq> run_id \<or> stored_scenario_id \<noteq> scenario_id then Inl ProvenanceMismatch
      else bindE (requireE (parse_state (get (n_state names))) InvalidDisposableState) (\<lambda>st.
        if (subject \<noteq> []) \<noteq> (user_id \<noteq> []) then Inl PartialBinding
        else if subject \<noteq> [] \<and> st \<noteq> Complete then Inl BindingWhilePending
        else bindE (ensure_disposable_username_is_distinct config user environ record_prefix values) (\<lambda>_.
          Inr \<lparr>dr_run_id = run_id, dr_scenario_id = scenario_id,
               dr_credentials = \<lparr>username = user, password = pass\<rparr>, dr_state = st,
               dr_subject = optional_value subject, dr_user_id = optional_value user_id\<rparr>)))"

definition load_or_create_disposable_credentials ::
  "environment_config \<Rightarrow> string \<Rightarrow> string \<Rightarrow> lookup \<Rightarrow> credentials \<Rightarrow> disposable_record credential_io" where
  "load_or_create_disposable_credentials config run_id scenario_id environ generated =
     bindS (liftE (ensure_exact_local_target config)) (\<lambda>_.
     bindS (liftE (disposable_variable_prefix run_id scenario_id)) (\<lambda>record_prefix.
     bindS read_credential_file (\<lambda>values.
       let names = disposable_variable_names record_prefix in
       if list_ex (\<lambda>name. get_stripped (map_of values) name \<noteq> [])
            [n_run_id names, n_scenario_id names, n_username names, n_password names, n_state names,
             n_subject names, n_user_id names]
       then liftE (stored_disposable_record config run_id scenario_id environ record_prefix values names)
       else
         bindS (liftE (ensure_disposable_username_is_distinct config (username generated) environ record_prefix values)) (\<lambda>_.
         bindS (update_credential_file
                 [(n_run_id names, run_id), (n_scenario_id names, scenario_id),
                  (n_username names, username generated), (n_password names, password generated),
                  (n_state names, ''pending'')]) (\<lambda>_.
         liftE (Inr \<lparr>dr_run_id = run_id, dr_scenario_id = scenario_id, dr_credentials = generated,
                      dr_state = Pending, dr_subject = None, dr_user_id = None\<rparr>))))))"

definition mark_disposable_credentials_complete ::
  "environment_config \<Rightarrow> disposable_record \<Rightarrow> disposable_record credential_io" where
  "mark_disposable_credentials_complete config r =
     bindS (liftE (ensure_exact_local_target config)) (\<lambda>_.
     bindS (liftE (disposable_variable_prefix (dr_run_id r) (dr_scenario_id r))) (\<lambda>record_prefix.
       let names = disposable_variable_names record_prefix in
     bindS read_credential_file (\<lambda>values.
     bindS (liftE (require_saved_disposable_record (map_of values) names r)) (\<lambda>_.
     bindS (update_credential_file [(n_state names, ''complete'')]) (\<lambda>_.
     liftE (Inr (r\<lparr>dr_state := Complete\<rparr>)))))))"

text \<open>One turn of the loop that looks for another record bound to the same identity.\<close>

definition bound_elsewhere_step ::
  "disposable_names \<Rightarrow> string \<Rightarrow> string \<Rightarrow> unit \<Rightarrow> string \<times> string \<Rightarrow> credential_error + unit" where
  "bound_elsewhere_step names subject user_id u p =
     (if held_elsewhere ''_IDP_SUBJECT'' (n_subject names) subject p then Inl SubjectAlreadyBound
      else if held_elsewhere ''_USER_ID'' (n_user_id names) user_id p then Inl UserIdAlreadyBound
      else Inr ())"

definition bind_disposable_identity ::
  "environment_config \<Rightarrow> disposable_record \<Rightarrow> string \<Rightarrow> string \<Rightarrow> string \<Rightarrow> string \<Rightarrow> string list \<Rightarrow> string list \<Rightarrow>
     disposable_record credential_io" where
  "bind_disposable_identity config r run_id scenario_id subject user_id reusable_subjects reusable_user_ids =
     bindS (liftE (ensure_exact_local_target config)) (\<lambda>_.
     bindS (liftE (require_current_disposable_provenance r run_id scenario_id)) (\<lambda>_.
       if dr_state r \<noteq> Complete then liftE (Inl SignupIncomplete)
       else if subject = [] \<or> user_id = [] then liftE (Inl EmptyIdentity)
       else if subject \<in> set reusable_subjects \<or> user_id \<in> set reusable_user_ids then liftE (Inl ReusableIdentity)
       else
     bindS (liftE (disposable_variable_prefix (dr_run_id r) (dr_scenario_id r))) (\<lambda>record_prefix.
       let names = disposable_variable_names record_prefix in
     bindS read_credential_file (\<lambda>values.
     bindS (liftE (require_saved_disposable_record (map_of values) names r)) (\<lambda>_.
     bindS (liftE (foldE (bound_elsewhere_step names subject user_id) () values)) (\<lambda>_.
       if dr_subject r \<noteq> None \<and> dr_subject r \<noteq> Some subject then liftE (Inl SubjectChanged)
       else if dr_user_id r \<noteq> None \<and> dr_user_id r \<noteq> Some user_id then liftE (Inl UserIdChanged)
       else
     bindS (update_credential_file [(n_subject names, subject), (n_user_id names, user_id)]) (\<lambda>_.
     liftE (Inr (r\<lparr>dr_state := Complete, dr_subject := Some subject, dr_user_id := Some user_id\<rparr>)))))))))"

definition require_owned_disposable_identity ::
  "disposable_record \<Rightarrow> string \<Rightarrow> string \<Rightarrow> string \<Rightarrow> string \<Rightarrow> string list \<Rightarrow> string list \<Rightarrow> credential_error + unit" where
  "require_owned_disposable_identity r run_id scenario_id subject user_id reusable_subjects reusable_user_ids =
     bindE (require_current_disposable_provenance r run_id scenario_id) (\<lambda>_.
     if dr_state r \<noteq> Complete \<or> dr_subject r = None \<or> dr_user_id r = None then Inl NoCompletedBinding
     else if dr_subject r \<noteq> Some subject \<or> dr_user_id r \<noteq> Some user_id then Inl IdentityMismatch
     else if subject \<in> set reusable_subjects \<or> user_id \<in> set reusable_user_ids then Inl ReusableIdentity
     else Inr ())"

section \<open>The names of a disposable record\<close>

lemma record_token_chars: "list_all is_ident_char (sub_runs (\<lambda>c. \<not> is_ascii_alnum c) CHR ''_'' s)"
  by (rule sub_runs_chars) (simp_all add: is_ident_char_def)

lemma upper_ident: "list_all is_ident_char s \<Longrightarrow> list_all is_ident_char (upper s)"
proof -
  have "is_ident_char c \<longrightarrow> is_ident_char (upper_char c)" for c by (rule all_chars) code_simp
  then show "list_all is_ident_char s \<Longrightarrow> list_all is_ident_char (upper s)"
    by (simp add: upper_def list_all_iff)
qed

lemma set_strip_of: "set (strip_of P s) \<subseteq> set s"
  unfolding strip_of_def using set_lstrip_of set_rstrip_of by (rule subset_trans [rotated])

lemma list_all_strip_of: "list_all Q s \<Longrightarrow> list_all Q (strip_of P s)"
  using set_strip_of [of P s] by (auto simp: list_all_iff)

lemma ident_append: "ident n \<Longrightarrow> list_all is_ident_char cs \<Longrightarrow> ident (n @ cs)"
  by (cases n) (simp_all add: ident_def)

lemma disposable_prefix_ok:
  assumes "disposable_variable_prefix run_id scenario_id = Inr pre"
  shows "run_id \<noteq> [] \<and> scenario_id \<noteq> [] \<and> startswith pre DISPOSABLE_RECORD_PREFIX \<and> ident pre"
proof -
  let ?token = "upper (strip_of (\<lambda>c. c = CHR ''_'') (sub_runs (\<lambda>c. \<not> is_ascii_alnum c) CHR ''_'' (run_id @ ''_'' @ scenario_id)))"
  have pre: "run_id \<noteq> [] \<and> scenario_id \<noteq> [] \<and> pre = DISPOSABLE_RECORD_PREFIX @ ?token"
    using assms by (auto simp: disposable_variable_prefix_def Let_def split: if_splits)
  have "list_all is_ident_char ?token"
    by (intro upper_ident list_all_strip_of record_token_chars)
  moreover have "ident DISPOSABLE_RECORD_PREFIX" by code_simp
  ultimately have "ident pre" using ident_append pre by blast
  moreover have "startswith pre DISPOSABLE_RECORD_PREFIX" using pre by simp
  ultimately show ?thesis using pre by blast
qed

definition RECORD_ENDINGS :: "string list" where
  "RECORD_ENDINGS = [''_RUN_ID'', ''_SCENARIO_ID'', ''_USERNAME'', ''_PASSWORD'', ''_ACCOUNT_STATE'',
     ''_IDP_SUBJECT'', ''_USER_ID'']"

definition record_names :: "string \<Rightarrow> string list" where
  "record_names pre = map (append pre) RECORD_ENDINGS"

lemma record_names_eq:
  "record_names pre = (let n = disposable_variable_names pre in
     [n_run_id n, n_scenario_id n, n_username n, n_password n, n_state n, n_subject n, n_user_id n])"
  by (simp add: record_names_def RECORD_ENDINGS_def disposable_variable_names_def Let_def)

lemma record_names_distinct: "distinct (record_names pre)"
proof -
  have "distinct RECORD_ENDINGS" by code_simp
  then show ?thesis by (simp add: record_names_def distinct_map inj_on_def)
qed

lemma record_names_ident: "ident pre \<Longrightarrow> list_all ident (record_names pre)"
proof -
  have "list_all (list_all is_ident_char) RECORD_ENDINGS" by code_simp
  then show "ident pre \<Longrightarrow> list_all ident (record_names pre)"
    by (simp add: record_names_def list_all_iff ident_append)
qed

lemma record_names_prefix:
  "startswith pre DISPOSABLE_RECORD_PREFIX \<Longrightarrow> n \<in> set (record_names pre) \<Longrightarrow> startswith n DISPOSABLE_RECORD_PREFIX"
  by (auto simp: record_names_def prefix_def)

text \<open>The only name of a record with one of the three searched endings is the variable of that ending.\<close>

lemma suffix_of_append: "suffix a (pre @ b) \<Longrightarrow> suffix a b \<or> suffix b a"
  using suffix_same_cases [of a "pre @ b" b] by (simp add: suffix_def)

lemma suffix_append_same [simp]: "suffix a (pre @ a)"
  by (simp add: suffix_def)

lemma own_ending:
  assumes "n \<in> set (record_names pre)" "endswith n e" "e \<in> {''_USERNAME'', ''_IDP_SUBJECT'', ''_USER_ID''}"
  shows "n = pre @ e"
proof -
  obtain b where b: "b \<in> set RECORD_ENDINGS" "n = pre @ b" using assms(1) by (auto simp: record_names_def)
  have "list_all (\<lambda>e. list_all (\<lambda>b. b = e \<or> \<not> suffix e b \<and> \<not> suffix b e) RECORD_ENDINGS)
    [''_USERNAME'', ''_IDP_SUBJECT'', ''_USER_ID'']" by code_simp
  then have "list_all (\<lambda>b. b = e \<or> \<not> suffix e b \<and> \<not> suffix b e) RECORD_ENDINGS"
    using assms(3) unfolding list.pred_inject by blast
  then have "b = e \<or> \<not> suffix e b \<and> \<not> suffix b e" using b(1) unfolding list_all_iff by blast
  then show ?thesis using suffix_of_append assms(2) b(2) by blast
qed

section \<open>The disposable check\<close>

lemma read_content_distinct: "read_content c = Inr vs \<Longrightarrow> distinct (map fst vs)"
  unfolding read_content_def
  by (erule foldE_rule) (auto simp: read_step_def AList.distinct_update split: option.splits if_splits prod.splits)

lemma settled_distinct: "settled s vs \<Longrightarrow> distinct (map fst vs)"
  by (cases s) (auto simp: settled_def read_credential_file_def intro: read_content_distinct)

lemma list_ex_dict: "distinct (map fst vs) \<Longrightarrow> list_ex Q vs \<longleftrightarrow> (\<exists>k v. map_of vs k = Some v \<and> Q (k, v))"
  by (auto simp: list_ex_iff map_of_eq_Some_iff)

lemma reusable_slots_ok:
  "foldE (reusable_slot_step config user source saved) () SESSION_ROLES = Inr () \<longleftrightarrow>
   (\<forall>role. \<exists>u p st. variable_names config role = Inr (u, p, st) \<and> slot_username source saved u p \<noteq> Some user)"
proof -
  have step: "reusable_slot_step config user source saved () role = Inr () \<longleftrightarrow>
    (\<exists>u p st. variable_names config role = Inr (u, p, st) \<and> slot_username source saved u p \<noteq> Some user)" for role
    by (cases "variable_names config role") (auto simp: reusable_slot_step_def)
  have "foldE (reusable_slot_step config user source saved) () rs = Inr () \<longleftrightarrow>
    (\<forall>role \<in> set rs. reusable_slot_step config user source saved () role = Inr ())" for rs
    by (induction rs) (auto simp: ok_iff)
  moreover have "set SESSION_ROLES = UNIV" using roles by blast
  ultimately show ?thesis by (simp add: step)
qed

lemma disposable_distinct_ok:
  assumes "distinct (map fst vs)"
  shows "ensure_disposable_username_is_distinct config user environ pre vs = Inr () \<longleftrightarrow>
    foldE (reusable_slot_step config user environ (map_of vs)) () SESSION_ROLES = Inr () \<and>
    (\<forall>k v. map_of vs k = Some v \<longrightarrow> \<not> held_elsewhere ''_USERNAME'' (pre @ ''_USERNAME'') user (k, v))"
  by (auto simp: ensure_disposable_username_is_distinct_def ok_iff list_ex_dict [OF assms] disposable_variable_names_def
      split: if_splits)

lemma unchanged_outside:
  assumes "map_of vs' = map_of vs ++ map_of w" "fst ` set w \<subseteq> A" "n \<notin> A"
  shows "map_of vs' n = map_of vs n"
proof -
  have "n \<notin> fst ` set w" using assms(2,3) by blast
  then have "map_of w n = None" by (simp add: map_of_eq_None_iff)
  then show ?thesis by (simp add: assms(1) map_add_def)
qed

text \<open>The variables of the role accounts are not those of a disposable record.\<close>

definition slots_outside_records :: "environment_config \<Rightarrow> bool" where
  "slots_outside_records config \<longleftrightarrow> list_all (\<lambda>role. case variable_names config role of
     Inl e \<Rightarrow> False
   | Inr (u, p, st) \<Rightarrow> \<not> startswith u DISPOSABLE_RECORD_PREFIX \<and> \<not> startswith p DISPOSABLE_RECORD_PREFIX) SESSION_ROLES"

lemma slots_outside_recordsD:
  assumes "slots_outside_records config" "variable_names config role = Inr (u, p, st)"
  shows "\<not> startswith u DISPOSABLE_RECORD_PREFIX \<and> \<not> startswith p DISPOSABLE_RECORD_PREFIX"
  using assms(1) roles [of role] by (auto simp: slots_outside_records_def list_all_iff assms(2) split: sum.splits)

lemma disposable_distinct_after:
  assumes "slots_outside_records config" "startswith pre DISPOSABLE_RECORD_PREFIX"
    and d: "distinct (map fst vs)" "distinct (map fst vs')"
    and upd: "map_of vs' = map_of vs ++ map_of w" "fst ` set w \<subseteq> set (record_names pre)"
    and ok: "ensure_disposable_username_is_distinct config user environ pre vs = Inr ()"
  shows "ensure_disposable_username_is_distinct config user environ pre vs' = Inr ()"
proof -
  note same = unchanged_outside [OF upd]
  have outside: "map_of vs' k = map_of vs k" if "\<not> startswith k DISPOSABLE_RECORD_PREFIX" for k
    using that record_names_prefix [OF assms(2)] by (intro same) blast
  have "foldE (reusable_slot_step config user environ (map_of vs')) () SESSION_ROLES = Inr ()"
    unfolding reusable_slots_ok
  proof
    fix role
    obtain u p st where v: "variable_names config role = Inr (u, p, st)" "slot_username environ (map_of vs) u p \<noteq> Some user"
      using ok unfolding disposable_distinct_ok [OF d(1)] reusable_slots_ok by blast
    have "slot_username environ (map_of vs') u p = slot_username environ (map_of vs) u p"
      using outside slots_outside_recordsD [OF assms(1) v(1)] by (simp add: slot_username_def get_stripped_def)
    then show "\<exists>u p st. variable_names config role = Inr (u, p, st) \<and> slot_username environ (map_of vs') u p \<noteq> Some user"
      using v by auto
  qed
  moreover have "\<not> held_elsewhere ''_USERNAME'' (pre @ ''_USERNAME'') user (k, v)" if "map_of vs' k = Some v" for k v
  proof
    assume h: "held_elsewhere ''_USERNAME'' (pre @ ''_USERNAME'') user (k, v)"
    then have "k \<notin> set (record_names pre)"
      using own_ending [of k pre "''_USERNAME''"] by (auto simp: held_elsewhere_def)
    then have "map_of vs k = Some v" using same that by simp
    then show False using ok h unfolding disposable_distinct_ok [OF d(1)] by blast
  qed
  ultimately show ?thesis unfolding disposable_distinct_ok [OF d(2)] by blast
qed

section \<open>The record that a file holds\<close>

text \<open>The variables of a prefix hold this record, well formed.\<close>

definition saved_as :: "lookup \<Rightarrow> string \<Rightarrow> disposable_record \<Rightarrow> bool" where
  "saved_as m pre r \<longleftrightarrow>
     get_stripped m (pre @ ''_RUN_ID'') = dr_run_id r \<and> dr_run_id r \<noteq> [] \<and>
     get_stripped m (pre @ ''_SCENARIO_ID'') = dr_scenario_id r \<and> dr_scenario_id r \<noteq> [] \<and>
     get_stripped m (pre @ ''_USERNAME'') = username (dr_credentials r) \<and> username (dr_credentials r) \<noteq> [] \<and>
     get_stripped m (pre @ ''_PASSWORD'') = password (dr_credentials r) \<and> password (dr_credentials r) \<noteq> [] \<and>
     parse_state (get_stripped m (pre @ ''_ACCOUNT_STATE'')) = Some (dr_state r) \<and>
     optional_value (get_stripped m (pre @ ''_IDP_SUBJECT'')) = dr_subject r \<and>
     optional_value (get_stripped m (pre @ ''_USER_ID'')) = dr_user_id r \<and>
     (dr_subject r = None) = (dr_user_id r = None) \<and> (dr_subject r = None \<or> dr_state r = Complete)"

lemma names_simps [simp]:
  "n_run_id (disposable_variable_names pre) = pre @ ''_RUN_ID''"
  "n_scenario_id (disposable_variable_names pre) = pre @ ''_SCENARIO_ID''"
  "n_username (disposable_variable_names pre) = pre @ ''_USERNAME''"
  "n_password (disposable_variable_names pre) = pre @ ''_PASSWORD''"
  "n_state (disposable_variable_names pre) = pre @ ''_ACCOUNT_STATE''"
  "n_subject (disposable_variable_names pre) = pre @ ''_IDP_SUBJECT''"
  "n_user_id (disposable_variable_names pre) = pre @ ''_USER_ID''"
  by (simp_all add: disposable_variable_names_def)

lemma optional_value_simps [simp]: "optional_value s = None \<longleftrightarrow> s = []" "optional_value [] = None"
  by (simp_all add: optional_value_def)

lemma parse_state_name: "parse_state s = Some st \<Longrightarrow> s = state_name st"
  by (auto simp: parse_state_def state_name_def split: if_splits)

lemma stored_disposable_ok:
  "stored_disposable_record config run_id scenario_id environ pre vs (disposable_variable_names pre) = Inr r \<longleftrightarrow>
     saved_as (map_of vs) pre r \<and> dr_run_id r = run_id \<and> dr_scenario_id r = scenario_id \<and>
     ensure_disposable_username_is_distinct config (username (dr_credentials r)) environ pre vs = Inr ()"
proof -
  obtain rid sid c st sub uid where r: "r = \<lparr>dr_run_id = rid, dr_scenario_id = sid, dr_credentials = c, dr_state = st,
      dr_subject = sub, dr_user_id = uid\<rparr>" by (cases r) auto
  obtain un pw where c: "c = \<lparr>username = un, password = pw\<rparr>" by (cases c) auto
  show ?thesis
    unfolding r c stored_disposable_record_def saved_as_def Let_def names_simps
    by (auto simp: ok_iff simp del: append.simps)
qed

lemma require_saved_ok: "saved_as m pre r \<Longrightarrow> require_saved_disposable_record m (disposable_variable_names pre) r = Inr ()"
  by (auto simp: saved_as_def require_saved_disposable_record_def dest: parse_state_name)

definition created_record :: "string \<Rightarrow> string \<Rightarrow> string \<Rightarrow> credentials \<Rightarrow> vars" where
  "created_record pre run_id scenario_id g =
     [(pre @ ''_RUN_ID'', run_id), (pre @ ''_SCENARIO_ID'', scenario_id),
      (pre @ ''_USERNAME'', username g), (pre @ ''_PASSWORD'', password g),
      (pre @ ''_ACCOUNT_STATE'', ''pending'')]"

lemma load_disposable_eq:
  assumes "ensure_exact_local_target config = Inr ()" "disposable_variable_prefix run_id scenario_id = Inr pre"
    and "read_credential_file s = (Inr vs, t)"
  shows "load_or_create_disposable_credentials config run_id scenario_id environ g s =
    (if list_ex (\<lambda>n. get_stripped (map_of vs) n \<noteq> []) (record_names pre)
     then (stored_disposable_record config run_id scenario_id environ pre vs (disposable_variable_names pre), t)
     else bindS (liftE (ensure_disposable_username_is_distinct config (username g) environ pre vs)) (\<lambda>_.
       bindS (update_credential_file (created_record pre run_id scenario_id g)) (\<lambda>_.
       liftE (Inr \<lparr>dr_run_id = run_id, dr_scenario_id = scenario_id, dr_credentials = g,
                    dr_state = Pending, dr_subject = None, dr_user_id = None\<rparr>))) t)"
  using assms
  by (simp add: load_or_create_disposable_credentials_def record_names_eq created_record_def Let_def
      bindS_def [of "liftE (Inr _)"] bindS_def [of read_credential_file] liftE_def del: append.simps)

lemma exact_local_first_disposable:
  assumes "load_or_create_disposable_credentials config run_id scenario_id environ g s = (Inr r, t')"
  obtains pre where "ensure_exact_local_target config = Inr ()" "disposable_variable_prefix run_id scenario_id = Inr pre"
  using assms by (auto simp: load_or_create_disposable_credentials_def ok_iff)

lemma created_record_saved:
  assumes "credentials_ok g" "plain_value run_id" "plain_value scenario_id" "run_id \<noteq> []" "scenario_id \<noteq> []"
    and blank: "\<not> list_ex (\<lambda>n. get_stripped (map_of vs) n \<noteq> []) (record_names pre)"
    and upd: "map_of vs' = map_of vs ++ map_of (created_record pre run_id scenario_id g)"
  shows "saved_as (map_of vs') pre \<lparr>dr_run_id = run_id, dr_scenario_id = scenario_id, dr_credentials = g,
    dr_state = Pending, dr_subject = None, dr_user_id = None\<rparr>"
proof -
  have new: "map_of vs' (pre @ ''_RUN_ID'') = Some run_id" "map_of vs' (pre @ ''_SCENARIO_ID'') = Some scenario_id"
    "map_of vs' (pre @ ''_USERNAME'') = Some (username g)" "map_of vs' (pre @ ''_PASSWORD'') = Some (password g)"
    "map_of vs' (pre @ ''_ACCOUNT_STATE'') = Some ''pending''"
    by (simp_all add: upd created_record_def map_add_def)
  have old: "map_of vs' (pre @ ''_IDP_SUBJECT'') = map_of vs (pre @ ''_IDP_SUBJECT'')"
    "map_of vs' (pre @ ''_USER_ID'') = map_of vs (pre @ ''_USER_ID'')"
    by (simp_all add: upd created_record_def map_add_def)
  have "get_stripped (map_of vs) (pre @ ''_IDP_SUBJECT'') = []" "get_stripped (map_of vs) (pre @ ''_USER_ID'') = []"
    using blank by (simp_all add: record_names_def RECORD_ENDINGS_def)
  then have "get_stripped (map_of vs') (pre @ ''_IDP_SUBJECT'') = []" "get_stripped (map_of vs') (pre @ ''_USER_ID'') = []"
    by (simp_all add: get_stripped_def old)
  then show ?thesis
    using assms(1-5) new by (simp add: saved_as_def credentials_ok_def get_stripped_def plain_strip state_strip)
qed

lemma record_updates_ok:
  assumes "ident pre" "fst ` set w \<subseteq> set (record_names pre)" "distinct (map fst w)" "\<forall>v \<in> snd ` set w. plain_value v"
  shows "updates_ok w"
proof -
  have "list_all ident (record_names pre)" using record_names_ident [OF assms(1)] .
  then have "ident n" if "(n, v) \<in> set w" for n v
    using assms(2) that by (auto simp: list_all_iff image_subset_iff)
  then show ?thesis using assms(3,4) by (auto simp: updates_ok_def list_all_iff image_iff)
qed

lemma created_record_keys: "fst ` set (created_record pre run_id scenario_id g) \<subseteq> set (record_names pre)"
  "distinct (map fst (created_record pre run_id scenario_id g))"
  by (simp_all add: created_record_def record_names_def RECORD_ENDINGS_def)

lemma created_record_ok:
  assumes "ident pre" "credentials_ok g" "plain_value run_id" "plain_value scenario_id"
  shows "updates_ok (created_record pre run_id scenario_id g)"
  by (rule record_updates_ok [OF assms(1) created_record_keys])
    (use assms(2-4) state_plain in \<open>simp add: created_record_def credentials_ok_def\<close>)

text \<open>After a load the file holds the returned record, and the username is apart from every other account.\<close>

lemma load_disposable_leaves:
  assumes "slots_outside_records config" "credentials_ok g" "plain_value run_id" "plain_value scenario_id" "readable s vs"
    and load: "load_or_create_disposable_credentials config run_id scenario_id environ g s = (Inr r, t')"
    and pre: "disposable_variable_prefix run_id scenario_id = Inr pre"
  obtains vs' where "settled t' vs'" "saved_as (map_of vs') pre r"
    "dr_run_id r = run_id" "dr_scenario_id r = scenario_id"
    "ensure_disposable_username_is_distinct config (username (dr_credentials r)) environ pre vs' = Inr ()"
    "\<And>n. n \<notin> set (record_names pre) \<Longrightarrow> map_of vs' n = map_of vs n"
proof -
  obtain t where rd: "read_credential_file s = (Inr vs, t)" and t: "settled t vs" using readableE [OF assms(5)] by blast
  have exact: "ensure_exact_local_target config = Inr ()"
    using exact_local_first_disposable [OF load] by blast
  note pre_ok = disposable_prefix_ok [OF pre]
  note eq = load_disposable_eq [OF exact pre rd]
  show ?thesis
  proof (cases "list_ex (\<lambda>n. get_stripped (map_of vs) n \<noteq> []) (record_names pre)")
    case True
    then have "stored_disposable_record config run_id scenario_id environ pre vs (disposable_variable_names pre) = Inr r" "t' = t"
      using load unfolding eq by auto
    then show ?thesis using t unfolding stored_disposable_ok by (intro that [of vs]) auto
  next
    case False
    then have new: "ensure_disposable_username_is_distinct config (username g) environ pre vs = Inr ()"
      "update_credential_file (created_record pre run_id scenario_id g) t = (Inr (), t')"
      "r = \<lparr>dr_run_id = run_id, dr_scenario_id = scenario_id, dr_credentials = g,
            dr_state = Pending, dr_subject = None, dr_user_id = None\<rparr>"
      using load unfolding eq by (auto simp: ok_iff)
    have upd_ok: "updates_ok (created_record pre run_id scenario_id g)"
      using created_record_ok pre_ok assms(2-4) by blast
    obtain vs' where vs': "settled t' vs'" "map_of vs' = map_of vs ++ map_of (created_record pre run_id scenario_id g)"
      using settled_updateD(2) [OF t upd_ok new(2)] by blast
    have "saved_as (map_of vs') pre r"
      unfolding new(3) using created_record_saved [OF assms(2-4) _ _ False vs'(2)] pre_ok by blast
    moreover have "ensure_disposable_username_is_distinct config (username g) environ pre vs' = Inr ()"
      using disposable_distinct_after [OF assms(1) _ settled_distinct [OF t] settled_distinct [OF vs'(1)] vs'(2)
          created_record_keys(1) new(1)] pre_ok by blast
    moreover have "map_of vs' n = map_of vs n" if "n \<notin> set (record_names pre)" for n
      using unchanged_outside [OF vs'(2) created_record_keys(1) that] .
    ultimately show ?thesis using vs'(1) new(3) by (intro that [of vs']) auto
  qed
qed

lemma load_disposable_again:
  assumes "ensure_exact_local_target config = Inr ()" "disposable_variable_prefix (dr_run_id r) (dr_scenario_id r) = Inr pre"
    and "settled t vs" "saved_as (map_of vs) pre r"
    and "ensure_disposable_username_is_distinct config (username (dr_credentials r)) environ pre vs = Inr ()"
  shows "load_or_create_disposable_credentials config (dr_run_id r) (dr_scenario_id r) environ g' t = (Inr r, t)"
proof -
  have "list_ex (\<lambda>n. get_stripped (map_of vs) n \<noteq> []) (record_names pre)"
    using assms(4) by (simp add: record_names_def RECORD_ENDINGS_def saved_as_def)
  then show ?thesis
    unfolding load_disposable_eq [OF assms(1,2) settledD [OF assms(3)]]
    using assms(4,5) stored_disposable_ok by simp
qed

section \<open>Completion and binding\<close>

lemma saved_as_complete:
  assumes "saved_as m pre r"
  shows "saved_as (m(pre @ ''_ACCOUNT_STATE'' \<mapsto> ''complete'')) pre (r\<lparr>dr_state := Complete\<rparr>)"
  using assms by (simp add: saved_as_def get_stripped_def state_strip)

lemma saved_as_bound:
  assumes "saved_as m pre r" "dr_state r = Complete" "plain_value subject" "plain_value user_id" "subject \<noteq> []" "user_id \<noteq> []"
  shows "saved_as (m(pre @ ''_USER_ID'' \<mapsto> user_id, pre @ ''_IDP_SUBJECT'' \<mapsto> subject)) pre
    (r\<lparr>dr_state := Complete, dr_subject := Some subject, dr_user_id := Some user_id\<rparr>)"
  using assms by (simp add: saved_as_def get_stripped_def plain_strip optional_value_def)

lemma mark_disposable:
  assumes "ensure_exact_local_target config = Inr ()" "disposable_variable_prefix (dr_run_id r) (dr_scenario_id r) = Inr pre"
    and "settled t vs" "saved_as (map_of vs) pre r"
  obtains t' vs' where "mark_disposable_credentials_complete config r t = (Inr (r\<lparr>dr_state := Complete\<rparr>), t')"
    "settled t' vs'" "map_of vs' = map_of vs ++ map_of [(pre @ ''_ACCOUNT_STATE'', ''complete'')]"
    "saved_as (map_of vs') pre (r\<lparr>dr_state := Complete\<rparr>)"
proof -
  have "updates_ok [(pre @ ''_ACCOUNT_STATE'', ''complete'')]"
    using disposable_prefix_ok [OF assms(2)] state_plain
    by (intro record_updates_ok [of pre]) (auto simp: record_names_def RECORD_ENDINGS_def)
  then obtain t' vs' where t': "update_credential_file [(pre @ ''_ACCOUNT_STATE'', ''complete'')] t = (Inr (), t')" "settled t' vs'"
    "map_of vs' = map_of vs ++ map_of [(pre @ ''_ACCOUNT_STATE'', ''complete'')]"
    using settled_update [OF assms(3)] by blast
  have "mark_disposable_credentials_complete config r t = (Inr (r\<lparr>dr_state := Complete\<rparr>), t')"
    using assms(1,2) settledD [OF assms(3)] require_saved_ok [OF assms(4)] t'(1)
    by (simp add: mark_disposable_credentials_complete_def bindS_def liftE_def)
  moreover have "saved_as (map_of vs') pre (r\<lparr>dr_state := Complete\<rparr>)"
    using saved_as_complete [OF assms(4)] by (simp add: t'(3))
  ultimately show ?thesis using t' that by blast
qed

text \<open>The loop over the variables raises exactly when another record holds the subject or the user id.\<close>

lemma bound_elsewhere_ok:
  assumes "distinct (map fst vs)"
  shows "foldE (bound_elsewhere_step (disposable_variable_names pre) subject user_id) () vs = Inr () \<longleftrightarrow>
    (\<forall>k v. map_of vs k = Some v \<longrightarrow> \<not> held_elsewhere ''_IDP_SUBJECT'' (pre @ ''_IDP_SUBJECT'') subject (k, v) \<and>
       \<not> held_elsewhere ''_USER_ID'' (pre @ ''_USER_ID'') user_id (k, v))"
proof -
  let ?ok = "\<lambda>p. \<not> held_elsewhere ''_IDP_SUBJECT'' (pre @ ''_IDP_SUBJECT'') subject p \<and>
     \<not> held_elsewhere ''_USER_ID'' (pre @ ''_USER_ID'') user_id p"
  have "foldE (bound_elsewhere_step (disposable_variable_names pre) subject user_id) () ps = Inr () \<longleftrightarrow> list_all ?ok ps" for ps
    by (induction ps) (auto simp: bound_elsewhere_step_def ok_iff split: if_splits)
  moreover have "list_all ?ok vs \<longleftrightarrow> \<not> list_ex (\<lambda>p. \<not> ?ok p) vs" by (simp add: list_all_iff list_ex_iff)
  ultimately show ?thesis by (simp only: list_ex_dict [OF assms]) blast
qed

lemma bound_elsewhere_cong:
  assumes "distinct (map fst vs)" "distinct (map fst ws)" "map_of vs = map_of ws"
    and "foldE (bound_elsewhere_step (disposable_variable_names pre) subject user_id) () ws = Inr ()"
  shows "foldE (bound_elsewhere_step (disposable_variable_names pre) subject user_id) () vs = Inr ()"
  using assms(4) unfolding bound_elsewhere_ok [OF assms(1)] bound_elsewhere_ok [OF assms(2)] assms(3) .

abbreviation "identity_values pre subject user_id \<equiv> [(pre @ ''_IDP_SUBJECT'', subject), (pre @ ''_USER_ID'', user_id)]"

lemma identity_values_keys: "fst ` set (identity_values pre subject user_id) \<subseteq> set (record_names pre)"
  by (auto simp: record_names_def RECORD_ENDINGS_def)

lemma bind_disposable:
  assumes "ensure_exact_local_target config = Inr ()" "disposable_variable_prefix (dr_run_id r) (dr_scenario_id r) = Inr pre"
    and "settled t vs" "saved_as (map_of vs) pre r" "dr_state r = Complete" "dr_subject r = None"
    and "plain_value subject" "plain_value user_id" "subject \<noteq> []" "user_id \<noteq> []"
    and "subject \<notin> set subjects" "user_id \<notin> set user_ids"
    and "foldE (bound_elsewhere_step (disposable_variable_names pre) subject user_id) () vs = Inr ()"
  obtains t' vs' where
    "bind_disposable_identity config r (dr_run_id r) (dr_scenario_id r) subject user_id subjects user_ids t =
      (Inr (r\<lparr>dr_state := Complete, dr_subject := Some subject, dr_user_id := Some user_id\<rparr>), t')"
    "settled t' vs'" "map_of vs' = map_of vs ++ map_of (identity_values pre subject user_id)"
    "saved_as (map_of vs') pre (r\<lparr>dr_state := Complete, dr_subject := Some subject, dr_user_id := Some user_id\<rparr>)"
proof -
  have "updates_ok (identity_values pre subject user_id)"
    using disposable_prefix_ok [OF assms(2)] assms(7,8) by (intro record_updates_ok [OF _ identity_values_keys]) auto
  then obtain t' vs' where t': "update_credential_file (identity_values pre subject user_id) t = (Inr (), t')" "settled t' vs'"
    "map_of vs' = map_of vs ++ map_of (identity_values pre subject user_id)"
    using settled_update [OF assms(3)] by blast
  have "dr_user_id r = None" using assms(4,6) by (auto simp: saved_as_def)
  then have "bind_disposable_identity config r (dr_run_id r) (dr_scenario_id r) subject user_id subjects user_ids t =
      (Inr (r\<lparr>dr_state := Complete, dr_subject := Some subject, dr_user_id := Some user_id\<rparr>), t')"
    using assms settledD [OF assms(3)] require_saved_ok [OF assms(4)] t'(1)
    by (simp add: bind_disposable_identity_def require_current_disposable_provenance_def bindS_def liftE_def Let_def)
  moreover have "saved_as (map_of vs') pre (r\<lparr>dr_state := Complete, dr_subject := Some subject, dr_user_id := Some user_id\<rparr>)"
    using saved_as_bound [OF assms(4,5,7-10)] by (simp add: t'(3))
  ultimately show ?thesis using t' that by blast
qed

lemma bind_disposableD:
  assumes "bind_disposable_identity config r run_id scenario_id subject user_id subjects user_ids s = (Inr r', t')"
    and "readable s vs"
  obtains pre t where "ensure_exact_local_target config = Inr ()" "dr_run_id r = run_id" "dr_scenario_id r = scenario_id"
    "dr_state r = Complete" "subject \<noteq> []" "user_id \<noteq> []" "subject \<notin> set subjects" "user_id \<notin> set user_ids"
    "disposable_variable_prefix (dr_run_id r) (dr_scenario_id r) = Inr pre" "settled t vs"
    "foldE (bound_elsewhere_step (disposable_variable_names pre) subject user_id) () vs = Inr ()"
    "update_credential_file [(pre @ ''_IDP_SUBJECT'', subject), (pre @ ''_USER_ID'', user_id)] t = (Inr (), t')"
    "r' = r\<lparr>dr_state := Complete, dr_subject := Some subject, dr_user_id := Some user_id\<rparr>"
proof -
  obtain t where rd: "read_credential_file s = (Inr vs, t)" and t: "settled t vs" using readableE [OF assms(2)] by blast
  show ?thesis
    using assms(1) t rd
    by (auto simp: bind_disposable_identity_def require_current_disposable_provenance_def ok_iff Let_def
        split: if_splits intro!: that)
qed

section \<open>Nothing but the exact local target\<close>

text \<open>
  C26. Against any target other than the exact local one every operation on credentials raises the target
  error and does nothing else: the file, its permissions included, is as it was.
\<close>

theorem other_targets_touch_nothing:
  assumes "env_name config \<noteq> ''local'' \<or> environment_type_of config \<noteq> Local \<or>
    origin config \<noteq> ''https://app.budgetanalyzer.localhost''"
  shows "load_or_create_local_credentials config role environ g s = (Inl NotExactLocalTarget, s) \<and>
    mark_local_credentials_complete config role c s = (Inl NotExactLocalTarget, s) \<and>
    load_or_create_disposable_credentials config run_id scenario_id environ g s = (Inl NotExactLocalTarget, s) \<and>
    mark_disposable_credentials_complete config r s = (Inl NotExactLocalTarget, s) \<and>
    bind_disposable_identity config r run_id scenario_id subject user_id subjects user_ids s =
      (Inl NotExactLocalTarget, s)"
proof -
  have "ensure_exact_local_target config = Inl NotExactLocalTarget"
    unfolding ensure_exact_local_target_def LOCAL_ENVIRONMENT_NAME_def LOCAL_ORIGIN_def using assms by (simp only: if_True)
  then show ?thesis
    by (simp add: load_or_create_local_credentials_def mark_local_credentials_complete_def
        load_or_create_disposable_credentials_def mark_disposable_credentials_complete_def
        bind_disposable_identity_def)
qed

lemma other_targets_touch_nothing_witness:
  "load_or_create_local_credentials local_example Admin nothing_set first_account sample_file = (Inl NotExactLocalTarget, sample_file)"
proof -
  have "env_name local_example \<noteq> ''local'' \<or> environment_type_of local_example \<noteq> Local \<or>
    origin local_example \<noteq> ''https://app.budgetanalyzer.localhost''" by code_simp
  from other_targets_touch_nothing [OF this] show ?thesis by blast
qed

section \<open>One execution, one account, one identity\<close>

text \<open>
  Two executions never share a disposable account: when two loads of different runs or scenarios
  succeed one after the other, even where their ids are folded into the same record name, the usernames
  differ.
\<close>

theorem executions_never_share_an_account:
  assumes "slots_outside_records config" "credentials_ok g" "credentials_ok g'"
    and "list_all plain_value [run_id, scenario_id, run_id', scenario_id']" "readable s vs"
    and "(run_id', scenario_id') \<noteq> (run_id, scenario_id)"
    and "load_or_create_disposable_credentials config run_id scenario_id environ g s = (Inr r, t)"
    and "load_or_create_disposable_credentials config run_id' scenario_id' environ g' t = (Inr r', t')"
  shows "username (dr_credentials r') \<noteq> username (dr_credentials r)"
proof -
  obtain pre where pre: "disposable_variable_prefix run_id scenario_id = Inr pre"
    using exact_local_first_disposable [OF assms(7)] by blast
  obtain pre' where pre': "disposable_variable_prefix run_id' scenario_id' = Inr pre'"
    using exact_local_first_disposable [OF assms(8)] by blast
  have plain: "plain_value run_id" "plain_value scenario_id" "plain_value run_id'" "plain_value scenario_id'"
    using assms(4) by simp_all
  obtain vs1 where vs1: "settled t vs1" "saved_as (map_of vs1) pre r" "dr_run_id r = run_id" "dr_scenario_id r = scenario_id"
    using load_disposable_leaves [OF assms(1,2) plain(1,2) assms(5,7) pre] by metis
  obtain vs2 where vs2: "settled t' vs2" "saved_as (map_of vs2) pre' r'" "dr_run_id r' = run_id'" "dr_scenario_id r' = scenario_id'"
    "ensure_disposable_username_is_distinct config (username (dr_credentials r')) environ pre' vs2 = Inr ()"
    "\<forall>n. n \<notin> set (record_names pre') \<longrightarrow> map_of vs2 n = map_of vs1 n"
    using load_disposable_leaves [OF assms(1,3) plain(3,4) settled_readable [OF vs1(1)] assms(8) pre'] by metis
  show ?thesis
  proof (cases "pre' = pre")
    case True
    have "list_ex (\<lambda>n. get_stripped (map_of vs1) n \<noteq> []) (record_names pre)"
      using vs1(2) by (simp add: record_names_def RECORD_ENDINGS_def saved_as_def)
    then have "stored_disposable_record config run_id' scenario_id' environ pre vs1 (disposable_variable_names pre) = Inr r'"
      using assms(8) exact_local_first_disposable [OF assms(8)]
        load_disposable_eq [OF _ pre' [unfolded True] settledD [OF vs1(1)]] by (metis Pair_inject)
    then have "saved_as (map_of vs1) pre r'" unfolding stored_disposable_ok by blast
    then have "dr_run_id r' = run_id \<and> dr_scenario_id r' = scenario_id"
      using vs1(2-4) by (auto simp: saved_as_def)
    then show ?thesis using assms(6) vs2(3,4) by simp
  next
    case False
    let ?own = "pre @ ''_USERNAME''"
    have "?own \<notin> set (record_names pre')"
      using own_ending [of ?own pre' "''_USERNAME''"] False by auto
    then have same: "map_of vs2 ?own = map_of vs1 ?own" using vs2(6) by blast
    obtain v where v: "map_of vs1 ?own = Some v" "strip v = username (dr_credentials r)"
      using vs1(2) by (cases "map_of vs1 ?own") (auto simp: saved_as_def get_stripped_def)
    have "startswith ?own DISPOSABLE_RECORD_PREFIX"
      using disposable_prefix_ok [OF pre] by (auto simp: prefix_def)
    then have "held_elsewhere ''_USERNAME'' (pre' @ ''_USERNAME'') (username (dr_credentials r)) (?own, v)"
      using v(2) False by (simp add: held_elsewhere_def suffix_def)
    then show ?thesis
      using vs2(5) same v(1) unfolding disposable_distinct_ok [OF settled_distinct [OF vs2(1)]] by metis
  qed
qed

text \<open>
  C24. An execution goes through: from the record a load returned for a free identity, completing the
  signup and binding the identity succeed, every later load of the execution returns the bound record
  unchanged, and the execution is recognised as the owner of the identity.
\<close>

theorem execution_owns_what_it_bound:
  assumes "slots_outside_records config" "credentials_ok g" "readable s vs"
    and "list_all plain_value [run_id, scenario_id, subject, user_id]" "subject \<noteq> []" "user_id \<noteq> []"
    and load: "load_or_create_disposable_credentials config run_id scenario_id environ g s = (Inr r, t)"
    and free: "dr_subject r = None" "list_all (\<lambda>p. strip (snd p) \<noteq> subject \<and> strip (snd p) \<noteq> user_id) vs"
    and "subject \<notin> set subjects" "user_id \<notin> set user_ids"
  shows "\<exists>t1 t2 b. mark_disposable_credentials_complete config r t = (Inr (r\<lparr>dr_state := Complete\<rparr>), t1) \<and>
    bind_disposable_identity config (r\<lparr>dr_state := Complete\<rparr>) run_id scenario_id subject user_id subjects user_ids t1 = (Inr b, t2) \<and>
    b = r\<lparr>dr_state := Complete, dr_subject := Some subject, dr_user_id := Some user_id\<rparr> \<and>
    load_or_create_disposable_credentials config run_id scenario_id environ g' t2 = (Inr b, t2) \<and>
    require_owned_disposable_identity b run_id scenario_id subject user_id subjects user_ids = Inr ()"
proof -
  obtain pre where exact: "ensure_exact_local_target config = Inr ()" and pre: "disposable_variable_prefix run_id scenario_id = Inr pre"
    using exact_local_first_disposable [OF load] by blast
  note pre_ok = disposable_prefix_ok [OF pre]
  have plain: "plain_value run_id" "plain_value scenario_id" "plain_value subject" "plain_value user_id"
    using assms(4) by simp_all
  obtain vs1 where vs1: "settled t vs1" "saved_as (map_of vs1) pre r" "dr_run_id r = run_id" "dr_scenario_id r = scenario_id"
    "ensure_disposable_username_is_distinct config (username (dr_credentials r)) environ pre vs1 = Inr ()"
    "\<And>n. n \<notin> set (record_names pre) \<Longrightarrow> map_of vs1 n = map_of vs n"
    using load_disposable_leaves [OF assms(1,2) plain(1,2) assms(3) load pre] by metis
  let ?c = "r\<lparr>dr_state := Complete\<rparr>" and ?b = "r\<lparr>dr_state := Complete, dr_subject := Some subject, dr_user_id := Some user_id\<rparr>"
  let ?state = "[(pre @ ''_ACCOUNT_STATE'', ''complete'')]"
  have key: "fst ` set ?state \<subseteq> set (record_names pre)" by (simp add: record_names_def RECORD_ENDINGS_def)
  obtain t1 vs2 where t1: "mark_disposable_credentials_complete config r t = (Inr ?c, t1)" "settled t1 vs2"
    "map_of vs2 = map_of vs1 ++ map_of ?state" "saved_as (map_of vs2) pre ?c"
    using mark_disposable [OF exact pre [folded vs1(3,4)] vs1(1,2)] by blast
  have outside: "map_of vs2 n = map_of vs n" if "n \<notin> set (record_names pre)" for n
    using unchanged_outside [OF t1(3) key that] vs1(6) [OF that] by simp
  have unbound: "foldE (bound_elsewhere_step (disposable_variable_names pre) subject user_id) () vs2 = Inr ()"
    unfolding bound_elsewhere_ok [OF settled_distinct [OF t1(2)]]
  proof (intro allI impI conjI notI)
    fix k v assume k: "map_of vs2 k = Some v"
    have foreign: "strip v \<noteq> subject \<and> strip v \<noteq> user_id" if "k \<notin> set (record_names pre)"
      using free(2) map_of_SomeD [of vs k v] outside [OF that] k by (auto simp: list_all_iff)
    { assume "held_elsewhere ''_IDP_SUBJECT'' (pre @ ''_IDP_SUBJECT'') subject (k, v)"
      then show False using own_ending [of k pre "''_IDP_SUBJECT''"] foreign by (auto simp: held_elsewhere_def) }
    { assume "held_elsewhere ''_USER_ID'' (pre @ ''_USER_ID'') user_id (k, v)"
      then show False using own_ending [of k pre "''_USER_ID''"] foreign by (auto simp: held_elsewhere_def) }
  qed
  obtain t2 vs3 where t2: "bind_disposable_identity config ?c run_id scenario_id subject user_id subjects user_ids t1 = (Inr ?b, t2)"
    "settled t2 vs3" "map_of vs3 = map_of vs2 ++ map_of (identity_values pre subject user_id)" "saved_as (map_of vs3) pre ?b"
    using bind_disposable [OF exact _ t1(2,4) _ _ plain(3,4) assms(5,6,10,11) unbound] pre vs1(3,4) free(1) by auto
  have "ensure_disposable_username_is_distinct config (username (dr_credentials ?b)) environ pre vs3 = Inr ()"
    using disposable_distinct_after [OF assms(1) _ settled_distinct [OF t1(2)] settled_distinct [OF t2(2)] t2(3) identity_values_keys]
      disposable_distinct_after [OF assms(1) _ settled_distinct [OF vs1(1)] settled_distinct [OF t1(2)] t1(3) key vs1(5)]
      pre_ok by simp
  then have "load_or_create_disposable_credentials config run_id scenario_id environ g' t2 = (Inr ?b, t2)"
    using load_disposable_again [of config ?b pre t2 vs3 environ g'] exact pre t2(2,4) vs1(3,4) by simp
  moreover have "require_owned_disposable_identity ?b run_id scenario_id subject user_id subjects user_ids = Inr ()"
    using vs1(3,4) assms(10,11) by (simp add: require_owned_disposable_identity_def require_current_disposable_provenance_def)
  ultimately show ?thesis using t1(1) t2(1) by blast
qed


section \<open>Witnesses\<close>

definition record_lines :: "string \<Rightarrow> string \<Rightarrow> vars" where
  "record_lines pre run = [(pre @ ''_RUN_ID'', run), (pre @ ''_SCENARIO_ID'', ''d''), (pre @ ''_USERNAME'', run),
     (pre @ ''_PASSWORD'', ''p''), (pre @ ''_ACCOUNT_STATE'', ''complete'')]"

definition small_target :: "string \<Rightarrow> disposable_record" where
  "small_target run = \<lparr>dr_run_id = run, dr_scenario_id = ''d'', dr_credentials = \<lparr>username = run, password = ''p''\<rparr>,
     dr_state = Complete, dr_subject = None, dr_user_id = None\<rparr>"

abbreviation "pre_a \<equiv> ''BA_ADMIN_DEACTIVATION_A_D''"
abbreviation "pre_b \<equiv> ''BA_ADMIN_DEACTIVATION_B_D''"
abbreviation "two_records \<equiv> record_lines pre_a ''a'' @ record_lines pre_b ''b''"

definition two_targets :: node where
  "two_targets = RegularFile (update_content two_records []) OWNER_READ_WRITE"

lemma settled_two_targets: "settled two_targets two_records"
proof -
  have "updates_ok two_records" by code_simp
  from updates_from_nothing [OF this] show ?thesis
    by (simp add: settled_def two_targets_def sound_node_def lf_only_plain read_written)
qed

lemma small_target_loads:
  "load_or_create_disposable_credentials sample_config ''a'' ''d'' nothing_set g two_targets = (Inr (small_target ''a''), two_targets)"
  "load_or_create_disposable_credentials sample_config ''b'' ''d'' nothing_set g two_targets = (Inr (small_target ''b''), two_targets)"
proof -
  have exact: "ensure_exact_local_target sample_config = Inr ()" by code_simp
  have run: "dr_run_id (small_target r) = r" "dr_scenario_id (small_target r) = ''d''"
    "username (dr_credentials (small_target r)) = r" for r by (simp_all add: small_target_def)
  have pre: "disposable_variable_prefix ''a'' ''d'' = Inr pre_a" "disposable_variable_prefix ''b'' ''d'' = Inr pre_b" by code_simp+
  have saved: "saved_as (map_of two_records) pre_a (small_target ''a'')" "saved_as (map_of two_records) pre_b (small_target ''b'')"
    by code_simp+
  have apart: "ensure_disposable_username_is_distinct sample_config ''a'' nothing_set pre_a two_records = Inr ()"
    "ensure_disposable_username_is_distinct sample_config ''b'' nothing_set pre_b two_records = Inr ()"
    by code_simp+
  show "load_or_create_disposable_credentials sample_config ''a'' ''d'' nothing_set g two_targets = (Inr (small_target ''a''), two_targets)"
    using load_disposable_again [OF exact _ settled_two_targets saved(1)] pre(1) apart(1) by (simp only: run)
  show "load_or_create_disposable_credentials sample_config ''b'' ''d'' nothing_set g two_targets = (Inr (small_target ''b''), two_targets)"
    using load_disposable_again [OF exact _ settled_two_targets saved(2)] pre(2) apart(2) by (simp only: run)
qed

lemma sample_slots_outside: "slots_outside_records sample_config"
  by code_simp

lemma executions_never_share_an_account_witness:
  "username (dr_credentials (small_target ''b'')) \<noteq> username (dr_credentials (small_target ''a''))"
proof -
  have "list_all plain_value [''a'', ''d'', ''b'', ''d'']" by code_simp
  then show ?thesis
    using executions_never_share_an_account [OF sample_slots_outside samples_ok(2,3) _
        settled_readable [OF settled_two_targets] _ small_target_loads] by simp
qed

lemma execution_owns_what_it_bound_witness:
  "\<exists>t b. load_or_create_disposable_credentials sample_config ''a'' ''d'' nothing_set second_account t = (Inr b, t) \<and>
    dr_subject b = Some ''idp|7'' \<and> require_owned_disposable_identity b ''a'' ''d'' ''idp|7'' ''usr_7'' [''idp|1''] [] = Inr ()"
proof -
  have "list_all plain_value [''a'', ''d'', ''idp|7'', ''usr_7'']" by code_simp
  moreover have "list_all (\<lambda>p. strip (snd p) \<noteq> ''idp|7'' \<and> strip (snd p) \<noteq> ''usr_7'') two_records" by code_simp
  moreover have "dr_subject (small_target ''a'') = None" by (simp add: small_target_def)
  ultimately obtain t1 t2 b where
    "b = (small_target ''a'')\<lparr>dr_state := Complete, dr_subject := Some ''idp|7'', dr_user_id := Some ''usr_7''\<rparr>"
    "load_or_create_disposable_credentials sample_config ''a'' ''d'' nothing_set second_account t2 = (Inr b, t2)"
    "require_owned_disposable_identity b ''a'' ''d'' ''idp|7'' ''usr_7'' [''idp|1''] [] = Inr ()"
    using execution_owns_what_it_bound [OF sample_slots_outside samples_ok(2) settled_readable [OF settled_two_targets] _ _ _
        small_target_loads(1), of "''idp|7''" "''usr_7''" "[''idp|1'']" "[]" second_account] by auto
  moreover from this(1) have "dr_subject b = Some ''idp|7''" by simp
  ultimately show ?thesis by blast
qed


end
