(* ===== verification/Auth.thy ===== *)
theory Auth
  imports Disposable_Credentials
begin

text \<open>
  \<open>src/api_tests/session.py\<close> and \<open>src/api_tests/auth.py\<close>: how a session is acquired for a role.  The
  state is the credential file together with the world that the browser changes (\<open>'w\<close>): accounts at the
  identity provider, cookies, processes.  Logging in and signing up drive a browser; they are the
  arguments \<open>login\<close>, \<open>login_with_browser\<close> and \<open>signup\<close>, which change the world, may raise, and return a
  session.  The promotion message is not modelled.
\<close>

record session =
  cookie_name :: string
  cookie_value :: string

definition ensure_distinct_sessions :: "session \<Rightarrow> session \<Rightarrow> bool" where
  "ensure_distinct_sessions primary secondary \<longleftrightarrow>
     \<not> (cookie_name primary = cookie_name secondary \<and> cookie_value primary = cookie_value secondary)"

datatype 'b browser_error = AccountExists | BrowserFailure 'b

datatype 'b auth_error =
    BrowserError "'b browser_error"
  | LocalCredentials credential_error
  | ProductionAcquisition
  | BrowserNotConfigured
  | MissingSecret string
  | MissingSecondarySession
  | MissingAdminSession
  | NotBrowserMode
  | NotPermitted
  | NotProvisioned

type_synonym ('w, 'b, 'a) auth_io = "(node \<times> 'w, 'b auth_error, 'a) io"
type_synonym ('w, 'b) browser_action = "environment_config \<Rightarrow> credentials \<Rightarrow> ('w, 'b browser_error, session) io"

text \<open>An operation on the file, whose errors are converted, and an action of the browser.\<close>

definition on_file :: "'a credential_io \<Rightarrow> ('w, 'b, 'a) auth_io" where
  "on_file m s = (case m (fst s) of
     (Inl e, file) \<Rightarrow> (Inl (LocalCredentials e), (file, snd s)) | (Inr x, file) \<Rightarrow> (Inr x, (file, snd s)))"

definition on_world :: "('w, 'b browser_error, 'a) io \<Rightarrow> ('w, 'b, 'a) auth_io" where
  "on_world m s = (case m (snd s) of
     (Inl e, w) \<Rightarrow> (Inl (BrowserError e), (fst s, w)) | (Inr x, w) \<Rightarrow> (Inr x, (fst s, w)))"

text \<open>\<open>except BrowserAccountExistsError\<close>\<close>

definition or_else_exists :: "('w, 'b, 'a) auth_io \<Rightarrow> ('w, 'b, 'a) auth_io \<Rightarrow> ('w, 'b, 'a) auth_io" where
  "or_else_exists m handler s = (case m s of
     (Inl (BrowserError AccountExists), t) \<Rightarrow> handler t | r \<Rightarrow> r)"

definition browser_variable_names ::
  "environment_config \<Rightarrow> session_role \<Rightarrow> 'b auth_error + (string \<times> string)" where
  "browser_variable_names config role =
     (case browser (auth config) of
        None \<Rightarrow> Inl BrowserNotConfigured
      | Some b \<Rightarrow> Inr (case role of
            Primary \<Rightarrow> (primary_username_env b, primary_password_env b)
          | Secondary \<Rightarrow> (secondary_username_env b, secondary_password_env b)
          | Admin \<Rightarrow> (admin_username_env b, admin_password_env b)))"

definition required_secret :: "lookup \<Rightarrow> string \<Rightarrow> 'b auth_error + string" where
  "required_secret source name =
     (if get_stripped source name = [] then Inl (MissingSecret name) else Inr (get_stripped source name))"

text \<open>The return paths a login may end on: the administrator may also end on the administration page.\<close>

definition expected_return_paths :: "environment_config \<Rightarrow> session_role \<Rightarrow> string list" where
  "expected_return_paths config role =
     default_return_path (browser_contract config) #
       (if role = Admin then [admin_return_path (browser_contract config)] else [])"

record ('w, 'b) browser_functions =
  login :: "('w, 'b) browser_action option"
  login_with_browser :: "environment_config \<Rightarrow> credentials \<Rightarrow> string list \<Rightarrow> ('w, 'b browser_error, session) io"
  signup :: "('w, 'b) browser_action"

definition login_browser_account ::
  "('w, 'b) browser_functions \<Rightarrow> environment_config \<Rightarrow> session_role \<Rightarrow> credentials \<Rightarrow> ('w, 'b, session) auth_io" where
  "login_browser_account fs config role creds =
     on_world (case login fs of
        Some f \<Rightarrow> f config creds
      | None \<Rightarrow> login_with_browser fs config creds (expected_return_paths config role))"

section \<open>Acquiring a session\<close>

definition preprovisioned_credentials ::
  "environment_config \<Rightarrow> session_role \<Rightarrow> lookup \<Rightarrow> 'b auth_error + credentials" where
  "preprovisioned_credentials config role source =
     bindE (browser_variable_names config role) (\<lambda>(user_env, pass_env).
     bindE (required_secret source user_env) (\<lambda>user.
     bindE (required_secret source pass_env) (\<lambda>pass.
     Inr \<lparr>username = user, password = pass\<rparr>)))"

definition use_local_record ::
  "('w, 'b) browser_functions \<Rightarrow> environment_config \<Rightarrow> session_role \<Rightarrow> local_record \<Rightarrow> ('w, 'b, session) auth_io" where
  "use_local_record fs config role r =
     (if lr_state r \<noteq> Pending then login_browser_account fs config role (lr_credentials r)
      else
        bindS (or_else_exists (on_world (signup fs config (lr_credentials r)))
                 (login_browser_account fs config role (lr_credentials r))) (\<lambda>sess.
        bindS (on_file (mark_local_credentials_complete config role (lr_credentials r))) (\<lambda>_.
        liftE (Inr sess))))"

definition acquire_local_session ::
  "('w, 'b) browser_functions \<Rightarrow> environment_config \<Rightarrow> session_role \<Rightarrow> lookup \<Rightarrow> credentials \<Rightarrow> ('w, 'b, session) auth_io" where
  "acquire_local_session fs config role source generated =
     bindS (on_file (load_or_create_local_credentials config role source generated)) (use_local_record fs config role)"

definition acquire_browser_session ::
  "('w, 'b) browser_functions \<Rightarrow> environment_config \<Rightarrow> session_role \<Rightarrow> lookup \<Rightarrow> credentials \<Rightarrow> ('w, 'b, session) auth_io" where
  "acquire_browser_session fs config role source generated =
     (if environment_type_of config = Production then liftE (Inl ProductionAcquisition)
      else if browser (auth config) = None then liftE (Inl BrowserNotConfigured)
      else if environment_type_of config = Local then acquire_local_session fs config role source generated
      else bindS (liftE (preprovisioned_credentials config role source)) (\<lambda>creds.
             login_browser_account fs config role creds))"

definition load_supplied_session ::
  "environment_config \<Rightarrow> session_role \<Rightarrow> lookup \<Rightarrow> 'b auth_error + session" where
  "load_supplied_session config role source =
     (let supplied = supplied_sessions (auth config);
          env_var = (case role of Primary \<Rightarrow> Some (primary_session_env supplied)
                       | Secondary \<Rightarrow> secondary_session_env supplied | Admin \<Rightarrow> admin_session_env supplied)
      in bindE (requireE env_var (if role = Secondary then MissingSecondarySession else MissingAdminSession)) (\<lambda>name.
         bindE (required_secret source name) (\<lambda>cookie.
         Inr \<lparr>cookie_name = session_cookie_name config, cookie_value = cookie\<rparr>)))"

definition acquire_session ::
  "('w, 'b) browser_functions \<Rightarrow> environment_config \<Rightarrow> session_role \<Rightarrow> lookup \<Rightarrow> credentials \<Rightarrow> ('w, 'b, session) auth_io" where
  "acquire_session fs config role source generated =
     (case auth_mode_of (auth config) of
        BrowserPreprovisioned \<Rightarrow> acquire_browser_session fs config role source generated
      | SuppliedSessions \<Rightarrow> liftE (load_supplied_session config role source))"

definition load_existing_browser_credentials ::
  "environment_config \<Rightarrow> session_role \<Rightarrow> lookup \<Rightarrow> credentials \<Rightarrow> ('w, 'b, credentials) auth_io" where
  "load_existing_browser_credentials config role source generated =
     (if auth_mode_of (auth config) \<noteq> BrowserPreprovisioned then liftE (Inl NotBrowserMode)
      else if environment_type_of config = Production then liftE (Inl ProductionAcquisition)
      else if browser (auth config) = None then liftE (Inl BrowserNotConfigured)
      else if environment_type_of config = Local then
        bindS (on_file (load_or_create_local_credentials config role source generated)) (\<lambda>r.
          if lr_state r = Pending then liftE (Inl NotProvisioned) else liftE (Inr (lr_credentials r)))
      else liftE (preprovisioned_credentials config role source))"

section \<open>The disposable target\<close>

record provisioned_target =
  pt_record :: disposable_record
  pt_session :: session

definition acquire_disposable_browser_target ::
  "('w, 'b) browser_functions \<Rightarrow> environment_config \<Rightarrow> string \<Rightarrow> string \<Rightarrow> lookup \<Rightarrow> credentials \<Rightarrow>
     ('w, 'b, provisioned_target) auth_io" where
  "acquire_disposable_browser_target fs config run_id scenario_id environ generated =
     (if auth_mode_of (auth config) \<noteq> BrowserPreprovisioned then liftE (Inl NotBrowserMode)
      else if \<not> allow_mutation config \<or> \<not> allow_destructive config then liftE (Inl NotPermitted)
      else
     bindS (on_file (load_or_create_disposable_credentials config run_id scenario_id environ generated)) (\<lambda>r.
       if dr_state r = Complete then
         bindS (login_browser_account fs config Primary (dr_credentials r)) (\<lambda>sess.
         liftE (Inr \<lparr>pt_record = r, pt_session = sess\<rparr>))
       else
         bindS (or_else_exists (on_world (signup fs config (dr_credentials r)))
                  (login_browser_account fs config Primary (dr_credentials r))) (\<lambda>sess.
         bindS (on_file (mark_disposable_credentials_complete config r)) (\<lambda>completed.
         liftE (Inr \<lparr>pt_record = completed, pt_session = sess\<rparr>)))))"

section \<open>What an action leaves of the file\<close>

lemma on_file_ok [ok_iff]: "on_file m s = (Inr x, t) \<longleftrightarrow> m (fst s) = (Inr x, fst t) \<and> snd t = snd s"
  by (auto simp: on_file_def prod_eq_iff split: prod.splits sum.splits)

lemma on_world_file: "on_world m s = (r, t) \<Longrightarrow> fst t = fst s"
  by (auto simp: on_world_def split: prod.splits sum.splits)

lemma login_file: "login_browser_account fs config role creds s = (r, t) \<Longrightarrow> fst t = fst s"
  unfolding login_browser_account_def by (rule on_world_file)

lemma or_else_exists_cases:
  "or_else_exists m h s = m s \<or> (\<exists>e t. m s = (Inl e, t) \<and> or_else_exists m h s = h t)"
  by (auto simp: or_else_exists_def split: prod.splits sum.splits auth_error.splits browser_error.splits)

lemma signup_file:
  assumes "or_else_exists (on_world (signup fs config creds)) (login_browser_account fs config role creds) s = (r, t)"
  shows "fst t = fst s"
  using or_else_exists_cases [of "on_world (signup fs config creds)" "login_browser_account fs config role creds" s]
proof (elim disjE exE conjE)
  assume "or_else_exists (on_world (signup fs config creds)) (login_browser_account fs config role creds) s =
    on_world (signup fs config creds) s"
  then show ?thesis using assms on_world_file by metis
next
  fix e u assume u: "on_world (signup fs config creds) s = (Inl e, u)"
    and "or_else_exists (on_world (signup fs config creds)) (login_browser_account fs config role creds) s =
      login_browser_account fs config role creds u"
  then show ?thesis using assms on_world_file [OF u] login_file by metis
qed

lemma on_file_error: "on_file m s = (Inl e, t) \<Longrightarrow> \<exists>c. e = LocalCredentials c"
  by (auto simp: on_file_def split: prod.splits sum.splits)

lemma use_local_record_failed:
  assumes "use_local_record fs config role r s = (Inl (BrowserError e), t)"
  shows "fst t = fst s"
proof (cases "lr_state r = Pending")
  case True
  then have "or_else_exists (on_world (signup fs config (lr_credentials r)))
      (login_browser_account fs config role (lr_credentials r)) s = (Inl (BrowserError e), t)"
    using assms by (auto simp: use_local_record_def bindS_err liftE_def dest: on_file_error)
  then show ?thesis by (rule signup_file)
next
  case False
  then show ?thesis using assms login_file [of fs config role "lr_credentials r" s] by (simp add: use_local_record_def)
qed

lemma use_local_record_ok:
  assumes "use_local_record fs config role r s = (Inr sess, t)"
  shows "lr_state r \<noteq> Pending \<and> fst t = fst s \<or>
    lr_state r = Pending \<and> mark_local_credentials_complete config role (lr_credentials r) (fst s) = (Inr (), fst t)"
proof (cases "lr_state r = Pending")
  case True
  then obtain v where v: "or_else_exists (on_world (signup fs config (lr_credentials r)))
      (login_browser_account fs config role (lr_credentials r)) s = (Inr sess, v)"
    "mark_local_credentials_complete config role (lr_credentials r) (fst v) = (Inr (), fst t)"
    using assms by (auto simp: use_local_record_def ok_iff)
  then show ?thesis using signup_file [OF v(1)] True by simp
next
  case False
  then show ?thesis using assms login_file [of fs config role "lr_credentials r" s] by (simp add: use_local_record_def)
qed

lemma acquire_browser_local:
  assumes "environment_type_of config = Local" "browser (auth config) \<noteq> None"
  shows "acquire_browser_session fs config role source g = acquire_local_session fs config role source g"
  using assms by (intro ext) (auto simp: acquire_browser_session_def)

text \<open>An acquisition that gets past the file uses the record that was loaded.\<close>

lemma acquire_local_cases:
  assumes "acquire_local_session fs config role source g s = (res, t)" "\<And>e. res \<noteq> Inl (LocalCredentials e)"
  obtains r f where "load_or_create_local_credentials config role source g (fst s) = (Inr r, f)"
    "use_local_record fs config role r (f, snd s) = (res, t)"
  using assms by (auto simp: acquire_local_session_def bindS_def on_file_def split: prod.splits sum.splits)

lemma login_other_signup:
  "login_browser_account (fs\<lparr>signup := f\<rparr>) config role creds = login_browser_account fs config role creds"
  by (simp add: login_browser_account_def split: option.split)

section \<open>Accounts survive the browser\<close>

text \<open>
  C30. Credentials are persisted before they are used: when the login or the signup of a local account
  fails, whatever the browser did, the file already holds the account that was tried, and the next
  acquisition loads exactly that account, never another generated one.
\<close>

theorem failed_signup_keeps_the_account:
  assumes "names_ok config" "credentials_ok g" "readable (fst s) vs"
    and "environment_type_of config = Local" "browser (auth config) \<noteq> None"
    and "acquire_browser_session fs config role source g s = (Inl (BrowserError e), t)"
  shows "\<exists>r. load_or_create_local_credentials config role source g (fst s) = (Inr r, fst t) \<and>
    load_or_create_local_credentials config role source g' (fst t) = (Inr r, fst t)"
proof -
  have acq: "acquire_local_session fs config role source g s = (Inl (BrowserError e), t)"
    using assms(6) unfolding acquire_browser_local [OF assms(4,5)] .
  obtain r f where load: "load_or_create_local_credentials config role source g (fst s) = (Inr r, f)"
    and r: "use_local_record fs config role r (f, snd s) = (Inl (BrowserError e), t)"
    using acquire_local_cases [OF acq] by blast
  then show ?thesis
    using local_load_stable [OF assms(1-3) load] use_local_record_failed [OF r] by auto
qed

text \<open>
  C31. An account is signed up at most once: after an acquisition that returned a session, every later
  acquisition of the role, with any generator and any signup function, is a plain login with the same
  credentials.
\<close>

theorem acquired_account_never_signs_up_again:
  assumes "names_ok config" "credentials_ok g" "readable (fst s) vs"
    and "environment_type_of config = Local" "browser (auth config) \<noteq> None"
    and "acquire_browser_session fs config role source g s = (Inr sess, t)"
  shows "\<exists>r u. load_or_create_local_credentials config role source g (fst s) = (Inr r, u) \<and>
    acquire_browser_session (fs\<lparr>signup := other_signup\<rparr>) config role source g' t =
      login_browser_account fs config role (lr_credentials r) t"
proof -
  have acq: "acquire_local_session fs config role source g s = (Inr sess, t)"
    using assms(6) unfolding acquire_browser_local [OF assms(4,5)] .
  obtain r f where load: "load_or_create_local_credentials config role source g (fst s) = (Inr r, f)"
    and r: "use_local_record fs config role r (f, snd s) = (Inr sess, t)"
    using acquire_local_cases [OF acq] by blast
  have "\<exists>r'. load_or_create_local_credentials config role source g' (fst t) = (Inr r', fst t) \<and>
    lr_credentials r' = lr_credentials r \<and> lr_state r' \<noteq> Pending"
  proof (cases "lr_state r = Pending")
    case True
    then have "load_or_create_local_credentials config role source g' (fst t) = (Inr (r\<lparr>lr_state := Complete\<rparr>), fst t)"
      using local_account_completes [OF assms(1-3) load, of g'] use_local_record_ok [OF r] by auto
    then show ?thesis by simp
  next
    case False
    then show ?thesis using local_load_stable [OF assms(1-3) load] use_local_record_ok [OF r] by auto
  qed
  then obtain r' where r': "load_or_create_local_credentials config role source g' (fst t) = (Inr r', fst t)"
    "lr_credentials r' = lr_credentials r" "lr_state r' \<noteq> Pending" by blast
  have "acquire_browser_session (fs\<lparr>signup := other_signup\<rparr>) config role source g' t =
      login_browser_account fs config role (lr_credentials r) t"
    using r'
    by (simp add: on_file_def acquire_browser_local [OF assms(4,5)] acquire_local_session_def use_local_record_def bindS_def
        login_other_signup)
  then show ?thesis using load by blast
qed

text \<open>
  In production no way of acquiring a session, credentials or a disposable target reads or writes the
  credential file or drives the browser.
\<close>

theorem production_acquires_nothing:
  assumes "environment_type_of config = Production"
  shows "snd (acquire_session fs config role source g s) = s \<and>
    snd (load_existing_browser_credentials config role source g s) = s \<and>
    snd (acquire_disposable_browser_target fs config run_id scenario_id source g s) = s"
proof -
  have "ensure_exact_local_target config = Inl NotExactLocalTarget"
    using assms by (simp add: ensure_exact_local_target_def)
  then have "snd (acquire_disposable_browser_target fs config run_id scenario_id source g s) = s"
    by (simp add: acquire_disposable_browser_target_def load_or_create_disposable_credentials_def on_file_def
        bindS_def liftE_def)
  moreover have "snd (acquire_session fs config role source g s) = s"
    using assms by (cases "auth_mode_of (auth config)") (simp_all add: acquire_session_def acquire_browser_session_def liftE_def)
  ultimately show ?thesis
    using assms by (simp add: load_existing_browser_credentials_def liftE_def)
qed

section \<open>Witnesses\<close>

text \<open>A browser that signs up and logs in, counting its actions, and one whose signup always fails.\<close>

definition counting_browser :: "(nat, unit) browser_functions" where
  "counting_browser = \<lparr>login = Some (\<lambda>config creds n. (Inr \<lparr>cookie_name = ''S'', cookie_value = username creds\<rparr>, n + 1)),
     login_with_browser = (\<lambda>config creds paths n. (Inl (BrowserFailure ()), n)),
     signup = (\<lambda>config creds n. (Inr \<lparr>cookie_name = ''S'', cookie_value = username creds\<rparr>, n + 1))\<rparr>"

definition failing_browser :: "(nat, unit) browser_functions" where
  "failing_browser = counting_browser\<lparr>signup := (\<lambda>config creds n. (Inl (BrowserFailure ()), n))\<rparr>"

lemma sample_local: "environment_type_of sample_config = Local" "browser (auth sample_config) \<noteq> None"
  by code_simp+

lemma failed_signup_keeps_the_account_witness:
  "acquire_browser_session failing_browser sample_config Primary nothing_set first_account (Absent, 0) =
     (Inl (BrowserError (BrowserFailure ())), (after_first, 0)) \<and>
   (\<exists>r. load_or_create_local_credentials sample_config Primary nothing_set second_account after_first = (Inr r, after_first) \<and>
     lr_credentials r = first_account)"
proof -
  have acq: "acquire_browser_session failing_browser sample_config Primary nothing_set first_account (Absent, 0) =
    (Inl (BrowserError (BrowserFailure ())), (after_first, 0))"
    using sample_loads(1)
    by (simp add: acquire_browser_local [OF sample_local] acquire_local_session_def use_local_record_def bindS_def on_file_def failing_browser_def
        or_else_exists_def on_world_def)
  have "readable (fst (Absent, 0 :: nat)) []" using samples_ok(4) by simp
  from failed_signup_keeps_the_account [OF samples_ok(1,2) this sample_local acq, of second_account] sample_loads(1) acq
  show ?thesis by auto
qed

lemma acquired_account_never_signs_up_again_witness:
  "\<exists>t. fst (acquire_browser_session counting_browser sample_config Primary nothing_set first_account (Absent, 0)) =
      Inr \<lparr>cookie_name = ''S'', cookie_value = ''one@test.com''\<rparr> \<and>
    acquire_browser_session failing_browser sample_config Primary nothing_set second_account t =
      (Inr \<lparr>cookie_name = ''S'', cookie_value = ''one@test.com''\<rparr>, (fst t, snd t + 1))"
proof -
  let ?acq = "acquire_browser_session counting_browser sample_config Primary nothing_set first_account (Absent, 0)"
  let ?sess = "\<lparr>cookie_name = ''S'', cookie_value = ''one@test.com''\<rparr>"
  obtain t' where m: "mark_local_credentials_complete sample_config Primary first_account after_first = (Inr (), t')"
    using local_account_completes [OF samples_ok(1,2,4) sample_loads(1), of first_account] by auto
  have "?acq = (Inr ?sess, (t', 1))"
    using sample_loads(1) m
    by (simp add: acquire_browser_local [OF sample_local] acquire_local_session_def use_local_record_def bindS_def on_file_def counting_browser_def
        or_else_exists_def on_world_def liftE_def first_account_def)
  moreover have "readable (fst (Absent, 0 :: nat)) []" using samples_ok(4) by simp
  moreover have "failing_browser = counting_browser\<lparr>signup := signup failing_browser\<rparr>"
    by (simp add: failing_browser_def)
  moreover have "login_browser_account counting_browser sample_config Primary first_account (t', 1) = (Inr ?sess, (t', 2))"
    by (simp add: login_browser_account_def counting_browser_def on_world_def first_account_def)
  ultimately show ?thesis
    using acquired_account_never_signs_up_again [OF samples_ok(1,2) _ sample_local, of "(Absent, 0)" "[]" counting_browser
        Primary nothing_set ?sess "(t', 1)" "signup failing_browser" second_account] sample_loads(1)
    by (intro exI [of _ "(t', 1)"]) auto
qed

lemma production_acquires_nothing_witness:
  "snd (acquire_session failing_browser production_example Admin nothing_set first_account (sample_file, 7)) = (sample_file, 7)"
proof -
  have "environment_type_of production_example = Production" by code_simp
  from production_acquires_nothing [OF this] show ?thesis by blast
qed

end
