(* ===== verification/Coverage.thy ===== *)
theory Coverage
  imports Open_Api
begin

text \<open>
  \<open>src/api_tests/coverage.py\<close>: markers on tests, read from the syntax trees of the test files, counted
  per operation, and joined with the documented operations and the deferral manifests into coverage
  rows.  Parsing Python is the \<open>ast\<close> module's: a test file is the list of its function definitions in
  the order of \<open>ast.walk\<close>, each with its decorators.
\<close>

section \<open>Markers in syntax trees\<close>

datatype const_value = StrConst string | OtherConst

datatype ast_expr =
    Call ast_expr "ast_expr list" "(string option \<times> ast_expr) list"
  | Attribute ast_expr string
  | Name string
  | Constant const_value
  | OtherExpr

datatype operation_key = OperationKey (key_contract: contract_key) (key_id: string)

text \<open>\<open>order=True\<close>: keys compare as the tuples of their fields.\<close>

instantiation operation_key :: linorder
begin

definition less_eq_operation_key :: "operation_key \<Rightarrow> operation_key \<Rightarrow> bool" where
  "less_eq_operation_key k l \<longleftrightarrow> (key_contract k, key_id k) \<le> (key_contract l, key_id l)"

definition less_operation_key :: "operation_key \<Rightarrow> operation_key \<Rightarrow> bool" where
  "less_operation_key k l \<longleftrightarrow> (key_contract k, key_id k) < (key_contract l, key_id l)"

instance
proof
  fix k l m :: operation_key
  show "k < l \<longleftrightarrow> k \<le> l \<and> \<not> l \<le> k"
    unfolding less_eq_operation_key_def less_operation_key_def by (rule less_le_not_le)
  show "k \<le> k" unfolding less_eq_operation_key_def by (rule order_refl)
  show "k \<le> l \<Longrightarrow> l \<le> m \<Longrightarrow> k \<le> m"
    unfolding less_eq_operation_key_def by (rule order_trans)
  show "k \<le> l \<or> l \<le> k" unfolding less_eq_operation_key_def by (rule linear)
  assume "k \<le> l" "l \<le> k"
  then have "(key_contract k, key_id k) = (key_contract l, key_id l)"
    unfolding less_eq_operation_key_def by (rule antisym)
  then show "k = l" by (simp add: operation_key.expand)
qed

end

datatype marker_error =
    MarkerArguments
  | MarkerNotLiteral
  | MarkerKeywords
  | MarkerContractNotLiteral
  | MarkerContract string
  | MarkerEmpty

definition is_pytest_marker :: "ast_expr \<Rightarrow> string \<Rightarrow> bool" where
  "is_pytest_marker node marker_name \<longleftrightarrow>
     node = Attribute (Attribute (Name ''pytest'') ''mark'') marker_name"

fun string_literal :: "ast_expr \<Rightarrow> string option" where
  "string_literal (Constant (StrConst s)) = Some s"
| "string_literal _ = None"

definition contract_of_name :: "string \<Rightarrow> contract_key option" where
  "contract_of_name s = List.find (\<lambda>c. contract_name c = s) [Unified, SessionGateway]"

definition openapi_marker_contract ::
    "(string option \<times> ast_expr) list \<Rightarrow> marker_error + contract_key" where
  "openapi_marker_contract keywords =
     (case keywords of
        [] \<Rightarrow> Inr Unified
      | [(arg, v)] \<Rightarrow>
          if arg \<noteq> Some ''contract'' then Inl MarkerKeywords
          else bindE (requireE (string_literal v) MarkerContractNotLiteral) (\<lambda>raw.
                 requireE (contract_of_name raw) (MarkerContract raw))
      | _ \<Rightarrow> Inl MarkerKeywords)"

definition openapi_marker_operation :: "ast_expr \<Rightarrow> marker_error + operation_key option" where
  "openapi_marker_operation node =
     (case node of
        Call func args keywords \<Rightarrow>
          if \<not> is_pytest_marker func ''openapi'' then Inr None
          else (case args of
              [operation_id] \<Rightarrow>
                bindE (requireE (string_literal operation_id) MarkerNotLiteral) (\<lambda>i.
                bindE (openapi_marker_contract keywords) (\<lambda>c. Inr (Some (OperationKey c i))))
            | _ \<Rightarrow> Inl MarkerArguments)
      | _ \<Rightarrow> Inr None)"

text \<open>The other two markers: one literal, non-empty, no keyword.\<close>

definition id_marker :: "string \<Rightarrow> ast_expr \<Rightarrow> marker_error + string option" where
  "id_marker marker_name node =
     (case node of
        Call func args keywords \<Rightarrow>
          if \<not> is_pytest_marker func marker_name then Inr None
          else (case args of
              [literal] \<Rightarrow>
                if keywords \<noteq> [] then Inl MarkerArguments
                else bindE (requireE (string_literal literal) MarkerNotLiteral) (\<lambda>i.
                  if i = [] then Inl MarkerEmpty else Inr (Some i))
            | _ \<Rightarrow> Inl MarkerArguments)
      | _ \<Rightarrow> Inr None)"

definition session_gateway_case_marker :: "ast_expr \<Rightarrow> marker_error + string option" where
  "session_gateway_case_marker node = id_marker ''session_gateway_case'' node"

definition forbidden_response_marker_operation :: "ast_expr \<Rightarrow> marker_error + string option" where
  "forbidden_response_marker_operation node = id_marker ''forbidden_response'' node"

type_synonym decorators = "ast_expr list"
type_synonym test_file = "decorators list"
type_synonym marker_entry = "contract_key \<times> string \<times> bool"

section \<open>Counting\<close>

record marker_counts =
  marker_count :: nat
  placeholder_marker_count :: nat

definition no_markers :: marker_counts where
  "no_markers = \<lparr>marker_count = 0, placeholder_marker_count = 0\<rparr>"

text \<open>\<open>Counter\<close>: a dictionary whose missing keys count zero.\<close>

type_synonym 'k counter = "('k \<times> nat) list"

definition counted :: "'k counter \<Rightarrow> 'k \<Rightarrow> nat" where
  "counted c k = (case map_of c k of None \<Rightarrow> 0 | Some n \<Rightarrow> n)"

definition bump :: "'k \<Rightarrow> 'k counter \<Rightarrow> 'k counter" where
  "bump k c = AList.update k (counted c k + 1) c"

text \<open>Both counters over a list of keys with their placeholder flags, and the sorted result.\<close>

definition count_markers :: "('k \<times> bool) list \<Rightarrow> 'k counter \<times> 'k counter" where
  "count_markers ms = foldl (\<lambda>(markers, placeholders) (k, is_placeholder).
     (bump k markers, if is_placeholder then bump k placeholders else placeholders)) ([], []) ms"

definition counts_table :: "('k::linorder \<times> bool) list \<Rightarrow> ('k \<times> marker_counts) list" where
  "counts_table ms =
     (let (markers, placeholders) = count_markers ms in
      map (\<lambda>k. (k, \<lparr>marker_count = counted markers k, placeholder_marker_count = counted placeholders k\<rparr>))
        (sorted_keys (map fst markers @ map fst placeholders)))"

definition build_marker_counts :: "marker_entry list \<Rightarrow> (operation_key \<times> marker_counts) list" where
  "build_marker_counts markers =
     counts_table (map (\<lambda>(contract, operation_id, is_placeholder).
       (OperationKey contract operation_id, is_placeholder)) markers)"

definition is_placeholder_function :: "decorators \<Rightarrow> bool" where
  "is_placeholder_function ds = list_ex (\<lambda>d. is_pytest_marker d ''placeholder'') ds"

text \<open>The markers of one function: the walrus comprehensions over its decorators.\<close>

definition markers_of :: "(ast_expr \<Rightarrow> 'e + 'k option) \<Rightarrow> decorators \<Rightarrow> 'e + 'k list" where
  "markers_of marker ds = bindE (mapE marker ds) (\<lambda>ks. Inr (List.map_filter (\<lambda>k. k) ks))"

definition collect_openapi_markers_from_file :: "test_file \<Rightarrow> marker_error + marker_entry list" where
  "collect_openapi_markers_from_file functions =
     bindE (mapE (\<lambda>ds. bindE (markers_of openapi_marker_operation ds) (\<lambda>keys.
         Inr (map (\<lambda>k. (key_contract k, key_id k, is_placeholder_function ds)) keys))) functions)
       (\<lambda>entries. Inr (concat entries))"

definition collect_openapi_markers_from_tests ::
    "test_file list \<Rightarrow> marker_error + (operation_key \<times> marker_counts) list" where
  "collect_openapi_markers_from_tests files =
     bindE (mapE collect_openapi_markers_from_file files) (\<lambda>entries.
       Inr (build_marker_counts (concat entries)))"

definition collect_forbidden_response_markers_from_tests ::
    "test_file list \<Rightarrow> marker_error + (string \<times> marker_counts) list" where
  "collect_forbidden_response_markers_from_tests files =
     bindE (mapE (\<lambda>ds. bindE (markers_of forbidden_response_marker_operation ds) (\<lambda>ids.
         Inr (map (\<lambda>i. (i, is_placeholder_function ds)) ids))) (concat files)) (\<lambda>entries.
       Inr (counts_table (concat entries)))"

definition collect_session_gateway_case_markers_from_tests ::
    "test_file list \<Rightarrow> marker_error + (string \<times> nat) list" where
  "collect_session_gateway_case_markers_from_tests files =
     bindE (mapE (markers_of session_gateway_case_marker) (concat files)) (\<lambda>ids.
       let counter = foldl (\<lambda>c i. bump i c) [] (concat ids)
       in Inr (map (\<lambda>i. (i, counted counter i)) (sorted_keys (map fst counter))))"

section \<open>Deferred admin operations\<close>

record deferred_admin_operation =
  da_id :: string
  da_method :: http_method
  da_path :: string

definition load_deferred_admin_operation ::
    "nat \<times> json \<Rightarrow> manifest_error + deferred_admin_operation" where
  "load_deferred_admin_operation indexed =
     (let (index, raw_operation) = indexed in
      bindE (requireE (as_object raw_operation) (EntryNotMapping (index + 1))) (\<lambda>raw.
      bindE (manifest_operation raw index) (\<lambda>(operation_id, m, path).
        Inr \<lparr>da_id = operation_id, da_method = m, da_path = path\<rparr>)))"

definition load_deferred_admin_operations ::
    "json \<Rightarrow> manifest_error + deferred_admin_operation list" where
  "load_deferred_admin_operations raw_manifest =
     bindE (manifest_list ''deferred_admin_operations'' raw_manifest) (\<lambda>raws.
       mapE load_deferred_admin_operation (List.enumerate 0 raws))"

section \<open>Operation coverage\<close>

datatype coverage_source = Live | Snapshot
datatype coverage_status = Covered | Placeholder | MissingTest | Deferred

record operation_coverage =
  cv_contract :: contract_key
  cv_id :: string
  cv_method :: http_method
  cv_path :: string
  cv_source :: coverage_source
  cv_deferred_admin :: bool
  cv_marker_count :: nat
  cv_placeholder_count :: nat
  cv_status :: coverage_status

datatype coverage_error =
    DuplicateOperation contract_key openapi_operation openapi_operation
  | UnrecognizedMarkers "operation_key list"
  | DuplicateDeferred string
  | StaleDeferred string
  | StaleDeferredRoute string
  | DuplicateForbiddenOperations
  | UnrecognizedForbiddenMarkers "string list"
  | OnlyPlaceholders "string list"
  | EvidenceAndDeferral "string list"
  | NeitherEvidenceNorDeferral "string list"

definition operation_key_of :: "openapi_operation \<Rightarrow> operation_key" where
  "operation_key_of op = OperationKey (op_contract op) (op_id op)"

definition coverage_status_of :: "bool \<Rightarrow> marker_counts \<Rightarrow> coverage_status" where
  "coverage_status_of deferred_admin counts =
     (if deferred_admin then Deferred
      else if marker_count counts = 0 then MissingTest
      else if placeholder_marker_count counts = marker_count counts then Placeholder
      else Covered)"

type_synonym operations_by_key = "(operation_key \<times> openapi_operation) list"

definition index_step :: "operations_by_key \<Rightarrow> openapi_operation \<Rightarrow> coverage_error + operations_by_key" where
  "index_step by_key op =
     (case map_of by_key (operation_key_of op) of
        Some previous \<Rightarrow> Inl (DuplicateOperation (op_contract op) previous op)
      | None \<Rightarrow> Inr (AList.update (operation_key_of op) op by_key))"

definition deferred_step ::
    "operations_by_key \<Rightarrow> string list \<Rightarrow> deferred_admin_operation \<Rightarrow> coverage_error + string list" where
  "deferred_step by_key seen d =
     (if da_id d \<in> set seen then Inl (DuplicateDeferred (da_id d))
      else case map_of by_key (OperationKey Unified (da_id d)) of
        None \<Rightarrow> Inl (StaleDeferred (da_id d))
      | Some op \<Rightarrow>
          if op_method op \<noteq> da_method d \<or> op_path op \<noteq> da_path d
          then Inl (StaleDeferredRoute (da_id d))
          else Inr (da_id d # seen))"

definition validate_inventory ::
    "openapi_operation list \<Rightarrow> deferred_admin_operation list \<Rightarrow> (operation_key \<times> marker_counts) list
      \<Rightarrow> coverage_error + unit" where
  "validate_inventory operations deferred counts =
     bindE (foldE index_step [] operations) (\<lambda>by_key.
       let unrecognized = sorted_keys (filter (\<lambda>k. map_of by_key k = None) (map fst counts))
       in if unrecognized \<noteq> [] then Inl (UnrecognizedMarkers unrecognized)
          else bindE (foldE (deferred_step by_key) [] deferred) (\<lambda>_. Inr ()))"

definition coverage_row ::
    "deferred_admin_operation list \<Rightarrow> (operation_key \<times> marker_counts) list \<Rightarrow> coverage_source
      \<Rightarrow> openapi_operation \<Rightarrow> operation_coverage" where
  "coverage_row deferred counts source op =
     (let c = (case map_of counts (operation_key_of op) of None \<Rightarrow> no_markers | Some c \<Rightarrow> c);
          deferred_admin = (op_contract op = Unified \<and> op_id op \<in> set (map da_id deferred))
      in \<lparr>cv_contract = op_contract op, cv_id = op_id op, cv_method = op_method op, cv_path = op_path op,
          cv_source = source, cv_deferred_admin = deferred_admin, cv_marker_count = marker_count c,
          cv_placeholder_count = placeholder_marker_count c,
          cv_status = coverage_status_of deferred_admin c\<rparr>)"

definition build_operation_coverage ::
    "openapi_operation list \<Rightarrow> deferred_admin_operation list \<Rightarrow> (operation_key \<times> marker_counts) list
      \<Rightarrow> coverage_source \<Rightarrow> coverage_error + operation_coverage list" where
  "build_operation_coverage operations deferred counts source =
     bindE (validate_inventory operations deferred counts) (\<lambda>_.
       Inr (map (coverage_row deferred counts source) (sort_key operation_sort_key operations)))"

definition missing_operation_ids :: "operation_coverage list \<Rightarrow> string list" where
  "missing_operation_ids rows = map cv_id (filter (\<lambda>r. cv_status r = MissingTest) rows)"

definition placeholder_operation_ids :: "operation_coverage list \<Rightarrow> string list" where
  "placeholder_operation_ids rows = map cv_id (filter (\<lambda>r. cv_status r = Placeholder) rows)"

section \<open>Forbidden-response coverage\<close>

datatype forbidden_status = ForbiddenCovered | ForbiddenDeferred

record forbidden_coverage =
  fc_id :: string
  fc_method :: http_method
  fc_path :: string
  fc_status :: forbidden_status
  fc_marker_count :: nat
  fc_placeholder_count :: nat
  fc_reason :: "deferral_reason option"

type_synonym deferrals_by_id = "(string \<times> forbidden_deferral) list"

text \<open>The dictionary comprehension over the operations: a later operation overwrites an earlier one.\<close>

definition operations_by_id :: "openapi_operation list \<Rightarrow> (string \<times> openapi_operation) list" where
  "operations_by_id operations = foldl (\<lambda>d op. AList.update (op_id op) op d) [] operations"

definition deferral_step ::
    "(string \<times> openapi_operation) list \<Rightarrow> deferrals_by_id \<Rightarrow> forbidden_deferral
      \<Rightarrow> coverage_error + deferrals_by_id" where
  "deferral_step by_id deferrals d =
     (if map_of deferrals (fd_id d) \<noteq> None then Inl (DuplicateDeferred (fd_id d))
      else case map_of by_id (fd_id d) of
        None \<Rightarrow> Inl (StaleDeferred (fd_id d))
      | Some op \<Rightarrow>
          if op_method op \<noteq> fd_method d \<or> op_path op \<noteq> fd_path d
          then Inl (StaleDeferredRoute (fd_id d))
          else Inr (AList.update (fd_id d) d deferrals))"

definition has_evidence :: "marker_counts \<Rightarrow> bool" where
  "has_evidence c \<longleftrightarrow> placeholder_marker_count c < marker_count c"

definition only_placeholders :: "marker_counts \<Rightarrow> bool" where
  "only_placeholders c \<longleftrightarrow> 0 < marker_count c \<and> marker_count c = placeholder_marker_count c"

definition forbidden_row ::
    "(string \<times> marker_counts) list \<Rightarrow> deferrals_by_id \<Rightarrow> openapi_operation \<Rightarrow> forbidden_coverage" where
  "forbidden_row counts deferrals op =
     (let c = (case map_of counts (op_id op) of None \<Rightarrow> no_markers | Some c \<Rightarrow> c);
          d = map_of deferrals (op_id op)
      in \<lparr>fc_id = op_id op, fc_method = op_method op, fc_path = op_path op,
          fc_status = (if d \<noteq> None then ForbiddenDeferred else ForbiddenCovered),
          fc_marker_count = marker_count c, fc_placeholder_count = placeholder_marker_count c,
          fc_reason = map_option fd_reason d\<rparr>)"

definition build_forbidden_response_coverage ::
    "openapi_operation list \<Rightarrow> forbidden_deferral list \<Rightarrow> (string \<times> marker_counts) list
      \<Rightarrow> coverage_error + forbidden_coverage list" where
  "build_forbidden_response_coverage operations deferral_list counts =
     (let by_id = operations_by_id operations in
      if length by_id \<noteq> length operations then Inl DuplicateForbiddenOperations
      else let unrecognized = sorted_keys (filter (\<lambda>i. map_of by_id i = None) (map fst counts)) in
      if unrecognized \<noteq> [] then Inl (UnrecognizedForbiddenMarkers unrecognized)
      else let placeholder_only = sort (map fst (filter (\<lambda>(i, c). only_placeholders c) counts)) in
      if placeholder_only \<noteq> [] then Inl (OnlyPlaceholders placeholder_only)
      else bindE (foldE (deferral_step by_id) [] deferral_list) (\<lambda>deferrals.
        let executable = map fst (filter (\<lambda>(i, c). has_evidence c) counts);
            overlap = sorted_keys (filter (\<lambda>i. map_of deferrals i \<noteq> None) executable)
        in if overlap \<noteq> [] then Inl (EvidenceAndDeferral overlap)
           else let missing = sorted_keys (filter (\<lambda>i. i \<notin> set executable \<and> map_of deferrals i = None)
                                (map fst by_id)) in
           if missing \<noteq> [] then Inl (NeitherEvidenceNorDeferral missing)
           else Inr (map (forbidden_row counts deferrals) (sort_key operation_sort_key operations))))"

section \<open>Artifacts\<close>

definition status_name :: "coverage_status \<Rightarrow> string" where
  "status_name st = (case st of Covered \<Rightarrow> ''covered'' | Placeholder \<Rightarrow> ''placeholder''
     | MissingTest \<Rightarrow> ''missing'' | Deferred \<Rightarrow> ''deferred'')"

definition source_name :: "coverage_source \<Rightarrow> string" where
  "source_name src = (case src of Live \<Rightarrow> ''live'' | Snapshot \<Rightarrow> ''snapshot'')"

definition coverage_to_jsonable :: "operation_coverage list \<Rightarrow> json list" where
  "coverage_to_jsonable rows = map (\<lambda>r. JObj
     [(''contract'', JStr (contract_name (cv_contract r))), (''operation_id'', JStr (cv_id r)),
      (''method'', JStr (method_name (cv_method r))), (''path'', JStr (cv_path r)),
      (''source'', JStr (source_name (cv_source r))), (''deferred_admin'', JBool (cv_deferred_admin r)),
      (''marker_count'', JInt (int (cv_marker_count r))),
      (''placeholder_marker_count'', JInt (int (cv_placeholder_count r))),
      (''status'', JStr (status_name (cv_status r)))]) rows"

definition forbidden_status_name :: "forbidden_status \<Rightarrow> string" where
  "forbidden_status_name st = (case st of ForbiddenCovered \<Rightarrow> ''covered'' | ForbiddenDeferred \<Rightarrow> ''deferred'')"

definition forbidden_ids :: "forbidden_status \<Rightarrow> forbidden_coverage list \<Rightarrow> string list" where
  "forbidden_ids st rows = sort (map fc_id (filter (\<lambda>r. fc_status r = st) rows))"

definition forbidden_row_json :: "forbidden_coverage \<Rightarrow> json" where
  "forbidden_row_json r = JObj
     [(''operation_id'', JStr (fc_id r)), (''method'', JStr (method_name (fc_method r))),
      (''path'', JStr (fc_path r)), (''status'', JStr (forbidden_status_name (fc_status r))),
      (''marker_count'', JInt (int (fc_marker_count r))),
      (''placeholder_marker_count'', JInt (int (fc_placeholder_count r))),
      (''deferral_reason'', (case fc_reason r of None \<Rightarrow> JNull | Some d \<Rightarrow> JStr (reason_name d)))]"

definition forbidden_response_report :: "forbidden_coverage list \<Rightarrow> json" where
  "forbidden_response_report rows =
     (let covered_ids = forbidden_ids ForbiddenCovered rows;
          deferred_ids = forbidden_ids ForbiddenDeferred rows
      in JObj
        [(''counts'', JObj [(''covered'', JInt (int (length covered_ids))),
            (''deferred'', JInt (int (length deferred_ids))), (''total'', JInt (int (length rows)))]),
         (''ids'', JObj [(''covered'', JList (map JStr covered_ids)),
            (''deferred'', JList (map JStr deferred_ids))]),
         (''rows'', JList (map forbidden_row_json rows))])"

section \<open>Counters\<close>

lemma counted_bump: "counted (bump k c) j = (if j = k then counted c k + 1 else counted c j)"
  by (simp add: counted_def bump_def update_lookup)

lemma keys_bump: "fst ` set (bump k c) = insert k (fst ` set c)"
  by (simp add: bump_def update_keys)

lemma count_markers_snoc:
  "count_markers (ms @ [(k, p)]) =
   (case count_markers ms of (a, b) \<Rightarrow> (bump k a, if p then bump k b else b))"
  by (simp add: count_markers_def case_prod_unfold)

text \<open>The counters hold the number of markers of every key, and of those that are placeholders.\<close>

lemma count_markers_counts:
  "counted (fst (count_markers ms)) k = length (filter (\<lambda>m. fst m = k) ms) \<and>
   counted (snd (count_markers ms)) k = length (filter (\<lambda>m. fst m = k \<and> snd m) ms) \<and>
   fst ` set (fst (count_markers ms)) \<union> fst ` set (snd (count_markers ms)) = fst ` set ms"
proof (induction ms rule: rev_induct)
  case Nil
  then show ?case by (simp add: count_markers_def counted_def)
next
  case (snoc m ms)
  obtain j p where m: "m = (j, p)" by (cases m)
  obtain a b where ab: "count_markers ms = (a, b)" by (cases "count_markers ms")
  show ?case
    using snoc unfolding m count_markers_snoc ab
    by (auto simp: counted_bump keys_bump)
qed

definition counts_of :: "('k \<times> bool) list \<Rightarrow> 'k \<Rightarrow> marker_counts" where
  "counts_of ms k = \<lparr>marker_count = length (filter (\<lambda>m. fst m = k) ms),
     placeholder_marker_count = length (filter (\<lambda>m. fst m = k \<and> snd m) ms)\<rparr>"

lemma counts_table_eq: "counts_table ms = map (\<lambda>k. (k, counts_of ms k)) (sorted_keys (map fst ms))"
proof -
  obtain a b where ab: "count_markers ms = (a, b)" by (cases "count_markers ms")
  have c: "counted a k = length (filter (\<lambda>m. fst m = k) ms)"
    "counted b k = length (filter (\<lambda>m. fst m = k \<and> snd m) ms)"
    "fst ` set a \<union> fst ` set b = fst ` set ms" for k
    using count_markers_counts [of ms k] by (simp_all add: ab)
  have "sorted_keys (map fst a @ map fst b) = sorted_keys (map fst ms)"
    by (rule sorted_keys_cong) (use c(3) in simp)
  then show ?thesis by (simp add: counts_table_def ab c(1,2) counts_of_def)
qed

lemma counts_table_lookup:
  "map_of (counts_table ms) k = (if k \<in> fst ` set ms then Some (counts_of ms k) else None)"
  by (simp add: counts_table_eq map_of_map_restrict restrict_map_def)

lemma count_zero: "k \<notin> fst ` set ms \<Longrightarrow> counts_of ms k = no_markers"
  by (induction ms) (auto simp: counts_of_def no_markers_def)

lemma counts_of_placeholders: "placeholder_marker_count (counts_of ms k) \<le> marker_count (counts_of ms k)"
  by (induction ms) (auto simp: counts_of_def)

lemma markers_partitioned:
  assumes "distinct ks" "fst ` set ms \<subseteq> set ks"
  shows "sum_list (map (\<lambda>k. marker_count (counts_of ms k)) ks) = length ms"
  using assms
proof (induction ms)
  case Nil
  then show ?case by (induction ks) (simp_all add: counts_of_def)
next
  case (Cons m ms)
  have one: "distinct xs \<Longrightarrow> sum_list (map (\<lambda>k. marker_count (counts_of (m # ms) k)) xs) =
    sum_list (map (\<lambda>k. marker_count (counts_of ms k)) xs) + (if fst m \<in> set xs then 1 else 0)" for xs
    by (induction xs) (auto simp: counts_of_def)
  from Cons show ?case by (simp add: one)
qed

section \<open>The inventory checks\<close>

lemma disjoint_step: "k \<notin> D \<Longrightarrow> K \<inter> insert k D = {} \<longleftrightarrow> k \<notin> K \<and> insert k K \<inter> D = {}"
  by auto

lemma index_fold:
  "foldE index_step by_key ops = Inr d \<longleftrightarrow>
   distinct (map operation_key_of ops) \<and> set (map operation_key_of ops) \<inter> dom (map_of by_key) = {} \<and>
   d = by_key @ map (\<lambda>op. (operation_key_of op, op)) ops"
proof (induction ops arbitrary: by_key)
  case Nil
  then show ?case by auto
next
  case (Cons op ops)
  show ?case
  proof (cases "map_of by_key (operation_key_of op)")
    case None
    then have step: "index_step by_key op = Inr (by_key @ [(operation_key_of op, op)])"
      by (simp add: index_step_def update_new)
    have dom: "dom (map_of (by_key @ [(operation_key_of op, op)])) = insert (operation_key_of op) (dom (map_of by_key))"
      by (simp add: dom_map_of_conv_image_fst)
    have "operation_key_of op \<notin> dom (map_of by_key)" using None by (simp add: domIff)
    from disjoint_step [OF this] show ?thesis
      unfolding foldE.simps step bindE_simps Cons.IH dom by (simp only: list.map list.set distinct.simps append_assoc append_Cons append_Nil) blast
  next
    case (Some q)
    then have "operation_key_of op \<in> dom (map_of by_key)" by (rule domI)
    then show ?thesis using Some by (simp add: index_step_def)
  qed
qed

lemma map_of_index:
  assumes "distinct (map operation_key_of ops)"
  shows "map_of (map (\<lambda>op. (operation_key_of op, op)) ops) k = Some op \<longleftrightarrow> op \<in> set ops \<and> operation_key_of op = k"
proof -
  have "map fst (map (\<lambda>op. (operation_key_of op, op)) ops) = map operation_key_of ops"
    by (simp add: comp_def)
  then have "distinct (map fst (map (\<lambda>op. (operation_key_of op, op)) ops))" using assms by (simp only:)
  from map_of_eq_Some_iff [OF this] show ?thesis by auto
qed

lemma deferred_fold:
  assumes "distinct (map operation_key_of ops)"
  defines "by_key \<equiv> map (\<lambda>op. (operation_key_of op, op)) ops"
  shows "foldE (deferred_step by_key) seen ds = Inr seen' \<longleftrightarrow>
    distinct (map da_id ds) \<and> set (map da_id ds) \<inter> set seen = {} \<and> seen' = rev (map da_id ds) @ seen \<and>
    (\<forall>d \<in> set ds. \<exists>op \<in> set ops. operation_key_of op = OperationKey Unified (da_id d) \<and>
       op_method op = da_method d \<and> op_path op = da_path d)"
proof (induction ds arbitrary: seen)
  case Nil
  then show ?case by auto
next
  case (Cons d ds)
  have step: "deferred_step by_key seen d = Inr s \<longleftrightarrow> da_id d \<notin> set seen \<and> s = da_id d # seen \<and>
    (\<exists>op \<in> set ops. operation_key_of op = OperationKey Unified (da_id d) \<and>
       op_method op = da_method d \<and> op_path op = da_path d)" for s
  proof (cases "map_of by_key (OperationKey Unified (da_id d))")
    case None
    then have "OperationKey Unified (da_id d) \<notin> operation_key_of ` set ops"
      unfolding by_key_def by (simp add: map_of_eq_None_iff image_image)
    then have "\<not> (\<exists>op \<in> set ops. operation_key_of op = OperationKey Unified (da_id d))" by (metis image_eqI)
    then show ?thesis using None by (auto simp: deferred_step_def)
  next
    case (Some op)
    then have op: "op \<in> set ops" "operation_key_of op = OperationKey Unified (da_id d)"
      using map_of_index [OF assms(1), folded by_key_def] by blast+
    have "op' = op" if "op' \<in> set ops" "operation_key_of op' = OperationKey Unified (da_id d)" for op'
    proof -
      have "inj_on operation_key_of (set ops)" using assms(1) by (simp add: distinct_map)
      moreover have "operation_key_of op' = operation_key_of op" using that(2) op(2) by (simp only:)
      ultimately show ?thesis using that(1) op(1) by (meson inj_onD)
    qed
    then have "(\<exists>op \<in> set ops. operation_key_of op = OperationKey Unified (da_id d) \<and>
       op_method op = da_method d \<and> op_path op = da_path d) \<longleftrightarrow>
       op_method op = da_method d \<and> op_path op = da_path d" using op by blast
    then show ?thesis using Some by (simp add: deferred_step_def) blast
  qed
  show ?case
    unfolding foldE.simps bindE_ok step using Cons.IH [of "da_id d # seen"] by auto
qed

definition inventory_ok ::
    "openapi_operation list \<Rightarrow> deferred_admin_operation list \<Rightarrow> (operation_key \<times> marker_counts) list \<Rightarrow> bool" where
  "inventory_ok operations deferred counts \<longleftrightarrow>
     distinct (map operation_key_of operations) \<and>
     set (map fst counts) \<subseteq> set (map operation_key_of operations) \<and>
     distinct (map da_id deferred) \<and>
     (\<forall>d \<in> set deferred. \<exists>op \<in> set operations. operation_key_of op = OperationKey Unified (da_id d) \<and>
        op_method op = da_method d \<and> op_path op = da_path d)"

lemma validate_inventory_iff: "validate_inventory operations deferred counts = Inr () \<longleftrightarrow> inventory_ok operations deferred counts"
proof (cases "distinct (map operation_key_of operations)")
  case True
  define by_key where "by_key = map (\<lambda>op. (operation_key_of op, op)) operations"
  have fold: "foldE index_step [] operations = Inr by_key"
    unfolding index_fold by_key_def using True by simp
  have "map_of by_key k = None \<longleftrightarrow> k \<notin> set (map operation_key_of operations)" for k
    by (simp add: by_key_def map_of_eq_None_iff image_image)
  then have "sorted_keys (filter (\<lambda>k. map_of by_key k = None) (map fst counts)) = [] \<longleftrightarrow>
    set (map fst counts) \<subseteq> set (map operation_key_of operations)"
    by (auto simp: filter_empty_conv)
  moreover have "(\<exists>s. foldE (deferred_step by_key) [] deferred = Inr s) \<longleftrightarrow>
    distinct (map da_id deferred) \<and>
    (\<forall>d \<in> set deferred. \<exists>op \<in> set operations. operation_key_of op = OperationKey Unified (da_id d) \<and>
        op_method op = da_method d \<and> op_path op = da_path d)"
    unfolding by_key_def deferred_fold [OF True] by auto
  ultimately show ?thesis
    unfolding validate_inventory_def fold inventory_ok_def using True by (auto simp: Let_def bindE_ok)
next
  case False
  then have "\<not> (\<exists>d. foldE index_step [] operations = Inr d)" by (simp add: index_fold)
  with False show ?thesis
    by (auto simp: validate_inventory_def inventory_ok_def bindE_ok)
qed

section \<open>Forbidden responses\<close>

lemma operations_by_id_keys: "fst ` set (operations_by_id ops) = op_id ` set ops \<and> distinct (map fst (operations_by_id ops))"
proof (induction ops rule: rev_induct)
  case Nil
  then show ?case by (simp add: operations_by_id_def)
next
  case (snoc op ops)
  then show ?case by (simp add: operations_by_id_def update_keys distinct_update)
qed

lemma operations_by_id_distinct:
  assumes "length (operations_by_id ops) = length ops"
  shows "distinct (map op_id ops)"
proof -
  have "card (op_id ` set ops) = length ops"
    using operations_by_id_keys [of ops] assms by (metis distinct_card length_map set_map)
  then show ?thesis by (metis card_distinct length_map set_map)
qed

lemma operations_by_id_lookup:
  assumes "distinct (map op_id ops)"
  shows "map_of (operations_by_id ops) i = Some op \<longleftrightarrow> op \<in> set ops \<and> op_id op = i"
  using assms
proof (induction ops rule: rev_induct)
  case Nil
  then show ?case by (simp add: operations_by_id_def)
next
  case (snoc p ops)
  then show ?case by (auto simp: operations_by_id_def update_lookup image_iff)
qed

lemma operations_by_id_None: "map_of (operations_by_id ops) i = None \<longleftrightarrow> i \<notin> op_id ` set ops"
  using operations_by_id_keys [of ops] by (simp add: map_of_eq_None_iff)

lemma deferral_fold:
  assumes "foldE (deferral_step by_id) [] ds = Inr t"
  shows "map_of t = map_of (map (\<lambda>d. (fd_id d, d)) ds) \<and> distinct (map fd_id ds) \<and>
    (\<forall>d \<in> set ds. \<exists>op. map_of by_id (fd_id d) = Some op \<and> op_method op = fd_method d \<and> op_path op = fd_path d)"
  using assms
proof (rule foldE_rule [where P = "\<lambda>ds t. map_of t = map_of (map (\<lambda>d. (fd_id d, d)) ds) \<and> distinct (map fd_id ds) \<and>
    (\<forall>d \<in> set ds. \<exists>op. map_of by_id (fd_id d) = Some op \<and> op_method op = fd_method d \<and> op_path op = fd_path d)"])
  fix ys d zs u v
  assume P: "map_of u = map_of (map (\<lambda>d. (fd_id d, d)) ys) \<and> distinct (map fd_id ys) \<and>
      (\<forall>d \<in> set ys. \<exists>op. map_of by_id (fd_id d) = Some op \<and> op_method op = fd_method d \<and> op_path op = fd_path d)"
    and step: "deferral_step by_id u d = Inr v"
  have new: "map_of u (fd_id d) = None" and v: "v = AList.update (fd_id d) d u"
    and op: "\<exists>op. map_of by_id (fd_id d) = Some op \<and> op_method op = fd_method d \<and> op_path op = fd_path d"
    using step by (auto simp: deferral_step_def split: if_splits option.splits)
  have "fd_id d \<notin> set (map fd_id ys)"
    using new P by (simp add: map_of_eq_None_iff image_image)
  moreover have "map_of v = map_of (map (\<lambda>d. (fd_id d, d)) (ys @ [d]))"
    using P new unfolding v update_lookup by (auto simp: fun_eq_iff map_add_def split: option.splits)
  ultimately show "map_of v = map_of (map (\<lambda>d. (fd_id d, d)) (ys @ [d])) \<and> distinct (map fd_id (ys @ [d])) \<and>
      (\<forall>d \<in> set (ys @ [d]). \<exists>op. map_of by_id (fd_id d) = Some op \<and> op_method op = fd_method d \<and> op_path op = fd_path d)"
    using P op by auto
qed simp

lemma map_of_by_id: "distinct (map f xs) \<Longrightarrow> map_of (map (\<lambda>x. (f x, x)) xs) i = Some x \<longleftrightarrow> x \<in> set xs \<and> f x = i"
  by (induction xs) (auto simp: image_iff)

lemma build_forbidden_ok:
  "build_forbidden_response_coverage operations deferral_list counts = Inr rows \<longleftrightarrow>
   length (operations_by_id operations) = length operations \<and>
   filter (\<lambda>i. map_of (operations_by_id operations) i = None) (map fst counts) = [] \<and>
   filter (\<lambda>(i, c). only_placeholders c) counts = [] \<and>
   (\<exists>t. foldE (deferral_step (operations_by_id operations)) [] deferral_list = Inr t \<and>
      (\<forall>i \<in> set (map fst (filter (\<lambda>(i, c). has_evidence c) counts)). map_of t i = None) \<and>
      (\<forall>i \<in> set (map fst (operations_by_id operations)).
         i \<in> set (map fst (filter (\<lambda>(i, c). has_evidence c) counts)) \<or> map_of t i \<noteq> None) \<and>
      rows = map (forbidden_row counts t) (sort_key operation_sort_key operations))"
proof -
  have none: "filter (\<lambda>i. i \<notin> A \<and> P i) xs = [] \<longleftrightarrow> (\<forall>i \<in> set xs. i \<in> A \<or> \<not> P i)" for A :: "string set" and P xs
    by (auto simp: filter_empty_conv)
  have free: "filter (\<lambda>i. map_of t i \<noteq> None) xs = [] \<longleftrightarrow> (\<forall>i \<in> set xs. map_of t i = None)" for t :: deferrals_by_id and xs
    by (simp only: filter_empty_conv not_not)
  show ?thesis
    unfolding build_forbidden_response_coverage_def Let_def if_Inl_ok bindE_ok not_not sum.inject
      sorted_keys_Nil_iff sort_Nil_iff none free list.map_disc_iff
    by blast
qed

section \<open>Properties\<close>

text \<open>Marker counting is exact: the table has one row per marked operation, sorted by key, with the
  number of its markers and of its markers on placeholder tests.\<close>

theorem marker_counts_exact:
  "map fst (build_marker_counts markers) = sorted_list_of_set ((\<lambda>(c, i, p). OperationKey c i) ` set markers) \<and>
   map_of (build_marker_counts markers) (OperationKey c i) =
     (if (c, i) \<in> (\<lambda>(c, i, p). (c, i)) ` set markers
      then Some \<lparr>marker_count = length (filter (\<lambda>(c', i', p). c' = c \<and> i' = i) markers),
        placeholder_marker_count = length (filter (\<lambda>(c', i', p). c' = c \<and> i' = i \<and> p) markers)\<rparr>
      else None)"
proof -
  let ?ms = "map (\<lambda>(c, i, p). (OperationKey c i, p)) markers"
  have keys: "fst ` set ?ms = (\<lambda>(c, i, p). OperationKey c i) ` set markers" by force
  have "counts_of ?ms (OperationKey c i) =
    \<lparr>marker_count = length (filter (\<lambda>(c', i', p). c' = c \<and> i' = i) markers),
     placeholder_marker_count = length (filter (\<lambda>(c', i', p). c' = c \<and> i' = i \<and> p) markers)\<rparr>"
    by (simp add: counts_of_def filter_map o_def case_prod_unfold)
  moreover have "OperationKey c i \<in> fst ` set ?ms \<longleftrightarrow> (c, i) \<in> (\<lambda>(c, i, p). (c, i)) ` set markers"
    unfolding keys by force
  moreover have "map fst (build_marker_counts markers) = sorted_list_of_set (fst ` set ?ms)"
    by (simp add: build_marker_counts_def counts_table_eq o_def sorted_keys_of_set image_image case_prod_unfold)
  ultimately show ?thesis
    unfolding build_marker_counts_def counts_table_lookup keys by simp
qed

text \<open>The inventory is accepted exactly when operation ids are unique per contract, every marker
  refers to an operation, and every deferral is unique and matches a unified operation's method and path.\<close>

theorem inventory_accepted_iff_consistent:
  "(\<exists>rows. build_operation_coverage operations deferred counts source = Inr rows) \<longleftrightarrow>
   distinct (map operation_key_of operations) \<and>
   set (map fst counts) \<subseteq> set (map operation_key_of operations) \<and>
   distinct (map da_id deferred) \<and>
   set (map (\<lambda>d. (Unified, da_id d, da_method d, da_path d)) deferred) \<subseteq>
   set (map (\<lambda>op. (op_contract op, op_id op, op_method op, op_path op)) operations)"
proof -
  have "(\<exists>rows. build_operation_coverage operations deferred counts source = Inr rows) \<longleftrightarrow>
    inventory_ok operations deferred counts"
    unfolding build_operation_coverage_def bindE_ok using validate_inventory_iff by auto
  moreover have "(\<forall>d \<in> set deferred. \<exists>op \<in> set operations. operation_key_of op = OperationKey Unified (da_id d) \<and>
        op_method op = da_method d \<and> op_path op = da_path d) \<longleftrightarrow>
    set (map (\<lambda>d. (Unified, da_id d, da_method d, da_path d)) deferred) \<subseteq>
    set (map (\<lambda>op. (op_contract op, op_id op, op_method op, op_path op)) operations)"
    unfolding operation_key_of_def by (simp add: image_subset_iff image_iff) metis
  ultimately show ?thesis unfolding inventory_ok_def by simp
qed

text \<open>No marker is lost or counted twice: the rows list every operation once, sorted by path, method
  and id, and their marker counts add up to the number of markers on the tests.\<close>

theorem coverage_rows_account_for_all_markers:
  assumes "build_operation_coverage operations deferred (build_marker_counts markers) source = Inr rows"
  shows "map (\<lambda>r. (cv_contract r, cv_id r, cv_method r, cv_path r)) rows =
      map (\<lambda>op. (op_contract op, op_id op, op_method op, op_path op)) (sort_key operation_sort_key operations) \<and>
    sum_list (map cv_marker_count rows) = length markers \<and>
    (\<forall>r \<in> set rows. cv_placeholder_count r \<le> cv_marker_count r \<and>
       (cv_status r = Covered \<longrightarrow> cv_placeholder_count r < cv_marker_count r) \<and>
       (cv_status r = MissingTest \<longrightarrow> cv_marker_count r = 0))"
proof -
  let ?ms = "map (\<lambda>(c, i, p). (OperationKey c i, p)) markers"
  let ?ops = "sort_key operation_sort_key operations"
  have ok: "inventory_ok operations deferred (counts_table ?ms)"
    and rows: "rows = map (coverage_row deferred (counts_table ?ms) source) ?ops"
    using assms validate_inventory_iff
    by (auto simp: build_operation_coverage_def bindE_ok build_marker_counts_def)
  have row: "cv_marker_count (coverage_row deferred (counts_table ?ms) source op) =
      marker_count (counts_of ?ms (operation_key_of op))"
    "cv_placeholder_count (coverage_row deferred (counts_table ?ms) source op) =
      placeholder_marker_count (counts_of ?ms (operation_key_of op))" for op
    using count_zero [of "operation_key_of op" ?ms]
    by (auto simp: coverage_row_def counts_table_lookup no_markers_def Let_def)
  have "distinct (map operation_key_of operations)"
    and keys: "set (map fst (counts_table ?ms)) \<subseteq> set (map operation_key_of operations)"
    using ok by (simp_all add: inventory_ok_def)
  then have "distinct (map operation_key_of ?ops)"
    using mset_eq_imp_distinct_iff [of "map operation_key_of ?ops" "map operation_key_of operations"] by simp
  moreover have "fst ` set ?ms \<subseteq> set (map operation_key_of ?ops)"
    using keys by (simp add: counts_table_eq image_image)
  ultimately have "sum_list (map (\<lambda>k. marker_count (counts_of ?ms k)) (map operation_key_of ?ops)) = length ?ms"
    by (rule markers_partitioned)
  then have "sum_list (map cv_marker_count rows) = length markers"
    by (simp add: rows o_def row)
  moreover have "map (\<lambda>r. (cv_contract r, cv_id r, cv_method r, cv_path r)) rows =
      map (\<lambda>op. (op_contract op, op_id op, op_method op, op_path op)) ?ops"
    by (simp add: rows coverage_row_def Let_def)
  moreover have "\<forall>r \<in> set rows. cv_placeholder_count r \<le> cv_marker_count r \<and>
       (cv_status r = Covered \<longrightarrow> cv_placeholder_count r < cv_marker_count r) \<and>
       (cv_status r = MissingTest \<longrightarrow> cv_marker_count r = 0)"
  proof
    fix r assume "r \<in> set rows"
    then obtain op where r: "r = coverage_row deferred (counts_table ?ms) source op" by (auto simp: rows)
    have "cv_placeholder_count r \<le> cv_marker_count r" by (simp add: r row counts_of_placeholders)
    then show "cv_placeholder_count r \<le> cv_marker_count r \<and>
       (cv_status r = Covered \<longrightarrow> cv_placeholder_count r < cv_marker_count r) \<and>
       (cv_status r = MissingTest \<longrightarrow> cv_marker_count r = 0)"
      by (auto simp: r coverage_row_def coverage_status_of_def Let_def split: if_splits)
  qed
  ultimately show ?thesis by blast
qed

theorem coverage_rows_account_for_all_markers_witness:
  "\<exists>rows. build_operation_coverage
     [\<lparr>op_contract = Unified, op_id = ''a'', op_method = GET, op_path = ''/a''\<rparr>,
      \<lparr>op_contract = Unified, op_id = ''b'', op_method = GET, op_path = ''/b''\<rparr>] []
     (build_marker_counts [(Unified, ''b'', True), (Unified, ''b'', False)]) Snapshot = Inr rows \<and>
     sum_list (map cv_marker_count rows) = 2"
proof -
  let ?ops = "[\<lparr>op_contract = Unified, op_id = ''a'', op_method = GET, op_path = ''/a''\<rparr>,
      \<lparr>op_contract = Unified, op_id = ''b'', op_method = GET, op_path = ''/b''\<rparr>]"
  let ?ms = "[(Unified, ''b'', True), (Unified, ''b'', False)]"
  have "\<not> (case build_operation_coverage ?ops [] (build_marker_counts ?ms) Snapshot of Inl e \<Rightarrow> True | Inr r \<Rightarrow> False)"
    by code_simp
  then obtain rows where rows: "build_operation_coverage ?ops [] (build_marker_counts ?ms) Snapshot = Inr rows"
    by (auto split: sum.splits)
  from coverage_rows_account_for_all_markers [OF this] have "sum_list (map cv_marker_count rows) = 2" by simp
  with rows show ?thesis by blast
qed

text \<open>The documented 403 responses are partitioned: when the report is built, every operation is
  either covered by a test that is not a placeholder and has no deferral, or deferred for the reason of
  the one deferral that matches its id, method and path and has no marker at all.\<close>

theorem forbidden_responses_partitioned:
  assumes "build_forbidden_response_coverage operations deferrals (counts_table markers) = Inr rows"
  shows "map fc_id rows = map op_id (sort_key operation_sort_key operations) \<and>
    distinct (map fc_id rows) \<and> distinct (map fd_id deferrals) \<and>
    (\<forall>r \<in> set rows.
       (fc_status r = ForbiddenCovered \<and> fc_reason r = None \<and> fc_id r \<notin> set (map fd_id deferrals) \<and>
          fc_placeholder_count r < fc_marker_count r) \<or>
       (fc_status r = ForbiddenDeferred \<and> fc_marker_count r = 0 \<and>
          (\<exists>d \<in> set deferrals. fc_id r = fd_id d \<and> fc_method r = fd_method d \<and> fc_path r = fd_path d \<and>
             fc_reason r = Some (fd_reason d))))"
proof -
  let ?counts = "counts_table markers"
  let ?by_id = "operations_by_id operations"
  obtain t where len: "length ?by_id = length operations"
    and only: "\<forall>(i, c) \<in> set ?counts. \<not> only_placeholders c"
    and t: "foldE (deferral_step ?by_id) [] deferrals = Inr t"
    and overlap: "\<forall>i \<in> set (map fst (filter (\<lambda>(i, c). has_evidence c) ?counts)). map_of t i = None"
    and miss: "\<forall>i \<in> set (map fst ?by_id). i \<in> set (map fst (filter (\<lambda>(i, c). has_evidence c) ?counts)) \<or> map_of t i \<noteq> None"
    and rows: "rows = map (forbidden_row ?counts t) (sort_key operation_sort_key operations)"
    using assms unfolding build_forbidden_ok by (auto simp: filter_empty_conv)
  have ids: "distinct (map op_id operations)" using operations_by_id_distinct [OF len] .
  note D = deferral_fold [OF t]
  have reason: "map_of t i = Some d \<longleftrightarrow> d \<in> set deferrals \<and> fd_id d = i" for i d
    using D map_of_by_id [of fd_id deferrals] by auto
  have evidence: "i \<in> set (map fst (filter (\<lambda>(i, c). has_evidence c) ?counts)) \<longleftrightarrow>
      has_evidence (counts_of markers i)" for i
  proof -
    have "has_evidence (counts_of markers i) \<Longrightarrow> i \<in> fst ` set markers"
      using count_zero [of i markers] by (cases "i \<in> fst ` set markers") (simp_all add: has_evidence_def no_markers_def)
    then show ?thesis by (force simp: counts_table_eq)
  qed
  have lookup: "fc_marker_count (forbidden_row ?counts t op) = marker_count (counts_of markers (op_id op))"
    "fc_placeholder_count (forbidden_row ?counts t op) = placeholder_marker_count (counts_of markers (op_id op))" for op
    using count_zero [of "op_id op" markers]
    by (auto simp: forbidden_row_def counts_table_lookup no_markers_def Let_def)
  have row: "(fc_status r = ForbiddenCovered \<and> fc_reason r = None \<and> fc_id r \<notin> set (map fd_id deferrals) \<and>
          fc_placeholder_count r < fc_marker_count r) \<or>
       (fc_status r = ForbiddenDeferred \<and> fc_marker_count r = 0 \<and>
          (\<exists>d \<in> set deferrals. fc_id r = fd_id d \<and> fc_method r = fd_method d \<and> fc_path r = fd_path d \<and>
             fc_reason r = Some (fd_reason d)))" if mem: "r \<in> set rows" for r
  proof -
    obtain op where op: "op \<in> set operations" and r: "r = forbidden_row ?counts t op"
      using mem unfolding rows by auto
    have known: "op_id op \<in> set (map fst ?by_id)" using operations_by_id_keys [of operations] op by simp
    show ?thesis
    proof (cases "map_of t (op_id op)")
      case None
      then have "has_evidence (counts_of markers (op_id op))" using miss known evidence by blast
      moreover have "op_id op \<notin> set (map fd_id deferrals)"
      proof
        assume "op_id op \<in> set (map fd_id deferrals)"
        then obtain d where "d \<in> set deferrals" "fd_id d = op_id op" by auto
        then have "map_of t (op_id op) = Some d" using reason by blast
        with None show False by simp
      qed
      ultimately show ?thesis
        using None lookup [of op] by (simp add: r forbidden_row_def has_evidence_def Let_def)
    next
      case (Some d)
      then have d: "d \<in> set deferrals" "fd_id d = op_id op" using reason by blast+
      obtain op' where op': "map_of ?by_id (fd_id d) = Some op'" "op_method op' = fd_method d" "op_path op' = fd_path d"
        using D d(1) by blast
      have "map_of ?by_id (op_id op) = Some op" using operations_by_id_lookup [OF ids] op by blast
      with op'(1) d(2) have "op' = op" by simp
      have "\<not> has_evidence (counts_of markers (op_id op))"
      proof
        assume "has_evidence (counts_of markers (op_id op))"
        then have "map_of t (op_id op) = None" using overlap evidence by blast
        with Some show False by simp
      qed
      moreover have "\<not> only_placeholders (counts_of markers (op_id op))"
        using only count_zero [of "op_id op" markers]
        by (cases "op_id op \<in> fst ` set markers") (auto simp: counts_table_eq only_placeholders_def no_markers_def)
      ultimately have "marker_count (counts_of markers (op_id op)) = 0"
        using counts_of_placeholders [of markers "op_id op"] by (simp add: has_evidence_def only_placeholders_def)
      then show ?thesis
        using Some d op' \<open>op' = op\<close> lookup [of op]
        by (auto simp: r forbidden_row_def Let_def intro!: bexI [of _ d])
    qed
  qed
  have same: "map fc_id rows = map op_id (sort_key operation_sort_key operations)"
    by (simp add: rows forbidden_row_def Let_def)
  moreover have "distinct (map fc_id rows)"
    unfolding same using ids mset_eq_imp_distinct_iff [of "map op_id (sort_key operation_sort_key operations)" "map op_id operations"]
    by simp
  ultimately show ?thesis using D row by blast
qed

theorem forbidden_responses_partitioned_witness:
  "\<exists>rows. build_forbidden_response_coverage
     [\<lparr>op_contract = Unified, op_id = ''a'', op_method = GET, op_path = ''/a''\<rparr>,
      \<lparr>op_contract = Unified, op_id = ''b'', op_method = PUT, op_path = ''/b''\<rparr>]
     [\<lparr>fd_id = ''b'', fd_method = PUT, fd_path = ''/b'', fd_reason = GlobalMutationNotAuthorized\<rparr>]
     (counts_table [(''a'', False), (''a'', True)]) = Inr rows \<and> map fc_id rows = [''a'', ''b'']"
proof -
  let ?ops = "[\<lparr>op_contract = Unified, op_id = ''a'', op_method = GET, op_path = ''/a''\<rparr>,
      \<lparr>op_contract = Unified, op_id = ''b'', op_method = PUT, op_path = ''/b''\<rparr>]"
  let ?ds = "[\<lparr>fd_id = ''b'', fd_method = PUT, fd_path = ''/b'', fd_reason = GlobalMutationNotAuthorized\<rparr>]"
  let ?ms = "[(''a'', False), (''a'', True)]"
  have "\<not> (case build_forbidden_response_coverage ?ops ?ds (counts_table ?ms) of Inl e \<Rightarrow> True | Inr r \<Rightarrow> False)"
    by code_simp
  then obtain rows where rows: "build_forbidden_response_coverage ?ops ?ds (counts_table ?ms) = Inr rows"
    by (auto split: sum.splits)
  have "map op_id (sort_key operation_sort_key ?ops) = [''a'', ''b'']" by code_simp
  with forbidden_responses_partitioned [OF rows] rows show ?thesis by auto
qed

end
