(* ===== verification/Marker_Policy.thy ===== *)
theory Marker_Policy
  imports Auth Coverage
begin

text \<open>
  The collection hook of \<open>src/api_tests/pytest_plugin.py\<close>: the markers of the collected test items, the
  policy that skips an item in an environment, and the session fixtures.  pytest itself is a library: an
  item is its markers in the order of \<open>iter_markers\<close>, the closest first, and a mark is its name with the
  values of its arguments.
\<close>

record mark =
  mark_name :: string
  mark_args :: "json list"
  mark_kwargs :: object

type_synonym item = "mark list"

datatype usage_error =
    UsageArguments string
  | UsageEmptyId string
  | UsageKeywords
  | UsageContract
  | UnhashableContract
  | UsageMissingMarkers "string list"

section \<open>Markers at run time\<close>

definition non_empty_string :: "json \<Rightarrow> string option" where
  "non_empty_string j = (case as_string j of None \<Rightarrow> None | Some s \<Rightarrow> if s = [] then None else Some s)"

text \<open>The membership test of a set raises \<open>TypeError\<close> for a list or a dictionary.\<close>

definition runtime_contract :: "json \<Rightarrow> usage_error + contract_key" where
  "runtime_contract raw =
     (case raw of
        JList xs \<Rightarrow> Inl UnhashableContract
      | JObj d \<Rightarrow> Inl UnhashableContract
      | _ \<Rightarrow> requireE (Option.bind (as_string raw) contract_of_name) UsageContract)"

definition runtime_openapi_operation :: "mark \<Rightarrow> usage_error + (contract_key \<times> string)" where
  "runtime_openapi_operation m =
     (case mark_args m of
        [operation_id] \<Rightarrow>
          bindE (requireE (non_empty_string operation_id) (UsageEmptyId ''openapi'')) (\<lambda>i.
          if \<not> set (map fst (mark_kwargs m)) \<subseteq> {''contract''} then Inl UsageKeywords
          else bindE (runtime_contract (jget_default (mark_kwargs m) ''contract'' (JStr ''unified''))) (\<lambda>c.
            Inr (c, i)))
      | _ \<Rightarrow> Inl (UsageArguments ''openapi''))"

definition runtime_id :: "string \<Rightarrow> mark \<Rightarrow> usage_error + string" where
  "runtime_id name m =
     (case mark_args m of
        [i] \<Rightarrow>
          if mark_kwargs m \<noteq> [] then Inl (UsageArguments name)
          else requireE (non_empty_string i) (UsageEmptyId name)
      | _ \<Rightarrow> Inl (UsageArguments name))"

definition session_gateway_case_id :: "mark \<Rightarrow> usage_error + string" where
  "session_gateway_case_id m = runtime_id ''session_gateway_case'' m"

definition runtime_forbidden_response_operation :: "mark \<Rightarrow> usage_error + string" where
  "runtime_forbidden_response_operation m = runtime_id ''forbidden_response'' m"

definition iter_markers :: "item \<Rightarrow> string \<Rightarrow> mark list" where
  "iter_markers item name = filter (\<lambda>m. mark_name m = name) item"

definition marker_names :: "item \<Rightarrow> string list" where
  "marker_names item = map mark_name item"

section \<open>The policy\<close>

datatype skip_reason =
    NotTheLocalTarget
  | NotBrowserPreprovisioned
  | DestructiveDisabled
  | MutationDisabled
  | ProductionExcludesAdmin
  | StagingNeedsSecondary

definition marker_policy_skip_reason :: "environment_config \<Rightarrow> string list \<Rightarrow> skip_reason option" where
  "marker_policy_skip_reason config names =
     (if ''admin_deactivation'' \<in> set names \<and>
         (env_name config \<noteq> LOCAL_ENVIRONMENT_NAME \<or> environment_type_of config \<noteq> Local \<or> origin config \<noteq> LOCAL_ORIGIN)
      then Some NotTheLocalTarget
      else if ''admin_deactivation'' \<in> set names \<and> auth_mode_of (auth config) \<noteq> BrowserPreprovisioned
      then Some NotBrowserPreprovisioned
      else if ''destructive'' \<in> set names \<and> \<not> allow_destructive config then Some DestructiveDisabled
      else if ''mutation'' \<in> set names \<and> \<not> allow_mutation config then Some MutationDisabled
      else if environment_type_of config = Production \<and> (''admin'' \<in> set names \<or> ''admin_auth_smoke'' \<in> set names)
      then Some ProductionExcludesAdmin
      else if environment_type_of config = Staging \<and> ''authorization'' \<in> set names \<and>
              auth_mode_of (auth config) = SuppliedSessions \<and>
              secondary_session_env (supplied_sessions (auth config)) = None
      then Some StagingNeedsSecondary
      else None)"

definition validate_admin_deactivation_markers :: "item \<Rightarrow> usage_error + unit" where
  "validate_admin_deactivation_markers item =
     (if ''admin_deactivation'' \<notin> set (marker_names item) then Inr ()
      else let missing = filter (\<lambda>n. n \<notin> set (marker_names item))
                 [''admin'', ''authorization'', ''destructive'', ''mutation''] in
        if missing \<noteq> [] then Inl (UsageMissingMarkers missing) else Inr ())"

section \<open>Collection\<close>

text \<open>One item: the entries of its operation markers, and the reason it is skipped.\<close>

definition collect_item :: "environment_config \<Rightarrow> item \<Rightarrow> usage_error + (marker_entry list \<times> skip_reason option)" where
  "collect_item config item =
     (let is_placeholder = iter_markers item ''placeholder'' \<noteq> [] in
      bindE (mapE runtime_openapi_operation (iter_markers item ''openapi'')) (\<lambda>operations.
      bindE (mapE runtime_forbidden_response_operation (iter_markers item ''forbidden_response'')) (\<lambda>_.
      bindE (mapE session_gateway_case_id (iter_markers item ''session_gateway_case'')) (\<lambda>_.
      bindE (validate_admin_deactivation_markers item) (\<lambda>_.
      Inr (map (\<lambda>(contract, i). (contract, i, is_placeholder)) operations,
           marker_policy_skip_reason config (marker_names item)))))))"

definition pytest_collection_modifyitems ::
  "environment_config \<Rightarrow> item list \<Rightarrow> usage_error + (skip_reason option list \<times> (operation_key \<times> marker_counts) list)" where
  "pytest_collection_modifyitems config items =
     bindE (mapE (collect_item config) items) (\<lambda>collected.
       Inr (map snd collected, build_marker_counts (concat (map fst collected))))"

definition pytest_configure ::
  "(string \<Rightarrow> environment_config option) \<Rightarrow> string \<Rightarrow> auth_mode option \<Rightarrow> config_error + environment_config" where
  "pytest_configure read_config name session_mode =
     bindE (load_environment read_config name) (\<lambda>config. with_session_mode config session_mode)"

section \<open>The session fixtures\<close>

datatype 'a outcome = Provided 'a | Failed | Skipped

text \<open>Every authentication error ends the fixture; only a missing secondary session outside the local
  environment, and any administrator in production, is a skip.\<close>

definition finish_session :: "environment_config \<Rightarrow> 'b auth_error + session \<Rightarrow> session outcome" where
  "finish_session config r =
     (case r of
        Inr s \<Rightarrow> Provided s
      | Inl MissingSecondarySession \<Rightarrow> if environment_type_of config = Local then Failed else Skipped
      | Inl e \<Rightarrow> Failed)"

definition session_fixture ::
  "('w, 'b) browser_functions \<Rightarrow> environment_config \<Rightarrow> session_role \<Rightarrow> lookup \<Rightarrow> credentials \<Rightarrow>
     node \<times> 'w \<Rightarrow> session outcome \<times> (node \<times> 'w)" where
  "session_fixture fs config role environ generated s =
     (if role = Admin \<and> environment_type_of config = Production then (Skipped, s)
      else case acquire_session fs config role environ generated s of (r, t) \<Rightarrow> (finish_session config r, t))"

section \<open>What runs\<close>

definition runs :: "environment_config \<Rightarrow> item list \<Rightarrow> item \<Rightarrow> bool" where
  "runs config items item \<longleftrightarrow>
     (\<exists>reasons counts. pytest_collection_modifyitems config items = Inr (reasons, counts) \<and> (item, None) \<in> set (zip items reasons))"

lemma collected_items:
  assumes "pytest_collection_modifyitems config items = Inr (reasons, counts)"
  obtains collected where "list_all2 (\<lambda>item c. collect_item config item = Inr c) items collected"
    "reasons = map snd collected" "counts = build_marker_counts (concat (map fst collected))"
  using assms by (auto simp: pytest_collection_modifyitems_def ok_iff)

lemma collected_reason:
  assumes "list_all2 (\<lambda>item c. collect_item config item = Inr c) items collected" "(item, r) \<in> set (zip items (map snd collected))"
  shows "\<exists>entries. collect_item config item = Inr (entries, r)"
  using assms by (induction rule: list_all2_induct) auto

lemma runs_item:
  assumes "runs config items item"
  shows "validate_admin_deactivation_markers item = Inr () \<and> marker_policy_skip_reason config (marker_names item) = None"
proof -
  obtain reasons counts where c: "pytest_collection_modifyitems config items = Inr (reasons, counts)"
    and z: "(item, None) \<in> set (zip items reasons)" using assms by (auto simp: runs_def)
  obtain collected where l: "list_all2 (\<lambda>item c. collect_item config item = Inr c) items collected"
    and r: "reasons = map snd collected" using collected_items [OF c] by metis
  obtain entries where "collect_item config item = Inr (entries, None)"
    using collected_reason [OF l] z r by blast
  then show ?thesis by (auto simp: collect_item_def ok_iff Let_def)
qed

lemma configured_policy:
  assumes "pytest_configure read_config name mode = Inr config"
  shows "validate_environment_policy config = Inr config"
proof -
  obtain c where l: "load_environment read_config name = Inr c" and m: "with_session_mode c mode = Inr config"
    using assms by (auto simp: pytest_configure_def ok_iff)
  obtain raw where "validate_environment raw = Inr config"
    using with_session_mode_cases [OF m] loaded_validated [OF l] by blast
  then show ?thesis by (rule validate_environment_parts(9))
qed

text \<open>
  C27. In production only read-only tests of ordinary users run: with a configuration the plugin loaded,
  overridden or not, no collected item that runs carries a mutation, destructive, administrator or
  deactivation marker.
\<close>

theorem production_runs_only_safe_tests:
  assumes "pytest_configure read_config name mode = Inr config" "environment_type_of config = Production"
    and "runs config items item"
  shows "set (marker_names item) \<inter> {''mutation'', ''destructive'', ''admin'', ''admin_auth_smoke'', ''admin_deactivation''} = {}"
proof -
  have "\<not> allow_mutation config \<and> \<not> allow_destructive config"
    using configured_policy [OF assms(1)] assms(2)
    by (auto simp: validate_environment_policy_def Let_def split: if_splits)
  moreover have "marker_policy_skip_reason config (marker_names item) = None" using runs_item [OF assms(3)] by blast
  ultimately show ?thesis
    using assms(2) unfolding marker_policy_skip_reason_def by (simp split: if_splits)
qed

text \<open>
  A deactivation test that runs has everything its target needs: the environment is the exact local
  one with a browser login and both permissions, so acquiring the disposable target is refused neither for
  the mode, nor for the permissions, nor for the target.
\<close>

theorem deactivation_runs_only_where_a_target_can_be_owned:
  assumes "runs config items item" "''admin_deactivation'' \<in> set (marker_names item)"
  shows "ensure_exact_local_target config = Inr () \<and> auth_mode_of (auth config) = BrowserPreprovisioned \<and>
    allow_mutation config \<and> allow_destructive config"
proof -
  note item = runs_item [OF assms(1)]
  have "''mutation'' \<in> set (marker_names item) \<and> ''destructive'' \<in> set (marker_names item)"
    using item assms(2) unfolding validate_admin_deactivation_markers_def Let_def by (simp split: if_splits)
  with item assms(2) show ?thesis
    unfolding marker_policy_skip_reason_def ensure_exact_local_target_def by (simp split: if_splits)
qed

section \<open>Markers at run time and in the syntax\<close>

definition literal_expr :: "json \<Rightarrow> ast_expr" where
  "literal_expr j = (case j of
     JStr s \<Rightarrow> Constant (StrConst s) | JList xs \<Rightarrow> OtherExpr | JObj d \<Rightarrow> OtherExpr | _ \<Rightarrow> Constant OtherConst)"

text \<open>A mark as its decorator: without arguments it is not called.\<close>

definition mark_expr :: "mark \<Rightarrow> ast_expr" where
  "mark_expr m =
     (let func = Attribute (Attribute (Name ''pytest'') ''mark'') (mark_name m) in
      if mark_args m = [] \<and> mark_kwargs m = [] then func
      else Call func (map literal_expr (mark_args m)) (map (\<lambda>(k, v). (Some k, literal_expr v)) (mark_kwargs m)))"

lemma string_literal_expr: "string_literal (literal_expr j) = as_string j"
  by (cases j) (simp_all add: literal_expr_def as_string_def)

lemma non_empty_string_ok: "non_empty_string j = Some i \<longleftrightarrow> j = JStr i \<and> i \<noteq> []"
  by (auto simp: non_empty_string_def split: option.splits)

lemma runtime_contract_ok: "runtime_contract j = Inr c \<longleftrightarrow> (\<exists>n. j = JStr n \<and> contract_of_name n = Some c)"
  by (cases j) (auto simp: runtime_contract_def as_string_def ok_iff)

lemma one_keyword:
  "distinct (map fst d) \<Longrightarrow> set (map fst d) \<subseteq> {k} \<Longrightarrow> d = [] \<or> (\<exists>v. d = [(k, v)])"
  by (cases d; cases "tl d") auto

text \<open>A mark the hook accepts is read from the syntax as the same operation, and no other mark is read.\<close>

lemma marker_of_mark:
  assumes "mark_name m = ''openapi'' \<Longrightarrow> runtime_openapi_operation m = Inr (c, i)" "distinct (map fst (mark_kwargs m))"
  shows "openapi_marker_operation (mark_expr m) = Inr (if mark_name m = ''openapi'' then Some (OperationKey c i) else None)"
proof (cases "mark_name m = ''openapi''")
  case True
  then have r: "runtime_openapi_operation m = Inr (c, i)" by (rule assms(1))
  then have a: "mark_args m = [JStr i]" "i \<noteq> []" "set (map fst (mark_kwargs m)) \<subseteq> {''contract''}"
    "runtime_contract (jget_default (mark_kwargs m) ''contract'' (JStr ''unified'')) = Inr c"
    by (auto simp: runtime_openapi_operation_def ok_iff non_empty_string_ok split: list.splits if_splits)
  have "openapi_marker_contract (map (\<lambda>(k, v). (Some k, literal_expr v)) (mark_kwargs m)) = Inr c"
    using one_keyword [OF assms(2) a(3)]
  proof
    assume "mark_kwargs m = []"
    then show ?thesis
      using a(4) by (auto simp: runtime_contract_ok openapi_marker_contract_def jget_default_def contract_of_name_def)
  next
    assume "\<exists>v. mark_kwargs m = [(''contract'', v)]"
    then show ?thesis
      using a(4) by (auto simp: runtime_contract_ok openapi_marker_contract_def jget_default_def string_literal_expr)
  qed
  then show ?thesis
    using True a(1)
    by (simp add: mark_expr_def openapi_marker_operation_def is_pytest_marker_def string_literal_expr as_string_def)
next
  case False
  then show ?thesis
    by (simp add: mark_expr_def openapi_marker_operation_def is_pytest_marker_def Let_def)
qed

lemma markers_of_marks:
  assumes "mapE runtime_openapi_operation (iter_markers item ''openapi'') = Inr ops"
    and "list_all (\<lambda>m. distinct (map fst (mark_kwargs m))) item"
  shows "markers_of openapi_marker_operation (map mark_expr item) = Inr (map (\<lambda>(c, i). OperationKey c i) ops)"
  using assms
proof (induction item arbitrary: ops)
  case Nil
  then show ?case by (simp add: iter_markers_def markers_of_def List.map_filter_def)
next
  case (Cons m item)
  show ?case
  proof (cases "mark_name m = ''openapi''")
    case True
    then obtain c i ops' where o: "runtime_openapi_operation m = Inr (c, i)" "ops = (c, i) # ops'"
      "mapE runtime_openapi_operation (iter_markers item ''openapi'') = Inr ops'"
      using Cons.prems(1) by (auto simp: iter_markers_def bindE_ok simp del: mapE_ok)
    have "openapi_marker_operation (mark_expr m) = Inr (Some (OperationKey c i))"
      using marker_of_mark [of m c i] o(1) True Cons.prems(2) by simp
    moreover have "markers_of openapi_marker_operation (map mark_expr item) = Inr (map (\<lambda>(c, i). OperationKey c i) ops')"
      using Cons.IH [OF o(3)] Cons.prems(2) by simp
    ultimately show ?thesis
      by (auto simp: markers_of_def bindE_ok o(2) List.map_filter_def simp del: mapE_ok)
  next
    case False
    then have "openapi_marker_operation (mark_expr m) = Inr None"
      using marker_of_mark [of m] Cons.prems(2) by simp
    moreover have "markers_of openapi_marker_operation (map mark_expr item) = Inr (map (\<lambda>(c, i). OperationKey c i) ops)"
      using Cons.IH Cons.prems False by (simp add: iter_markers_def)
    ultimately show ?thesis
      by (auto simp: markers_of_def bindE_ok List.map_filter_def simp del: mapE_ok)
  qed
qed

lemma placeholder_of_marks:
  assumes "list_all (\<lambda>m. mark_name m = ''placeholder'' \<longrightarrow> mark_args m = [] \<and> mark_kwargs m = []) item"
  shows "is_placeholder_function (map mark_expr item) \<longleftrightarrow> iter_markers item ''placeholder'' \<noteq> []"
  using assms
  by (induction item) (auto simp: is_placeholder_function_def iter_markers_def mark_expr_def is_pytest_marker_def Let_def)

lemma collect_item_entries:
  assumes "collect_item config item = Inr r"
  shows "\<exists>ops. mapE runtime_openapi_operation (iter_markers item ''openapi'') = Inr ops \<and>
    fst r = map (\<lambda>(contract, i). (contract, i, iter_markers item ''placeholder'' \<noteq> [])) ops"
proof (cases "mapE runtime_openapi_operation (iter_markers item ''openapi'')")
  case (Inl e)
  then show ?thesis using assms by (simp add: collect_item_def)
next
  case (Inr ops)
  then show ?thesis using assms unfolding collect_item_def Let_def Inr bindE_simps(2) by (auto simp: bindE_ok)
qed


section \<open>Witnesses\<close>

definition sample_items :: "item list" where
  "sample_items =
     [[\<lparr>mark_name = ''openapi'', mark_args = [JStr ''listUsers''], mark_kwargs = []\<rparr>,
       \<lparr>mark_name = ''readonly'', mark_args = [], mark_kwargs = []\<rparr>],
      [\<lparr>mark_name = ''openapi'', mark_args = [JStr ''deactivateUser''], mark_kwargs = [(''contract'', JStr ''session_gateway'')]\<rparr>,
       \<lparr>mark_name = ''placeholder'', mark_args = [], mark_kwargs = []\<rparr>,
       \<lparr>mark_name = ''admin_deactivation'', mark_args = [], mark_kwargs = []\<rparr>,
       \<lparr>mark_name = ''admin'', mark_args = [], mark_kwargs = []\<rparr>,
       \<lparr>mark_name = ''authorization'', mark_args = [], mark_kwargs = []\<rparr>,
       \<lparr>mark_name = ''mutation'', mark_args = [], mark_kwargs = []\<rparr>,
       \<lparr>mark_name = ''destructive'', mark_args = [], mark_kwargs = []\<rparr>]]"

definition sample_counts :: "(operation_key \<times> marker_counts) list" where
  "sample_counts = [(OperationKey SessionGateway ''deactivateUser'', \<lparr>marker_count = 1, placeholder_marker_count = 1\<rparr>),
     (OperationKey Unified ''listUsers'', \<lparr>marker_count = 1, placeholder_marker_count = 0\<rparr>)]"

definition permissive_config :: environment_config where
  "permissive_config = sample_config\<lparr>allow_mutation := True, allow_destructive := True\<rparr>"

lemma production_runs_only_safe_tests_witness:
  "set (marker_names (hd sample_items)) \<inter> {''mutation'', ''destructive'', ''admin'', ''admin_auth_smoke'', ''admin_deactivation''} = {}"
proof -
  have "load_environment (\<lambda>_. Some production_example) ''production'' = Inr production_example"
    by (simp add: load_environment_def environment_path_def production_example_valid)
  then have c: "pytest_configure (\<lambda>_. Some production_example) ''production'' None = Inr production_example"
    by (simp add: pytest_configure_def with_session_mode_def)
  have p: "environment_type_of production_example = Production" by code_simp
  have "pytest_collection_modifyitems production_example sample_items =
    Inr ([None, Some NotTheLocalTarget], snd (projr (pytest_collection_modifyitems production_example sample_items)))"
    by code_simp
  then have "runs production_example sample_items (hd sample_items)"
    unfolding runs_def by (intro exI conjI, assumption) (simp add: sample_items_def)
  from production_runs_only_safe_tests [OF c p this] show ?thesis .
qed

lemma permissive_collection:
  "pytest_collection_modifyitems permissive_config sample_items = Inr ([None, None], sample_counts)"
  by code_simp

lemma deactivation_runs_only_where_a_target_can_be_owned_witness:
  "ensure_exact_local_target permissive_config = Inr () \<and> allow_destructive permissive_config"
proof -
  have r: "runs permissive_config sample_items (last sample_items)"
    unfolding runs_def using permissive_collection by (intro exI conjI, assumption) (simp add: sample_items_def)
  have "''admin_deactivation'' \<in> set (marker_names (last sample_items))" by code_simp
  from deactivation_runs_only_where_a_target_can_be_owned [OF r this] show ?thesis by blast
qed


end
