(* ===== verification/Inventory.thy ===== *)
theory Inventory
  imports Coverage
begin

text \<open>
  \<open>src/api_tests/session_gateway_inventory.py\<close>: the inventory of the gateway's inbound routes and their
  test cases, its validation against the documented operations and the test markers, and the coverage
  report with its claims.  The YAML parser is a library: the inventory is the value it returned.
\<close>

datatype route_owner = Controller | SpringSecurity | Actuator | Springdoc
datatype route_exposure = PublicRoute | MeshInternal | DeploymentOperational | DevelopmentOnly
datatype inventory_status = CaseCovered | CaseDeferred | CaseUntestable

fun owner_name :: "route_owner \<Rightarrow> string" where
  "owner_name Controller = ''controller''"
| "owner_name SpringSecurity = ''spring_security''"
| "owner_name Actuator = ''actuator''"
| "owner_name Springdoc = ''springdoc''"

fun exposure_name :: "route_exposure \<Rightarrow> string" where
  "exposure_name PublicRoute = ''public''"
| "exposure_name MeshInternal = ''mesh_internal''"
| "exposure_name DeploymentOperational = ''deployment_operational''"
| "exposure_name DevelopmentOnly = ''development_only''"

fun inventory_status_name :: "inventory_status \<Rightarrow> string" where
  "inventory_status_name CaseCovered = ''covered''"
| "inventory_status_name CaseDeferred = ''deferred''"
| "inventory_status_name CaseUntestable = ''untestable''"

definition OWNERS :: "route_owner list" where
  "OWNERS = [Controller, SpringSecurity, Actuator, Springdoc]"

definition EXPOSURES :: "route_exposure list" where
  "EXPOSURES = [PublicRoute, MeshInternal, DeploymentOperational, DevelopmentOnly]"

definition SCENARIO_STATUSES :: "inventory_status list" where
  "SCENARIO_STATUSES = [CaseCovered, CaseDeferred, CaseUntestable]"

definition OPERATION_STATUSES :: "coverage_status list" where
  "OPERATION_STATUSES = [Covered, Deferred, MissingTest, Placeholder]"

record indirect_proof =
  ip_scenario :: string
  ip_prerequisite :: string
  ip_limitation :: string

record gateway_case =
  gc_id :: string
  gc_behavior :: string
  gc_status :: inventory_status
  gc_reason :: "string option"
  gc_prerequisite :: "string option"
  gc_boundary :: "string option"
  gc_proof :: "indirect_proof option"

record gateway_route =
  gr_method :: http_method
  gr_path :: string
  gr_owner :: route_owner
  gr_exposure :: route_exposure
  gr_operation_id :: "string option"
  gr_cases :: "gateway_case list"

text \<open>A coverage row carries the fields of its case, those of its route and the number of markers.\<close>

record case_coverage =
  cc_case :: gateway_case
  cc_method :: http_method
  cc_path :: string
  cc_owner :: route_owner
  cc_exposure :: route_exposure
  cc_operation_id :: "string option"
  cc_marker_count :: nat

datatype inventory_error =
    OpenApiFailed openapi_error
  | InventoryNotMapping
  | RoutesNotList
  | RouteNotMapping nat
  | UnhashableValue
  | RouteMethod nat
  | RoutePath nat
  | RouteOwner nat
  | RouteExposure nat
  | RouteOperationId nat
  | RouteWithoutCases nat
  | CaseNotMapping
  | CaseWithoutId
  | CaseWithoutBehavior string
  | CaseStatus string
  | CaseField string string
  | CoveredDeclaresDeferral string
  | DeferredIncomplete string
  | DeferredDeclaresBoundary string
  | UntestableIncomplete string
  | UntestableDeclaresPrerequisite string
  | ProofOnTestable string
  | ProofNotMapping string
  | ProofUnknownFields "string list"
  | ProofWithout string
  | DuplicateCase string
  | UnrecognizedCaseMarkers "string list"
  | MarkersOnNonCovered "string list"
  | DuplicateRoute http_method string
  | OperationAbsent string
  | StaleRoute string
  | DuplicateInventoryOperation string
  | NotPublic string
  | OperationsMissing "string list"
  | LogoutMissing
  | NotAnObject string
  | Without302
  | Stale200
  | LocationSchema
  | NoOperations
  | NoScenarios
  | OtherContracts "string list"

section \<open>Loading\<close>

text \<open>\<open>value not in _SET\<close>: an unhashable value raises, any other value is looked up by its name.\<close>

definition named_member :: "('a \<Rightarrow> string) \<Rightarrow> 'a list \<Rightarrow> inventory_error \<Rightarrow> json \<Rightarrow> inventory_error + 'a" where
  "named_member name xs e j =
     (case j of
        JList ys \<Rightarrow> Inl UnhashableValue
      | JObj d \<Rightarrow> Inl UnhashableValue
      | _ \<Rightarrow> requireE (Option.bind (as_string j) (\<lambda>s. List.find (\<lambda>x. name x = s) xs)) e)"

definition non_empty :: "json \<Rightarrow> string option" where
  "non_empty j = (case as_string j of None \<Rightarrow> None | Some s \<Rightarrow> if s = [] then None else Some s)"

definition non_blank :: "json \<Rightarrow> string option" where
  "non_blank j = (case as_string j of None \<Rightarrow> None | Some s \<Rightarrow> if strip s = [] then None else Some s)"

text \<open>A field that may be absent and otherwise passes the test.\<close>

definition optional_field :: "(json \<Rightarrow> string option) \<Rightarrow> inventory_error \<Rightarrow> json \<Rightarrow> inventory_error + string option" where
  "optional_field test e j =
     (if j = JNull then Inr None else bindE (requireE (test j) e) (\<lambda>s. Inr (Some s)))"

definition validate_classification ::
    "string \<Rightarrow> inventory_status \<Rightarrow> string option \<Rightarrow> string option \<Rightarrow> string option \<Rightarrow> bool \<Rightarrow> inventory_error + unit" where
  "validate_classification case_id status reason prerequisite boundary has_proof =
     bindE (case status of
         CaseCovered \<Rightarrow>
           if reason \<noteq> None \<or> prerequisite \<noteq> None \<or> boundary \<noteq> None then Inl (CoveredDeclaresDeferral case_id)
           else Inr ()
       | CaseDeferred \<Rightarrow>
           if reason = None \<or> prerequisite = None then Inl (DeferredIncomplete case_id)
           else if boundary \<noteq> None then Inl (DeferredDeclaresBoundary case_id) else Inr ()
       | CaseUntestable \<Rightarrow>
           if reason = None \<or> boundary = None then Inl (UntestableIncomplete case_id)
           else if prerequisite \<noteq> None then Inl (UntestableDeclaresPrerequisite case_id) else Inr ())
       (\<lambda>_. if has_proof \<and> status \<noteq> CaseUntestable then Inl (ProofOnTestable case_id) else Inr ())"

definition load_optional_indirect_proof :: "string \<Rightarrow> json \<Rightarrow> inventory_error + indirect_proof option" where
  "load_optional_indirect_proof case_id raw =
     (if raw = JNull then Inr None
      else bindE (requireE (as_object raw) (ProofNotMapping case_id)) (\<lambda>d.
        let extra = sorted_keys (filter (\<lambda>k. k \<notin> {''scenario'', ''prerequisite'', ''limitation''}) (map fst d)) in
        if extra \<noteq> [] then Inl (ProofUnknownFields extra)
        else
        bindE (requireE (non_blank (jget d ''limitation'')) (ProofWithout ''limitation'')) (\<lambda>limitation.
        bindE (requireE (non_blank (jget d ''prerequisite'')) (ProofWithout ''prerequisite'')) (\<lambda>prerequisite.
        bindE (requireE (non_blank (jget d ''scenario'')) (ProofWithout ''scenario'')) (\<lambda>scenario.
        Inr (Some \<lparr>ip_scenario = scenario, ip_prerequisite = prerequisite, ip_limitation = limitation\<rparr>))))))"

definition load_case :: "json \<Rightarrow> inventory_error + gateway_case" where
  "load_case raw_case =
     bindE (requireE (as_object raw_case) CaseNotMapping) (\<lambda>d.
     bindE (requireE (non_empty (jget d ''id'')) CaseWithoutId) (\<lambda>case_id.
     bindE (requireE (non_empty (jget d ''behavior'')) (CaseWithoutBehavior case_id)) (\<lambda>behavior.
     bindE (named_member inventory_status_name SCENARIO_STATUSES (CaseStatus case_id) (jget d ''status'')) (\<lambda>status.
     bindE (optional_field non_blank (CaseField case_id ''reason'') (jget d ''reason'')) (\<lambda>reason.
     bindE (optional_field non_blank (CaseField case_id ''prerequisite'') (jget d ''prerequisite'')) (\<lambda>prerequisite.
     bindE (optional_field non_blank (CaseField case_id ''boundary'') (jget d ''boundary'')) (\<lambda>boundary.
     bindE (validate_classification case_id status reason prerequisite boundary
              (jget d ''optional_indirect_proof'' \<noteq> JNull)) (\<lambda>_.
     bindE (load_optional_indirect_proof case_id (jget d ''optional_indirect_proof'')) (\<lambda>proof.
     Inr \<lparr>gc_id = case_id, gc_behavior = behavior, gc_status = status, gc_reason = reason,
          gc_prerequisite = prerequisite, gc_boundary = boundary, gc_proof = proof\<rparr>)))))))))"

definition load_route :: "nat \<Rightarrow> json \<Rightarrow> inventory_error + gateway_route" where
  "load_route index raw_route =
     bindE (requireE (as_object raw_route) (RouteNotMapping index)) (\<lambda>d.
     bindE (named_member method_name METHODS (RouteMethod index) (jget d ''method'')) (\<lambda>m.
     bindE (requireE (case as_string (jget d ''path'') of
                        None \<Rightarrow> None | Some p \<Rightarrow> if startswith p ''/'' then Some p else None) (RoutePath index)) (\<lambda>path.
     bindE (named_member owner_name OWNERS (RouteOwner index) (jget d ''owner'')) (\<lambda>owner.
     bindE (named_member exposure_name EXPOSURES (RouteExposure index) (jget d ''exposure'')) (\<lambda>exposure.
     bindE (optional_field non_empty (RouteOperationId index) (jget d ''openapi_operation_id'')) (\<lambda>operation_id.
     bindE (requireE (case as_list (jget d ''cases'') of
                        None \<Rightarrow> None | Some cs \<Rightarrow> if cs = [] then None else Some cs) (RouteWithoutCases index)) (\<lambda>raw_cases.
     bindE (mapE load_case raw_cases) (\<lambda>cases.
     Inr \<lparr>gr_method = m, gr_path = path, gr_owner = owner, gr_exposure = exposure,
          gr_operation_id = operation_id, gr_cases = cases\<rparr>))))))))"

text \<open>The loop over the routes: the routes so far and the case ids seen.\<close>

definition case_id_step :: "string list \<Rightarrow> gateway_case \<Rightarrow> inventory_error + string list" where
  "case_id_step seen c = (if gc_id c \<in> set seen then Inl (DuplicateCase (gc_id c)) else Inr (gc_id c # seen))"

definition route_load_step ::
    "gateway_route list \<times> string list \<Rightarrow> nat \<times> json \<Rightarrow> inventory_error + (gateway_route list \<times> string list)" where
  "route_load_step st indexed =
     bindE (load_route (fst indexed) (snd indexed)) (\<lambda>route.
     bindE (foldE case_id_step (snd st) (gr_cases route)) (\<lambda>seen.
     Inr (fst st @ [route], seen)))"

definition load_session_gateway_inventory :: "json \<Rightarrow> inventory_error + gateway_route list" where
  "load_session_gateway_inventory raw_inventory =
     bindE (requireE (as_object raw_inventory) InventoryNotMapping) (\<lambda>d.
     bindE (requireE (as_list (jget d ''routes'')) RoutesNotList) (\<lambda>raw_routes.
     bindE (foldE route_load_step ([], []) (List.enumerate 1 raw_routes)) (\<lambda>st.
     Inr (fst st))))"

section \<open>Validation against the documents and the markers\<close>

record validation_state =
  vs_operations :: "string list"
  vs_routes :: "(http_method \<times> string) list"
  vs_rows :: "case_coverage list"

definition cases_by_id :: "gateway_route list \<Rightarrow> (string \<times> gateway_case) list" where
  "cases_by_id routes = foldl (\<lambda>d c. AList.update (gc_id c) c d) [] (concat (map gr_cases routes))"

definition validate_route_matches_operation :: "gateway_route \<Rightarrow> openapi_operation \<Rightarrow> inventory_error + unit" where
  "validate_route_matches_operation route op =
     (if gr_method route \<noteq> op_method op \<or> gr_path route \<noteq> op_path op then Inl (StaleRoute (op_id op)) else Inr ())"

definition case_row :: "(string \<times> nat) list \<Rightarrow> gateway_route \<Rightarrow> gateway_case \<Rightarrow> case_coverage" where
  "case_row counts route c =
     \<lparr>cc_case = c, cc_method = gr_method route, cc_path = gr_path route, cc_owner = gr_owner route,
      cc_exposure = gr_exposure route, cc_operation_id = gr_operation_id route,
      cc_marker_count = (case map_of counts (gc_id c) of None \<Rightarrow> 0 | Some n \<Rightarrow> n)\<rparr>"

definition row_step ::
    "(string \<times> nat) list \<Rightarrow> gateway_route \<Rightarrow> case_coverage list \<Rightarrow> gateway_case \<Rightarrow> inventory_error + case_coverage list" where
  "row_step counts route rows c =
     (if gc_status c \<in> {CaseCovered, CaseDeferred} \<and> gr_exposure route \<noteq> PublicRoute then Inl (NotPublic (gc_id c))
      else Inr (rows @ [case_row counts route c]))"

definition operation_of_route ::
    "(string \<times> openapi_operation) list \<Rightarrow> string list \<Rightarrow> gateway_route \<Rightarrow> inventory_error + string list" where
  "operation_of_route by_id seen route =
     (case gr_operation_id route of
        None \<Rightarrow> Inr seen
      | Some i \<Rightarrow>
          bindE (requireE (map_of by_id i) (OperationAbsent i)) (\<lambda>op.
          bindE (validate_route_matches_operation route op) (\<lambda>_.
          if op_id op \<in> set seen then Inl (DuplicateInventoryOperation (op_id op))
          else Inr (op_id op # seen))))"

definition route_step ::
    "(string \<times> openapi_operation) list \<Rightarrow> (string \<times> nat) list \<Rightarrow> validation_state \<Rightarrow> gateway_route
      \<Rightarrow> inventory_error + validation_state" where
  "route_step by_id counts st route =
     (if (gr_method route, gr_path route) \<in> set (vs_routes st) then Inl (DuplicateRoute (gr_method route) (gr_path route))
      else
      bindE (operation_of_route by_id (vs_operations st) route) (\<lambda>seen.
      bindE (foldE (row_step counts route) (vs_rows st) (gr_cases route)) (\<lambda>rows.
      Inr \<lparr>vs_operations = seen, vs_routes = (gr_method route, gr_path route) # vs_routes st, vs_rows = rows\<rparr>)))"

definition row_sort_key :: "case_coverage \<Rightarrow> string \<times> http_method \<times> string" where
  "row_sort_key r = (cc_path r, cc_method r, gc_id (cc_case r))"

definition from_openapi :: "openapi_error + 'a \<Rightarrow> inventory_error + 'a" where
  "from_openapi r = (case r of Inl e \<Rightarrow> Inl (OpenApiFailed e) | Inr x \<Rightarrow> Inr x)"

definition validate_session_gateway_inventory ::
    "gateway_route list \<Rightarrow> object \<Rightarrow> (string \<times> nat) list \<Rightarrow> inventory_error + case_coverage list" where
  "validate_session_gateway_inventory routes doc counts =
     bindE (from_openapi (iter_operations SessionGateway doc)) (\<lambda>operations.
       let by_id = operations_by_id operations;
           known = cases_by_id routes;
           unknown_markers = sorted_keys (filter (\<lambda>i. map_of known i = None) (map fst counts));
           noncovered = sort (filter (\<lambda>i. gc_status (the (map_of known i)) \<noteq> CaseCovered) (map fst counts)) in
       if unknown_markers \<noteq> [] then Inl (UnrecognizedCaseMarkers unknown_markers)
       else if noncovered \<noteq> [] then Inl (MarkersOnNonCovered noncovered)
       else
       bindE (foldE (route_step by_id counts) \<lparr>vs_operations = [], vs_routes = [], vs_rows = []\<rparr> routes) (\<lambda>st.
         let missing = sorted_keys (filter (\<lambda>i. i \<notin> set (vs_operations st)) (map fst by_id)) in
         if missing \<noteq> [] then Inl (OperationsMissing missing)
         else Inr (sort_key row_sort_key (vs_rows st))))"

definition mapping_member :: "object \<Rightarrow> string \<Rightarrow> inventory_error + object" where
  "mapping_member d k = requireE (as_object (jget d k)) (NotAnObject k)"

definition validate_session_gateway_contract :: "object \<Rightarrow> inventory_error + unit" where
  "validate_session_gateway_contract doc =
     bindE (from_openapi (iter_operations SessionGateway doc)) (\<lambda>operations.
     bindE (case map_of (operations_by_id operations) ''logout'' of
              None \<Rightarrow> Inl LogoutMissing
            | Some op \<Rightarrow> if op_method op \<noteq> GET \<or> op_path op \<noteq> ''/logout'' then Inl LogoutMissing else Inr ()) (\<lambda>_.
     bindE (mapping_member doc ''paths'') (\<lambda>paths.
     bindE (mapping_member paths ''/logout'') (\<lambda>logout_path.
     bindE (mapping_member logout_path ''get'') (\<lambda>logout_operation.
     bindE (mapping_member logout_operation ''responses'') (\<lambda>responses.
     if ''302'' \<notin> set (map fst responses) then Inl Without302
     else if ''200'' \<in> set (map fst responses) then Inl Stale200
     else
     bindE (mapping_member responses ''302'') (\<lambda>response.
     bindE (mapping_member response ''headers'') (\<lambda>headers.
     bindE (mapping_member headers ''Location'') (\<lambda>location.
     bindE (mapping_member location ''schema'') (\<lambda>schema.
     if jget schema ''type'' \<noteq> JStr ''string'' \<or> jget schema ''format'' \<noteq> JStr ''uri'' then Inl LocationSchema
     else Inr ()))))))))))"

section \<open>The report\<close>

record 'st classification =
  cl_status :: 'st
  cl_count :: nat
  cl_ids :: "string list"

record coverage_claims =
  all_routes_inventoried :: bool
  all_executable_covered :: bool
  full_behavior_coverage :: bool
  uncovered_executable_ids :: "string list"

record gateway_report =
  rp_claims :: coverage_claims
  rp_operation_classes :: "coverage_status classification list"
  rp_operations :: "operation_coverage list"
  rp_route_count :: nat
  rp_scenario_classes :: "inventory_status classification list"
  rp_scenarios :: "case_coverage list"

definition classify :: "('r \<Rightarrow> 'st) \<Rightarrow> ('r \<Rightarrow> string) \<Rightarrow> 'r list \<Rightarrow> 'st \<Rightarrow> 'st classification" where
  "classify status_of id_of rows status =
     (let ids = sort (map id_of (filter (\<lambda>r. status_of r = status) rows))
      in \<lparr>cl_status = status, cl_count = length ids, cl_ids = ids\<rparr>)"

definition operation_classification :: "operation_coverage list \<Rightarrow> coverage_status \<Rightarrow> coverage_status classification" where
  "operation_classification operations status = classify cv_status cv_id operations status"

definition scenario_classification :: "case_coverage list \<Rightarrow> inventory_status \<Rightarrow> inventory_status classification" where
  "scenario_classification scenarios status =
     classify (\<lambda>r. gc_status (cc_case r)) (\<lambda>r. gc_id (cc_case r)) scenarios status"

definition build_session_gateway_coverage_report ::
    "operation_coverage list \<Rightarrow> case_coverage list \<Rightarrow> inventory_error + gateway_report" where
  "build_session_gateway_coverage_report operations scenarios =
     (let wrong = sort (map cv_id (filter (\<lambda>r. cv_contract r \<noteq> SessionGateway) operations));
          uncovered = sort (map (\<lambda>r. gc_id (cc_case r))
            (filter (\<lambda>r. gc_status (cc_case r) = CaseCovered \<and> cc_marker_count r = 0) scenarios)) in
      if operations = [] then Inl NoOperations
      else if scenarios = [] then Inl NoScenarios
      else if wrong \<noteq> [] then Inl (OtherContracts wrong)
      else Inr
       \<lparr>rp_claims =
          \<lparr>all_routes_inventoried = True,
           all_executable_covered = (uncovered = []),
           full_behavior_coverage = (uncovered = [] \<and> list_all (\<lambda>r. cv_status r = Covered) operations \<and>
             list_all (\<lambda>r. gc_status (cc_case r) = CaseCovered) scenarios),
           uncovered_executable_ids = uncovered\<rparr>,
        rp_operation_classes = map (operation_classification operations) OPERATION_STATUSES,
        rp_operations = operations,
        rp_route_count = length (remdups (map (\<lambda>r. (cc_method r, cc_path r)) scenarios)),
        rp_scenario_classes = map (scenario_classification scenarios) SCENARIO_STATUSES,
        rp_scenarios = scenarios\<rparr>)"

definition bool_text :: "bool \<Rightarrow> string" where
  "bool_text b = (if b then ''true'' else ''false'')"

definition class_line :: "string \<Rightarrow> ('st \<Rightarrow> string) \<Rightarrow> 'st classification \<Rightarrow> string" where
  "class_line prefix_text name c =
     prefix_text @ name (cl_status c) @ '': '' @ nat_str (cl_count c) @ ''; ids: '' @
       (if cl_ids c = [] then ''(none)'' else join '', '' (cl_ids c))"

definition session_gateway_coverage_lines :: "gateway_report \<Rightarrow> string list" where
  "session_gateway_coverage_lines report =
     map (class_line ''session_gateway_operation_'' status_name) (rp_operation_classes report) @
     [''session_gateway_routes: '' @ nat_str (rp_route_count report)] @
     map (class_line ''session_gateway_scenario_'' inventory_status_name) (rp_scenario_classes report) @
     [''all_known_session_gateway_inbound_routes_inventoried: '' @ bool_text (all_routes_inventoried (rp_claims report)),
      ''all_currently_executable_public_session_gateway_cases_covered: '' @ bool_text (all_executable_covered (rp_claims report)),
      ''full_session_gateway_behavior_coverage: '' @ bool_text (full_behavior_coverage (rp_claims report))]"

section \<open>What is loaded\<close>

lemma optional_field_ok [ok_iff]:
  "optional_field test e j = Inr v \<longleftrightarrow> (if j = JNull then v = None else \<exists>s. test j = Some s \<and> v = Some s)"
  by (auto simp: optional_field_def ok_iff)

lemma non_blank_ok: "non_blank j = Some s \<longleftrightarrow> j = JStr s \<and> strip s \<noteq> []"
  by (auto simp: non_blank_def split: option.splits)

lemma non_empty_ok: "non_empty j = Some s \<longleftrightarrow> j = JStr s \<and> s \<noteq> []"
  by (auto simp: non_empty_def split: option.splits)

definition filled :: "string option \<Rightarrow> bool" where
  "filled v \<longleftrightarrow> (case v of None \<Rightarrow> False | Some s \<Rightarrow> strip s \<noteq> [])"

text \<open>What the classification of a case must say.\<close>

definition case_ok :: "gateway_case \<Rightarrow> bool" where
  "case_ok c \<longleftrightarrow> gc_id c \<noteq> [] \<and> gc_behavior c \<noteq> [] \<and>
     (case gc_status c of
        CaseCovered \<Rightarrow> gc_reason c = None \<and> gc_prerequisite c = None \<and> gc_boundary c = None \<and> gc_proof c = None
      | CaseDeferred \<Rightarrow> filled (gc_reason c) \<and> filled (gc_prerequisite c) \<and> gc_boundary c = None \<and> gc_proof c = None
      | CaseUntestable \<Rightarrow> filled (gc_reason c) \<and> gc_prerequisite c = None \<and> filled (gc_boundary c))"

lemma optional_filled:
  "optional_field non_blank e j = Inr v \<Longrightarrow> v \<noteq> None \<Longrightarrow> filled v"
  by (auto simp: ok_iff non_blank_ok filled_def split: if_splits)

lemma load_case_ok: "load_case raw = Inr c \<Longrightarrow> case_ok c"
proof -
  assume "load_case raw = Inr c"
  then obtain d i b st reason prerequisite boundary pf x where
    d: "non_empty (jget d ''id'') = Some i" "non_empty (jget d ''behavior'') = Some b"
    "optional_field non_blank (CaseField i ''reason'') (jget d ''reason'') = Inr reason"
    "optional_field non_blank (CaseField i ''prerequisite'') (jget d ''prerequisite'') = Inr prerequisite"
    "optional_field non_blank (CaseField i ''boundary'') (jget d ''boundary'') = Inr boundary"
    "validate_classification i st reason prerequisite boundary (jget d ''optional_indirect_proof'' \<noteq> JNull) = Inr x"
    "load_optional_indirect_proof i (jget d ''optional_indirect_proof'') = Inr pf"
    "Inr \<lparr>gc_id = i, gc_behavior = b, gc_status = st, gc_reason = reason,
          gc_prerequisite = prerequisite, gc_boundary = boundary, gc_proof = pf\<rparr> = (Inr c :: inventory_error + gateway_case)"
    unfolding load_case_def bindE_ok requireE_ok by blast
  from d(8) have c: "c = \<lparr>gc_id = i, gc_behavior = b, gc_status = st, gc_reason = reason,
          gc_prerequisite = prerequisite, gc_boundary = boundary, gc_proof = pf\<rparr>" by simp
  note f = optional_filled [OF d(3)] optional_filled [OF d(4)] optional_filled [OF d(5)]
  have "pf = None" if "jget d ''optional_indirect_proof'' = JNull"
    using d(7) that by (simp add: load_optional_indirect_proof_def)
  then show ?thesis
    using d(1,2,6) f unfolding c case_ok_def validate_classification_def
    by (cases st) (auto simp: bindE_ok non_empty_ok split: if_splits)
qed

definition route_ok :: "gateway_route \<Rightarrow> bool" where
  "route_ok r \<longleftrightarrow> startswith (gr_path r) ''/'' \<and> gr_cases r \<noteq> [] \<and> list_all case_ok (gr_cases r) \<and> gr_operation_id r \<noteq> Some []"

lemma load_route_ok: "load_route n raw = Inr r \<Longrightarrow> route_ok r"
proof -
  assume "load_route n raw = Inr r"
  then obtain d m path owner exposure op raw_cases cases where
    d: "(case as_string (jget d ''path'') of None \<Rightarrow> None | Some p \<Rightarrow> if startswith p ''/'' then Some p else None) = Some path"
    "optional_field non_empty (RouteOperationId n) (jget d ''openapi_operation_id'') = Inr op"
    "(case as_list (jget d ''cases'') of None \<Rightarrow> None | Some cs \<Rightarrow> if cs = [] then None else Some cs) = Some raw_cases"
    "mapE load_case raw_cases = Inr cases"
    "Inr \<lparr>gr_method = m, gr_path = path, gr_owner = owner, gr_exposure = exposure, gr_operation_id = op, gr_cases = cases\<rparr> =
      (Inr r :: inventory_error + gateway_route)"
    unfolding load_route_def bindE_ok requireE_ok by blast
  from d(5) have r: "r = \<lparr>gr_method = m, gr_path = path, gr_owner = owner, gr_exposure = exposure,
      gr_operation_id = op, gr_cases = cases\<rparr>" by simp
  have "startswith path ''/''" using d(1) by (auto split: option.splits if_splits)
  moreover have "op \<noteq> Some []" using d(2) by (auto simp: ok_iff non_empty_ok split: if_splits)
  moreover have "raw_cases \<noteq> []" using d(3) by (auto split: option.splits if_splits)
  then have "cases \<noteq> []" using mapE_length [OF d(4)] by auto
  moreover have "\<forall>c \<in> set cases. case_ok c"
    using d(4) load_case_ok unfolding mapE_ok by (rule list_all2_right)
  ultimately show ?thesis unfolding r route_ok_def by (simp add: list_all_iff)
qed

abbreviation "case_ids routes \<equiv> map gc_id (concat (map gr_cases routes))"

lemma case_id_fold:
  "foldE case_id_step seen cs = Inr seen' \<longleftrightarrow>
     distinct (map gc_id cs) \<and> set (map gc_id cs) \<inter> set seen = {} \<and> seen' = rev (map gc_id cs) @ seen"
  by (induction cs arbitrary: seen) (auto simp: case_id_step_def ok_iff)

lemma load_routes_ok:
  assumes "foldE route_load_step ([], []) xs = Inr st"
  shows "list_all route_ok (fst st) \<and> set (snd st) = set (case_ids (fst st)) \<and> distinct (case_ids (fst st))"
  using assms
proof (rule foldE_rule)
  show "list_all route_ok (fst ([], [])) \<and> set (snd ([], [])) = set (case_ids (fst ([], []))) \<and> distinct (case_ids (fst ([], [])))"
    by simp
next
  fix ys x zs and u v :: "gateway_route list \<times> string list"
  assume u: "list_all route_ok (fst u) \<and> set (snd u) = set (case_ids (fst u)) \<and> distinct (case_ids (fst u))"
    and "route_load_step u x = Inr v"
  then obtain r seen where r: "load_route (fst x) (snd x) = Inr r" "foldE case_id_step (snd u) (gr_cases r) = Inr seen"
    "v = (fst u @ [r], seen)" by (auto simp: route_load_step_def ok_iff simp del: mapE_ok)
  with u load_route_ok [OF r(1)] r(2) show
    "list_all route_ok (fst v) \<and> set (snd v) = set (case_ids (fst v)) \<and> distinct (case_ids (fst v))"
    unfolding case_id_fold by auto
qed

text \<open>
  Every inventory that loads is well formed: the case ids are distinct over all routes, every route has
  an absolute path and a case, a covered case declares no excuse, a deferred one a reason and a
  prerequisite, an untestable one a reason and a boundary, and only an untestable one a proof.
\<close>

theorem loaded_inventory_well_formed:
  assumes "load_session_gateway_inventory raw = Inr routes"
  shows "distinct (case_ids routes) \<and> list_all route_ok routes"
  using assms load_routes_ok by (fastforce simp: load_session_gateway_inventory_def ok_iff simp del: mapE_ok)

section \<open>What is validated\<close>

abbreviation "all_rows counts routes \<equiv> concat (map (\<lambda>r. map (case_row counts r) (gr_cases r)) routes)"

definition public_ok :: "gateway_route \<Rightarrow> gateway_case \<Rightarrow> bool" where
  "public_ok r c \<longleftrightarrow> gc_status c = CaseUntestable \<or> gr_exposure r = PublicRoute"

lemma row_fold:
  "foldE (row_step counts r) rows cs = Inr rows' \<longleftrightarrow> list_all (public_ok r) cs \<and> rows' = rows @ map (case_row counts r) cs"
proof (induction cs arbitrary: rows)
  case Nil
  then show ?case by auto
next
  case (Cons c cs)
  have "row_step counts r rows c = (if public_ok r c then Inr (rows @ [case_row counts r c]) else Inl (NotPublic (gc_id c)))"
    by (cases "gc_status c") (simp_all add: row_step_def public_ok_def)
  then show ?case using Cons.IH by simp
qed

definition matches_operation :: "(string \<times> openapi_operation) list \<Rightarrow> gateway_route \<Rightarrow> bool" where
  "matches_operation by_id r \<longleftrightarrow> (case gr_operation_id r of None \<Rightarrow> True
     | Some i \<Rightarrow> (case map_of by_id i of None \<Rightarrow> False | Some op \<Rightarrow> gr_method r = op_method op \<and> gr_path r = op_path op))"

abbreviation "route_keys routes \<equiv> map (\<lambda>r. (gr_method r, gr_path r)) routes"
abbreviation "named_operations routes \<equiv> List.map_filter gr_operation_id routes"

lemma operation_of_route_ok:
  assumes "\<And>i op. map_of by_id i = Some op \<Longrightarrow> op_id op = i"
  shows "operation_of_route by_id seen r = Inr seen' \<longleftrightarrow> matches_operation by_id r \<and>
    (case gr_operation_id r of None \<Rightarrow> seen' = seen | Some i \<Rightarrow> i \<notin> set seen \<and> seen' = i # seen)"
proof (cases "gr_operation_id r")
  case (Some i)
  show ?thesis
  proof (cases "map_of by_id i")
    case None
    then show ?thesis by (simp add: operation_of_route_def matches_operation_def Some)
  next
    case op: (Some op)
    then have "op_id op = i" by (rule assms)
    then show ?thesis
      by (auto simp: operation_of_route_def matches_operation_def Some op validate_route_matches_operation_def ok_iff)
  qed
qed (auto simp: operation_of_route_def matches_operation_def)

lemma validate_loop:
  assumes by_id: "\<And>i op. map_of by_id i = Some op \<Longrightarrow> op_id op = i"
    and "foldE (route_step by_id counts) \<lparr>vs_operations = [], vs_routes = [], vs_rows = []\<rparr> routes = Inr st"
  shows "vs_rows st = all_rows counts routes \<and> set (vs_operations st) = set (named_operations routes) \<and>
    distinct (named_operations routes) \<and> set (vs_routes st) = set (route_keys routes) \<and> distinct (route_keys routes) \<and>
    list_all (matches_operation by_id) routes \<and> list_all (\<lambda>r. list_all (public_ok r) (gr_cases r)) routes"
    (is "?P routes st")
  using assms(2)
proof (rule foldE_rule [where P = ?P])
  show "?P [] \<lparr>vs_operations = [], vs_routes = [], vs_rows = []\<rparr>" by (simp add: List.map_filter_def)
next
  fix ys r zs u v
  assume u: "?P ys u" and "route_step by_id counts u r = Inr v"
  then obtain seen where s: "(gr_method r, gr_path r) \<notin> set (vs_routes u)" "operation_of_route by_id (vs_operations u) r = Inr seen"
    "list_all (public_ok r) (gr_cases r)"
    "v = \<lparr>vs_operations = seen, vs_routes = (gr_method r, gr_path r) # vs_routes u,
          vs_rows = vs_rows u @ map (case_row counts r) (gr_cases r)\<rparr>"
    by (auto simp: route_step_def ok_iff row_fold split: if_splits)
  have m: "matches_operation by_id r" using s(2) operation_of_route_ok [OF by_id] by blast
  have "set seen = set (named_operations (ys @ [r])) \<and> distinct (named_operations (ys @ [r]))"
  proof (cases "gr_operation_id r")
    case None
    then have "seen = vs_operations u" using s(2) operation_of_route_ok [OF by_id] by auto
    then show ?thesis using u None by (simp add: List.map_filter_def)
  next
    case (Some i)
    then have "i \<notin> set (vs_operations u)" "seen = i # vs_operations u"
      using s(2) operation_of_route_ok [OF by_id] by auto
    then show ?thesis using u Some by (auto simp: List.map_filter_def)
  qed
  then show "?P (ys @ [r]) v" using u s(1,3,4) m by auto
qed

lemma cases_by_id_keys: "map_of (cases_by_id routes) i = None \<longleftrightarrow> i \<notin> set (case_ids routes)"
proof -
  have "fst ` set (foldl (\<lambda>d c. AList.update (gc_id c) c d) d cs) = fst ` set d \<union> gc_id ` set cs" for d and cs :: "gateway_case list"
    by (induction cs arbitrary: d) (auto simp: update_keys)
  then show ?thesis by (simp add: cases_by_id_def map_of_eq_None_iff)
qed

lemma documented_ids_distinct: "iter_operations contract doc = Inr ops \<Longrightarrow> distinct (map op_id ops)"
  using validated_entries_iff by (fastforce simp: iter_operations_def ok_iff o_def)

lemma sum_list_sort_key: "sum_list (map f (sort_key k xs)) = sum_list (map (f :: 'a \<Rightarrow> nat) xs)"
proof -
  have "mset (map f (sort_key k xs)) = mset (map f xs)" by simp
  then show ?thesis by (metis sum_mset_sum_list)
qed

text \<open>The marker counts of distinct cases add up to the counts of all markers.\<close>

lemma marker_sum:
  fixes counts :: "('k \<times> nat) list"
  assumes "distinct ids" "distinct (map fst counts)" "set (map fst counts) \<subseteq> set ids"
  shows "sum_list (map (\<lambda>i. case map_of counts i of None \<Rightarrow> 0 | Some n \<Rightarrow> n) ids) = sum_list (map snd counts)"
proof -
  let ?f = "\<lambda>i. case map_of counts i of None \<Rightarrow> 0 | Some n \<Rightarrow> n"
  have "sum_list (map ?f ids) = sum ?f (set ids)" using assms(1) by (rule sum_list_distinct_conv_sum_set)
  also have "\<dots> = sum ?f (set (map fst counts))"
    using assms(3) by (intro sum.mono_neutral_right) (auto split: option.splits dest!: map_of_SomeD intro: rev_image_eqI)
  also have "\<dots> = sum_list (map ?f (map fst counts))" using assms(2) by (rule sum_list_distinct_conv_sum_set [symmetric])
  also have "map ?f (map fst counts) = map snd counts" using assms(2) by (induction counts) (auto simp: image_iff intro!: map_cong)
  finally show ?thesis .
qed

lemma validatedD:
  assumes "validate_session_gateway_inventory routes doc counts = Inr rows"
  obtains ops st where "iter_operations SessionGateway doc = Inr ops"
    "foldE (route_step (operations_by_id ops) counts) \<lparr>vs_operations = [], vs_routes = [], vs_rows = []\<rparr> routes = Inr st"
    "set (map fst counts) \<subseteq> set (case_ids routes)" "op_id ` set ops \<subseteq> set (vs_operations st)"
    "rows = sort_key row_sort_key (vs_rows st)"
proof -
  let ?init = "\<lparr>vs_operations = [], vs_routes = [], vs_rows = []\<rparr> :: validation_state"
  obtain ops where ops: "iter_operations SessionGateway doc = Inr ops"
    using assms by (auto simp: validate_session_gateway_inventory_def ok_iff from_openapi_def split: sum.splits)
  have v: "filter (\<lambda>i. map_of (cases_by_id routes) i = None) (map fst counts) = []"
    "\<exists>st. foldE (route_step (operations_by_id ops) counts) ?init routes = Inr st \<and>
      filter (\<lambda>i. i \<notin> set (vs_operations st)) (map fst (operations_by_id ops)) = [] \<and>
      rows = sort_key row_sort_key (vs_rows st)"
    using assms unfolding validate_session_gateway_inventory_def ops from_openapi_def
    by (auto simp: ok_iff Let_def split: if_splits)
  obtain st where st: "foldE (route_step (operations_by_id ops) counts) ?init routes = Inr st"
    "filter (\<lambda>i. i \<notin> set (vs_operations st)) (map fst (operations_by_id ops)) = []"
    "rows = sort_key row_sort_key (vs_rows st)" using v(2) by blast
  have "set (map fst counts) \<subseteq> set (case_ids routes)"
    using v(1) unfolding filter_empty_conv cases_by_id_keys by blast
  moreover have "op_id ` set ops \<subseteq> set (vs_operations st)"
    using st(2) operations_by_id_keys [of ops] unfolding filter_empty_conv by fastforce
  ultimately show ?thesis using that ops st(1,3) by blast
qed

text \<open>
  C39. A validated inventory accounts for everything: the rows are the cases of all routes with their
  markers, sorted; no two routes are the same; the routes that name an operation are exactly the documented
  operations, once each; a covered or deferred case is on a public route; and every marker is counted in
  exactly one row.
\<close>

theorem validated_inventory_accounts_for_everything:
  assumes "validate_session_gateway_inventory routes doc counts = Inr rows"
    and "distinct (case_ids routes)" "distinct (map fst counts)"
  shows "rows = sort_key row_sort_key (all_rows counts routes) \<and> distinct (route_keys routes) \<and>
    list_all (\<lambda>r. list_all (public_ok r) (gr_cases r)) routes \<and>
    (\<exists>ops. iter_operations SessionGateway doc = Inr ops \<and> mset (named_operations routes) = mset (map op_id ops) \<and>
       list_all (matches_operation (operations_by_id ops)) routes) \<and>
    sum_list (map cc_marker_count rows) = sum_list (map snd counts)"
proof -
  obtain ops st where v: "iter_operations SessionGateway doc = Inr ops"
    "foldE (route_step (operations_by_id ops) counts) \<lparr>vs_operations = [], vs_routes = [], vs_rows = []\<rparr> routes = Inr st"
    "set (map fst counts) \<subseteq> set (case_ids routes)" "op_id ` set ops \<subseteq> set (vs_operations st)"
    "rows = sort_key row_sort_key (vs_rows st)" using validatedD [OF assms(1)] by metis
  have d: "distinct (map op_id ops)" by (rule documented_ids_distinct [OF v(1)])
  have by_id: "map_of (operations_by_id ops) i = Some op \<Longrightarrow> op_id op = i" for i op
    using operations_by_id_lookup [OF d] by blast
  note loop = validate_loop [OF by_id v(2)]
  have "i \<in> op_id ` set ops" if i: "i \<in> set (named_operations routes)" for i
  proof -
    obtain r where "r \<in> set routes" "gr_operation_id r = Some i" using i by (auto simp: List.map_filter_def)
    then have "map_of (operations_by_id ops) i \<noteq> None"
      using loop by (auto simp: list_all_iff matches_operation_def split: option.splits)
    then show ?thesis by (simp add: operations_by_id_None)
  qed
  then have "set (named_operations routes) = set (map op_id ops)" using v(4) loop by auto
  moreover have dn: "distinct (named_operations routes)" using loop by blast
  ultimately have ms: "mset (named_operations routes) = mset (map op_id ops)"
    by (simp only: set_eq_iff_mset_eq_distinct [OF dn d])
  have rows: "rows = sort_key row_sort_key (all_rows counts routes)" using loop v(5) by (simp only: simp_thms)
  have "sum_list (map cc_marker_count rows) = sum_list (map cc_marker_count (all_rows counts routes))"
    unfolding rows by (rule sum_list_sort_key)
  also have "map cc_marker_count (all_rows counts routes) =
    map (\<lambda>i. case map_of counts i of None \<Rightarrow> 0 | Some n \<Rightarrow> n) (case_ids routes)"
    by (induction routes) (simp_all add: case_row_def)
  also have "sum_list \<dots> = sum_list (map snd counts)" by (rule marker_sum [OF assms(2,3) v(3)])
  finally have sum: "sum_list (map cc_marker_count rows) = sum_list (map snd counts)" .
  with rows loop v(1) ms show ?thesis by blast
qed

section \<open>What the report claims\<close>

lemma classes_partition:
  assumes "distinct statuses" "\<forall>r \<in> set rows. status_of r \<in> set statuses"
  shows "sum_list (map (\<lambda>st. cl_count (classify status_of id_of rows st)) statuses) = length rows"
  using assms
proof (induction statuses arbitrary: rows)
  case Nil
  then show ?case by simp
next
  case (Cons st statuses)
  let ?rest = "filter (\<lambda>r. status_of r \<noteq> st) rows"
  have "sum_list (map (\<lambda>t. cl_count (classify status_of id_of ?rest t)) statuses) = length ?rest"
    using Cons.prems by (intro Cons.IH) auto
  moreover have "cl_count (classify status_of id_of ?rest t) = cl_count (classify status_of id_of rows t)" if "t \<noteq> st" for t
  proof -
    have "filter (\<lambda>r. status_of r = t) ?rest = filter (\<lambda>r. status_of r = t) rows"
      using that by (simp add: filter_filter) (intro filter_cong, auto)
    then show ?thesis by (simp add: classify_def)
  qed
  then have "map (\<lambda>t. cl_count (classify status_of id_of ?rest t)) statuses = map (\<lambda>t. cl_count (classify status_of id_of rows t)) statuses"
    using Cons.prems(1) by (intro map_cong refl) (metis distinct.simps(2))
  ultimately have "sum_list (map (\<lambda>t. cl_count (classify status_of id_of rows t)) statuses) = length ?rest" by simp
  moreover have "cl_count (classify status_of id_of rows st) = length (filter (\<lambda>r. status_of r = st) rows)"
    by (simp add: classify_def)
  ultimately show ?case using sum_length_filter_compl [of "\<lambda>r. status_of r = st" rows] by simp
qed

text \<open>
  The report says what its rows say: the classes partition the operations and the scenarios, the
  executable claim holds exactly when every covered scenario has a marker, and full coverage is claimed
  exactly when moreover nothing is deferred, missing, a placeholder or untestable.
\<close>

theorem report_claims_match_the_rows:
  assumes "build_session_gateway_coverage_report operations scenarios = Inr report"
  shows "sum_list (map cl_count (rp_operation_classes report)) = length operations \<and>
    sum_list (map cl_count (rp_scenario_classes report)) = length scenarios \<and>
    (all_executable_covered (rp_claims report) \<longleftrightarrow>
       list_all (\<lambda>r. \<not> (gc_status (cc_case r) = CaseCovered \<and> cc_marker_count r = 0)) scenarios) \<and>
    (full_behavior_coverage (rp_claims report) \<longleftrightarrow>
       list_all (\<lambda>r. cv_status r = Covered) operations \<and>
       list_all (\<lambda>r. gc_status (cc_case r) = CaseCovered \<and> 0 < cc_marker_count r) scenarios)"
proof -
  have ops: "cv_status r \<in> set OPERATION_STATUSES" for r :: operation_coverage
    by (cases "cv_status r") (simp_all add: OPERATION_STATUSES_def)
  have scs: "gc_status (cc_case r) \<in> set SCENARIO_STATUSES" for r :: case_coverage
    by (cases "gc_status (cc_case r)") (simp_all add: SCENARIO_STATUSES_def)
  have d: "distinct OPERATION_STATUSES" "distinct SCENARIO_STATUSES"
    by (simp_all add: OPERATION_STATUSES_def SCENARIO_STATUSES_def)
  have "rp_operation_classes report = map (operation_classification operations) OPERATION_STATUSES"
    "rp_scenario_classes report = map (scenario_classification scenarios) SCENARIO_STATUSES"
    using assms by (auto simp: build_session_gateway_coverage_report_def Let_def split: if_splits)
  then have "sum_list (map cl_count (rp_operation_classes report)) = length operations"
    "sum_list (map cl_count (rp_scenario_classes report)) = length scenarios"
    using classes_partition [OF d(1), of operations cv_status cv_id] ops
      classes_partition [OF d(2), of scenarios "\<lambda>r. gc_status (cc_case r)" "\<lambda>r. gc_id (cc_case r)"] scs
    by (simp_all add: operation_classification_def scenario_classification_def o_def)
  moreover have "all_executable_covered (rp_claims report) \<longleftrightarrow>
      list_all (\<lambda>r. \<not> (gc_status (cc_case r) = CaseCovered \<and> cc_marker_count r = 0)) scenarios"
    using assms by (auto simp: build_session_gateway_coverage_report_def Let_def filter_empty_conv list_all_iff split: if_splits)
  moreover have "full_behavior_coverage (rp_claims report) \<longleftrightarrow>
      list_all (\<lambda>r. cv_status r = Covered) operations \<and>
      list_all (\<lambda>r. gc_status (cc_case r) = CaseCovered \<and> 0 < cc_marker_count r) scenarios"
    using assms by (auto simp: build_session_gateway_coverage_report_def Let_def filter_empty_conv list_all_iff split: if_splits)
  ultimately show ?thesis by blast
qed

section \<open>Witnesses\<close>

definition sample_document :: object where
  "sample_document = [(''paths'', JObj
     [(''/logout'', JObj [(''get'', JObj [(''operationId'', JStr ''logout'')])])])]"

definition sample_inventory :: json where
  "sample_inventory = JObj [(''routes'', JList
     [JObj [(''method'', JStr ''GET''), (''path'', JStr ''/logout''), (''owner'', JStr ''spring_security''),
            (''exposure'', JStr ''public''), (''openapi_operation_id'', JStr ''logout''),
            (''cases'', JList [JObj [(''id'', JStr ''out''), (''behavior'', JStr ''ends''), (''status'', JStr ''covered'')]])],
      JObj [(''method'', JStr ''GET''), (''path'', JStr ''/health''), (''owner'', JStr ''actuator''),
            (''exposure'', JStr ''mesh_internal''),
            (''cases'', JList [JObj [(''id'', JStr ''up''), (''behavior'', JStr ''ok''), (''status'', JStr ''untestable''),
               (''reason'', JStr ''mesh''), (''boundary'', JStr ''ingress'')]])]])]"

definition sample_routes :: "gateway_route list" where
  "sample_routes =
     [\<lparr>gr_method = GET, gr_path = ''/logout'', gr_owner = SpringSecurity, gr_exposure = PublicRoute,
       gr_operation_id = Some ''logout'',
       gr_cases = [\<lparr>gc_id = ''out'', gc_behavior = ''ends'', gc_status = CaseCovered, gc_reason = None,
         gc_prerequisite = None, gc_boundary = None, gc_proof = None\<rparr>]\<rparr>,
      \<lparr>gr_method = GET, gr_path = ''/health'', gr_owner = Actuator, gr_exposure = MeshInternal,
       gr_operation_id = None,
       gr_cases = [\<lparr>gc_id = ''up'', gc_behavior = ''ok'', gc_status = CaseUntestable, gc_reason = Some ''mesh'',
         gc_prerequisite = None, gc_boundary = Some ''ingress'', gc_proof = None\<rparr>]\<rparr>]"

lemma sample_inventory_loads: "load_session_gateway_inventory sample_inventory = Inr sample_routes"
  by code_simp

lemma loaded_inventory_well_formed_witness: "distinct (case_ids sample_routes) \<and> list_all route_ok sample_routes"
  by (rule loaded_inventory_well_formed [OF sample_inventory_loads])

definition sample_rows :: "case_coverage list" where
  "sample_rows = sort_key row_sort_key (all_rows [(''out'', 2)] sample_routes)"

lemma validated_inventory_accounts_for_everything_witness: "sum_list (map cc_marker_count sample_rows) = 2"
proof -
  have "validate_session_gateway_inventory sample_routes sample_document [(''out'', 2)] = Inr sample_rows"
    by code_simp
  moreover have "distinct (case_ids sample_routes)" by code_simp
  ultimately show ?thesis
    using validated_inventory_accounts_for_everything [of sample_routes sample_document "[(''out'', 2)]"] by simp
qed

lemma report_claims_match_the_rows_witness:
  "\<exists>report :: gateway_report. \<not> full_behavior_coverage (rp_claims report) \<and> all_executable_covered (rp_claims report) \<and>
    sum_list (map cl_count (rp_scenario_classes report)) = 2"
proof -
  let ?op = "\<lparr>cv_contract = SessionGateway, cv_id = ''logout'', cv_method = GET, cv_path = ''/logout'', cv_source = Snapshot,
    cv_deferred_admin = False, cv_marker_count = 2, cv_placeholder_count = 0, cv_status = Covered\<rparr>"
  have "\<not> isl (build_session_gateway_coverage_report [?op] sample_rows)" by code_simp
  then obtain report where r: "build_session_gateway_coverage_report [?op] sample_rows = Inr report"
    by (cases "build_session_gateway_coverage_report [?op] sample_rows") auto
  have rows: "\<not> list_all (\<lambda>r. gc_status (cc_case r) = CaseCovered \<and> 0 < cc_marker_count r) sample_rows"
    "list_all (\<lambda>r. \<not> (gc_status (cc_case r) = CaseCovered \<and> cc_marker_count r = 0)) sample_rows"
    "length sample_rows = 2" by code_simp+
  show ?thesis
    using report_claims_match_the_rows [OF r] rows by (metis (no_types, lifting))
qed

end
