(* ===== verification/Dependency_Contract.thy ===== *)
theory Dependency_Contract
  imports Json Py_Regex "HOL-Library.List_Lexorder" "HOL-Library.Product_Lexorder"
begin

text \<open>
  \<open>src/api_tests/dependency_contract.py\<close>: the dependency declarations, the checked-in lock and the frozen
  export.  A check appends its issues to a list and goes on; here it returns its value with the issues it
  appended, in order.  The TOML parser and the commands of \<open>uv\<close> are parameters: the parsed tables and the
  completed processes.
\<close>

definition PYPI_INDEX :: string where
  "PYPI_INDEX = ''https://pypi.org/simple''"

definition PROJECT_NAME :: string where
  "PROJECT_NAME = ''budget-analyzer-api-tests''"

definition REQUIRED_DEPENDENCY_GROUPS :: "string list" where
  "REQUIRED_DEPENDENCY_GROUPS = [''build'', ''dev'']"

section \<open>Patterns\<close>

definition alnum_or :: "string \<Rightarrow> char \<Rightarrow> bool" where
  "alnum_or extra c \<longleftrightarrow> is_ascii_alnum c \<or> c \<in> set extra"

abbreviation "not_newline \<equiv> Cls (\<lambda>c. c \<noteq> LF)"

definition NAME_RX :: rx where
  "NAME_RX = Grp ''name'' (Seq (Cls is_ascii_alnum) (Star (Cls (alnum_or ''._-''))))"

definition OPERATORS :: "string list" where
  "OPERATORS = [''==='', ''=='', ''~='', ''!='', ''<='', ''>='', ''<'', ''>'']"

definition REQUIREMENT_PATTERN :: rx where
  "REQUIREMENT_PATTERN = Seqs
     [NAME_RX,
      Opt (Seqs [Lit ''['', Plus (Cls (alnum_or ''._,-'')), Lit '']'']),
      Grp ''specifier'' (Seq (Alts (map Lit OPERATORS)) (Plus not_newline))]"

definition VERSION_TAIL :: rx where
  "VERSION_TAIL = Opt (Plus (Cls (alnum_or ''.-'')))"

definition EXACT_VERSION_PATTERN :: rx where
  "EXACT_VERSION_PATTERN = Seqs
     [Plus (Cls is_ascii_digit), Plus (Seq (Lit ''.'') (Plus (Cls is_ascii_digit))), VERSION_TAIL]"

definition BOUND_VERSION_PATTERN :: rx where
  "BOUND_VERSION_PATTERN = Seqs
     [Plus (Cls is_ascii_digit), Star (Seq (Lit ''.'') (Plus (Cls is_ascii_digit))), VERSION_TAIL]"

definition PINNED_EXPORT_PATTERN :: rx where
  "PINNED_EXPORT_PATTERN = Seqs
     [NAME_RX, Lit ''=='', Grp ''version'' (Plus (Cls (\<lambda>c. c \<notin> {CHR '';'', CHR 0x5C} \<and> \<not> is_space c)))]"

definition is_hex_digit :: "char \<Rightarrow> bool" where
  "is_hex_digit c \<longleftrightarrow> is_ascii_digit c \<or> c \<in> set ''abcdef''"

definition SHA256_PATTERN :: rx where
  "SHA256_PATTERN = Seq (Lit ''sha256:'') (Rep 64 (Cls is_hex_digit))"

definition canonicalize_name :: "string \<Rightarrow> string" where
  "canonicalize_name name = lower (sub_runs (\<lambda>c. c \<in> set ''-_.'') CHR ''-'' name)"

section \<open>Issues\<close>

type_synonym locked_requirement = "string \<times> string"

datatype issue =
    MissingFile string
  | InvalidToml string
  | NotTable string
  | InexactPythonPin
  | UnsupportedPython string
  | TableExpected string
  | StringExpected string
  | StringsExpected string
  | PythonConstraint string string
  | OptionalDependencies
  | MissingGroups "string list"
  | GroupNotArray string
  | BadIncludeGroup string nat
  | BadGroupItem string nat
  | UnboundedDeclaration string
  | UnboundedSpecifier string
  | InexactToolPin string
  | DefaultGroups
  | BuildIsolation
  | UvSources
  | LockPython
  | EmptyLock
  | PackageNotTable nat
  | PackageWithoutNameVersion nat
  | PackageWithoutSource nat
  | ProjectNotEditable
  | UnexpectedSource string
  | WheelsNotArray string
  | NoArtifacts string
  | MalformedArtifact string
  | ArtifactWithoutHash string
  | MissingLocked "string list"
  | NoProjectPackage
  | NoLockGroups
  | MissingLockGroups "string list"
  | OrphanedContinuation
  | EmptyExport
  | InexactExport string
  | ExportWithoutHash string
  | ExportMissing "locked_requirement list"
  | ExportUnexpected "locked_requirement list"
  | UvUnavailable
  | UvFailed
  | UvVersion string
  | StaleLock
  | ExportFailed

type_synonym 'a checked = "'a \<times> issue list"

record contract =
  python_pin :: string
  requires_python :: string
  uv_version :: string
  pip_audit_version :: string
  direct_requirements :: "string list"
  locked_requirements :: "locked_requirement list"

section \<open>Members of tables\<close>

definition table_member :: "object \<Rightarrow> string \<Rightarrow> object option checked" where
  "table_member d key =
     (case as_object (jget d key) of None \<Rightarrow> (None, [TableExpected key]) | Some m \<Rightarrow> (Some m, []))"

definition string_member :: "object \<Rightarrow> string \<Rightarrow> string option checked" where
  "string_member d key =
     (case as_string (jget d key) of
        Some s \<Rightarrow> if s = [] then (None, [StringExpected key]) else (Some s, [])
      | None \<Rightarrow> (None, [StringExpected key]))"

definition string_list :: "json \<Rightarrow> string list option" where
  "string_list j = (case as_list j of
     None \<Rightarrow> None
   | Some xs \<Rightarrow> if list_all (\<lambda>x. as_string x \<noteq> None) xs then Some (List.map_filter as_string xs) else None)"

definition string_list_member :: "object \<Rightarrow> string \<Rightarrow> string list checked" where
  "string_list_member d key =
     (case string_list (jget d key) of None \<Rightarrow> ([], [StringsExpected key]) | Some xs \<Rightarrow> (xs, []))"

definition exact_tool_pin :: "object \<Rightarrow> string \<Rightarrow> string option checked" where
  "exact_tool_pin tools name =
     (case string_member tools name of
        (Some version, issues) \<Rightarrow>
          if \<not> fullmatches EXACT_VERSION_PATTERN version then (None, issues @ [InexactToolPin name])
          else (Some version, issues)
      | r \<Rightarrow> r)"

section \<open>The Python pin\<close>

definition load_python_pin :: "string option \<Rightarrow> string option checked" where
  "load_python_pin content =
     (case content of
        None \<Rightarrow> (None, [MissingFile ''.python-version''])
      | Some text \<Rightarrow>
          let pin = strip text; parts = split_chr CHR ''.'' pin in
          if length parts \<noteq> 3 \<or> \<not> list_all py_isdigit parts then (None, [InexactPythonPin]) else (Some pin, []))"

text \<open>\<open>int(text)\<close> raises on a digit that is not a decimal one: the only exception of the module.\<close>

datatype crash = InvalidInteger | CommandNotFound

definition expected_python_constraint :: "string \<Rightarrow> crash + string option checked" where
  "expected_python_constraint pin =
     (let parts = split_chr CHR ''.'' pin in
      bindE (requireE (digits_value (parts ! 0)) InvalidInteger) (\<lambda>major.
      bindE (requireE (digits_value (parts ! 1)) InvalidInteger) (\<lambda>minor.
      if (major, minor) \<noteq> (3, 12) then Inr (None, [UnsupportedPython pin])
      else Inr (Some (''>='' @ int_str major @ ''.'' @ int_str minor @ '',<'' @ int_str major @ ''.'' @ int_str (minor + 1)), []))))"

section \<open>Requirements\<close>

definition clauses_of :: "string \<Rightarrow> string list" where
  "clauses_of specifier =
     filter (\<lambda>c. c \<noteq> []) (split_chr CHR '','' (filter (\<lambda>c. c \<noteq> CHR '' '') specifier))"

definition is_exact :: "string \<Rightarrow> bool" where
  "is_exact c \<longleftrightarrow> startswith c ''=='' \<and> \<not> startswith c ''===''"

definition is_lower :: "string \<Rightarrow> bool" where
  "is_lower c \<longleftrightarrow> startswith c ''>=''"

definition is_upper :: "string \<Rightarrow> bool" where
  "is_upper c \<longleftrightarrow> startswith c ''<'' \<and> \<not> startswith c ''<=''"

definition valid_exact :: "string list \<Rightarrow> bool" where
  "valid_exact clauses \<longleftrightarrow> length clauses = 1 \<and> length (filter is_exact clauses) = 1 \<and>
     fullmatches BOUND_VERSION_PATTERN (drop 2 (hd (filter is_exact clauses)))"

definition valid_interval :: "string list \<Rightarrow> bool" where
  "valid_interval clauses \<longleftrightarrow> length (filter is_lower clauses) = 1 \<and> length (filter is_upper clauses) = 1 \<and>
     length clauses = 2 \<and> fullmatches BOUND_VERSION_PATTERN (drop 2 (hd (filter is_lower clauses))) \<and>
     fullmatches BOUND_VERSION_PATTERN (drop 1 (hd (filter is_upper clauses)))"

definition validate_requirement :: "string \<Rightarrow> string option checked" where
  "validate_requirement declaration =
     (case rx_fullmatch REQUIREMENT_PATTERN declaration of
        None \<Rightarrow> (None, [UnboundedDeclaration declaration])
      | Some w \<Rightarrow>
          if CHR ''@'' \<in> set declaration \<or> CHR '';'' \<in> set declaration
          then (None, [UnboundedDeclaration declaration])
          else let clauses = clauses_of (the (rx_group ''specifier'' w)) in
            (Some (canonicalize_name (the (rx_group ''name'' w))),
             if \<not> valid_exact clauses \<and> \<not> valid_interval clauses then [UnboundedSpecifier declaration] else []))"

section \<open>The lock\<close>

record lock_state =
  ls_names :: "string list"
  ls_locked :: "locked_requirement list"
  ls_project :: "object option"
  ls_issues :: "issue list"

definition artifact_issues :: "string \<Rightarrow> json \<Rightarrow> issue list" where
  "artifact_issues name artifact =
     (case as_object artifact of
        None \<Rightarrow> [MalformedArtifact name]
      | Some d \<Rightarrow>
          (case as_string (jget d ''hash'') of
             None \<Rightarrow> [ArtifactWithoutHash name]
           | Some digest \<Rightarrow> if fullmatches SHA256_PATTERN digest then [] else [ArtifactWithoutHash name]))"

definition package_artifacts :: "string \<Rightarrow> object \<Rightarrow> json list checked" where
  "package_artifacts name package =
     (let sdist = (if jget package ''sdist'' = JNull then [] else [jget package ''sdist'']) in
      case as_list (jget package ''wheels'') of
        Some wheels \<Rightarrow> (sdist @ wheels, [])
      | None \<Rightarrow> (sdist, if jget package ''wheels'' = JNull then [] else [WheelsNotArray name]))"

definition distribution_issues :: "string \<Rightarrow> object \<Rightarrow> issue list" where
  "distribution_issues name package =
     (case package_artifacts name package of
        (artifacts, issues) \<Rightarrow>
          issues @ (if artifacts = [] then [NoArtifacts name] else []) @ concat (map (artifact_issues name) artifacts))"

definition lock_step :: "lock_state \<Rightarrow> nat \<times> json \<Rightarrow> lock_state" where
  "lock_step st indexed =
     (case as_object (snd indexed) of
        None \<Rightarrow> st\<lparr>ls_issues := ls_issues st @ [PackageNotTable (fst indexed)]\<rparr>
      | Some package \<Rightarrow>
          (case (as_string (jget package ''name''), as_string (jget package ''version'')) of
             (Some name, Some version) \<Rightarrow>
               let normalized = canonicalize_name name;
                   named = st\<lparr>ls_names := normalized # ls_names st\<rparr> in
               (case as_object (jget package ''source'') of
                  None \<Rightarrow> named\<lparr>ls_issues := ls_issues st @ [PackageWithoutSource (fst indexed)]\<rparr>
                | Some source \<Rightarrow>
                    if normalized = PROJECT_NAME then
                      named\<lparr>ls_project := Some package,
                            ls_issues := ls_issues st @
                              (if py_eq (JObj source) (JObj [(''editable'', JStr ''.'')]) then [] else [ProjectNotEditable])\<rparr>
                    else if \<not> py_eq (JObj source) (JObj [(''registry'', JStr PYPI_INDEX)]) then
                      named\<lparr>ls_issues := ls_issues st @ [UnexpectedSource name]\<rparr>
                    else
                      named\<lparr>ls_locked := (normalized, version) # ls_locked st,
                            ls_issues := ls_issues st @ distribution_issues name package\<rparr>)
           | _ \<Rightarrow> st\<lparr>ls_issues := ls_issues st @ [PackageWithoutNameVersion (fst indexed)]\<rparr>))"

definition group_issues :: "object option \<Rightarrow> issue list" where
  "group_issues project =
     (case project of
        None \<Rightarrow> [NoProjectPackage]
      | Some package \<Rightarrow>
          (case as_object (jget package ''dev-dependencies'') of
             None \<Rightarrow> [NoLockGroups]
           | Some groups \<Rightarrow>
               let missing = filter (\<lambda>g. g \<notin> set (map fst groups)) REQUIRED_DEPENDENCY_GROUPS in
               if missing \<noteq> [] then [MissingLockGroups missing] else []))"

definition validate_lock :: "object \<Rightarrow> string \<Rightarrow> string list \<Rightarrow> locked_requirement list checked" where
  "validate_lock lock pin declared_names =
     (let parts = split_chr CHR ''.'' pin;
          python_issues = (if jget lock ''requires-python'' \<noteq> JStr (''=='' @ parts ! 0 @ ''.'' @ parts ! 1 @ ''.*'')
                           then [LockPython] else []) in
      case as_list (jget lock ''package'') of
        None \<Rightarrow> ([], python_issues @ [EmptyLock])
      | Some packages \<Rightarrow>
          if packages = [] then ([], python_issues @ [EmptyLock])
          else
            let st = foldl lock_step \<lparr>ls_names = [], ls_locked = [], ls_project = None, ls_issues = []\<rparr>
                       (List.enumerate 0 packages);
                missing = sorted_keys (filter (\<lambda>n. n \<notin> set (ls_names st)) declared_names)
            in (sorted_keys (ls_locked st),
                python_issues @ ls_issues st @ (if missing \<noteq> [] then [MissingLocked missing] else [])
                @ group_issues (ls_project st)))"

section \<open>The declarations\<close>

text \<open>What reading a TOML file gives: no file, a parse error, or the parsed value.\<close>

datatype toml_file = NoFile | Unparsable | Parsed json

definition load_toml :: "string \<Rightarrow> toml_file \<Rightarrow> object option checked" where
  "load_toml name file =
     (case file of
        NoFile \<Rightarrow> (None, [MissingFile name])
      | Unparsable \<Rightarrow> (None, [InvalidToml name])
      | Parsed j \<Rightarrow> (case as_object j of None \<Rightarrow> (None, [NotTable name]) | Some d \<Rightarrow> (Some d, [])))"

text \<open>One item of a dependency group: a requirement, an included group that exists, or an issue.\<close>

definition group_item :: "object \<Rightarrow> string \<Rightarrow> nat \<times> json \<Rightarrow> string list checked" where
  "group_item groups group_name indexed =
     (case snd indexed of
        JStr requirement \<Rightarrow> ([requirement], [])
      | JObj item \<Rightarrow>
          (case as_string (jget item ''include-group'') of
             Some included \<Rightarrow>
               if length item \<noteq> 1 \<or> included \<notin> set (map fst groups)
               then ([], [BadIncludeGroup group_name (fst indexed)]) else ([], [])
           | None \<Rightarrow> ([], [BadIncludeGroup group_name (fst indexed)]))
      | _ \<Rightarrow> ([], [BadGroupItem group_name (fst indexed)]))"

definition gather :: "('b list checked) list \<Rightarrow> 'b list checked" where
  "gather rs = (concat (map fst rs), concat (map snd rs))"

definition group_declarations :: "object \<Rightarrow> string \<times> json \<Rightarrow> string list checked" where
  "group_declarations groups g =
     (case as_list (snd g) of
        None \<Rightarrow> ([], [GroupNotArray (fst g)])
      | Some items \<Rightarrow> gather (map (group_item groups (fst g)) (List.enumerate 0 items)))"

definition declared_requirements :: "object \<Rightarrow> object \<Rightarrow> object \<Rightarrow> string list checked" where
  "declared_requirements project build_system groups =
     (let missing = filter (\<lambda>g. g \<notin> set (map fst groups)) REQUIRED_DEPENDENCY_GROUPS;
          rest = gather (map (group_declarations groups) groups);
          own = string_list_member project ''dependencies'';
          build = string_list_member build_system ''requires''
      in (fst own @ fst build @ fst rest,
          snd own @ snd build @ (if missing \<noteq> [] then [MissingGroups missing] else []) @ snd rest))"

definition declared_names :: "string list \<Rightarrow> string list checked" where
  "declared_names declarations =
     (List.map_filter (\<lambda>d. fst (validate_requirement d)) declarations,
      concat (map (\<lambda>d. snd (validate_requirement d)) declarations))"

definition tool_issues :: "object \<Rightarrow> issue list" where
  "tool_issues uv_tool =
     (let defaults = string_list_member uv_tool ''default-groups'';
          isolation = string_list_member uv_tool ''no-build-isolation-package''
      in snd defaults @ (if fst defaults \<noteq> [''dev''] then [DefaultGroups] else []) @
         snd isolation @ (if fst isolation \<noteq> [PROJECT_NAME] then [BuildIsolation] else []) @
         (if ''sources'' \<in> set (map fst uv_tool) then [UvSources] else []))"

text \<open>The part of the check that has all three files and the four tables.\<close>

definition validate_tables ::
  "string \<Rightarrow> object \<Rightarrow> object \<Rightarrow> object \<Rightarrow> object \<Rightarrow> object \<Rightarrow> crash + contract option checked" where
  "validate_tables pin lock project build_system groups tool =
     bindE (expected_python_constraint pin) (\<lambda>(expected, pin_issues).
       let (required, required_issues) = string_member project ''requires-python'';
           python_issues = (case (required, expected) of
              (Some r, Some e) \<Rightarrow> if r \<noteq> e then [PythonConstraint e r] else [] | _ \<Rightarrow> []);
           optional_issues = (if ''optional-dependencies'' \<in> set (map fst project) then [OptionalDependencies] else []);
           (declared, declared_issues) = declared_requirements project build_system groups;
           (names, name_issues) = declared_names declared;
           (dependency_tool, dependency_issues) = table_member tool ''dependency-contract'';
           (uv_tool, uv_issues) = table_member tool ''uv'';
           before = required_issues @ pin_issues @ python_issues @ optional_issues @ declared_issues @ name_issues @
             dependency_issues @ uv_issues
       in case (dependency_tool, uv_tool) of
            (Some dt, Some ut) \<Rightarrow>
              let (uv, uv_pin_issues) = exact_tool_pin dt ''uv'';
                  (audit, audit_issues) = exact_tool_pin dt ''pip-audit'';
                  (locked, lock_issues) = validate_lock lock pin names;
                  issues = before @ uv_pin_issues @ audit_issues @ tool_issues ut @ lock_issues
              in Inr (case (required, uv, audit, expected) of
                   (Some r, Some u, Some a, Some e) \<Rightarrow>
                     (Some \<lparr>python_pin = pin, requires_python = r, uv_version = u, pip_audit_version = a,
                            direct_requirements = declared, locked_requirements = locked\<rparr>, issues)
                 | _ \<Rightarrow> (None, issues))
          | _ \<Rightarrow> Inr (None, before))"

definition validate_contract_files :: "toml_file \<Rightarrow> toml_file \<Rightarrow> string option \<Rightarrow> crash + contract option checked" where
  "validate_contract_files pyproject_file lock_file pin_file =
     (let (pyproject, i1) = load_toml ''pyproject.toml'' pyproject_file;
          (lock, i2) = load_toml ''uv.lock'' lock_file;
          (pin, i3) = load_python_pin pin_file
      in case (pyproject, lock, pin) of
           (Some p, Some l, Some v) \<Rightarrow>
             let (project, j1) = table_member p ''project'';
                 (build_system, j2) = table_member p ''build-system'';
                 (groups, j3) = table_member p ''dependency-groups'';
                 (tool, j4) = table_member p ''tool''
             in (case (project, build_system, groups, tool) of
                   (Some a, Some b, Some c, Some d) \<Rightarrow> validate_tables v l a b c d
                 | _ \<Rightarrow> Inr (None, i1 @ i2 @ i3 @ j1 @ j2 @ j3 @ j4))
         | _ \<Rightarrow> Inr (None, i1 @ i2 @ i3))"

section \<open>The frozen export\<close>

record export_state =
  ex_issues :: "issue list"
  ex_blocks :: "string list"
  ex_current :: "string list"

definition export_step :: "export_state \<Rightarrow> string \<Rightarrow> export_state" where
  "export_step st line =
     (if strip line = [] \<or> startswith line ''#'' then st
      else if is_space (hd line) then
        (if ex_current st = [] then st\<lparr>ex_issues := ex_issues st @ [OrphanedContinuation]\<rparr>
         else st\<lparr>ex_current := ex_current st @ [strip line]\<rparr>)
      else st\<lparr>ex_blocks := ex_blocks st @ (if ex_current st \<noteq> [] then [join '' '' (ex_current st)] else []),
              ex_current := [strip line]\<rparr>)"

text \<open>One block: the requirement it pins, and its issues.\<close>

definition export_block :: "string \<Rightarrow> locked_requirement option checked" where
  "export_block block =
     (case rx_match PINNED_EXPORT_PATTERN block of
        None \<Rightarrow> (None, [InexactExport block])
      | Some w \<Rightarrow>
          (Some (canonicalize_name (the (rx_group ''name'' w)), the (rx_group ''version'' w)),
           if contains ''--hash=sha256:'' block then [] else [ExportWithoutHash (the (rx_group ''name'' w))]))"

definition export_state_of :: "string \<Rightarrow> export_state" where
  "export_state_of export =
     foldl export_step \<lparr>ex_issues = [], ex_blocks = [], ex_current = []\<rparr> (splitlines export)"

definition export_blocks :: "string \<Rightarrow> string list" where
  "export_blocks export =
     (let st = export_state_of export
      in ex_blocks st @ (if ex_current st \<noteq> [] then [join '' '' (ex_current st)] else []))"

definition validate_hashed_export :: "string \<Rightarrow> locked_requirement list \<Rightarrow> issue list" where
  "validate_hashed_export export locked =
     (let st = export_state_of export;
          blocks = export_blocks export
      in if blocks = [] then [EmptyExport]
      else
        let exported = List.map_filter (\<lambda>b. fst (export_block b)) blocks;
            issues = ex_issues st @ concat (map (\<lambda>b. snd (export_block b)) blocks)
        in if issues \<noteq> [] then issues
        else
          let missing = sorted_keys (filter (\<lambda>r. r \<notin> set exported) locked);
              unexpected = sorted_keys (filter (\<lambda>r. r \<notin> set locked) exported)
          in (if missing \<noteq> [] then [ExportMissing missing] else []) @
             (if unexpected \<noteq> [] then [ExportUnexpected unexpected] else []))"

section \<open>The resolution\<close>

record completed =
  returncode :: int
  stdout :: string
  stderr :: string

text \<open>A runner completes the command, or raises \<open>FileNotFoundError\<close>; it may change the world.\<close>

type_synonym 'w runner = "string list \<Rightarrow> ('w, unit, completed) io"

definition not_found :: "('w, unit, 'a) io \<Rightarrow> ('w, crash, 'a) io" where
  "not_found m s = (case m s of (Inl u, t) \<Rightarrow> (Inl CommandNotFound, t) | (Inr x, t) \<Rightarrow> (Inr x, t))"

definition lock_check_command :: "string \<Rightarrow> contract \<Rightarrow> string list" where
  "lock_check_command uv c = [uv, ''lock'', ''--check'', ''--python'', python_pin c, ''--no-sources'']"

definition export_command :: "string \<Rightarrow> contract \<Rightarrow> string list" where
  "export_command uv c =
     [uv, ''export'', ''--frozen'', ''--all-groups'', ''--no-emit-project'', ''--no-annotate'', ''--no-header'',
      ''--format'', ''requirements.txt'', ''--python'', python_pin c]"

definition validate_uv_resolution :: "'w runner \<Rightarrow> contract \<Rightarrow> string \<Rightarrow> ('w, crash, issue list) io" where
  "validate_uv_resolution run c uv s =
     (case run [uv, ''--version''] s of
        (Inl u, t) \<Rightarrow> (Inr [UvUnavailable], t)
      | (Inr version, t) \<Rightarrow>
          if returncode version \<noteq> 0 then (Inr [UvFailed], t)
          else if before_first '' ('' (strip (stdout version)) \<noteq> ''uv '' @ uv_version c
          then (Inr [UvVersion (strip (stdout version))], t)
          else
            bindS (not_found (run (lock_check_command uv c))) (\<lambda>lock_result.
            if returncode lock_result \<noteq> 0 then liftE (Inr [StaleLock])
            else
            bindS (not_found (run (export_command uv c))) (\<lambda>export_result.
            if returncode export_result \<noteq> 0 then liftE (Inr [ExportFailed])
            else liftE (Inr (validate_hashed_export (stdout export_result) (locked_requirements c))))) t)"

text \<open>The repository-local path of the pinned tool.\<close>

definition pinned_uv_executable :: "string \<Rightarrow> contract \<Rightarrow> string" where
  "pinned_uv_executable root_dir c = join ''/'' [root_dir, ''.dependency-tools'', ''uv-'' @ uv_version c, ''bin'', ''uv'']"

definition check_dependency_contract ::
  "'w runner \<Rightarrow> string \<Rightarrow> toml_file \<Rightarrow> toml_file \<Rightarrow> string option \<Rightarrow> string option \<Rightarrow> ('w, crash, issue list) io" where
  "check_dependency_contract run root_dir pyproject_file lock_file pin_file uv_executable =
     bindS (liftE (validate_contract_files pyproject_file lock_file pin_file)) (\<lambda>(c, file_issues).
       case c of
         None \<Rightarrow> liftE (Inr file_issues)
       | Some c \<Rightarrow>
           if file_issues \<noteq> [] then liftE (Inr file_issues)
           else validate_uv_resolution run c
             (case uv_executable of Some uv \<Rightarrow> uv | None \<Rightarrow> pinned_uv_executable root_dir c))"

section \<open>What a lock without issues says\<close>

definition hashed_artifact :: "json \<Rightarrow> bool" where
  "hashed_artifact j \<longleftrightarrow> (case as_object j of None \<Rightarrow> False
     | Some d \<Rightarrow> (case as_string (jget d ''hash'') of None \<Rightarrow> False | Some s \<Rightarrow> fullmatches SHA256_PATTERN s))"

text \<open>
  A package that can be trusted: the editable project itself, or a package of the index with at least one
  artifact, all of them with a SHA-256 digest.
\<close>

definition trusted_package :: "json \<Rightarrow> bool" where
  "trusted_package j \<longleftrightarrow> (\<exists>d name version source. j = JObj d \<and> jget d ''name'' = JStr name \<and>
     jget d ''version'' = JStr version \<and> jget d ''source'' = JObj source \<and>
     (if canonicalize_name name = PROJECT_NAME then py_eq (JObj source) (JObj [(''editable'', JStr ''.'')])
      else py_eq (JObj source) (JObj [(''registry'', JStr PYPI_INDEX)]) \<and>
        fst (package_artifacts name d) \<noteq> [] \<and> list_all hashed_artifact (fst (package_artifacts name d))))"

text \<open>The requirement a package locks, the project's own included.\<close>

definition package_pin :: "json \<Rightarrow> locked_requirement option" where
  "package_pin j = (case as_object j of None \<Rightarrow> None
     | Some d \<Rightarrow> (case (as_string (jget d ''name''), as_string (jget d ''version'')) of
          (Some name, Some version) \<Rightarrow> Some (canonicalize_name name, version) | _ \<Rightarrow> None))"

definition package_pins :: "json list \<Rightarrow> locked_requirement list" where
  "package_pins packages = List.map_filter package_pin packages"

definition third_party_pins :: "json list \<Rightarrow> locked_requirement list" where
  "third_party_pins packages = filter (\<lambda>pin. fst pin \<noteq> PROJECT_NAME) (package_pins packages)"

lemma artifact_issues_Nil: "artifact_issues name j = [] \<longleftrightarrow> hashed_artifact j"
  by (auto simp: artifact_issues_def hashed_artifact_def split: option.splits)

lemma distribution_issues_Nil:
  "distribution_issues name d = [] \<Longrightarrow> fst (package_artifacts name d) \<noteq> [] \<and> list_all hashed_artifact (fst (package_artifacts name d))"
  by (cases "package_artifacts name d") (auto simp: distribution_issues_def artifact_issues_Nil list_all_iff split: if_splits)

lemma lock_step_grows: "\<exists>is. ls_issues (lock_step st x) = ls_issues st @ is"
  by (auto simp: lock_step_def Let_def split: option.splits)

lemma lock_fold_grows: "\<exists>is. ls_issues (foldl lock_step st xs) = ls_issues st @ is"
proof (induction xs arbitrary: st)
  case (Cons x xs)
  then show ?case using lock_step_grows [of st x] by (metis append.assoc foldl_Cons)
qed simp

text \<open>A step that adds no issue saw a trusted package, and records its name and its requirement.\<close>

lemma lock_step_clean:
  assumes "ls_issues (lock_step st x) = []"
  shows "trusted_package (snd x) \<and> (\<exists>pin. package_pin (snd x) = Some pin \<and>
    ls_names (lock_step st x) = fst pin # ls_names st \<and>
    ls_locked (lock_step st x) = (if fst pin = PROJECT_NAME then ls_locked st else pin # ls_locked st))"
proof -
  obtain d where d: "snd x = JObj d" using assms by (auto simp: lock_step_def split: option.splits)
  obtain name version where nv: "jget d ''name'' = JStr name" "jget d ''version'' = JStr version"
    using assms by (auto simp: lock_step_def d split: option.splits)
  obtain source where src: "jget d ''source'' = JObj source"
    using assms by (auto simp: lock_step_def d nv Let_def split: option.splits)
  show ?thesis
  proof (cases "canonicalize_name name = PROJECT_NAME")
    case True
    then show ?thesis
      using assms by (simp add: lock_step_def d nv src Let_def trusted_package_def package_pin_def del: py_eq_simps split: if_splits)
  next
    case False
    then have "py_eq (JObj source) (JObj [(''registry'', JStr PYPI_INDEX)])" "distribution_issues name d = []"
      using assms by (auto simp: lock_step_def d nv src Let_def simp del: py_eq_simps split: if_splits)
    then show ?thesis
      using False distribution_issues_Nil [of name d]
      by (simp add: lock_step_def d nv src Let_def trusted_package_def package_pin_def del: py_eq_simps)
  qed
qed

lemma lock_fold_clean:
  assumes "ls_issues (foldl lock_step st xs) = []"
  shows "list_all trusted_package (map snd xs) \<and>
    set (ls_names (foldl lock_step st xs)) = set (ls_names st) \<union> fst ` set (package_pins (map snd xs)) \<and>
    set (ls_locked (foldl lock_step st xs)) = set (ls_locked st) \<union> set (third_party_pins (map snd xs))"
  using assms
proof (induction xs arbitrary: st)
  case Nil
  then show ?case by (simp add: package_pins_def third_party_pins_def)
next
  case (Cons x xs)
  have clean: "ls_issues (lock_step st x) = []"
    using Cons.prems lock_fold_grows [of "lock_step st x" xs] by auto
  obtain pin where x: "trusted_package (snd x)" "package_pin (snd x) = Some pin"
    "ls_names (lock_step st x) = fst pin # ls_names st"
    "ls_locked (lock_step st x) = (if fst pin = PROJECT_NAME then ls_locked st else pin # ls_locked st)"
    using lock_step_clean [OF clean] by blast
  note IH = Cons.IH [of "lock_step st x"]
  have "package_pins (map snd (x # xs)) = pin # package_pins (map snd xs)"
    using x(2) by (simp add: package_pins_def)
  then show ?case
    using IH Cons.prems x by (simp add: third_party_pins_def)
qed

lemma enumerate_snd: "map snd (List.enumerate n xs) = xs"
  by (induction xs arbitrary: n) simp_all

lemma validate_lock_clean:
  assumes "validate_lock lock pin names = (locked, [])"
  shows "\<exists>packages. jget lock ''package'' = JList packages \<and> list_all trusted_package packages \<and>
    set locked = set (third_party_pins packages) \<and>
    set names \<subseteq> insert PROJECT_NAME (fst ` set locked)"
proof -
  obtain packages where p: "jget lock ''package'' = JList packages" "packages \<noteq> []"
    using assms by (auto simp: validate_lock_def Let_def split: option.splits if_splits)
  let ?init = "\<lparr>ls_names = [], ls_locked = [], ls_project = None, ls_issues = []\<rparr>"
  define st where "st = foldl lock_step ?init (List.enumerate 0 packages)"
  have v: "ls_issues st = []" "locked = sorted_keys (ls_locked st)" "filter (\<lambda>n. n \<notin> set (ls_names st)) names = []"
    using assms p by (auto simp: validate_lock_def Let_def st_def split: if_splits)
  note clean = lock_fold_clean [OF v(1) [unfolded st_def], unfolded enumerate_snd, folded st_def]
  have "set (ls_names st) \<subseteq> insert PROJECT_NAME (fst ` set locked)"
    using clean by (auto simp: v(2) third_party_pins_def)
  moreover have "set names \<subseteq> set (ls_names st)" using v(3) by (auto simp: filter_empty_conv)
  ultimately show ?thesis using p(1) clean by (auto simp: v(2))
qed

section \<open>What a contract without issues says\<close>

text \<open>A declaration bounded the way the contract wants it: exactly pinned, or an interval with an upper bound.\<close>

definition bounded_requirement :: "string \<Rightarrow> bool" where
  "bounded_requirement declaration \<longleftrightarrow> (\<exists>w. rx_fullmatch REQUIREMENT_PATTERN declaration = Some w \<and>
     CHR ''@'' \<notin> set declaration \<and> CHR '';'' \<notin> set declaration \<and>
     (valid_exact (clauses_of (the (rx_group ''specifier'' w))) \<or>
      valid_interval (clauses_of (the (rx_group ''specifier'' w)))))"

lemma validate_requirement_clean:
  "snd (validate_requirement d) = [] \<Longrightarrow> bounded_requirement d \<and> (\<exists>name. fst (validate_requirement d) = Some name)"
  by (auto simp: validate_requirement_def bounded_requirement_def Let_def split: option.splits if_splits)

lemma supported_constraint:
  "expected_python_constraint pin = Inr (Some e, is) \<Longrightarrow> e = ''>=3.12,<3.13''"
proof -
  have "''>='' @ int_str 3 @ ''.'' @ int_str 12 @ '',<'' @ int_str 3 @ ''.'' @ int_str (12 + 1) = ''>=3.12,<3.13''"
    by code_simp
  then show "expected_python_constraint pin = Inr (Some e, is) \<Longrightarrow> e = ''>=3.12,<3.13''"
    by (auto simp: expected_python_constraint_def Let_def bindE_ok requireE_ok split: if_splits)
qed

lemma exact_tool_pin_clean:
  "exact_tool_pin tools name = (Some v, is) \<Longrightarrow> fullmatches EXACT_VERSION_PATTERN v"
  by (auto simp: exact_tool_pin_def split: prod.splits option.splits if_splits)

text \<open>The contract that the check accepts, with the packages of the lock it was checked against.\<close>

definition accepted_contract :: "contract \<Rightarrow> json list \<Rightarrow> bool" where
  "accepted_contract c packages \<longleftrightarrow>
     requires_python c = ''>=3.12,<3.13'' \<and>
     fullmatches EXACT_VERSION_PATTERN (uv_version c) \<and> fullmatches EXACT_VERSION_PATTERN (pip_audit_version c) \<and>
     list_all bounded_requirement (direct_requirements c) \<and>
     list_all trusted_package packages \<and> set (locked_requirements c) = set (third_party_pins packages) \<and>
     set (List.map_filter (\<lambda>d. fst (validate_requirement d)) (direct_requirements c))
       \<subseteq> insert PROJECT_NAME (fst ` set (locked_requirements c))"

lemma validate_tables_clean:
  assumes "validate_tables pin lock project build_system groups tool = Inr (Some c, [])"
  shows "\<exists>packages. jget lock ''package'' = JList packages \<and> accepted_contract c packages"
proof -
  obtain expected i where e: "expected_python_constraint pin = Inr (expected, i)"
    using assms by (cases "expected_python_constraint pin") (auto simp: validate_tables_def)
  obtain r ri where r: "string_member project ''requires-python'' = (r, ri)" by fastforce
  obtain ds di where d: "declared_requirements project build_system groups = (ds, di)" by fastforce
  obtain dt dti where dt: "table_member tool ''dependency-contract'' = (dt, dti)" by fastforce
  obtain ut uti where ut: "table_member tool ''uv'' = (ut, uti)" by fastforce
  note f1 = assms [unfolded validate_tables_def e r d dt ut declared_names_def Let_def prod.case bindE_simps]
  obtain dt' ut' where t: "dt = Some dt'" "ut = Some ut'" using f1 by (auto split: option.splits)
  obtain u ui where u: "exact_tool_pin dt' ''uv'' = (u, ui)" by fastforce
  obtain a ai where a: "exact_tool_pin dt' ''pip-audit'' = (a, ai)" by fastforce
  let ?names = "List.map_filter (\<lambda>d. fst (validate_requirement d)) ds"
  obtain locked li where l: "validate_lock lock pin ?names = (locked, li)" by fastforce
  note f2 = f1 [unfolded t u a l prod.case option.case]
  obtain r' u' a' e' where v: "r = Some r'" "u = Some u'" "a = Some a'" "expected = Some e'"
    and c: "c = \<lparr>python_pin = pin, requires_python = r', uv_version = u', pip_audit_version = a',
      direct_requirements = ds, locked_requirements = locked\<rparr>"
    and n: "r' = e'" "li = []" "concat (map (\<lambda>d. snd (validate_requirement d)) ds) = []"
    using f2 by (auto split: option.splits if_splits)
  have e3: "r' = ''>=3.12,<3.13''" using supported_constraint [OF e [unfolded v]] n(1) by simp
  obtain packages where p: "jget lock ''package'' = JList packages" "list_all trusted_package packages"
    "set locked = set (third_party_pins packages)" "set ?names \<subseteq> insert PROJECT_NAME (fst ` set locked)"
    using validate_lock_clean [OF l [unfolded n(2)]] by blast
  have "list_all bounded_requirement ds"
    using n(3) validate_requirement_clean by (auto simp: list_all_iff)
  then have "accepted_contract c packages"
    using p exact_tool_pin_clean [OF u [unfolded v]] exact_tool_pin_clean [OF a [unfolded v]]
    by (simp add: accepted_contract_def c e3)
  then show ?thesis using p(1) by blast
qed

lemma no_silent_rejection:
  assumes "validate_contract_files p l v = Inr (None, is)"
  shows "is \<noteq> []"
proof -
  have toml: "\<And>n f is. load_toml n f = (None, is) \<Longrightarrow> is \<noteq> []"
    by (auto simp: load_toml_def split: toml_file.splits option.splits)
  have pin: "\<And>f is. load_python_pin f = (None, is) \<Longrightarrow> is \<noteq> []"
    by (auto simp: load_python_pin_def Let_def split: option.splits if_splits)
  have table: "\<And>d k is. table_member d k = (None, is) \<Longrightarrow> is \<noteq> []"
    by (auto simp: table_member_def split: option.splits)
  have str: "\<And>d k is. string_member d k = (None, is) \<Longrightarrow> is \<noteq> []"
    by (auto simp: string_member_def split: option.splits if_splits)
  have tool: "\<And>d k is. exact_tool_pin d k = (None, is) \<Longrightarrow> is \<noteq> []"
    using str by (fastforce simp: exact_tool_pin_def split: prod.splits option.splits if_splits)
  have python: "\<And>x is. expected_python_constraint x = Inr (None, is) \<Longrightarrow> is \<noteq> []"
    by (auto simp: expected_python_constraint_def Let_def bindE_ok requireE_ok split: if_splits)
  have tables: "is \<noteq> []" if e: "validate_tables x lock a b g t = Inr (None, is)" for x lock a b g t "is"
  proof -
    obtain expected i where c: "expected_python_constraint x = Inr (expected, i)"
      using e by (cases "expected_python_constraint x") (auto simp: validate_tables_def)
    obtain r ri where r: "string_member a ''requires-python'' = (r, ri)" by fastforce
    obtain ds di where d: "declared_requirements a b g = (ds, di)" by fastforce
    obtain ns ni where n: "declared_names ds = (ns, ni)" by fastforce
    obtain dt dti where dt: "table_member t ''dependency-contract'' = (dt, dti)" by fastforce
    obtain ut uti where ut: "table_member t ''uv'' = (ut, uti)" by fastforce
    note f1 = e [unfolded validate_tables_def c r d dt ut n Let_def prod.case bindE_simps]
    show ?thesis
    proof (cases "\<exists>dt' ut'. dt = Some dt' \<and> ut = Some ut'")
      case False
      then have "dti \<noteq> [] \<or> uti \<noteq> []" using table dt ut by (cases dt; cases ut) blast+
      moreover have "\<exists>front. is = front @ dti @ uti" using f1 False by (auto split: option.splits)
      ultimately show ?thesis by auto
    next
      case True
      then obtain dt' ut' where tl: "dt = Some dt'" "ut = Some ut'" by blast
      obtain u ui where u: "exact_tool_pin dt' ''uv'' = (u, ui)" by fastforce
      obtain w wi where w: "exact_tool_pin dt' ''pip-audit'' = (w, wi)" by fastforce
      obtain locked li where l: "validate_lock lock x ns = (locked, li)" by fastforce
      note f2 = f1 [unfolded tl u w l prod.case option.case]
      have "r = None \<or> u = None \<or> w = None \<or> expected = None" using f2 by (auto split: option.splits)
      then have "ri \<noteq> [] \<or> ui \<noteq> [] \<or> wi \<noteq> [] \<or> i \<noteq> []"
        using str [of a "''requires-python''" ri] tool [of dt' "''uv''" ui] tool [of dt' "''pip-audit''" wi] python [of x i] r u w c
        by blast
      then show ?thesis using f2 by (auto split: option.splits)
    qed
  qed
  have none: "\<And>n f. load_toml n f \<noteq> (None, [])" "\<And>f. load_python_pin f \<noteq> (None, [])"
    "\<And>d k. table_member d k \<noteq> (None, [])" "\<And>x lock a b g t. validate_tables x lock a b g t \<noteq> Inr (None, [])"
    using toml pin table tables by blast+
  show ?thesis
    using assms
    by (auto simp: none validate_contract_files_def Let_def split: prod.splits option.splits)
qed

section \<open>What an export without issues says\<close>

definition exported_exactly :: "string \<Rightarrow> locked_requirement list \<Rightarrow> bool" where
  "exported_exactly export locked \<longleftrightarrow> export_blocks export \<noteq> [] \<and>
     list_all (\<lambda>b. contains ''--hash=sha256:'' b \<and> (\<exists>pin\<in>set locked. fst (export_block b) = Some pin))
       (export_blocks export) \<and>
     (\<forall>pin\<in>set locked. \<exists>b\<in>set (export_blocks export). fst (export_block b) = Some pin)"

lemma export_block_clean:
  "snd (export_block b) = [] \<Longrightarrow> contains ''--hash=sha256:'' b \<and> (\<exists>pin. fst (export_block b) = Some pin)"
  by (auto simp: export_block_def split: option.splits if_splits)

lemma set_map_filter_Some: "x \<in> set (List.map_filter f xs) \<longleftrightarrow> (\<exists>y\<in>set xs. f y = Some x)"
  by (induction xs) (auto simp: map_filter_simps split: option.splits)

lemma validate_hashed_export_clean:
  assumes "validate_hashed_export export locked = []"
  shows "exported_exactly export locked"
proof -
  let ?b = "export_blocks export"
  let ?exported = "List.map_filter (\<lambda>b. fst (export_block b)) ?b"
  have ne: "?b \<noteq> []" and i: "concat (map (\<lambda>b. snd (export_block b)) ?b) = []"
    and m: "filter (\<lambda>r. r \<notin> set ?exported) locked = []" and u: "filter (\<lambda>r. r \<notin> set locked) ?exported = []"
    using assms by (auto simp: validate_hashed_export_def Let_def simp del: filter_empty_conv split: if_splits)
  have "\<forall>b\<in>set ?b. contains ''--hash=sha256:'' b \<and> (\<exists>pin. fst (export_block b) = Some pin)"
    using i export_block_clean by simp
  moreover have "set ?exported = set locked" using m u unfolding filter_empty_conv by blast
  ultimately show ?thesis
    using ne set_map_filter_Some [of _ "\<lambda>b. fst (export_block b)" ?b]
    unfolding exported_exactly_def list_all_iff by blast
qed

lemma validate_contract_files_clean:
  assumes "validate_contract_files p l v = Inr (Some c, [])"
  shows "\<exists>lock packages. l = Parsed (JObj lock) \<and> jget lock ''package'' = JList packages \<and> accepted_contract c packages"
proof -
  obtain lock i2 where l: "load_toml ''uv.lock'' l = (Some lock, i2)"
    using assms by (cases "load_toml ''uv.lock'' l") (auto simp: validate_contract_files_def Let_def split: prod.splits option.splits)
  obtain x a b g t where t: "validate_tables x lock a b g t = Inr (Some c, [])"
    using assms l by (auto simp: validate_contract_files_def Let_def split: prod.splits option.splits)
  have "l = Parsed (JObj lock)"
    using l by (auto simp: load_toml_def split: toml_file.splits option.splits)
  then show ?thesis using validate_tables_clean [OF t] by blast
qed

text \<open>
  The files of a project with one pinned requirement, and the processes of a tool that agrees with them.
\<close>

definition example_digest :: string where
  "example_digest = ''sha256:'' @ replicate 64 CHR ''a''"

definition example_pyproject :: toml_file where
  "example_pyproject = Parsed (JObj
     [(''project'', JObj [(''requires-python'', JStr ''>=3.12,<3.13''), (''dependencies'', JList [JStr ''httpx>=0.27,<1''])]),
      (''build-system'', JObj [(''requires'', JList [])]),
      (''dependency-groups'', JObj [(''build'', JList []), (''dev'', JList [])]),
      (''tool'', JObj
         [(''dependency-contract'', JObj [(''uv'', JStr ''0.9.1''), (''pip-audit'', JStr ''2.9.0'')]),
          (''uv'', JObj [(''default-groups'', JList [JStr ''dev'']), (''no-build-isolation-package'', JList [JStr PROJECT_NAME])])])])"

definition example_lock :: object where
  "example_lock =
     [(''requires-python'', JStr ''==3.12.*''),
      (''package'', JList
         [JObj [(''name'', JStr PROJECT_NAME), (''version'', JStr ''0.1.0''), (''source'', JObj [(''editable'', JStr ''.'')]),
                (''dev-dependencies'', JObj [(''build'', JList []), (''dev'', JList [])])],
          JObj [(''name'', JStr ''httpx''), (''version'', JStr ''0.28.1''), (''source'', JObj [(''registry'', JStr PYPI_INDEX)]),
                (''sdist'', JObj [(''hash'', JStr example_digest)])]])]"

definition example_contract :: contract where
  "example_contract = \<lparr>python_pin = ''3.12.8'', requires_python = ''>=3.12,<3.13'', uv_version = ''0.9.1'',
     pip_audit_version = ''2.9.0'', direct_requirements = [''httpx>=0.27,<1''], locked_requirements = [(''httpx'', ''0.28.1'')]\<rparr>"

lemma example_accepted:
  "validate_contract_files example_pyproject (Parsed (JObj example_lock)) (Some ''3.12.8'') = Inr (Some example_contract, [])"
  by code_simp



lemma validate_uv_resolution_clean:
  assumes "validate_uv_resolution run c uv s = (Inr [], t)"
  shows "\<exists>version checked export s1 s2. run [uv, ''--version''] s = (Inr version, s1) \<and>
     before_first '' ('' (strip (stdout version)) = ''uv '' @ uv_version c \<and>
     run (lock_check_command uv c) s1 = (Inr checked, s2) \<and> returncode checked = 0 \<and>
     run (export_command uv c) s2 = (Inr export, t) \<and> returncode export = 0 \<and>
     exported_exactly (stdout export) (locked_requirements c)"
proof -
  obtain version s1 where v: "run [uv, ''--version''] s = (Inr version, s1)" "returncode version = 0"
    "before_first '' ('' (strip (stdout version)) = ''uv '' @ uv_version c"
    using assms by (auto simp: validate_uv_resolution_def split: prod.splits sum.splits if_splits)
  obtain checked s2 where k: "run (lock_check_command uv c) s1 = (Inr checked, s2)" "returncode checked = 0"
    using assms v by (auto simp: validate_uv_resolution_def bindS_def liftE_def not_found_def split: prod.splits sum.splits if_splits)
  obtain export where x: "run (export_command uv c) s2 = (Inr export, t)" "returncode export = 0"
    "validate_hashed_export (stdout export) (locked_requirements c) = []"
    using assms v k by (auto simp: validate_uv_resolution_def bindS_def liftE_def not_found_def split: prod.splits sum.splits if_splits)
  show ?thesis using v k x validate_hashed_export_clean by blast
qed

text \<open>
  The command that reports no issue has checked everything: the files gave a contract without issue, the tool of exactly the
  pinned version says that the lock is current, and its frozen export pins and hashes the locked requirements and nothing else.
\<close>

theorem clean_check_is_complete:
  assumes "check_dependency_contract run root_dir p l v (Some uv) s = (Inr [], t)"
  shows "\<exists>c version checked export s1 s2. validate_contract_files p l v = Inr (Some c, []) \<and>
     run [uv, ''--version''] s = (Inr version, s1) \<and>
     before_first '' ('' (strip (stdout version)) = ''uv '' @ uv_version c \<and>
     run (lock_check_command uv c) s1 = (Inr checked, s2) \<and> returncode checked = 0 \<and>
     run (export_command uv c) s2 = (Inr export, t) \<and> returncode export = 0 \<and>
     exported_exactly (stdout export) (locked_requirements c)"
proof -
  obtain c found where f: "validate_contract_files p l v = Inr (c, found)"
    using assms by (cases "validate_contract_files p l v") (auto simp: check_dependency_contract_def bindS_def liftE_def)
  obtain c' where c: "c = Some c'" "found = []" and r: "validate_uv_resolution run c' uv s = (Inr [], t)"
    using assms f no_silent_rejection [of p l v]
    by (auto simp: check_dependency_contract_def bindS_def liftE_def split: option.splits if_splits)
  show ?thesis using validate_uv_resolution_clean [OF r] f [unfolded c] by blast
qed

definition example_runner :: "nat runner" where
  "example_runner command n = (Inr \<lparr>returncode = 0,
     stdout = (if command ! 1 = ''--version'' then ''uv 0.9.1 (abc 2025-10-01)'' else
       ''httpx==0.28.1 '' @ [CHR 0x5C, LF] @ ''    --hash='' @ example_digest),
     stderr = []\<rparr>, Suc n)"

theorem clean_check_is_complete_witness:
  "\<exists>c version checked export s1 s2.
     validate_contract_files example_pyproject (Parsed (JObj example_lock)) (Some ''3.12.8'') = Inr (Some c, []) \<and>
     example_runner [''uv'', ''--version''] 0 = (Inr version, s1) \<and>
     before_first '' ('' (strip (stdout version)) = ''uv '' @ uv_version c \<and>
     example_runner (lock_check_command ''uv'' c) s1 = (Inr checked, s2) \<and> returncode checked = 0 \<and>
     example_runner (export_command ''uv'' c) s2 = (Inr export, 3) \<and> returncode export = 0 \<and>
     exported_exactly (stdout export) (locked_requirements c)"
proof (rule clean_check_is_complete)
  show "check_dependency_contract example_runner ''/repo'' example_pyproject (Parsed (JObj example_lock)) (Some ''3.12.8'')
      (Some ''uv'') 0 = (Inr [], 3)"
    by code_simp
qed

end
