(* ===== verification/Bootstrap.thy ===== *)
theory Bootstrap
  imports Dependency_Contract
begin

text \<open>
  \<open>src/api_tests/local_bootstrap.py\<close>: preparing the exact locked environment, or reusing it.  The machine has
  a project environment, the marker file inside it, and everything else (\<open>'w\<close>).  The commands are a runner on the
  machine, which returns a completed process or raises \<open>OSError\<close>; the JSON parser, \<open>Path.resolve\<close>, the test for a
  file and the file system's refusal to remove the environment are parameters.
\<close>

section \<open>The machine\<close>

text \<open>The file of the marker: absent, unreadable as JSON, or a JSON value.\<close>

datatype marker_file = NoMarker | UnreadableMarker | MarkerValue json

text \<open>What is at the path of the project environment; a link is told by what it leads to.\<close>

datatype environment_node = NoEnvironment | EnvironmentFile | EnvironmentDirectory | LinkToFile | LinkToDirectory | DanglingLink

record 'w machine =
  mc_environment :: environment_node
  mc_marker :: marker_file
  mc_world :: 'w

datatype bootstrap_error =
    ContractIssues "issue list"
  | WrongInterpreter
  | ToolEnvironmentFailed
  | ToolInstallFailed
  | ToolVersionWrong
  | PythonInstallFailed
  | PythonListFailed
  | InvalidPythonInventory
  | PythonsFound nat
  | PythonPathRelative string
  | PythonNotRunnable
  | PythonVersionWrong string
  | LockIsStale
  | SyncFailed
  | EnvironmentDiffers
  | ForeignPackages
  | EnvironmentKept

text \<open>What the bootstrap raises: its own error, or one it does not handle.\<close>

datatype failure = BootstrapError bootstrap_error | OsError | ContractCrash crash

type_synonym ('w, 'a) machine_io = "('w machine, failure, 'a) io"

record 'w tools =
  tl_run :: "'w machine runner"
  tl_is_file :: "string \<Rightarrow> 'w machine \<Rightarrow> bool"
  tl_parse_json :: "string \<Rightarrow> json option"
  tl_resolve :: "string \<Rightarrow> string"
  tl_removal_fails :: "'w machine \<Rightarrow> bool"

definition run_command :: "'w tools \<Rightarrow> string list \<Rightarrow> ('w, completed) machine_io" where
  "run_command ts command s =
     (case tl_run ts command s of (Inl u, t) \<Rightarrow> (Inl OsError, t) | (Inr x, t) \<Rightarrow> (Inr x, t))"

text \<open>A command that must succeed.\<close>

definition run_checked :: "'w tools \<Rightarrow> bootstrap_error \<Rightarrow> string list \<Rightarrow> ('w, completed) machine_io" where
  "run_checked ts e command =
     bindS (run_command ts command) (\<lambda>res.
     if returncode res \<noteq> 0 then liftE (Inl (BootstrapError e)) else liftE (Inr res))"

section \<open>Commands\<close>

definition frozen_sync_check_command :: "string \<Rightarrow> string list" where
  "frozen_sync_check_command uv =
     [uv, ''sync'', ''--check'', ''--frozen'', ''--all-groups'', ''--managed-python'', ''--no-python-downloads'']"

definition frozen_lock_check_command :: "string \<Rightarrow> string \<Rightarrow> string list" where
  "frozen_lock_check_command uv python =
     [uv, ''lock'', ''--check'', ''--python'', python, ''--managed-python'', ''--no-python-downloads'', ''--no-sources'']"

definition sync_command :: "string \<Rightarrow> string \<Rightarrow> string list" where
  "sync_command uv python =
     [uv, ''sync'', ''--frozen'', ''--all-groups'', ''--python'', python, ''--managed-python'', ''--no-python-downloads'']"

definition package_list_command :: "string \<Rightarrow> string \<Rightarrow> string list" where
  "package_list_command uv python =
     [uv, ''pip'', ''list'', ''--format'', ''json'', ''--python'', python, ''--no-python-downloads'']"

section \<open>The pinned tool\<close>

definition tool_root :: "string \<Rightarrow> contract \<Rightarrow> string" where
  "tool_root root_dir c = join ''/'' [root_dir, ''.dependency-tools'', ''uv-'' @ uv_version c]"

definition uv_version_matches :: "'w tools \<Rightarrow> string \<Rightarrow> string \<Rightarrow> 'w machine \<Rightarrow> bool \<times> 'w machine" where
  "uv_version_matches ts executable expected s =
     (if \<not> tl_is_file ts executable s then (False, s)
      else case tl_run ts [executable, ''--version''] s of
        (Inl u, t) \<Rightarrow> (False, t)
      | (Inr res, t) \<Rightarrow> (returncode res = 0 \<and> before_first '' ('' (strip (stdout res)) = ''uv '' @ expected, t))"

definition in_machine :: "('w machine \<Rightarrow> 'a \<times> 'w machine) \<Rightarrow> ('w, 'a) machine_io" where
  "in_machine m s = (case m s of (x, t) \<Rightarrow> (Inr x, t))"

definition ensure_pinned_uv :: "'w tools \<Rightarrow> string \<Rightarrow> contract \<Rightarrow> string \<Rightarrow> ('w, string) machine_io" where
  "ensure_pinned_uv ts root_dir c python_executable =
     (let uv = pinned_uv_executable root_dir c; tool = tool_root root_dir c in
      bindS (in_machine (uv_version_matches ts uv (uv_version c))) (\<lambda>present.
      if present then liftE (Inr uv)
      else
        bindS (run_checked ts ToolEnvironmentFailed [python_executable, ''-m'', ''venv'', ''--clear'', tool]) (\<lambda>_.
        bindS (run_checked ts ToolInstallFailed
          [join ''/'' [tool, ''bin'', ''python''], ''-m'', ''pip'', ''install'', ''--isolated'', ''--disable-pip-version-check'',
           ''--index-url'', PYPI_INDEX, ''--no-deps'', ''--only-binary=:all:'', ''uv=='' @ uv_version c]) (\<lambda>_.
        bindS (in_machine (uv_version_matches ts uv (uv_version c))) (\<lambda>installed.
        if \<not> installed then liftE (Inl (BootstrapError ToolVersionWrong)) else liftE (Inr uv))))))"

section \<open>The managed Python\<close>

text \<open>The paths of the installed interpreters that are exactly the pinned CPython.\<close>

definition matching_path :: "string \<Rightarrow> json \<Rightarrow> string option" where
  "matching_path pin j =
     (case as_object j of
        None \<Rightarrow> None
      | Some d \<Rightarrow>
          if jget d ''implementation'' = JStr ''cpython'' \<and> jget d ''version'' = JStr pin
          then as_string (jget d ''path'') else None)"

definition matching_paths :: "'w tools \<Rightarrow> string \<Rightarrow> string \<Rightarrow> bootstrap_error + string list" where
  "matching_paths ts pin text =
     bindE (requireE (tl_parse_json ts text) InvalidPythonInventory) (\<lambda>j.
     bindE (requireE (as_list j) InvalidPythonInventory) (\<lambda>found.
     Inr (List.map_filter (matching_path pin) found)))"

definition bootstrap_failure :: "bootstrap_error + 'a \<Rightarrow> failure + 'a" where
  "bootstrap_failure r = (case r of Inl e \<Rightarrow> Inl (BootstrapError e) | Inr x \<Rightarrow> Inr x)"

definition ensure_managed_python :: "'w tools \<Rightarrow> contract \<Rightarrow> string \<Rightarrow> ('w, string) machine_io" where
  "ensure_managed_python ts c uv =
     bindS (run_checked ts PythonInstallFailed
       [uv, ''python'', ''install'', python_pin c, ''--managed-python'', ''--no-bin'']) (\<lambda>_.
     bindS (run_checked ts PythonListFailed
       [uv, ''python'', ''list'', python_pin c, ''--only-installed'', ''--managed-python'', ''--no-python-downloads'',
        ''--output-format'', ''json'']) (\<lambda>listing.
     bindS (liftE (bootstrap_failure (matching_paths ts (python_pin c) (stdout listing)))) (\<lambda>paths.
     if length paths \<noteq> 1 then liftE (Inl (BootstrapError (PythonsFound (length paths))))
     else let python = hd paths in
       if \<not> startswith python ''/'' then liftE (Inl (BootstrapError (PythonPathRelative python)))
       else
         bindS (run_checked ts PythonNotRunnable
           [python, ''-c'', ''import platform; print(platform.python_version())'']) (\<lambda>version.
         if strip (stdout version) \<noteq> python_pin c then liftE (Inl (BootstrapError (PythonVersionWrong (strip (stdout version)))))
         else liftE (Inr python)))))"

section \<open>The marker\<close>

record bootstrap_identity =
  bi_schema_version :: int
  bi_python_version :: string
  bi_python_executable :: string
  bi_uv_version :: string
  bi_python_pin_sha256 :: string
  bi_manifest_sha256 :: string
  bi_lock_sha256 :: string

definition BOOTSTRAP_MARKER_SCHEMA :: int where
  "BOOTSTRAP_MARKER_SCHEMA = 1"

text \<open>The digests of the three contract files.\<close>

record digests =
  dg_pin :: string
  dg_manifest :: string
  dg_lock :: string

definition bootstrap_identity_of :: "'w tools \<Rightarrow> contract \<Rightarrow> string \<Rightarrow> digests \<Rightarrow> bootstrap_identity" where
  "bootstrap_identity_of ts c python dg =
     \<lparr>bi_schema_version = BOOTSTRAP_MARKER_SCHEMA, bi_python_version = python_pin c,
      bi_python_executable = tl_resolve ts python, bi_uv_version = uv_version c,
      bi_python_pin_sha256 = dg_pin dg, bi_manifest_sha256 = dg_manifest dg, bi_lock_sha256 = dg_lock dg\<rparr>"

definition identity_json :: "bootstrap_identity \<Rightarrow> json" where
  "identity_json i = JObj
     [(''schema_version'', JInt (bi_schema_version i)), (''python_version'', JStr (bi_python_version i)),
      (''python_executable'', JStr (bi_python_executable i)), (''uv_version'', JStr (bi_uv_version i)),
      (''python_pin_sha256'', JStr (bi_python_pin_sha256 i)), (''manifest_sha256'', JStr (bi_manifest_sha256 i)),
      (''lock_sha256'', JStr (bi_lock_sha256 i))]"

definition marker_matches :: "bootstrap_identity \<Rightarrow> 'w machine \<Rightarrow> bool" where
  "marker_matches identity s = (case mc_marker s of MarkerValue j \<Rightarrow> py_eq j (identity_json identity) | _ \<Rightarrow> False)"

text \<open>
  \<open>unlink(missing_ok=True)\<close> of the marker: below something that is not a directory the system raises an error that
  is not \<open>FileNotFoundError\<close>.
\<close>

definition unlink_marker :: "('w, unit) machine_io" where
  "unlink_marker s =
     (if mc_environment s \<in> {EnvironmentFile, LinkToFile} then (Inl OsError, s)
      else (Inr (), s\<lparr>mc_marker := NoMarker\<rparr>))"

definition remove_project_environment :: "'w tools \<Rightarrow> ('w, unit) machine_io" where
  "remove_project_environment ts s =
     (if mc_environment s = NoEnvironment then (Inr (), s)
      else if tl_removal_fails ts s then (Inl (BootstrapError EnvironmentKept), s)
      else (Inr (), s\<lparr>mc_environment := NoEnvironment, mc_marker := NoMarker\<rparr>))"

definition write_marker :: "bootstrap_identity \<Rightarrow> ('w, unit) machine_io" where
  "write_marker identity s =
     (if mc_environment s \<in> {EnvironmentFile, LinkToFile, DanglingLink} then (Inl OsError, s)
      else (Inr (), s\<lparr>mc_marker := MarkerValue (identity_json identity),
                      mc_environment := (if mc_environment s = NoEnvironment then EnvironmentDirectory else mc_environment s)\<rparr>))"

section \<open>The installed packages\<close>

text \<open>The loop over the listing: the names seen and whether the project was found, or \<open>None\<close> for \<open>return False\<close>.\<close>

definition listing_step ::
  "(string \<Rightarrow> string) \<Rightarrow> string \<Rightarrow> locked_requirement list \<Rightarrow> (string list \<times> bool) option \<Rightarrow> json \<Rightarrow> (string list \<times> bool) option" where
  "listing_step resolve root_dir locked st j =
     (case st of
        None \<Rightarrow> None
      | Some (names, found) \<Rightarrow>
          (case as_object j of
             None \<Rightarrow> None
           | Some d \<Rightarrow>
               (case (as_string (jget d ''name''), as_string (jget d ''version'')) of
                  (Some name, Some version) \<Rightarrow>
                    let normalized = canonicalize_name name in
                    if normalized \<in> set names then None
                    else if normalized = PROJECT_NAME then
                      (case as_string (jget d ''editable_project_location'') of
                         None \<Rightarrow> None
                       | Some location \<Rightarrow>
                           if resolve location \<noteq> resolve root_dir then None else Some (normalized # names, True))
                    else if (normalized, version) \<notin> set locked then None
                    else Some (normalized # names, found)
                | _ \<Rightarrow> None)))"

definition only_locked_packages :: "'w tools \<Rightarrow> string \<Rightarrow> locked_requirement list \<Rightarrow> string \<Rightarrow> bool" where
  "only_locked_packages ts root_dir locked text =
     (case Option.bind (tl_parse_json ts text) as_list of
        None \<Rightarrow> False
      | Some listing \<Rightarrow>
          (case foldl (listing_step (tl_resolve ts) root_dir locked) (Some ([], False)) listing of
             None \<Rightarrow> False | Some (names, found) \<Rightarrow> found))"

definition environment_has_only_locked_packages ::
  "'w tools \<Rightarrow> string \<Rightarrow> contract \<Rightarrow> string \<Rightarrow> ('w, bool) machine_io" where
  "environment_has_only_locked_packages ts root_dir c uv =
     bindS (run_command ts (package_list_command uv (join ''/'' [root_dir, ''.venv'', ''bin'', ''python'']))) (\<lambda>res.
     liftE (Inr (returncode res = 0 \<and> only_locked_packages ts root_dir (locked_requirements c) (stdout res))))"

section \<open>The bootstrap\<close>

text \<open>\<open>rsplit(\<dots>, maxsplit=1)[0]\<close> at a dot.\<close>

definition before_last_dot :: "string \<Rightarrow> string" where
  "before_last_dot s =
     (if CHR ''.'' \<in> set s then rev (tl (dropWhile (\<lambda>c. c \<noteq> CHR ''.'') (rev s))) else s)"

definition rebuild_environment ::
  "'w tools \<Rightarrow> string \<Rightarrow> contract \<Rightarrow> string \<Rightarrow> string \<Rightarrow> bootstrap_identity \<Rightarrow> ('w, bool) machine_io" where
  "rebuild_environment ts root_dir c uv python identity =
     bindS unlink_marker (\<lambda>_.
     bindS (remove_project_environment ts) (\<lambda>_.
     bindS (run_checked ts SyncFailed (sync_command uv python)) (\<lambda>_.
     bindS (run_checked ts EnvironmentDiffers (frozen_sync_check_command uv)) (\<lambda>_.
     bindS (environment_has_only_locked_packages ts root_dir c uv) (\<lambda>locked.
     if \<not> locked then liftE (Inl (BootstrapError ForeignPackages))
     else bindS (write_marker identity) (\<lambda>_. liftE (Inr False)))))))"

definition reusable_environment :: "'w tools \<Rightarrow> string \<Rightarrow> contract \<Rightarrow> string \<Rightarrow> ('w, bool) machine_io" where
  "reusable_environment ts root_dir c uv =
     bindS (run_command ts (frozen_sync_check_command uv)) (\<lambda>check.
     if returncode check = 0 then environment_has_only_locked_packages ts root_dir c uv else liftE (Inr False))"

definition synchronize ::
  "'w tools \<Rightarrow> string \<Rightarrow> contract \<Rightarrow> string \<Rightarrow> string \<Rightarrow> bootstrap_identity \<Rightarrow> ('w, bool) machine_io" where
  "synchronize ts root_dir c uv python identity s =
     (if marker_matches identity s then
        bindS (reusable_environment ts root_dir c uv) (\<lambda>reusable.
        if reusable then liftE (Inr True) else rebuild_environment ts root_dir c uv python identity) s
      else rebuild_environment ts root_dir c uv python identity s)"

record project_files =
  pf_pyproject :: toml_file
  pf_lock :: toml_file
  pf_python_version :: "string option"
  pf_digests :: digests

definition bootstrap_environment ::
  "'w tools \<Rightarrow> string \<Rightarrow> project_files \<Rightarrow> string \<Rightarrow> string \<Rightarrow> ('w, bool) machine_io" where
  "bootstrap_environment ts root_dir files bootstrap_python bootstrap_version =
     (case validate_contract_files (pf_pyproject files) (pf_lock files) (pf_python_version files) of
        Inl e \<Rightarrow> liftE (Inl (ContractCrash e))
      | Inr (None, issues) \<Rightarrow> liftE (Inl (BootstrapError (ContractIssues issues)))
      | Inr (Some c, issues) \<Rightarrow>
          if issues \<noteq> [] then liftE (Inl (BootstrapError (ContractIssues issues)))
          else if before_last_dot bootstrap_version \<noteq> before_last_dot (python_pin c)
          then liftE (Inl (BootstrapError WrongInterpreter))
          else
            bindS (ensure_pinned_uv ts root_dir c bootstrap_python) (\<lambda>uv.
            bindS (ensure_managed_python ts c uv) (\<lambda>python.
            bindS (run_checked ts LockIsStale (frozen_lock_check_command uv python)) (\<lambda>_.
            synchronize ts root_dir c uv python (bootstrap_identity_of ts c python (pf_digests files))))))"

text \<open>The exit status of the command; an error that is not handled escapes it.\<close>

definition bootstrap_main ::
  "'w tools \<Rightarrow> string \<Rightarrow> project_files \<Rightarrow> string \<Rightarrow> string \<Rightarrow> string list \<Rightarrow> ('w, int) machine_io" where
  "bootstrap_main ts root_dir files bootstrap_python bootstrap_version arguments s =
     (if arguments \<noteq> [] then (Inr 2, s)
      else case bootstrap_environment ts root_dir files bootstrap_python bootstrap_version s of
        (Inl (BootstrapError e), t) \<Rightarrow> (Inr 2, t)
      | (Inl e, t) \<Rightarrow> (Inl e, t)
      | (Inr reused, t) \<Rightarrow> (Inr 0, t))"

section \<open>A listing of exactly the locked packages\<close>

definition editable_at :: "(string \<Rightarrow> string) \<Rightarrow> string \<Rightarrow> json \<Rightarrow> bool" where
  "editable_at resolve root_dir j \<longleftrightarrow> (case as_object j of None \<Rightarrow> False | Some d \<Rightarrow>
     (case as_string (jget d ''editable_project_location'') of
        None \<Rightarrow> False | Some location \<Rightarrow> resolve location = resolve root_dir))"

definition package_allowed :: "(string \<Rightarrow> string) \<Rightarrow> string \<Rightarrow> locked_requirement list \<Rightarrow> json \<Rightarrow> bool" where
  "package_allowed resolve root_dir locked j \<longleftrightarrow> (case package_pin j of None \<Rightarrow> False
     | Some pin \<Rightarrow> if fst pin = PROJECT_NAME then editable_at resolve root_dir j else pin \<in> set locked)"

text \<open>Every record is allowed, no distribution is listed twice, and the project is there.\<close>

definition listing_allowed :: "(string \<Rightarrow> string) \<Rightarrow> string \<Rightarrow> locked_requirement list \<Rightarrow> json list \<Rightarrow> bool" where
  "listing_allowed resolve root_dir locked listing \<longleftrightarrow> list_all (package_allowed resolve root_dir locked) listing \<and>
     distinct (map fst (package_pins listing)) \<and> PROJECT_NAME \<in> fst ` set (package_pins listing)"

lemma listing_step_eq:
  "listing_step resolve root_dir locked (Some (names, found)) j =
     (if package_allowed resolve root_dir locked j \<and> fst (the (package_pin j)) \<notin> set names
      then Some (fst (the (package_pin j)) # names, found \<or> fst (the (package_pin j)) = PROJECT_NAME) else None)"
  by (auto simp: listing_step_def package_allowed_def package_pin_def editable_at_def Let_def split: option.splits)

lemma listing_fold_None: "foldl (listing_step resolve root_dir locked) None xs = None"
  by (induction xs) (auto simp: listing_step_def)

lemma listing_fold:
  "foldl (listing_step resolve root_dir locked) (Some (names, found)) xs =
     (if list_all (package_allowed resolve root_dir locked) xs \<and> distinct (map fst (package_pins xs)) \<and>
         set (map fst (package_pins xs)) \<inter> set names = {}
      then Some (rev (map fst (package_pins xs)) @ names, found \<or> PROJECT_NAME \<in> fst ` set (package_pins xs)) else None)"
proof (induction xs arbitrary: names found)
  case Nil
  then show ?case by (simp add: package_pins_def)
next
  case (Cons j xs)
  show ?case
  proof (cases "package_allowed resolve root_dir locked j")
    case False
    then show ?thesis by (simp add: listing_step_eq listing_fold_None)
  next
    case True
    then obtain pin where pin: "package_pin j = Some pin"
      by (auto simp: package_allowed_def split: option.splits)
    have pins: "package_pins (j # xs) = pin # package_pins xs" by (simp add: package_pins_def pin)
    show ?thesis
      using True Cons.IH [of "fst pin # names" "found \<or> fst pin = PROJECT_NAME"]
      by (auto simp: listing_step_eq listing_fold_None pin pins)
  qed
qed

lemma only_locked_packages_iff:
  "only_locked_packages ts root_dir locked text \<longleftrightarrow>
     (\<exists>listing. tl_parse_json ts text = Some (JList listing) \<and> listing_allowed (tl_resolve ts) root_dir locked listing)"
  by (cases "tl_parse_json ts text")
    (auto simp: only_locked_packages_def listing_fold listing_allowed_def as_list_def split: json.splits)

section \<open>The marker vouches for a verified environment\<close>

text \<open>
  What the commands may do to the marker: a command can remove the environment, and the marker with it, but none
  writes it.
\<close>

definition marker_kept :: "'w machine \<Rightarrow> 'w machine \<Rightarrow> bool" where
  "marker_kept s t \<longleftrightarrow> mc_marker t = mc_marker s \<or> mc_marker t = NoMarker"

definition commands_spare_marker :: "'w tools \<Rightarrow> bool" where
  "commands_spare_marker ts \<longleftrightarrow> (\<forall>command. keeps marker_kept (tl_run ts command))"

lemma marker_kept_order [simp]: "reflp marker_kept" "transp marker_kept"
  by (auto simp: reflp_def transp_def marker_kept_def)

lemma keepsD: "keeps R m \<Longrightarrow> m s = (r, t) \<Longrightarrow> R s t"
  by (auto simp: keeps_def) (metis snd_conv)

named_theorems spares \<open>operations that do not write the marker\<close>

lemma run_command_spares [spares]: "commands_spare_marker ts \<Longrightarrow> keeps marker_kept (run_command ts c)"
  unfolding commands_spare_marker_def keeps_def run_command_def
  by (auto split: prod.split sum.split) (metis snd_conv)+

lemma run_checked_spares [spares]: "commands_spare_marker ts \<Longrightarrow> keeps marker_kept (run_checked ts e c)"
  unfolding run_checked_def by (intro keeps_bindS run_command_spares) (auto intro: keeps_liftE)

lemma uv_version_matches_spares [spares]:
  assumes "commands_spare_marker ts"
  shows "keeps marker_kept (in_machine (uv_version_matches ts uv v))"
proof -
  have k: "marker_kept s (snd (tl_run ts c s))" for c s
    using assms by (auto simp: commands_spare_marker_def keeps_def)
  show ?thesis
    unfolding keeps_def in_machine_def uv_version_matches_def
    using k [of _ "[uv, ''--version'']"] reflpD [OF marker_kept_order(1)]
    by (auto split: prod.split sum.split) (metis snd_conv)+
qed

lemma ensure_pinned_uv_spares [spares]:
  "commands_spare_marker ts \<Longrightarrow> keeps marker_kept (ensure_pinned_uv ts root_dir c python)"
  unfolding ensure_pinned_uv_def Let_def
  by (auto intro!: keeps_bindS run_checked_spares uv_version_matches_spares keeps_liftE)

lemma ensure_managed_python_spares [spares]:
  "commands_spare_marker ts \<Longrightarrow> keeps marker_kept (ensure_managed_python ts c uv)"
  unfolding ensure_managed_python_def Let_def
  by (auto intro!: keeps_bindS run_checked_spares keeps_liftE)

lemma environment_has_only_spares [spares]:
  "commands_spare_marker ts \<Longrightarrow> keeps marker_kept (environment_has_only_locked_packages ts root_dir c uv)"
  unfolding environment_has_only_locked_packages_def by (auto intro!: keeps_bindS run_command_spares keeps_liftE)

lemma reusable_spares [spares]:
  "commands_spare_marker ts \<Longrightarrow> keeps marker_kept (reusable_environment ts root_dir c uv)"
  unfolding reusable_environment_def
  by (auto intro!: keeps_bindS run_command_spares environment_has_only_spares keeps_liftE)

text \<open>
  What a verification is: the parity check succeeds, and the listing that follows it holds exactly what the lock allows.
\<close>

definition verification :: "'w tools \<Rightarrow> string \<Rightarrow> contract \<Rightarrow> string \<Rightarrow> 'w machine \<Rightarrow> 'w machine \<Rightarrow> bool" where
  "verification ts root_dir c uv s t \<longleftrightarrow> (\<exists>check u res listing.
     run_command ts (frozen_sync_check_command uv) s = (Inr check, u) \<and> returncode check = 0 \<and>
     run_command ts (package_list_command uv (join ''/'' [root_dir, ''.venv'', ''bin'', ''python''])) u = (Inr res, t) \<and>
     returncode res = 0 \<and> tl_parse_json ts (stdout res) = Some (JList listing) \<and>
     listing_allowed (tl_resolve ts) root_dir (locked_requirements c) listing)"

lemma reusable_verified: "reusable_environment ts root_dir c uv s = (Inr True, t) \<Longrightarrow> verification ts root_dir c uv s t"
  by (auto simp: reusable_environment_def environment_has_only_locked_packages_def ok_iff only_locked_packages_iff
      verification_def split: if_splits)

lemma checked_verified:
  assumes "run_checked ts e (frozen_sync_check_command uv) s = (Inr check, u)"
    and "environment_has_only_locked_packages ts root_dir c uv u = (Inr True, t)"
  shows "verification ts root_dir c uv s t"
  using assms
  by (auto simp: run_checked_def environment_has_only_locked_packages_def ok_iff only_locked_packages_iff
      verification_def split: if_splits)

definition late_failure :: "bootstrap_error \<Rightarrow> bool" where
  "late_failure e \<longleftrightarrow> e \<in> {SyncFailed, EnvironmentDiffers, ForeignPackages, EnvironmentKept}"

text \<open>
  Rebuilding: the marker goes first, and comes back only when the new environment is verified.
\<close>

lemma rebuild_ok:
  assumes "rebuild_environment ts root_dir c uv python identity s = (Inr reused, t)"
  shows "\<not> reused \<and> (\<exists>u v. verification ts root_dir c uv u v \<and> write_marker identity v = (Inr (), t))"
proof -
  obtain u v w check where
    check: "run_checked ts EnvironmentDiffers (frozen_sync_check_command uv) u = (Inr check, v)" and
    listed: "environment_has_only_locked_packages ts root_dir c uv v = (Inr True, w)" and
    "write_marker identity w = (Inr (), t)" "\<not> reused"
    using assms by (auto simp: rebuild_environment_def ok_iff split: if_splits)
  then show ?thesis using checked_verified [OF check listed] by blast
qed

definition marker_gone :: "'w machine \<Rightarrow> bool" where
  "marker_gone s \<longleftrightarrow> mc_marker s = NoMarker"

lemma gone_kept: "keeps marker_kept m \<Longrightarrow> m s = (r, t) \<Longrightarrow> marker_gone s \<Longrightarrow> marker_gone t"
  using keepsD [of marker_kept m s r t] by (auto simp: marker_gone_def marker_kept_def)

lemma rebuild_error:
  assumes spare: "commands_spare_marker ts" and run: "rebuild_environment ts root_dir c uv python identity s = (Inl f, t)"
  shows "marker_gone t \<or> (f = OsError \<and> t = s)"
proof -
  have unlink: "unlink_marker s = (Inr (), u) \<Longrightarrow> marker_gone u" for u
    by (auto simp: unlink_marker_def marker_gone_def split: if_splits)
  have remove: "remove_project_environment ts u = (r, v) \<Longrightarrow> marker_gone u \<Longrightarrow> marker_gone v" for r u v
    by (auto simp: remove_project_environment_def marker_gone_def split: if_splits)
  have checked: "run_checked ts e cmd u = (r, v) \<Longrightarrow> marker_gone u \<Longrightarrow> marker_gone v" for e cmd r u v
    using gone_kept [OF run_checked_spares [OF spare]] by blast
  have listed: "environment_has_only_locked_packages ts root_dir c uv u = (r, v) \<Longrightarrow> marker_gone u \<Longrightarrow> marker_gone v" for r u v
    using gone_kept [OF environment_has_only_spares [OF spare]] by blast
  have written: "write_marker identity u = (Inl f, v) \<Longrightarrow> v = u" for f u v
    by (auto simp: write_marker_def split: if_splits)
  show ?thesis
  proof (cases "unlink_marker s")
    case (Pair r u)
    show ?thesis
    proof (cases r)
      case (Inl e)
      then have "f = OsError \<and> t = s"
        using run Pair by (auto simp: rebuild_environment_def bindS_def unlink_marker_def split: if_splits)
      then show ?thesis by blast
    next
      case (Inr x)
      then have gone: "marker_gone u" using unlink Pair by simp
      show ?thesis
        using run Pair Inr gone
        by (auto simp: rebuild_environment_def bindS_err liftE_def dest!: remove checked listed written split: if_splits)
    qed
  qed
qed

lemma synchronize_ok:
  assumes "synchronize ts root_dir c uv python identity s = (Inr reused, t)"
  shows "\<exists>u v. verification ts root_dir c uv u v \<and>
    (if reused then marker_matches identity s \<and> t = v else write_marker identity v = (Inr (), t))"
proof (cases "marker_matches identity s")
  case False
  then have "rebuild_environment ts root_dir c uv python identity s = (Inr reused, t)"
    using assms by (simp add: synchronize_def)
  from rebuild_ok [OF this] show ?thesis by auto
next
  case True
  then obtain reusable u where r: "reusable_environment ts root_dir c uv s = (Inr reusable, u)"
    and next_step: "(if reusable then liftE (Inr True) else rebuild_environment ts root_dir c uv python identity) u = (Inr reused, t)"
    using assms by (auto simp: synchronize_def ok_iff)
  show ?thesis
  proof (cases reusable)
    case True
    then have "t = u" "reused" using next_step by (auto simp: liftE_def)
    with True reusable_verified [of ts root_dir c uv s u] r \<open>marker_matches identity s\<close> show ?thesis by auto
  next
    case False
    then have "rebuild_environment ts root_dir c uv python identity u = (Inr reused, t)" using next_step by simp
    from rebuild_ok [OF this] show ?thesis by auto
  qed
qed

lemma run_command_error: "run_command ts c s = (Inl f, t) \<Longrightarrow> f = OsError"
  by (auto simp: run_command_def split: prod.splits sum.splits)

lemma synchronize_error:
  assumes spare: "commands_spare_marker ts" and run: "synchronize ts root_dir c uv python identity s = (Inl f, t)"
  shows "marker_gone t \<or> f = OsError \<and> marker_kept s t"
proof -
  have rebuilt: "marker_gone t \<or> f = OsError \<and> marker_kept s t"
    if "rebuild_environment ts root_dir c uv python identity u = (Inl f, t)" "marker_kept s u" for u
    using rebuild_error [OF spare that(1)] that(2) by auto
  show ?thesis
  proof (cases "marker_matches identity s")
    case False
    then show ?thesis using run rebuilt [of s] by (simp add: synchronize_def marker_kept_def)
  next
    case True
    consider "reusable_environment ts root_dir c uv s = (Inl f, t)"
      | u where "reusable_environment ts root_dir c uv s = (Inr False, u)"
          "rebuild_environment ts root_dir c uv python identity u = (Inl f, t)"
      using run True by (auto simp: synchronize_def bindS_err liftE_def split: if_splits)
    then show ?thesis
    proof cases
      case 1
      moreover from this have "f = OsError"
        by (auto simp: reusable_environment_def environment_has_only_locked_packages_def bindS_err liftE_def
            dest: run_command_error split: if_splits)
      ultimately show ?thesis using keepsD [OF reusable_spares [OF spare]] by blast
    next
      case 2
      then show ?thesis using rebuilt keepsD [OF reusable_spares [OF spare] 2(1)] by blast
    qed
  qed
qed

text \<open>Before the synchronisation every failure is an early one, and the marker is spared.\<close>

definition preparation ::
  "'w tools \<Rightarrow> string \<Rightarrow> contract \<Rightarrow> string \<Rightarrow> ('w, string \<times> string) machine_io" where
  "preparation ts root_dir c bootstrap_python =
     bindS (ensure_pinned_uv ts root_dir c bootstrap_python) (\<lambda>uv.
     bindS (ensure_managed_python ts c uv) (\<lambda>python.
     bindS (run_checked ts LockIsStale (frozen_lock_check_command uv python)) (\<lambda>_. liftE (Inr (uv, python)))))"

lemma preparation_spares: "commands_spare_marker ts \<Longrightarrow> keeps marker_kept (preparation ts root_dir c python)"
  unfolding preparation_def by (auto intro!: keeps_bindS spares keeps_liftE)

definition late :: "failure \<Rightarrow> bool" where
  "late f \<longleftrightarrow> (\<exists>e. f = BootstrapError e \<and> late_failure e)"

lemma run_checked_error: "run_checked ts e c s = (Inl f, t) \<Longrightarrow> f = OsError \<or> f = BootstrapError e"
  by (auto simp: run_checked_def bindS_err liftE_def dest: run_command_error split: if_splits)

lemma in_machine_returns [simp]: "in_machine m s \<noteq> (Inl f, t)"
  by (simp add: in_machine_def split: prod.split)

lemma ensure_pinned_uv_error: "ensure_pinned_uv ts root_dir c python s = (Inl f, t) \<Longrightarrow> \<not> late f"
  by (auto simp: ensure_pinned_uv_def Let_def bindS_err liftE_def late_def late_failure_def
      dest: run_checked_error split: if_splits prod.splits)

lemma ensure_managed_python_error: "ensure_managed_python ts c uv s = (Inl f, t) \<Longrightarrow> \<not> late f"
  by (auto simp: ensure_managed_python_def Let_def bindS_err liftE_def late_def late_failure_def bootstrap_failure_def
      matching_paths_def bindE_err requireE_def dest: run_checked_error split: if_splits sum.splits option.splits)

lemma preparation_early: "preparation ts root_dir c python s = (Inl f, t) \<Longrightarrow> \<not> late f"
  by (auto simp: preparation_def bindS_err liftE_def late_def late_failure_def
      dest: ensure_pinned_uv_error ensure_managed_python_error run_checked_error)

lemma bootstrap_cases:
  assumes "bootstrap_environment ts root_dir files bootstrap_python bootstrap_version s = (r, t)"
  obtains (refused) f where "r = Inl f" "t = s" "\<not> late f"
  | (unprepared) c f where "validate_contract_files (pf_pyproject files) (pf_lock files) (pf_python_version files) = Inr (Some c, [])"
      "preparation ts root_dir c bootstrap_python s = (Inl f, t)" "r = Inl f"
  | (prepared) c uv python u where
      "validate_contract_files (pf_pyproject files) (pf_lock files) (pf_python_version files) = Inr (Some c, [])"
      "preparation ts root_dir c bootstrap_python s = (Inr (uv, python), u)"
      "synchronize ts root_dir c uv python (bootstrap_identity_of ts c python (pf_digests files)) u = (r, t)"
proof (cases "validate_contract_files (pf_pyproject files) (pf_lock files) (pf_python_version files)")
  case (Inl e)
  then show ?thesis using assms refused by (auto simp: bootstrap_environment_def liftE_def late_def)
next
  case (Inr found)
  obtain co iss where found: "found = (co, iss)" by fastforce
  show ?thesis
  proof (cases "\<exists>c. co = Some c \<and> iss = [] \<and> before_last_dot bootstrap_version = before_last_dot (python_pin c)")
    case False
    then show ?thesis using assms Inr found refused
      by (cases co) (auto simp: bootstrap_environment_def liftE_def late_def late_failure_def split: if_splits)
  next
    case True
    then obtain c where c: "co = Some c" "iss = []" "before_last_dot bootstrap_version = before_last_dot (python_pin c)" by blast
    have "bindS (preparation ts root_dir c bootstrap_python) (\<lambda>(uv, python).
        synchronize ts root_dir c uv python (bootstrap_identity_of ts c python (pf_digests files))) s = (r, t)"
      using assms Inr found c
      by (simp add: bootstrap_environment_def preparation_def bindS_assoc bindS_liftE_left)
    then show ?thesis
      using Inr found c unprepared prepared
      by (cases "preparation ts root_dir c bootstrap_python s") (auto simp: bindS_def split: sum.splits prod.splits)
  qed
qed

text \<open>
  C37. The marker vouches for a verified environment.  When no command writes the marker, a bootstrap that returns has just
  verified the environment, whether it reused it or rebuilt and marked it; one that raises leaves the marker as it was or
  gone; and one that raises once the old environment is given up leaves none, so that the next bootstrap rebuilds.
\<close>

theorem marker_vouches_for_verified_environment:
  assumes spare: "commands_spare_marker ts"
    and run: "bootstrap_environment ts root_dir files bootstrap_python bootstrap_version s = (r, t)"
  shows "(case r of
      Inr reused \<Rightarrow> \<exists>c uv u v. validate_contract_files (pf_pyproject files) (pf_lock files) (pf_python_version files) = Inr (Some c, []) \<and>
        verification ts root_dir c uv u v \<and> (if reused then t = v else \<exists>identity. write_marker identity v = (Inr (), t))
    | Inl f \<Rightarrow> (mc_marker t = mc_marker s \<or> mc_marker t = NoMarker) \<and> (late f \<longrightarrow> mc_marker t = NoMarker))"
  using run
proof (cases rule: bootstrap_cases)
  case (refused f)
  then show ?thesis by simp
next
  case (unprepared c f)
  then show ?thesis
    using keepsD [OF preparation_spares [OF spare] unprepared(2)] preparation_early [OF unprepared(2)] by (simp add: marker_kept_def)
next
  case (prepared c uv python u)
  have kept: "marker_kept s u" using keepsD [OF preparation_spares [OF spare] prepared(2)] by blast
  show ?thesis
  proof (cases r)
    case (Inl f)
    then have "marker_gone t \<or> f = OsError \<and> marker_kept u t"
      using synchronize_error [OF spare] prepared(3) by blast
    then show ?thesis using kept Inl by (auto simp: marker_gone_def marker_kept_def late_def)
  next
    case (Inr reused)
    obtain u' v where "verification ts root_dir c uv u' v"
      "if reused then t = v else write_marker (bootstrap_identity_of ts c python (pf_digests files)) v = (Inr (), t)"
      using synchronize_ok [OF prepared(3) [unfolded Inr]] by (auto split: if_splits)
    then show ?thesis unfolding Inr sum.case using prepared(1) by (cases reused) (simp_all, blast+)
  qed
qed

text \<open>
  A project environment that is a plain file cannot be replaced: removing the marker below it raises before the
  environment is removed.
\<close>

lemma plain_file_is_not_replaced:
  "mc_environment s \<in> {EnvironmentFile, LinkToFile} \<Longrightarrow>
     rebuild_environment ts root_dir c uv python identity s = (Inl OsError, s)"
  by (auto simp: rebuild_environment_def unlink_marker_def bindS_def)

section \<open>A small machine\<close>

text \<open>
  The tools of a machine with the pinned interpreter: every command succeeds, the synchronisation creates the
  environment, and the listing depends on the command.
\<close>

definition small_run :: "nat machine runner" where
  "small_run command s = (Inr \<lparr>returncode = 0,
      stdout = (if command ! 1 = ''--version'' then ''uv 0.9.1''
                else if command ! 1 = ''python'' then ''pythons''
                else if command ! 1 = ''pip'' then ''packages'' else ''3.12.8''), stderr = []\<rparr>,
     if command ! 1 = ''sync'' \<and> command ! 2 = ''--frozen'' then s\<lparr>mc_environment := EnvironmentDirectory\<rparr> else s)"

definition small_tools :: "nat tools" where
  "small_tools = \<lparr>tl_run = small_run, tl_is_file = (\<lambda>_ _. True),
     tl_parse_json = (\<lambda>text. if text = ''pythons''
        then Some (JList [JObj [(''implementation'', JStr ''cpython''), (''version'', JStr ''3.12.8''), (''path'', JStr ''/py'')]])
        else if text = ''packages''
        then Some (JList [JObj [(''name'', JStr PROJECT_NAME), (''version'', JStr ''0.1.0''), (''editable_project_location'', JStr ''/repo'')],
                          JObj [(''name'', JStr ''httpx''), (''version'', JStr ''0.28.1'')]])
        else None),
     tl_resolve = (\<lambda>p. p), tl_removal_fails = (\<lambda>_. False)\<rparr>"

definition small_files :: project_files where
  "small_files = \<lparr>pf_pyproject = example_pyproject, pf_lock = Parsed (JObj example_lock), pf_python_version = Some ''3.12.8'',
     pf_digests = \<lparr>dg_pin = ''a'', dg_manifest = ''b'', dg_lock = ''c''\<rparr>\<rparr>"

definition fresh_machine :: "nat machine" where
  "fresh_machine = \<lparr>mc_environment = NoEnvironment, mc_marker = NoMarker, mc_world = 0\<rparr>"

lemma small_tools_spare: "commands_spare_marker small_tools"
  by (simp add: commands_spare_marker_def keeps_def small_tools_def small_run_def marker_kept_def)

lemma small_bootstrap:
  "fst (bootstrap_environment small_tools ''/repo'' small_files ''/usr/bin/python3'' ''3.12.1'' fresh_machine) = Inr False"
  "fst (bootstrap_environment small_tools ''/repo'' small_files ''/usr/bin/python3'' ''3.12.1''
     (snd (bootstrap_environment small_tools ''/repo'' small_files ''/usr/bin/python3'' ''3.12.1'' fresh_machine))) = Inr True"
  by code_simp+

theorem marker_vouches_for_verified_environment_witness:
  "\<exists>t. bootstrap_environment small_tools ''/repo'' small_files ''/usr/bin/python3'' ''3.12.1'' fresh_machine = (Inr False, t) \<and>
     (\<exists>c uv u v identity. verification small_tools ''/repo'' c uv u v \<and> write_marker identity v = (Inr (), t))"
proof -
  obtain t where t: "bootstrap_environment small_tools ''/repo'' small_files ''/usr/bin/python3'' ''3.12.1'' fresh_machine = (Inr False, t)"
    using small_bootstrap(1) by (metis prod.collapse)
  note vouched = marker_vouches_for_verified_environment [OF small_tools_spare t, simplified sum.case if_False]
  from vouched obtain c uv u v identity where
    "verification small_tools ''/repo'' c uv u v" "write_marker identity v = (Inr (), t)" by blast
  with t show ?thesis by blast
qed

end
