(* ===== verification/Package_Inventory.thy ===== *)
theory Package_Inventory
  imports Bootstrap
begin

text \<open>
  \<open>src/api_tests/dependency_inventory.py\<close>: proof that the installed environment is the locked one, and the document
  that records it.  It parses the same listing as the bootstrap, but raises on the first record that it refuses; the
  two policies are compared at the end.
\<close>

definition INVENTORY_SCHEMA :: int where
  "INVENTORY_SCHEMA = 1"

type_synonym installed_package = "string \<times> string"

record project_package =
  pp_name :: string
  pp_version :: string
  pp_editable :: bool

datatype package_error =
    ContractIncomplete "issue list"
  | RuntimeVersion string
  | UvUnusable
  | UvReports string
  | LockNotFresh
  | NotInParity
  | ListingFailed
  | ListingNotJson
  | ListingNotArray
  | RecordNotObject nat
  | RecordWithoutVersion nat
  | DuplicateDistribution string
  | ProjectNotEditable
  | ProjectElsewhere
  | ThirdPartyEditable string
  | NotLocked string string
  | ProjectAbsent

section \<open>The listing\<close>

record parse_state =
  ps_project :: "project_package option"
  ps_installed :: "installed_package list"
  ps_seen :: "string list"

definition parse_record ::
  "(string \<Rightarrow> string) \<Rightarrow> string \<Rightarrow> locked_requirement list \<Rightarrow> parse_state \<Rightarrow> nat \<times> json \<Rightarrow> package_error + parse_state" where
  "parse_record resolve root_dir locked st indexed =
     bindE (requireE (as_object (snd indexed)) (RecordNotObject (fst indexed))) (\<lambda>d.
     bindE (requireE (package_pin (snd indexed)) (RecordWithoutVersion (fst indexed))) (\<lambda>(normalized, version).
     let location = jget d ''editable_project_location''; seen = normalized # ps_seen st in
     if normalized \<in> set (ps_seen st) then Inl (DuplicateDistribution normalized)
     else if normalized = PROJECT_NAME then
       bindE (requireE (as_string location) ProjectNotEditable) (\<lambda>path.
       if resolve path \<noteq> resolve root_dir then Inl ProjectElsewhere
       else Inr (st\<lparr>ps_seen := seen,
              ps_project := Some \<lparr>pp_name = normalized, pp_version = version, pp_editable = True\<rparr>\<rparr>))
     else if location \<noteq> JNull then Inl (ThirdPartyEditable normalized)
     else if (normalized, version) \<notin> set locked then Inl (NotLocked normalized version)
     else Inr (st\<lparr>ps_seen := seen, ps_installed := (normalized, version) # ps_installed st\<rparr>)))"

definition parse_installed_packages ::
  "'w tools \<Rightarrow> string \<Rightarrow> string \<Rightarrow> contract \<Rightarrow> package_error + (project_package \<times> installed_package list)" where
  "parse_installed_packages ts raw root_dir c =
     bindE (requireE (tl_parse_json ts raw) ListingNotJson) (\<lambda>j.
     bindE (requireE (as_list j) ListingNotArray) (\<lambda>listing.
     bindE (foldE (parse_record (tl_resolve ts) root_dir (locked_requirements c))
              \<lparr>ps_project = None, ps_installed = [], ps_seen = []\<rparr> (List.enumerate 0 listing)) (\<lambda>st.
     bindE (requireE (ps_project st) ProjectAbsent) (\<lambda>project.
     Inr (project, sorted_keys (ps_installed st))))))"

section \<open>The document\<close>

text \<open>What the inventory raises: its own error, an operating system error, or a crash of the contract check.\<close>

datatype inventory_failure = PackageError package_error | InventoryOsError | InventoryCrash crash

type_synonym ('w, 'a) inventory_io = "('w machine, inventory_failure, 'a) io"

definition inventory_command :: "'w tools \<Rightarrow> string list \<Rightarrow> ('w, completed) inventory_io" where
  "inventory_command ts command s =
     (case tl_run ts command s of (Inl u, t) \<Rightarrow> (Inl InventoryOsError, t) | (Inr x, t) \<Rightarrow> (Inr x, t))"

definition require_success :: "completed \<Rightarrow> package_error \<Rightarrow> inventory_failure + unit" where
  "require_success res e = (if returncode res \<noteq> 0 then Inl (PackageError e) else Inr ())"

definition inventory_checked :: "'w tools \<Rightarrow> package_error \<Rightarrow> string list \<Rightarrow> ('w, completed) inventory_io" where
  "inventory_checked ts e command =
     bindS (inventory_command ts command) (\<lambda>res. bindS (liftE (require_success res e)) (\<lambda>_. liftE (Inr res)))"

definition verify_uv_version :: "'w tools \<Rightarrow> string \<Rightarrow> string \<Rightarrow> ('w, unit) inventory_io" where
  "verify_uv_version ts executable expected =
     bindS (inventory_checked ts UvUnusable [executable, ''--version'']) (\<lambda>res.
     if before_first '' ('' (strip (stdout res)) \<noteq> ''uv '' @ expected
     then liftE (Inl (PackageError (UvReports (strip (stdout res))))) else liftE (Inr ()))"

definition installed_list_command :: "string \<Rightarrow> string \<Rightarrow> string list" where
  "installed_list_command uv python =
     [uv, ''pip'', ''list'', ''--format'', ''json'', ''--python'', python, ''--no-managed-python'', ''--no-python-downloads'']"

definition pin_json :: "string \<times> string \<Rightarrow> json" where
  "pin_json p = JObj [(''name'', JStr (fst p)), (''version'', JStr (snd p))]"

definition inventory_document ::
  "string \<Rightarrow> string \<Rightarrow> string \<Rightarrow> contract \<Rightarrow> project_package \<Rightarrow> installed_package list \<Rightarrow> json" where
  "inventory_document implementation runtime_version lock_sha256 c project installed = JObj
     [(''schema_version'', JInt INVENTORY_SCHEMA),
      (''python'', JObj [(''implementation'', JStr implementation), (''version'', JStr runtime_version)]),
      (''uv'', JObj [(''version'', JStr (uv_version c))]),
      (''lock'', JObj [(''path'', JStr ''uv.lock''), (''sha256'', JStr lock_sha256),
         (''packages'', JList (map pin_json (locked_requirements c)))]),
      (''project'', JObj [(''name'', JStr (pp_name project)), (''version'', JStr (pp_version project)),
         (''editable'', JBool (pp_editable project))]),
      (''installed_packages'', JList (map pin_json installed)),
      (''parity'', JObj [(''status'', JStr ''exact''), (''checker'', JStr ''uv sync --check --frozen --all-groups''),
         (''selected_installed_third_party_count'', JInt (int (length installed))),
         (''universal_locked_third_party_count'', JInt (int (length (locked_requirements c))))])]"

text \<open>The interpreter that runs the inventory: its implementation, its version and its executable.\<close>

record interpreter =
  in_implementation :: string
  in_version :: string
  in_executable :: string

definition package_failure :: "package_error + 'a \<Rightarrow> inventory_failure + 'a" where
  "package_failure r = (case r of Inl e \<Rightarrow> Inl (PackageError e) | Inr x \<Rightarrow> Inr x)"

definition inventory_contract :: "project_files \<Rightarrow> inventory_failure + contract" where
  "inventory_contract files =
     (case validate_contract_files (pf_pyproject files) (pf_lock files) (pf_python_version files) of
        Inl e \<Rightarrow> Inl (InventoryCrash e)
      | Inr (None, issues) \<Rightarrow> Inl (PackageError (ContractIncomplete issues))
      | Inr (Some c, issues) \<Rightarrow> if issues \<noteq> [] then Inl (PackageError (ContractIncomplete issues)) else Inr c)"

text \<open>The document that is written as the last step.\<close>

definition write_dependency_inventory ::
  "'w tools \<Rightarrow> string \<Rightarrow> project_files \<Rightarrow> interpreter \<Rightarrow> ('w, json) inventory_io" where
  "write_dependency_inventory ts root_dir files python =
     bindS (liftE (inventory_contract files)) (\<lambda>c.
     if in_version python \<noteq> python_pin c then liftE (Inl (PackageError (RuntimeVersion (in_version python))))
     else let uv = pinned_uv_executable root_dir c in
       bindS (verify_uv_version ts uv (uv_version c)) (\<lambda>_.
       bindS (inventory_checked ts LockNotFresh (frozen_lock_check_command uv (in_executable python))) (\<lambda>_.
       bindS (inventory_checked ts NotInParity (frozen_sync_check_command uv)) (\<lambda>_.
       bindS (inventory_checked ts ListingFailed (installed_list_command uv (in_executable python))) (\<lambda>res.
       bindS (liftE (package_failure (parse_installed_packages ts (stdout res) root_dir c))) (\<lambda>(project, installed).
       liftE (Inr (inventory_document (in_implementation python) (in_version python) (dg_lock (pf_digests files)) c
                     project installed))))))))"

section \<open>What the listing says when it is accepted\<close>

text \<open>A third-party distribution has no editable location.\<close>

definition plain_third_party :: "json \<Rightarrow> bool" where
  "plain_third_party j \<longleftrightarrow> (case package_pin j of None \<Rightarrow> False | Some pin \<Rightarrow> fst pin = PROJECT_NAME \<or>
     (case as_object j of None \<Rightarrow> False | Some d \<Rightarrow> jget d ''editable_project_location'' = JNull))"

definition record_accepted :: "(string \<Rightarrow> string) \<Rightarrow> string \<Rightarrow> locked_requirement list \<Rightarrow> json \<Rightarrow> bool" where
  "record_accepted resolve root_dir locked j \<longleftrightarrow> package_allowed resolve root_dir locked j \<and> plain_third_party j"

definition parsed_record :: "parse_state \<Rightarrow> locked_requirement \<Rightarrow> parse_state" where
  "parsed_record st pin =
     (if fst pin = PROJECT_NAME
      then st\<lparr>ps_seen := fst pin # ps_seen st,
              ps_project := Some \<lparr>pp_name = PROJECT_NAME, pp_version = snd pin, pp_editable = True\<rparr>\<rparr>
      else st\<lparr>ps_seen := fst pin # ps_seen st, ps_installed := pin # ps_installed st\<rparr>)"

lemma parse_record_ok:
  "parse_record resolve root_dir locked st (n, j) = Inr st' \<longleftrightarrow>
     record_accepted resolve root_dir locked j \<and> fst (the (package_pin j)) \<notin> set (ps_seen st) \<and>
     st' = parsed_record st (the (package_pin j))"
proof (cases "as_object j")
  case None
  then have "package_pin j = None" by (simp add: package_pin_def)
  with None show ?thesis by (simp add: parse_record_def record_accepted_def package_allowed_def)
next
  case (Some d)
  show ?thesis
  proof (cases "package_pin j")
    case None
    with Some show ?thesis by (simp add: parse_record_def record_accepted_def package_allowed_def)
  next
    case pin: (Some pin)
    obtain name version where "pin = (name, version)" by fastforce
    with Some pin show ?thesis
      by (auto simp: parse_record_def record_accepted_def package_allowed_def plain_third_party_def editable_at_def
          parsed_record_def Let_def bindE_ok requireE_ok split: option.splits)
  qed
qed

lemma parse_fold:
  "foldE (parse_record resolve root_dir locked) st (List.enumerate n xs) = Inr st' \<longleftrightarrow>
     list_all (record_accepted resolve root_dir locked) xs \<and> distinct (map fst (package_pins xs)) \<and>
     set (map fst (package_pins xs)) \<inter> set (ps_seen st) = {} \<and> st' = foldl parsed_record st (package_pins xs)"
proof (induction xs arbitrary: st n)
  case Nil
  then show ?case by (auto simp: package_pins_def)
next
  case (Cons j xs)
  show ?case
  proof (cases "record_accepted resolve root_dir locked j")
    case False
    then show ?thesis by (simp add: ok_iff parse_record_ok)
  next
    case True
    then obtain pin where pin: "package_pin j = Some pin"
      by (auto simp: record_accepted_def package_allowed_def split: option.splits)
    have pins: "package_pins (j # xs) = pin # package_pins xs" by (simp add: package_pins_def pin)
    have seen: "set (ps_seen (parsed_record st pin)) = insert (fst pin) (set (ps_seen st))" by (simp add: parsed_record_def)
    show ?thesis
      using True by (auto simp: ok_iff parse_record_ok pin pins seen Cons.IH)
  qed
qed

lemma parsed_installed:
  "ps_installed (foldl parsed_record st pins) = rev (filter (\<lambda>pin. fst pin \<noteq> PROJECT_NAME) pins) @ ps_installed st"
  by (induction pins arbitrary: st) (auto simp: parsed_record_def)

lemma parsed_project:
  "distinct (map fst pins) \<Longrightarrow> ps_project (foldl parsed_record st pins) =
     (case map_of pins PROJECT_NAME of None \<Rightarrow> ps_project st
      | Some v \<Rightarrow> Some \<lparr>pp_name = PROJECT_NAME, pp_version = v, pp_editable = True\<rparr>)"
proof (induction pins arbitrary: st)
  case (Cons pin pins)
  have "map_of pins PROJECT_NAME = None" if "fst pin = PROJECT_NAME"
    using Cons.prems that by (simp add: map_of_None_keys)
  then show ?case
    using Cons by (cases pin) (auto simp: parsed_record_def split: option.split)
qed simp

lemma record_accepted_all:
  "list_all (record_accepted resolve root_dir locked) xs \<longleftrightarrow>
     list_all (package_allowed resolve root_dir locked) xs \<and> list_all plain_third_party xs"
  by (auto simp: list_all_iff record_accepted_def)

lemma sorted_keys_rev: "sorted_keys (rev xs) = sorted_keys xs"
  by (rule sorted_keys_cong) simp

lemma parse_installed_iff:
  "parse_installed_packages ts raw root_dir c = Inr (project, installed) \<longleftrightarrow>
     (\<exists>listing. tl_parse_json ts raw = Some (JList listing) \<and>
        listing_allowed (tl_resolve ts) root_dir (locked_requirements c) listing \<and> list_all plain_third_party listing \<and>
        map_of (package_pins listing) PROJECT_NAME = Some (pp_version project) \<and>
        project = \<lparr>pp_name = PROJECT_NAME, pp_version = pp_version project, pp_editable = True\<rparr> \<and>
        installed = sorted_keys (third_party_pins listing))"
proof -
  let ?init = "\<lparr>ps_project = None, ps_installed = [], ps_seen = []\<rparr>"
  have project: "PROJECT_NAME \<in> fst ` set pins" if "map_of pins PROJECT_NAME = Some v" for pins :: "locked_requirement list" and v
    using map_of_SomeD [OF that] by force
  have "parse_installed_packages ts raw root_dir c = Inr (project, installed) \<longleftrightarrow>
     (\<exists>listing. tl_parse_json ts raw = Some (JList listing) \<and>
        list_all (record_accepted (tl_resolve ts) root_dir (locked_requirements c)) listing \<and>
        distinct (map fst (package_pins listing)) \<and>
        ps_project (foldl parsed_record ?init (package_pins listing)) = Some project \<and>
        installed = sorted_keys (third_party_pins listing))"
    by (auto simp: parse_installed_packages_def ok_iff parse_fold parsed_installed third_party_pins_def sorted_keys_rev)
  also have "\<dots> \<longleftrightarrow> (\<exists>listing. tl_parse_json ts raw = Some (JList listing) \<and>
        listing_allowed (tl_resolve ts) root_dir (locked_requirements c) listing \<and> list_all plain_third_party listing \<and>
        map_of (package_pins listing) PROJECT_NAME = Some (pp_version project) \<and>
        project = \<lparr>pp_name = PROJECT_NAME, pp_version = pp_version project, pp_editable = True\<rparr> \<and>
        installed = sorted_keys (third_party_pins listing))"
    using project
    by (auto simp: record_accepted_all listing_allowed_def parsed_project split: option.splits)
  finally show ?thesis .
qed

text \<open>
  C38. The inventory and the bootstrap apply one policy: the inventory accepts a listing exactly when the bootstrap does
  and no third-party distribution is editable, and then it reports the editable project and the locked distributions, sorted.
\<close>

theorem inventory_accepts_iff_bootstrap_does:
  "parse_installed_packages ts raw root_dir c = Inr (project, installed) \<longleftrightarrow>
     only_locked_packages ts root_dir (locked_requirements c) raw \<and>
     (\<exists>listing. tl_parse_json ts raw = Some (JList listing) \<and> list_all plain_third_party listing \<and>
        map_of (package_pins listing) PROJECT_NAME = Some (pp_version project) \<and>
        project = \<lparr>pp_name = PROJECT_NAME, pp_version = pp_version project, pp_editable = True\<rparr> \<and>
        installed = sorted_keys (third_party_pins listing))"
  unfolding parse_installed_iff only_locked_packages_iff by auto

lemma package_failure_ok [ok_iff]: "package_failure r = Inr x \<longleftrightarrow> r = Inr x"
  by (auto simp: package_failure_def split: sum.splits)

lemma inventory_checked_ok [ok_iff]:
  "inventory_checked ts e command s = (Inr res, t) \<longleftrightarrow>
     inventory_command ts command s = (Inr res, t) \<and> returncode res = 0"
  by (auto simp: inventory_checked_def ok_iff require_success_def)

text \<open>
  A document is evidence: when one is written, the contract holds without issue, the interpreter is the pinned one,
  the pinned tool found the lock fresh and the environment in parity, and what it lists is the editable project and
  third-party distributions all of which are locked.
\<close>

theorem written_inventory_is_evidence:
  assumes "write_dependency_inventory ts root_dir files python s = (Inr document, t)"
  shows "\<exists>c project installed lock_check parity u v w. validate_contract_files (pf_pyproject files) (pf_lock files)
        (pf_python_version files) = Inr (Some c, []) \<and>
     in_version python = python_pin c \<and>
     inventory_command ts (frozen_lock_check_command (pinned_uv_executable root_dir c) (in_executable python)) u = (Inr lock_check, v) \<and>
     returncode lock_check = 0 \<and>
     inventory_command ts (frozen_sync_check_command (pinned_uv_executable root_dir c)) v = (Inr parity, w) \<and>
     returncode parity = 0 \<and> set installed \<subseteq> set (locked_requirements c) \<and>
     document = inventory_document (in_implementation python) (python_pin c) (dg_lock (pf_digests files)) c project installed"
proof -
  obtain c where c: "inventory_contract files = Inr c" "in_version python = python_pin c"
    using assms by (auto simp: write_dependency_inventory_def ok_iff split: if_splits)
  then have valid: "validate_contract_files (pf_pyproject files) (pf_lock files) (pf_python_version files) = Inr (Some c, [])"
    by (auto simp: inventory_contract_def split: sum.splits option.splits if_splits)
  obtain u v w and res :: completed and lock_check parity project installed where
    lock: "inventory_command ts (frozen_lock_check_command (pinned_uv_executable root_dir c) (in_executable python)) u = (Inr lock_check, v)"
      "returncode lock_check = 0" and
    parity: "inventory_command ts (frozen_sync_check_command (pinned_uv_executable root_dir c)) v = (Inr parity, w)"
      "returncode parity = 0" and
    listed: "parse_installed_packages ts (stdout res) root_dir c = Inr (project, installed)" and
    doc: "document = inventory_document (in_implementation python) (in_version python) (dg_lock (pf_digests files)) c project installed"
    using assms c
    by (auto simp: write_dependency_inventory_def ok_iff Let_def)
  have "set installed \<subseteq> set (locked_requirements c)"
    using listed
    by (fastforce simp: parse_installed_iff listing_allowed_def list_all_iff package_allowed_def third_party_pins_def
        package_pins_def set_map_filter_Some)
  with valid c(2) lock parity doc [unfolded c(2)] show ?thesis by blast
qed

definition small_interpreter :: interpreter where
  "small_interpreter = \<lparr>in_implementation = ''CPython'', in_version = ''3.12.8'', in_executable = ''/py''\<rparr>"

lemma small_inventory:
  "\<exists>document. fst (write_dependency_inventory small_tools ''/repo'' small_files small_interpreter fresh_machine) = Inr document"
proof -
  have "(case fst (write_dependency_inventory small_tools ''/repo'' small_files small_interpreter fresh_machine) of
      Inr document \<Rightarrow> True | Inl e \<Rightarrow> False)"
    by code_simp
  then show ?thesis by (auto split: sum.splits)
qed

theorem written_inventory_is_evidence_witness:
  "\<exists>document c project installed. fst (write_dependency_inventory small_tools ''/repo'' small_files small_interpreter fresh_machine) =
       Inr document \<and> set installed \<subseteq> set (locked_requirements c) \<and>
     document = inventory_document ''CPython'' (python_pin c) ''c'' c project installed"
proof -
  obtain document t where
    t: "write_dependency_inventory small_tools ''/repo'' small_files small_interpreter fresh_machine = (Inr document, t)"
    using small_inventory by (metis prod.collapse)
  have fields: "in_implementation small_interpreter = ''CPython''" "dg_lock (pf_digests small_files) = ''c''"
    by code_simp+
  from written_inventory_is_evidence [OF t] t show ?thesis unfolding fields by (metis fst_conv)
qed

end
