(* ===== verification/Regression.thy ===== *)
theory Regression
  imports Drift Inventory Package_Inventory Local_Credentials
begin

text \<open>
  \<open>src/api_tests/tools/openapi_coverage.py\<close> and \<open>src/api_tests/local_runner.py\<close>: the commands that put the other parts
  together, the coverage command and the full local regression.  The repository is a record of what its files hold, the
  machine is the one of the bootstrap, and the gateway is an HTTP function on the machine.  What is printed and the
  artifacts, whose contents are values of the other theories, are left out; the result is the exit status.
\<close>

section \<open>The repository and the gateway\<close>

record repository =
  repo_read_config :: "string \<Rightarrow> environment_config option"
  repo_read_json :: "string \<Rightarrow> json"
  repo_read_yaml :: "string \<Rightarrow> json"
  repo_tests :: "test_file list"
  repo_float_str :: "rat \<Rightarrow> string"

record 'w gateway =
  gw_send :: "string \<Rightarrow> string \<Rightarrow> 'w machine \<Rightarrow> http_response \<times> 'w machine"
  gw_clock :: "'w machine \<Rightarrow> (rat \<times> rat) \<times> 'w machine"

record 'w station =
  sn_machine :: "'w machine"
  sn_pacing :: pacing

datatype setup_error =
    ConfigFailed config_error
  | TargetFailed credential_error
  | ManifestFailed manifest_error
  | MarkersFailed marker_error
  | ApiFailed openapi_error
  | CoverageFailed coverage_error
  | GatewayFailed inventory_error
  | DriftFailed drift_error
  | InventoryFailed inventory_failure

type_synonym ('w, 'a) station_io = "('w station, setup_error, 'a) io"

text \<open>The errors of one part as errors of the command.\<close>

definition failing :: "('e \<Rightarrow> setup_error) \<Rightarrow> 'e + 'a \<Rightarrow> setup_error + 'a" where
  "failing f r = (case r of Inl e \<Rightarrow> Inl (f e) | Inr x \<Rightarrow> Inr x)"

lemma failing_ok [ok_iff]: "failing f r = Inr x \<longleftrightarrow> r = Inr x"
  by (auto simp: failing_def split: sum.splits)

text \<open>The \<open>TypeError\<close> of an unhashable value is the only one that the commands do not turn into an exit status.\<close>

definition handled :: "setup_error \<Rightarrow> bool" where
  "handled e \<longleftrightarrow> e \<noteq> GatewayFailed UnhashableValue"

definition snapshot :: "repository \<Rightarrow> string \<Rightarrow> setup_error + object" where
  "snapshot repo name = failing ApiFailed (load_snapshot (repo_read_json repo) (repo_read_yaml repo) name)"

definition live_document :: "'w gateway \<Rightarrow> environment_config \<Rightarrow> ('w, object) station_io" where
  "live_document gw config s =
     (case gw_clock gw (sn_machine s) of (reading, m) \<Rightarrow>
        (case fetch_live_openapi (gw_send gw) reading
                \<lparr>gc_api_base_path = api_base_path config, gc_pacing = sn_pacing s\<rparr> (openapi_path config) m of
           (r, client, m') \<Rightarrow> (failing ApiFailed r, s\<lparr>sn_machine := m', sn_pacing := gc_pacing client\<rparr>)))"

definition openapi_document ::
  "'w gateway \<Rightarrow> repository \<Rightarrow> coverage_source \<Rightarrow> environment_config \<Rightarrow> ('w, object) station_io" where
  "openapi_document gw repo source config =
     (case source of Live \<Rightarrow> live_document gw config | Snapshot \<Rightarrow> liftE (snapshot repo ''schemas/openapi.json''))"

section \<open>Building the coverage\<close>

definition markers_of_contract ::
  "contract_key \<Rightarrow> (operation_key \<times> marker_counts) list \<Rightarrow> (operation_key \<times> marker_counts) list" where
  "markers_of_contract contract counts = filter (\<lambda>p. key_contract (fst p) = contract) counts"

definition forbidden_coverage_of ::
  "repository \<Rightarrow> object \<Rightarrow> forbidden_deferral list \<Rightarrow> setup_error + forbidden_coverage list" where
  "forbidden_coverage_of repo doc deferrals =
     bindE (failing ApiFailed (operations_documenting_response Unified doc (StatusInt 403))) (\<lambda>operations.
     bindE (failing MarkersFailed (collect_forbidden_response_markers_from_tests (repo_tests repo))) (\<lambda>counts.
     failing CoverageFailed (build_forbidden_response_coverage operations deferrals counts)))"

definition forbidden_deferrals :: "repository \<Rightarrow> setup_error + forbidden_deferral list" where
  "forbidden_deferrals repo =
     failing ManifestFailed (load_forbidden_response_deferrals (repo_read_yaml repo ''schemas/deferred-forbidden-responses.yaml''))"

definition request_cases_of :: "repository \<Rightarrow> object \<Rightarrow> setup_error + request_case list" where
  "request_cases_of repo doc =
     failing ApiFailed (build_operation_request_cases (repo_float_str repo) Unified doc [StatusInt 401, StatusInt 403])"

definition unified_coverage ::
  "repository \<Rightarrow> deferred_admin_operation list \<Rightarrow> (operation_key \<times> marker_counts) list \<Rightarrow> coverage_source \<Rightarrow> object
     \<Rightarrow> setup_error + operation_coverage list" where
  "unified_coverage repo deferred counts source doc =
     bindE (forbidden_deferrals repo) (\<lambda>deferrals.
     bindE (request_cases_of repo doc) (\<lambda>_.
     bindE (forbidden_coverage_of repo doc deferrals) (\<lambda>_.
     bindE (failing ApiFailed (iter_operations Unified doc)) (\<lambda>operations.
     failing CoverageFailed (build_operation_coverage operations deferred (markers_of_contract Unified counts) source)))))"

definition gateway_document :: "repository \<Rightarrow> setup_error + object" where
  "gateway_document repo =
     bindE (snapshot repo ''schemas/session-gateway-openapi.yaml'') (\<lambda>doc.
     bindE (failing GatewayFailed (validate_session_gateway_contract doc)) (\<lambda>_. Inr doc))"

definition gateway_coverage ::
  "repository \<Rightarrow> (operation_key \<times> marker_counts) list \<Rightarrow> setup_error + operation_coverage list" where
  "gateway_coverage repo counts =
     bindE (gateway_document repo) (\<lambda>doc.
     bindE (failing ApiFailed (iter_operations SessionGateway doc)) (\<lambda>operations.
     failing CoverageFailed (build_operation_coverage operations [] (markers_of_contract SessionGateway counts) Snapshot)))"

definition build_coverage ::
  "'w gateway \<Rightarrow> repository \<Rightarrow> string \<Rightarrow> coverage_source \<Rightarrow> ('w, operation_coverage list) station_io" where
  "build_coverage gw repo env source =
     bindS (liftE (failing ConfigFailed (load_environment (repo_read_config repo) env))) (\<lambda>config.
     bindS (liftE (failing ManifestFailed
       (load_deferred_admin_operations (repo_read_yaml repo ''schemas/deferred-admin-operations.yaml'')))) (\<lambda>deferred.
     bindS (liftE (failing MarkersFailed (collect_openapi_markers_from_tests (repo_tests repo)))) (\<lambda>counts.
     bindS (openapi_document gw repo source config) (\<lambda>doc.
     bindS (liftE (unified_coverage repo deferred counts source doc)) (\<lambda>unified.
     bindS (liftE (gateway_coverage repo counts)) (\<lambda>session_gateway.
     liftE (Inr (unified @ session_gateway))))))))"

definition build_forbidden_coverage ::
  "'w gateway \<Rightarrow> repository \<Rightarrow> string \<Rightarrow> coverage_source \<Rightarrow> ('w, forbidden_coverage list) station_io" where
  "build_forbidden_coverage gw repo env source =
     bindS (liftE (failing ConfigFailed (load_environment (repo_read_config repo) env))) (\<lambda>config.
     bindS (openapi_document gw repo source config) (\<lambda>doc.
     bindS (liftE (request_cases_of repo doc)) (\<lambda>_.
     bindS (liftE (failing ApiFailed (operations_documenting_response Unified doc (StatusInt 403)))) (\<lambda>_.
     bindS (liftE (forbidden_deferrals repo)) (\<lambda>deferrals.
     liftE (forbidden_coverage_of repo doc deferrals))))))"

definition build_session_gateway_coverage :: "repository \<Rightarrow> setup_error + case_coverage list" where
  "build_session_gateway_coverage repo =
     bindE (gateway_document repo) (\<lambda>doc.
     bindE (failing GatewayFailed
       (load_session_gateway_inventory (repo_read_yaml repo ''schemas/session-gateway-inbound-inventory.yaml''))) (\<lambda>routes.
     bindE (failing MarkersFailed (collect_session_gateway_case_markers_from_tests (repo_tests repo))) (\<lambda>counts.
     failing GatewayFailed (validate_session_gateway_inventory routes doc counts))))"

definition gateway_rows :: "operation_coverage list \<Rightarrow> operation_coverage list" where
  "gateway_rows coverage = filter (\<lambda>r. cv_contract r = SessionGateway) coverage"

text \<open>The three results of the coverage tools, and whether they leave a gap.\<close>

record coverage_results =
  cr_operations :: "operation_coverage list"
  cr_forbidden :: "forbidden_coverage list"
  cr_gateway :: gateway_report

definition collect_results :: "'w gateway \<Rightarrow> repository \<Rightarrow> string \<Rightarrow> coverage_source \<Rightarrow> ('w, coverage_results) station_io" where
  "collect_results gw repo env source =
     bindS (build_coverage gw repo env source) (\<lambda>coverage.
     bindS (build_forbidden_coverage gw repo env source) (\<lambda>forbidden.
     bindS (liftE (build_session_gateway_coverage repo)) (\<lambda>cases.
     bindS (liftE (failing GatewayFailed (build_session_gateway_coverage_report (gateway_rows coverage) cases))) (\<lambda>report.
     liftE (Inr \<lparr>cr_operations = coverage, cr_forbidden = forbidden, cr_gateway = report\<rparr>)))))"

definition coverage_gap :: "coverage_results \<Rightarrow> bool" where
  "coverage_gap results \<longleftrightarrow> missing_operation_ids (cr_operations results) \<noteq> [] \<or>
     placeholder_operation_ids (cr_operations results) \<noteq> [] \<or>
     uncovered_executable_ids (rp_claims (cr_gateway results)) \<noteq> []"

text \<open>The exit status of a command whose setup may fail.\<close>

definition exit_on_error :: "('w, int) station_io \<Rightarrow> ('w, int) station_io" where
  "exit_on_error m s = (case m s of (Inl e, t) \<Rightarrow> (if handled e then Inr 1 else Inl e, t) | r \<Rightarrow> r)"

definition run_coverage_command :: "'w gateway \<Rightarrow> repository \<Rightarrow> string \<Rightarrow> coverage_source \<Rightarrow> ('w, int) station_io" where
  "run_coverage_command gw repo env source =
     exit_on_error (bindS (collect_results gw repo env source) (\<lambda>results.
       liftE (Inr (if coverage_gap results then 1 else 0))))"

definition forbidden_response_coverage_lines :: "forbidden_coverage list \<Rightarrow> string \<times> string" where
  "forbidden_response_coverage_lines coverage =
     (let ids = (\<lambda>status. sort (map fc_id (filter (\<lambda>r. fc_status r = status) coverage)));
          line = (\<lambda>label status. label @ nat_str (length (ids status)) @ ''; ids: '' @ join '', '' (ids status))
      in (line ''forbidden_response_covered: '' ForbiddenCovered, line ''forbidden_response_deferred: '' ForbiddenDeferred))"

section \<open>The local regression\<close>

definition on_machine :: "('w, 'a) inventory_io \<Rightarrow> ('w, 'a) station_io" where
  "on_machine m s = (case m (sn_machine s) of (r, t) \<Rightarrow> (failing InventoryFailed r, s\<lparr>sn_machine := t\<rparr>))"

text \<open>Running the tests is a process: the arguments and the machine give its exit status.\<close>

type_synonym 'w test_process = "string list \<Rightarrow> 'w machine \<Rightarrow> int \<times> 'w machine"

definition run_pytest :: "'w test_process \<Rightarrow> string list \<Rightarrow> ('w, int) station_io" where
  "run_pytest process arguments s =
     (case process arguments (sn_machine s) of (status, t) \<Rightarrow> (Inr status, s\<lparr>sn_machine := t\<rparr>))"

record 'w workstation =
  ws_tools :: "'w tools"
  ws_gateway :: "'w gateway"
  ws_tests :: "'w test_process"
  ws_root :: string
  ws_files :: project_files
  ws_python :: interpreter

text \<open>The gates before the tests: \<open>None\<close> for a coverage gap, otherwise the drift of the live contract.\<close>

definition regression_gates ::
  "'w workstation \<Rightarrow> repository \<Rightarrow> environment_config \<Rightarrow> ('w, difference list option) station_io" where
  "regression_gates ws repo config =
     bindS (on_machine (write_dependency_inventory (ws_tools ws) (ws_root ws) (ws_files ws) (ws_python ws))) (\<lambda>_.
     bindS (collect_results (ws_gateway ws) repo ''local'' Snapshot) (\<lambda>results.
     if coverage_gap results then liftE (Inr None)
     else
       bindS (live_document (ws_gateway ws) config) (\<lambda>live.
       bindS (liftE (snapshot repo ''schemas/openapi.json'')) (\<lambda>baseline.
       bindS (liftE (failing DriftFailed (compare_openapi_documents baseline live))) (\<lambda>differences.
       liftE (Inr (Some differences)))))))"

definition run_full_validation :: "'w workstation \<Rightarrow> repository \<Rightarrow> environment_config \<Rightarrow> ('w, int) station_io" where
  "run_full_validation ws repo config s =
     (case regression_gates ws repo config s of
        (Inl e, t) \<Rightarrow> (if handled e then Inr 1 else Inl e, t)
      | (Inr None, t) \<Rightarrow> (Inr 1, t)
      | (Inr (Some differences), t) \<Rightarrow> if differences \<noteq> [] then (Inr 1, t) else run_pytest (ws_tests ws) [] t)"

definition selects_environment :: "string \<Rightarrow> bool" where
  "selects_environment argument \<longleftrightarrow> argument = ''--env'' \<or> startswith argument ''--env=''"

definition local_target :: "repository \<Rightarrow> setup_error + environment_config" where
  "local_target repo =
     bindE (failing ConfigFailed (load_environment (repo_read_config repo) ''local'')) (\<lambda>config.
     bindE (failing TargetFailed (ensure_exact_local_target config)) (\<lambda>_. Inr config))"

definition runner_main :: "'w workstation \<Rightarrow> repository \<Rightarrow> string list \<Rightarrow> ('w, int) station_io" where
  "runner_main ws repo arguments s =
     (if list_ex selects_environment arguments then (Inr 2, s)
      else case local_target repo of
        Inl e \<Rightarrow> (Inr 2, s)
      | Inr config \<Rightarrow>
          if arguments \<noteq> [] then run_pytest (ws_tests ws) arguments s else run_full_validation ws repo config s)"

section \<open>What a green regression means\<close>

text \<open>The markers of an operation are evidence when at least one is not a placeholder.\<close>

definition operation_evidenced :: "(operation_key \<times> marker_counts) list \<Rightarrow> openapi_operation \<Rightarrow> bool" where
  "operation_evidenced counts op \<longleftrightarrow>
     (case map_of counts (operation_key_of op) of None \<Rightarrow> False | Some c \<Rightarrow> has_evidence c)"

definition table_of_markers :: "('k \<times> marker_counts) list \<Rightarrow> bool" where
  "table_of_markers counts \<longleftrightarrow> list_all (\<lambda>p. placeholder_marker_count (snd p) \<le> marker_count (snd p)) counts"

lemma collected_table: "collect_openapi_markers_from_tests files = Inr counts \<Longrightarrow> table_of_markers counts"
  by (auto simp: collect_openapi_markers_from_tests_def build_marker_counts_def bindE_ok counts_table_eq
      table_of_markers_def list_all_iff counts_of_placeholders)

lemma map_of_contract:
  "map_of (markers_of_contract contract counts) k = (if key_contract k = contract then map_of counts k else None)"
  by (induction counts) (auto simp: markers_of_contract_def)

lemma row_status:
  assumes "table_of_markers counts" "cv_status (coverage_row deferred (markers_of_contract contract counts) source op) \<in> {Covered, Deferred}"
  shows "op_contract op = Unified \<and> op_id op \<in> set (map da_id deferred) \<or> operation_evidenced counts op"
proof (cases "op_contract op = Unified \<and> op_id op \<in> set (map da_id deferred)")
  case False
  have bound: "placeholder_marker_count c \<le> marker_count c" if "map_of counts (operation_key_of op) = Some c" for c
    using assms(1) map_of_SomeD [OF that] by (auto simp: table_of_markers_def list_all_iff)
  show ?thesis
    using False assms(2) bound
    by (cases "map_of counts (operation_key_of op)")
      (auto simp: coverage_row_def coverage_status_of_def Let_def map_of_contract no_markers_def operation_evidenced_def
        has_evidence_def split: if_splits)
qed simp

lemma no_gap_status:
  assumes "\<not> coverage_gap results" "r \<in> set (cr_operations results)"
  shows "cv_status r \<in> {Covered, Deferred}"
proof -
  have "cv_status r \<noteq> MissingTest" "cv_status r \<noteq> Placeholder"
    using assms by (auto simp: coverage_gap_def missing_operation_ids_def placeholder_operation_ids_def filter_empty_conv)
  then show ?thesis by (cases "cv_status r") auto
qed

text \<open>Without a gap every operation of a document has evidence, or is a deferred admin operation.\<close>

lemma built_rows:
  assumes "build_operation_coverage ops deferred (markers_of_contract contract counts) source = Inr rows"
    and "table_of_markers counts" "\<And>r. r \<in> set rows \<Longrightarrow> cv_status r \<in> {Covered, Deferred}" "op \<in> set ops"
  shows "op_contract op = Unified \<and> op_id op \<in> set (map da_id deferred) \<or> operation_evidenced counts op"
proof -
  have "coverage_row deferred (markers_of_contract contract counts) source op \<in> set rows"
    using assms(1,4) by (auto simp: build_operation_coverage_def ok_iff)
  then show ?thesis using assms(2,3) row_status by blast
qed

definition documented_operations :: "repository \<Rightarrow> contract_key \<Rightarrow> openapi_operation list \<Rightarrow> bool" where
  "documented_operations repo contract ops \<longleftrightarrow> (\<exists>doc.
     snapshot repo (case contract of Unified \<Rightarrow> ''schemas/openapi.json'' | SessionGateway \<Rightarrow> ''schemas/session-gateway-openapi.yaml'') = Inr doc \<and>
     iter_operations contract doc = Inr ops)"

lemma build_coverage_snapshot_ok:
  assumes "build_coverage gw repo env Snapshot s = (Inr rows, t)"
  obtains deferred counts ops gateway_ops unified session_gateway where
    "load_deferred_admin_operations (repo_read_yaml repo ''schemas/deferred-admin-operations.yaml'') = Inr deferred"
    "collect_openapi_markers_from_tests (repo_tests repo) = Inr counts"
    "documented_operations repo Unified ops" "documented_operations repo SessionGateway gateway_ops"
    "build_operation_coverage ops deferred (markers_of_contract Unified counts) Snapshot = Inr unified"
    "build_operation_coverage gateway_ops [] (markers_of_contract SessionGateway counts) Snapshot = Inr session_gateway"
    "rows = unified @ session_gateway"
  using assms
  by (auto simp: build_coverage_def ok_iff openapi_document_def unified_coverage_def gateway_coverage_def
      gateway_document_def documented_operations_def)

lemma no_gap_evidence:
  assumes rows: "build_coverage gw repo env Snapshot s = (Inr rows, t)" and gap: "\<not> coverage_gap results"
    and res: "cr_operations results = rows"
  shows "\<exists>deferred counts ops gateway_ops.
     load_deferred_admin_operations (repo_read_yaml repo ''schemas/deferred-admin-operations.yaml'') = Inr deferred \<and>
     collect_openapi_markers_from_tests (repo_tests repo) = Inr counts \<and>
     documented_operations repo Unified ops \<and> documented_operations repo SessionGateway gateway_ops \<and>
     (\<forall>op\<in>set ops. op_id op \<in> set (map da_id deferred) \<or> operation_evidenced counts op) \<and>
     (\<forall>op\<in>set gateway_ops. operation_evidenced counts op)"
  using rows
proof (rule build_coverage_snapshot_ok)
  fix deferred counts ops gateway_ops unified session_gateway
  assume d: "load_deferred_admin_operations (repo_read_yaml repo ''schemas/deferred-admin-operations.yaml'') = Inr deferred"
    and c: "collect_openapi_markers_from_tests (repo_tests repo) = Inr counts"
    and o: "documented_operations repo Unified ops" and g: "documented_operations repo SessionGateway gateway_ops"
    and u: "build_operation_coverage ops deferred (markers_of_contract Unified counts) Snapshot = Inr unified"
    and v: "build_operation_coverage gateway_ops [] (markers_of_contract SessionGateway counts) Snapshot = Inr session_gateway"
    and r: "rows = unified @ session_gateway"
  have status: "cv_status x \<in> {Covered, Deferred}" if "x \<in> set unified \<or> x \<in> set session_gateway" for x
    using no_gap_status [OF gap] that by (simp add: res r)
  have "\<forall>op\<in>set ops. op_id op \<in> set (map da_id deferred) \<or> operation_evidenced counts op"
    using built_rows [OF u collected_table [OF c]] status by blast
  moreover have "\<forall>op\<in>set gateway_ops. operation_evidenced counts op"
    using built_rows [OF v collected_table [OF c]] status by fastforce
  ultimately show ?thesis using d c o g by blast
qed

lemma collect_results_ok:
  assumes "collect_results gw repo env source s = (Inr results, t)"
  obtains u where "build_coverage gw repo env source s = (Inr (cr_operations results), u)"
  using assms by (auto simp: collect_results_def ok_iff)

lemma full_validation_passed:
  assumes "run_full_validation ws repo config s = (Inr 0, t)"
  obtains u v w results baseline live where
    "collect_results (ws_gateway ws) repo ''local'' Snapshot u = (Inr results, v)" "\<not> coverage_gap results"
    "live_document (ws_gateway ws) config v = (Inr live, w)" "snapshot repo ''schemas/openapi.json'' = Inr baseline"
    "compare_openapi_documents baseline live = Inr []" "run_pytest (ws_tests ws) [] w = (Inr 0, t)"
proof -
  obtain w where gates: "regression_gates ws repo config s = (Inr (Some []), w)" and tests: "run_pytest (ws_tests ws) [] w = (Inr 0, t)"
    using assms by (auto simp: run_full_validation_def split: prod.splits sum.splits option.splits if_splits)
  obtain u v results live baseline where
    r: "collect_results (ws_gateway ws) repo ''local'' Snapshot u = (Inr results, v)" "\<not> coverage_gap results" and
    l: "live_document (ws_gateway ws) config v = (Inr live, w)" "snapshot repo ''schemas/openapi.json'' = Inr baseline"
      "compare_openapi_documents baseline live = Inr []"
    using gates by (auto simp: regression_gates_def ok_iff split: if_splits)
  show ?thesis by (rule that [OF r l tests])
qed

text \<open>
  C35. A green full regression has no gap: when the runner without selectors exits with zero, the target is the exact local
  one, every operation of both contracts has a test that is not a placeholder or is a deferred admin operation, the live
  contract shows no drift from the snapshot, and the test process itself exited with zero.
\<close>

theorem green_regression_has_no_gap:
  assumes "runner_main ws repo [] s = (Inr 0, t)"
  shows "\<exists>config baseline live deferred counts ops gateway_ops v w.
     local_target repo = Inr config \<and> env_name config = LOCAL_ENVIRONMENT_NAME \<and> origin config = LOCAL_ORIGIN \<and>
     load_deferred_admin_operations (repo_read_yaml repo ''schemas/deferred-admin-operations.yaml'') = Inr deferred \<and>
     collect_openapi_markers_from_tests (repo_tests repo) = Inr counts \<and>
     documented_operations repo Unified ops \<and> documented_operations repo SessionGateway gateway_ops \<and>
     (\<forall>op\<in>set ops. op_id op \<in> set (map da_id deferred) \<or> operation_evidenced counts op) \<and>
     (\<forall>op\<in>set gateway_ops. operation_evidenced counts op) \<and>
     snapshot repo ''schemas/openapi.json'' = Inr baseline \<and> live_document (ws_gateway ws) config v = (Inr live, w) \<and>
     compare_openapi_documents baseline live = Inr [] \<and> run_pytest (ws_tests ws) [] w = (Inr 0, t)"
proof -
  obtain config where c: "local_target repo = Inr config" and full: "run_full_validation ws repo config s = (Inr 0, t)"
    using assms by (cases "local_target repo") (auto simp: runner_main_def)
  have target: "env_name config = LOCAL_ENVIRONMENT_NAME" "origin config = LOCAL_ORIGIN"
    using c by (auto simp: local_target_def ok_iff ensure_exact_local_target_def)
  obtain u v w results baseline live where
    r: "collect_results (ws_gateway ws) repo ''local'' Snapshot u = (Inr results, v)" "\<not> coverage_gap results" and
    l: "live_document (ws_gateway ws) config v = (Inr live, w)" "snapshot repo ''schemas/openapi.json'' = Inr baseline"
      "compare_openapi_documents baseline live = Inr []" "run_pytest (ws_tests ws) [] w = (Inr 0, t)"
    by (rule full_validation_passed [OF full])
  obtain x where "build_coverage (ws_gateway ws) repo ''local'' Snapshot u = (Inr (cr_operations results), x)"
    by (rule collect_results_ok [OF r(1)])
  from no_gap_evidence [OF this r(2) refl] c target l show ?thesis by blast
qed

text \<open>
  C36. The runner acts only on the exact local target: whenever it changes anything, or exits with zero, no argument selects an
  environment and the local configuration is the exact local one; in every other case it exits with two at once.
\<close>

theorem runner_acts_only_on_the_local_target:
  assumes "runner_main ws repo arguments s = (r, t)"
  shows "r = Inr 2 \<and> t = s \<or> \<not> list_ex selects_environment arguments \<and>
     (\<exists>config. local_target repo = Inr config \<and> env_name config = LOCAL_ENVIRONMENT_NAME \<and>
        environment_type_of config = Local \<and> origin config = LOCAL_ORIGIN)"
proof (cases "list_ex selects_environment arguments")
  case True
  then show ?thesis using assms by (simp add: runner_main_def)
next
  case False
  show ?thesis
  proof (cases "local_target repo")
    case (Inl e)
    then show ?thesis using assms False by (simp add: runner_main_def)
  next
    case (Inr config)
    then have "env_name config = LOCAL_ENVIRONMENT_NAME \<and> environment_type_of config = Local \<and> origin config = LOCAL_ORIGIN"
      by (auto simp: local_target_def ok_iff ensure_exact_local_target_def split: if_splits)
    then show ?thesis using Inr False by blast
  qed
qed

section \<open>A small repository\<close>

definition documented_error :: json where
  "documented_error = JObj [(''content'', JObj [(''application/json'', JObj [(''schema'', JObj [(''type'', JStr ''object'')])])])]"

definition small_openapi :: json where
  "small_openapi = JObj [(''paths'', JObj [(''/v1/currencies'', JObj [(''get'', JObj
     [(''operationId'', JStr ''getAll''), (''responses'', JObj [(''401'', documented_error), (''403'', documented_error)])])])])]"

definition small_gateway_openapi :: json where
  "small_gateway_openapi = JObj [(''paths'', JObj [(''/logout'', JObj [(''get'', JObj
     [(''operationId'', JStr ''logout''), (''responses'', JObj [(''302'', JObj [(''headers'', JObj [(''Location'', JObj
        [(''schema'', JObj [(''type'', JStr ''string''), (''format'', JStr ''uri'')])])])])])])])])]"

definition mark :: "string \<Rightarrow> string \<Rightarrow> (string option \<times> ast_expr) list \<Rightarrow> ast_expr" where
  "mark name argument keywords =
     Call (Attribute (Attribute (Name ''pytest'') ''mark'') name) [Constant (StrConst argument)] keywords"

definition small_repository :: repository where
  "small_repository = \<lparr>repo_read_config = (\<lambda>_. Some sample_config),
     repo_read_json = (\<lambda>_. small_openapi),
     repo_read_yaml = (\<lambda>name.
        if name = ''schemas/session-gateway-openapi.yaml'' then small_gateway_openapi
        else if name = ''schemas/session-gateway-inbound-inventory.yaml'' then sample_inventory
        else JObj [(''deferred_admin_operations'', JList []), (''deferred_forbidden_responses'', JList [])]),
     repo_tests = [[[mark ''openapi'' ''getAll'' [], mark ''forbidden_response'' ''getAll'' []],
       [mark ''openapi'' ''logout'' [(Some ''contract'', Constant (StrConst ''session_gateway''))],
        mark ''session_gateway_case'' ''out'' []]]],
     repo_float_str = (\<lambda>_. [])\<rparr>"

definition small_workstation :: "nat workstation" where
  "small_workstation = \<lparr>ws_tools = small_tools,
     ws_gateway = \<lparr>gw_send = (\<lambda>_ _ m. (\<lparr>status_code = 200, response_json = small_openapi\<rparr>, m)), gw_clock = (\<lambda>m. ((0, 0), m))\<rparr>,
     ws_tests = (\<lambda>_ m. (0, m)), ws_root = ''/repo'', ws_files = small_files, ws_python = small_interpreter\<rparr>"

definition small_station :: "nat station" where
  "small_station = \<lparr>sn_machine = fresh_machine, sn_pacing = (\<lambda>_. \<lparr>pc_minimum_interval = 1, pc_next_request_at = None\<rparr>)\<rparr>"

lemma small_coverage:
  "fst (run_coverage_command (ws_gateway small_workstation) small_repository ''local'' Snapshot small_station) = Inr 0"
  by code_simp

lemma small_regression: "fst (runner_main small_workstation small_repository [] small_station) = Inr 0"
  by code_simp

theorem green_regression_has_no_gap_witness:
  "\<exists>counts ops gateway_ops. collect_openapi_markers_from_tests (repo_tests small_repository) = Inr counts \<and>
     documented_operations small_repository Unified ops \<and> documented_operations small_repository SessionGateway gateway_ops \<and>
     (\<forall>op\<in>set gateway_ops. operation_evidenced counts op)"
proof -
  obtain t where "runner_main small_workstation small_repository [] small_station = (Inr 0, t)"
    using small_regression by (metis prod.collapse)
  from green_regression_has_no_gap [OF this] show ?thesis by blast
qed

theorem runner_acts_only_on_the_local_target_witness:
  "\<exists>config. local_target small_repository = Inr config \<and> origin config = LOCAL_ORIGIN"
proof -
  obtain t where "runner_main small_workstation small_repository [] small_station = (Inr 0, t)"
    using small_regression by (metis prod.collapse)
  from runner_acts_only_on_the_local_target [OF this] show ?thesis by auto
qed

end
