(* ===== verification/Py_Sub.thy ===== *)
theory Py_Sub
  imports Py_Regex
begin

text \<open>
  \<open>re.sub\<close>: the text is scanned from the left; at every position the first way of the pattern that its context
  accepts is replaced, and the scan goes on behind it; where there is none, one character is kept.  The context is what
  the look-behind, the look-ahead and the word boundaries of the patterns test: the character before the match, the text
  of the match and the text behind it.  No pattern of the program matches the empty text.
\<close>

type_synonym match_context = "char option \<Rightarrow> string \<Rightarrow> string \<Rightarrow> bool"

definition any_context :: match_context where
  "any_context before matched behind = True"

definition first_way :: "match_context \<Rightarrow> rx \<Rightarrow> char option \<Rightarrow> string \<Rightarrow> way option" where
  "first_way ctx r before s = List.find (\<lambda>w. way_text w \<noteq> [] \<and> ctx before (way_text w) (way_rest w)) (ways r s)"

lemma first_way_sound:
  assumes "first_way ctx r before s = Some w"
  shows "s = way_text w @ way_rest w \<and> way_text w \<noteq> [] \<and> way_text w \<in> lang r \<and> ctx before (way_text w) (way_rest w)"
  using assms ways_sound [of w r s] by (auto simp: first_way_def find_Some_iff)

lemma first_way_None:
  "first_way ctx r before s = None \<longleftrightarrow>
     (\<forall>m t. s = m @ t \<longrightarrow> m \<in> lang r \<longrightarrow> m \<noteq> [] \<longrightarrow> \<not> ctx before m t)"
proof
  assume none: "first_way ctx r before s = None"
  show "\<forall>m t. s = m @ t \<longrightarrow> m \<in> lang r \<longrightarrow> m \<noteq> [] \<longrightarrow> \<not> ctx before m t"
  proof (intro allI impI)
    fix m t assume "s = m @ t" "m \<in> lang r" "m \<noteq> []"
    then obtain w where "w \<in> set (ways r s)" "way_text w = m" "way_rest w = t" using ways_complete by blast
    then show "\<not> ctx before m t" using none \<open>m \<noteq> []\<close> by (auto simp: first_way_def find_None_iff)
  qed
next
  assume "\<forall>m t. s = m @ t \<longrightarrow> m \<in> lang r \<longrightarrow> m \<noteq> [] \<longrightarrow> \<not> ctx before m t"
  then show "first_way ctx r before s = None" using ways_sound [of _ r s] by (auto simp: first_way_def find_None_iff)
qed

text \<open>What the scan makes of the text: kept characters and replaced matches.\<close>

datatype piece = Kept char | Hit way

function scan :: "match_context \<Rightarrow> rx \<Rightarrow> char option \<Rightarrow> string \<Rightarrow> piece list" where
  "scan ctx r before s =
     (case first_way ctx r before s of
        Some w \<Rightarrow> Hit w # scan ctx r (Some (last (way_text w))) (way_rest w)
      | None \<Rightarrow> (case s of [] \<Rightarrow> [] | c # cs \<Rightarrow> Kept c # scan ctx r (Some c) cs))"
  by pat_completeness auto
termination
proof (relation "measure (\<lambda>(ctx, r, before, s). length s)"; clarsimp)
  fix ctx r before s w
  assume "first_way ctx r before s = Some w"
  then have "s = way_text w @ way_rest w" "way_text w \<noteq> []" using first_way_sound by blast+
  then show "length (way_rest w) < length s" by (metis length_append length_greater_0_conv less_add_same_cancel2)
qed

declare scan.simps [simp del]

fun render :: "(way \<Rightarrow> string) \<Rightarrow> piece \<Rightarrow> string" where
  "render repl (Kept c) = [c]"
| "render repl (Hit w) = repl w"

fun original :: "piece \<Rightarrow> string" where
  "original (Kept c) = [c]"
| "original (Hit w) = way_text w"

definition rx_sub :: "match_context \<Rightarrow> rx \<Rightarrow> (way \<Rightarrow> string) \<Rightarrow> string \<Rightarrow> string" where
  "rx_sub ctx r repl s = concat (map (render repl) (scan ctx r None s))"

text \<open>The named part of a match that a replacement keeps.\<close>

definition kept_group :: "string \<Rightarrow> way \<Rightarrow> string" where
  "kept_group n w = (case rx_group n w of None \<Rightarrow> [] | Some t \<Rightarrow> t)"

section \<open>The pieces are the text\<close>

lemma scan_Hit:
  "first_way ctx r before s = Some w \<Longrightarrow> scan ctx r before s = Hit w # scan ctx r (Some (last (way_text w))) (way_rest w)"
  by (subst scan.simps) simp

lemma scan_Kept: "first_way ctx r before (c # cs) = None \<Longrightarrow> scan ctx r before (c # cs) = Kept c # scan ctx r (Some c) cs"
  by (subst scan.simps) simp

lemma first_way_Nil: "first_way ctx r before [] = None"
  using first_way_sound [of ctx r before "[]"] by (cases "first_way ctx r before []") auto

lemma scan_Nil [simp]: "scan ctx r before [] = []"
  by (subst scan.simps) (simp add: first_way_Nil)

lemma scan_cases [case_names Nil Hit Kept]:
  assumes "s = [] \<Longrightarrow> P"
    and "\<And>w. first_way ctx r before s = Some w \<Longrightarrow> s = way_text w @ way_rest w \<Longrightarrow> way_text w \<noteq> [] \<Longrightarrow> P"
    and "\<And>c cs. first_way ctx r before s = None \<Longrightarrow> s = c # cs \<Longrightarrow> P"
  shows P
proof (cases "first_way ctx r before s")
  case None
  then show ?thesis using assms(1,3) by (cases s) auto
next
  case (Some w)
  then show ?thesis using assms(2) first_way_sound by blast
qed

lemma scan_original: "concat (map original (scan ctx r before s)) = s"
proof (induction "length s" arbitrary: s before rule: less_induct)
  case less
  show ?case
  proof (cases rule: scan_cases [of s _ ctx r before])
    case (Hit w)
    have "length (way_rest w) < length s" using Hit(2,3) by (metis length_append length_greater_0_conv less_add_same_cancel2)
    then show ?thesis using less Hit by (simp add: scan_Hit)
  next
    case (Kept c cs)
    then show ?thesis using less by (simp add: scan_Kept)
  qed simp
qed

text \<open>
  The pieces in their positions: a replaced match is a word of the pattern that its context accepts, and at a kept
  character no word is.
\<close>

fun scanned :: "match_context \<Rightarrow> rx \<Rightarrow> char option \<Rightarrow> piece list \<Rightarrow> bool" where
  "scanned ctx r before [] = True"
| "scanned ctx r before (Hit w # ps) \<longleftrightarrow> way_text w \<in> lang r \<and> way_text w \<noteq> [] \<and>
     way_rest w = concat (map original ps) \<and> ctx before (way_text w) (way_rest w) \<and> scanned ctx r (Some (last (way_text w))) ps"
| "scanned ctx r before (Kept c # ps) \<longleftrightarrow>
     (\<forall>m t. c # concat (map original ps) = m @ t \<longrightarrow> m \<in> lang r \<longrightarrow> m \<noteq> [] \<longrightarrow> \<not> ctx before m t) \<and> scanned ctx r (Some c) ps"

lemma scan_scanned: "scanned ctx r before (scan ctx r before s)"
proof (induction "length s" arbitrary: s before rule: less_induct)
  case less
  show ?case
  proof (cases rule: scan_cases [of s _ ctx r before])
    case (Hit w)
    have "length (way_rest w) < length s" using Hit(2,3) by (metis length_append length_greater_0_conv less_add_same_cancel2)
    then show ?thesis using less first_way_sound [OF Hit(1)] Hit by (simp add: scan_Hit scan_original)
  next
    case (Kept c cs)
    have "\<forall>m t. c # cs = m @ t \<longrightarrow> m \<in> lang r \<longrightarrow> m \<noteq> [] \<longrightarrow> \<not> ctx before m t"
      using Kept first_way_None [of ctx r before s] by simp
    then show ?thesis using less Kept by (simp add: scan_Kept scan_original)
  qed simp
qed

section \<open>Contexts\<close>

text \<open>A letter without regard to case, and the word boundary before a match and behind it.\<close>

fun LitI :: "string \<Rightarrow> rx" where
  "LitI [] = Eps"
| "LitI (c # cs) = Seq (Cls (\<lambda>d. lower_char d = c)) (LitI cs)"

definition is_word :: "char \<Rightarrow> bool" where
  "is_word c \<longleftrightarrow> is_alnum c \<or> c = CHR ''_''"

definition boundary :: "char option \<Rightarrow> char option \<Rightarrow> bool" where
  "boundary a b = (case_option False is_word a \<noteq> case_option False is_word b)"

definition first_of :: "string \<Rightarrow> char option" where
  "first_of s = (case s of [] \<Rightarrow> None | c # cs \<Rightarrow> Some c)"

definition starts_word :: match_context where
  "starts_word before matched behind = boundary before (first_of matched)"

definition whole_words :: match_context where
  "whole_words before matched behind \<longleftrightarrow>
     boundary before (first_of matched) \<and> boundary (first_of (rev matched)) (first_of behind)"

definition AtLeast :: "nat \<Rightarrow> rx \<Rightarrow> rx" where
  "AtLeast n r = Seq (Rep n r) (Star r)"

text \<open>\<open>re.search\<close>: somewhere the scan finds a match.\<close>

definition is_hit :: "piece \<Rightarrow> bool" where
  "is_hit p \<longleftrightarrow> (case p of Hit w \<Rightarrow> True | Kept c \<Rightarrow> False)"

definition rx_search :: "match_context \<Rightarrow> rx \<Rightarrow> string \<Rightarrow> bool" where
  "rx_search ctx r s \<longleftrightarrow> list_ex is_hit (scan ctx r None s)"

end
