(* ===== verification/Py_Repr.thy ===== *)
theory Py_Repr
  imports Json Py_Text
begin

text \<open>
  How Python writes values: \<open>repr\<close> and \<open>str\<close>, as messages show them, and \<open>json.dumps\<close>, as artifacts hold them.  The text
  of a float is a parameter.
\<close>

section \<open>Messages\<close>

text \<open>\<open>repr\<close> of a text: the quote it chooses, and the escapes.\<close>

definition hex_pair :: "nat \<Rightarrow> string" where
  "hex_pair n = [''0123456789abcdef'' ! (n div 16 mod 16), ''0123456789abcdef'' ! (n mod 16)]"

definition repr_char :: "char \<Rightarrow> char \<Rightarrow> string" where
  "repr_char quote_char c = (let n = (of_char c :: nat) in
     if c = quote_char \<or> c = CHR 0x5C then [CHR 0x5C, c]
     else if n = 9 then [CHR 0x5C, CHR ''t''] else if n = 10 then [CHR 0x5C, CHR ''n'']
     else if n = 13 then [CHR 0x5C, CHR ''r'']
     else if n < 32 \<or> 127 \<le> n \<and> n \<le> 160 \<or> n = 173 then CHR 0x5C # CHR ''x'' # hex_pair n
     else [c])"

definition repr_text :: "string \<Rightarrow> string" where
  "repr_text s = (let q = (if CHR 0x27 \<in> set s \<and> CHR 0x22 \<notin> set s then CHR 0x22 else CHR 0x27)
     in [q] @ concat (map (repr_char q) s) @ [q])"

definition repr_texts :: "string list \<Rightarrow> string" where
  "repr_texts xs = ''['' @ join '', '' (map repr_text xs) @ '']''"

text \<open>\<open>repr\<close> of a JSON value, and \<open>str\<close>, which differs on text only.\<close>

function repr_json :: "(rat \<Rightarrow> string) \<Rightarrow> json \<Rightarrow> string" where
  "repr_json f j = (case j of
     JNull \<Rightarrow> ''None'' | JBool b \<Rightarrow> (if b then ''True'' else ''False'') | JInt i \<Rightarrow> int_str i | JFloat q \<Rightarrow> f q
   | JStr s \<Rightarrow> repr_text s
   | JList xs \<Rightarrow> ''['' @ join '', '' (map (repr_json f) xs) @ '']''
   | JObj d \<Rightarrow> ''{'' @ join '', '' (map (\<lambda>kv. repr_text (fst kv) @ '': '' @ repr_json f (snd kv)) d) @ ''}'')"
  by pat_completeness auto
termination
proof (relation "measure (\<lambda>(f, j). size j)"; clarsimp)
  fix xs and x :: json
  assume "x \<in> set xs"
  then show "size x < Suc (size_list size xs)" by (induction xs) auto
next
  fix d and a and b :: json
  assume "(a, b) \<in> set d"
  then show "size b < Suc (size_list (size_prod (\<lambda>x. 0) size) d)" by (induction d) auto
qed

definition str_json :: "(rat \<Rightarrow> string) \<Rightarrow> json \<Rightarrow> string" where
  "str_json f j = (case j of JStr s \<Rightarrow> s | _ \<Rightarrow> repr_json f j)"

section \<open>Artifacts\<close>

text \<open>\<open>json.dumps\<close> with sorted keys; a text is written in ASCII.\<close>

definition dump_char :: "char \<Rightarrow> string" where
  "dump_char c = (let n = (of_char c :: nat) in
     if c = CHR 0x22 \<or> c = CHR 0x5C then [CHR 0x5C, c]
     else if n = 10 then [CHR 0x5C, CHR ''n''] else if n = 13 then [CHR 0x5C, CHR ''r'']
     else if n = 9 then [CHR 0x5C, CHR ''t''] else if n = 8 then [CHR 0x5C, CHR ''b'']
     else if n = 12 then [CHR 0x5C, CHR ''f'']
     else if n < 32 \<or> 128 \<le> n then [CHR 0x5C, CHR ''u'', CHR ''0'', CHR ''0''] @ hex_pair n
     else [c])"

definition dump_text :: "string \<Rightarrow> string" where
  "dump_text s = [CHR 0x22] @ concat (map dump_char s) @ [CHR 0x22]"

function dump_json :: "(rat \<Rightarrow> string) \<Rightarrow> json \<Rightarrow> string" where
  "dump_json f j = (case j of
     JNull \<Rightarrow> ''null'' | JBool b \<Rightarrow> (if b then ''true'' else ''false'') | JInt i \<Rightarrow> int_str i | JFloat q \<Rightarrow> f q
   | JStr s \<Rightarrow> dump_text s
   | JList xs \<Rightarrow> ''['' @ join '', '' (map (dump_json f) xs) @ '']''
   | JObj d \<Rightarrow> ''{'' @ join '', '' (map (\<lambda>kv. dump_text (fst kv) @ '': '' @ dump_json f (snd kv)) (sort_key fst d)) @ ''}'')"
  by pat_completeness auto
termination
proof (relation "measure (\<lambda>(f, j). size j)"; clarsimp)
  fix xs and x :: json
  assume "x \<in> set xs"
  then show "size x < Suc (size_list size xs)" by (induction xs) auto
next
  fix d and a and b :: json
  assume "(a, b) \<in> set d"
  then show "size b < Suc (size_list (size_prod (\<lambda>x. 0) size) d)" by (induction d) auto
qed

end
