(* ===== verification/Evidence.thy ===== *)
theory Evidence
  imports Py_Sub Py_Repr Bootstrap
begin

text \<open>
  \<open>src/api_tests/dependency_evidence.py\<close>: the readers of the evidence.  The lock export, the dependency tree, the
  installed inventory, the audit and the bill of materials are read into package records and compared with the
  selected lock.  An error is \<open>DependencyEvidenceError\<close> with its message.  Parameters: the JSON parser, which returns
  a value or the text of its error; \<open>Path.resolve\<close>; \<open>packaging\<close>'s \<open>Requirement\<close>; and the \<open>repr\<close> of a float.
\<close>

section \<open>Redaction\<close>

definition SECRET_NAMES :: rx where
  "SECRET_NAMES = Alts
     [LitI ''authorization'', LitI ''cookie'', LitI ''password'', LitI ''session'', LitI ''token'',
      Seqs [LitI ''api'', Opt (Cls (\<lambda>c. c \<in> set ''_-'')), LitI ''key'']]"

definition SECRET_ASSIGNMENT :: rx where
  "SECRET_ASSIGNMENT = Seqs
     [Grp ''1'' SECRET_NAMES,
      Grp ''2'' (Seqs [Star (Cls is_space), Cls (\<lambda>c. c \<in> set '':=''), Star (Cls is_space)]),
      Grp ''3'' (Plus (Cls (\<lambda>c. \<not> is_space c \<and> c \<notin> set '',;'')))]"

definition URL_USERINFO :: rx where
  "URL_USERINFO = Seqs
     [Grp ''1'' (Seqs [LitI ''http'', Opt (LitI ''s''), Lit ''://'']),
      Plus (Cls (\<lambda>c. c \<notin> set ''/@:'' \<and> \<not> is_space c)), Lit '':'',
      Plus (Cls (\<lambda>c. c \<notin> set ''/@'' \<and> \<not> is_space c)), Lit ''@'']"

definition token_char :: "char \<Rightarrow> bool" where
  "token_char c \<longleftrightarrow> is_ascii_alnum c \<or> c = CHR ''_''"

definition KNOWN_TOKEN :: rx where
  "KNOWN_TOKEN = Alt
     (Seqs [Lit ''gh'', Cls (\<lambda>c. c \<in> set ''pousr''), Lit ''_'', AtLeast 20 (Cls token_char)])
     (Seq (Lit ''github_pat_'') (AtLeast 20 (Cls token_char)))"

definition REDACTED :: string where
  "REDACTED = ''<redacted>''"

definition redact_text :: "string \<Rightarrow> string" where
  "redact_text s =
     (let urls = rx_sub any_context URL_USERINFO (\<lambda>w. kept_group ''1'' w @ REDACTED @ ''@'') s;
          tokens = rx_sub whole_words KNOWN_TOKEN (\<lambda>w. REDACTED) urls
      in rx_sub starts_word SECRET_ASSIGNMENT (\<lambda>w. kept_group ''1'' w @ kept_group ''2'' w @ REDACTED) tokens)"

section \<open>Package records\<close>

datatype package_record = PackageRecord (pr_name: string) (pr_version: string)

instantiation package_record :: linorder
begin

definition less_eq_package_record :: "package_record \<Rightarrow> package_record \<Rightarrow> bool" where
  "less_eq_package_record p q \<longleftrightarrow> (pr_name p, pr_version p) \<le> (pr_name q, pr_version q)"

definition less_package_record :: "package_record \<Rightarrow> package_record \<Rightarrow> bool" where
  "less_package_record p q \<longleftrightarrow> (pr_name p, pr_version p) < (pr_name q, pr_version q)"

instance
  by standard (auto simp: less_eq_package_record_def less_package_record_def package_record.expand)

end

record version_mismatch =
  vm_name :: string
  vm_expected :: string
  vm_actual :: string

record package_comparison =
  cmp_source :: string
  cmp_status :: string
  cmp_missing :: "string list"
  cmp_extra :: "string list"
  cmp_mismatches :: "version_mismatch list"

text \<open>The loop: the versions by normalized name, in the order of first occurrence, and the names that came again.\<close>

definition normalize_step ::
  "string \<Rightarrow> (string \<times> string) list \<times> string list \<Rightarrow> string \<times> string \<Rightarrow> string + (string \<times> string) list \<times> string list" where
  "normalize_step source st entry =
     (let name = canonicalize_name (strip (fst entry)); version = strip (snd entry) in
      if name = [] \<or> version = [] then Inl (source @ '' contains an empty package name or version'')
      else if map_of (fst st) name \<noteq> None then Inr (fst st, name # snd st)
      else Inr (AList.update name version (fst st), snd st))"

definition normalize_package_records ::
  "string \<Rightarrow> (string \<times> string) list \<Rightarrow> string + package_record list" where
  "normalize_package_records source entries =
     bindE (foldE (normalize_step source) ([], []) entries) (\<lambda>(normalized, duplicates).
     if duplicates \<noteq> [] then Inl (source @ '' contains duplicate normalized package name(s): '' @ join '', '' (sorted_keys duplicates))
     else Inr (map (\<lambda>(name, version). PackageRecord name version) (sort normalized)))"

definition versions_of :: "package_record list \<Rightarrow> (string \<times> string) list" where
  "versions_of packages = fold (\<lambda>p. AList.update (pr_name p) (pr_version p)) packages []"

definition compare_exact_packages ::
  "package_record list \<Rightarrow> package_record list \<Rightarrow> string \<Rightarrow> package_comparison" where
  "compare_exact_packages expected actual source =
     (let expected_versions = versions_of expected; actual_versions = versions_of actual;
          missing = sorted_keys (filter (\<lambda>n. map_of actual_versions n = None) (map fst expected_versions));
          extra = sorted_keys (filter (\<lambda>n. map_of expected_versions n = None) (map fst actual_versions));
          common = sorted_keys (filter (\<lambda>n. map_of actual_versions n \<noteq> None) (map fst expected_versions));
          mismatches = map (\<lambda>n. \<lparr>vm_name = n, vm_expected = the (map_of expected_versions n),
                               vm_actual = the (map_of actual_versions n)\<rparr>)
                         (filter (\<lambda>n. map_of expected_versions n \<noteq> map_of actual_versions n) common)
      in \<lparr>cmp_source = source,
          cmp_status = (if missing = [] \<and> extra = [] \<and> mismatches = [] then ''exact'' else ''mismatch''),
          cmp_missing = missing, cmp_extra = extra, cmp_mismatches = mismatches\<rparr>)"

definition mismatch_detail :: "package_comparison \<Rightarrow> string" where
  "mismatch_detail c = cmp_source c @ '': missing='' @ repr_texts (cmp_missing c) @ '', extra='' @ repr_texts (cmp_extra c) @
     '', version_mismatch='' @ repr_texts (map vm_name (cmp_mismatches c))"

definition require_exact_comparisons :: "package_comparison list \<Rightarrow> string + unit" where
  "require_exact_comparisons comparisons =
     (let mismatched = filter (\<lambda>c. cmp_status c \<noteq> ''exact'') comparisons in
      if mismatched = [] then Inr ()
      else Inl (''package parity failed: '' @ join ''; '' (map mismatch_detail mismatched)))"

section \<open>The lock export\<close>

text \<open>A requirement as \<open>packaging\<close> reads it: its marker is what it evaluates to for the running interpreter.\<close>

record requirement =
  rq_name :: string
  rq_specifiers :: "(string \<times> string) list"
  rq_marker :: "bool option"

text \<open>The loop over the lines: the blocks that are finished and the one that is open.\<close>

definition block_step :: "string list list \<times> string list \<Rightarrow> string \<Rightarrow> string + string list list \<times> string list" where
  "block_step st line =
     (case st of (blocks, current) \<Rightarrow>
        if strip line = [] \<or> startswith line ''#'' then Inr st
        else if is_space (hd line) then
          (if current = [] then Inl ''lock export starts with an orphan continuation''
           else Inr (blocks, current @ [strip line]))
        else Inr (if current \<noteq> [] then blocks @ [current] else blocks, [strip line]))"

definition requirement_blocks :: "string \<Rightarrow> string + string list list" where
  "requirement_blocks raw =
     bindE (foldE block_step ([], []) (splitlines raw)) (\<lambda>(blocks, current).
     Inr (if current \<noteq> [] then blocks @ [current] else blocks))"

definition removesuffix :: "string \<Rightarrow> string \<Rightarrow> string" where
  "removesuffix s x = (if endswith s x then take (length s - length x) s else s)"

definition selected_requirement ::
  "(string \<Rightarrow> requirement option) \<Rightarrow> string list \<Rightarrow> string + (string \<times> string) list" where
  "selected_requirement parse_requirement block =
     (let first_line = strip (removesuffix (hd block) [CHR 0x5C]) in
      if \<not> list_ex (contains ''--hash=sha256:'') (tl block) then
        Inl (''lock export requirement has no SHA-256 hash: '' @ first_line)
      else
        bindE (requireE (parse_requirement first_line)
          (''lock export contains an invalid requirement: '' @ repr_text first_line)) (\<lambda>requirement.
        case rq_specifiers requirement of
          [(operator, version)] \<Rightarrow>
            if operator \<noteq> ''=='' \<or> CHR ''*'' \<in> set version then
              Inl (''lock export requirement is not exactly pinned: '' @ repr_text first_line)
            else if rq_marker requirement \<noteq> Some False then Inr [(rq_name requirement, version)] else Inr []
        | _ \<Rightarrow> Inl (''lock export requirement is not exactly pinned: '' @ repr_text first_line)))"

definition parse_lock_export :: "(string \<Rightarrow> requirement option) \<Rightarrow> string \<Rightarrow> string + package_record list" where
  "parse_lock_export parse_requirement raw =
     bindE (requirement_blocks raw) (\<lambda>blocks.
     bindE (mapE (selected_requirement parse_requirement) blocks) (\<lambda>selected.
     if concat selected = [] then Inl ''lock export selected no third-party packages''
     else normalize_package_records ''selected lock export'' (concat selected)))"

section \<open>The reports\<close>

definition decode_json :: "(string \<Rightarrow> string + json) \<Rightarrow> string \<Rightarrow> string \<Rightarrow> string + json" where
  "decode_json parse raw source =
     (case parse raw of Inl e \<Rightarrow> Inl (source @ '' is malformed JSON: '' @ e) | Inr j \<Rightarrow> Inr j)"

record evidence_project =
  ep_name :: string
  ep_version :: string

definition installed_step ::
  "(string \<Rightarrow> string) \<Rightarrow> string \<Rightarrow> evidence_project option \<times> (string \<times> string) list \<Rightarrow> nat \<times> json \<Rightarrow>
   string + evidence_project option \<times> (string \<times> string) list" where
  "installed_step resolve root_dir st indexed =
     (let here = ''installed package inventory record '' @ nat_str (fst indexed) in
      bindE (requireE (as_object (snd indexed)) (here @ '' must be an object'')) (\<lambda>item.
      case (as_string (jget item ''name''), as_string (jget item ''version'')) of
        (Some name, Some version) \<Rightarrow>
          let normalized = canonicalize_name name; location = jget item ''editable_project_location'' in
          if normalized = PROJECT_NAME then
            if fst st \<noteq> None then Inl ''installed inventory contains duplicate project''
            else if map_option resolve (as_string location) \<noteq> Some root_dir then
              Inl ''first-party project must be editable from the repository root''
            else Inr (Some \<lparr>ep_name = normalized, ep_version = version\<rparr>, snd st)
          else if location \<noteq> JNull then Inl (''third-party package '' @ repr_text normalized @ '' must not be editable'')
          else Inr (fst st, snd st @ [(name, version)])
      | _ \<Rightarrow> Inl (here @ '' needs name and version strings'')))"

definition parse_installed_inventory ::
  "(string \<Rightarrow> string + json) \<Rightarrow> (string \<Rightarrow> string) \<Rightarrow> string \<Rightarrow> string \<Rightarrow> string + evidence_project \<times> package_record list" where
  "parse_installed_inventory parse resolve root_dir raw =
     bindE (decode_json parse raw ''installed package inventory'') (\<lambda>j.
     bindE (requireE (as_list j) ''installed package inventory must be a JSON array'') (\<lambda>items.
     bindE (foldE (installed_step resolve root_dir) (None, []) (List.enumerate 0 items)) (\<lambda>(project, entries).
     bindE (requireE project ''installed inventory is missing the editable project'') (\<lambda>p.
     bindE (normalize_package_records ''installed package inventory'' entries) (\<lambda>packages.
     Inr (p, packages))))))"

definition validate_scanner_exit :: "string \<Rightarrow> int \<Rightarrow> nat \<Rightarrow> string + unit" where
  "validate_scanner_exit format_name exit_code vulnerability_count =
     (let expected = (if vulnerability_count \<noteq> 0 then 1 else 0) in
      if exit_code \<notin> {0, 1} \<or> exit_code \<noteq> expected then
        Inl (format_name @ '' returned '' @ int_str exit_code @ '' for '' @ nat_str vulnerability_count @
             '' findings; expected '' @ int_str expected)
      else Inr ())"

record audit_report =
  ar_packages :: "package_record list"
  ar_vulnerabilities :: nat
  ar_vulnerable_packages :: nat
  ar_document :: object

definition audit_dependency :: "nat \<times> json \<Rightarrow> string + (string \<times> string) \<times> nat" where
  "audit_dependency indexed =
     (let here = ''pip-audit dependency '' @ nat_str (fst indexed) in
      bindE (requireE (as_object (snd indexed)) (here @ '' must be an object'')) (\<lambda>item.
      case (as_string (jget item ''name''), as_string (jget item ''version''), as_list (jget item ''vulns'')) of
        (Some name, Some version, Some vulnerabilities) \<Rightarrow>
          if \<not> list_all (\<lambda>v. as_object v \<noteq> None) vulnerabilities then
            Inl (''pip-audit dependency '' @ repr_text (canonicalize_name name) @ '' has malformed findings'')
          else Inr ((name, version), length vulnerabilities)
      | _ \<Rightarrow> Inl (here @ '' needs name, version, and vulns fields'')))"

definition parse_audit_report :: "(string \<Rightarrow> string + json) \<Rightarrow> string \<Rightarrow> int \<Rightarrow> string + audit_report" where
  "parse_audit_report parse raw exit_code =
     bindE (decode_json parse raw ''pip-audit JSON'') (\<lambda>j.
     bindE (requireE (as_object j) ''pip-audit JSON must be an object'') (\<lambda>document.
     bindE (requireE (as_list (jget document ''dependencies'')) ''pip-audit JSON has no dependency array'') (\<lambda>dependencies.
     bindE (mapE audit_dependency (List.enumerate 0 dependencies)) (\<lambda>audited.
     let vulnerability_count = sum_list (map snd audited) in
     bindE (validate_scanner_exit ''pip-audit JSON'' exit_code vulnerability_count) (\<lambda>_.
     bindE (normalize_package_records ''pip-audit dependencies'' (map fst audited)) (\<lambda>packages.
     Inr \<lparr>ar_packages = packages, ar_vulnerabilities = vulnerability_count,
          ar_vulnerable_packages = length (filter (\<lambda>a. snd a \<noteq> 0) audited), ar_document = document\<rparr>))))))"

record sbom_report =
  sr_packages :: "package_record list"
  sr_vulnerabilities :: nat
  sr_document :: object

definition sbom_component :: "nat \<times> json \<Rightarrow> string + string \<times> string" where
  "sbom_component indexed =
     (let here = ''CycloneDX component '' @ nat_str (fst indexed) in
      bindE (requireE (as_object (snd indexed)) (here @ '' must be an object'')) (\<lambda>item.
      case (as_string (jget item ''name''), as_string (jget item ''version'')) of
        (Some name, Some version) \<Rightarrow> Inr (name, version)
      | _ \<Rightarrow> Inl (here @ '' needs name and version strings'')))"

definition parse_sbom_report :: "(string \<Rightarrow> string + json) \<Rightarrow> string \<Rightarrow> int \<Rightarrow> string + sbom_report" where
  "parse_sbom_report parse raw exit_code =
     bindE (decode_json parse raw ''CycloneDX SBOM'') (\<lambda>j.
     bindE (requireE (as_object j) ''CycloneDX SBOM must be an object'') (\<lambda>document.
     if jget document ''bomFormat'' \<noteq> JStr ''CycloneDX'' \<or> jget document ''specVersion'' \<noteq> JStr ''1.4'' then
       Inl ''SBOM must be CycloneDX JSON specification 1.4''
     else
       bindE (requireE (as_list (jget document ''components'')) ''CycloneDX SBOM has no component array'') (\<lambda>components.
       bindE (mapE sbom_component (List.enumerate 0 components)) (\<lambda>entries.
       bindE (case as_list (jget_default document ''vulnerabilities'' (JList [])) of
           Some vs \<Rightarrow> if list_all (\<lambda>v. as_object v \<noteq> None) vs then Inr vs
                      else Inl ''CycloneDX vulnerabilities must be an array of objects''
         | None \<Rightarrow> Inl ''CycloneDX vulnerabilities must be an array of objects'') (\<lambda>vulnerabilities.
       bindE (validate_scanner_exit ''CycloneDX SBOM'' exit_code (length vulnerabilities)) (\<lambda>_.
       bindE (normalize_package_records ''CycloneDX components'' entries) (\<lambda>packages.
       Inr \<lparr>sr_packages = packages, sr_vulnerabilities = length vulnerabilities, sr_document = document\<rparr>)))))))"

section \<open>The dependency tree\<close>

text \<open>The stable name of a node, and what kind of node it is.\<close>

definition versioned :: "string \<Rightarrow> string \<Rightarrow> string \<Rightarrow> string" where
  "versioned kind name version = kind @ '':'' @ name @ ''=='' @ version"

definition tree_node_identity :: "(rat \<Rightarrow> string) \<Rightarrow> object \<Rightarrow> string + string \<times> string" where
  "tree_node_identity float_text item =
     (let kind = jget item ''kind'' in
      if kind = JStr ''workspace'' then Inr (''workspace'', ''workspace'')
      else case (as_string (jget item ''name''), as_string (jget item ''version'')) of
        (Some name, Some version) \<Rightarrow>
          let normalized = canonicalize_name name in
          if kind = JStr ''package'' then
            bindE (requireE (as_object (jget item ''source'')) ''uv dependency tree package needs a source'') (\<lambda>source.
            if map_of source ''editable'' \<noteq> None then
              if normalized \<noteq> PROJECT_NAME then Inl ''uv dependency tree has an unexpected editable''
              else Inr (versioned ''project'' normalized version, ''project'')
            else Inr (versioned ''package'' normalized version, ''package''))
          else
            (case Option.bind (as_object kind) (\<lambda>d. as_string (jget d ''group'')) of
               Some named \<Rightarrow> Inr (''group:'' @ named, ''group'')
             | None \<Rightarrow>
                 (case Option.bind (as_object kind) (\<lambda>d. as_string (jget d ''extra'')) of
                    Some extra \<Rightarrow> Inr (''extra:'' @ normalized @ ''['' @ extra @ '']=='' @ version, ''extra'')
                  | None \<Rightarrow> Inl (''uv dependency tree has an unsupported node kind: '' @ repr_json float_text kind)))
      | _ \<Rightarrow> Inl ''uv dependency tree node needs name and version strings'')"

text \<open>The first pass: the stable name of every original name, the nodes by stable name, and the packages.\<close>

record tree_state =
  tr_stable :: "(string \<times> string) list"
  tr_nodes :: "(string \<times> string \<times> object) list"
  tr_packages :: "(string \<times> string) list"

definition tree_step :: "(rat \<Rightarrow> string) \<Rightarrow> tree_state \<Rightarrow> string \<times> json \<Rightarrow> string + tree_state" where
  "tree_step float_text st entry =
     bindE (requireE (as_object (snd entry)) ''uv dependency tree has a malformed resolution node'') (\<lambda>item.
     bindE (tree_node_identity float_text item) (\<lambda>(stable_id, kind).
     if map_of (tr_nodes st) stable_id \<noteq> None then
       Inl (''uv dependency tree has duplicate node '' @ repr_text stable_id)
     else
       let named = st\<lparr>tr_stable := AList.update (fst entry) stable_id (tr_stable st),
                      tr_nodes := AList.update stable_id (kind, item) (tr_nodes st)\<rparr> in
       if kind = ''package'' then
         (case (as_string (jget item ''name''), as_string (jget item ''version'')) of
            (Some name, Some version) \<Rightarrow> Inr (named\<lparr>tr_packages := tr_packages st @ [(name, version)]\<rparr>)
          | _ \<Rightarrow> Inl (''uv dependency tree package '' @ repr_text stable_id @ '' needs name and version''))
       else Inr named))"

definition stable_reference :: "(string \<times> string) list \<Rightarrow> string \<Rightarrow> string \<Rightarrow> json \<Rightarrow> string + string" where
  "stable_reference ids malformed unknown j =
     bindE (requireE (Option.bind (as_object j) (\<lambda>d. as_string (jget d ''id''))) malformed) (\<lambda>original_id.
     requireE (map_of ids original_id) unknown)"

record tree_node =
  tn_id :: string
  tn_kind :: string
  tn_dependencies :: "string list"

definition stable_node :: "(string \<times> string) list \<Rightarrow> string \<times> string \<times> object \<Rightarrow> string + tree_node" where
  "stable_node ids entry =
     (case entry of (stable_id, kind, item) \<Rightarrow>
        let here = ''uv dependency tree node '' @ repr_text stable_id in
        bindE (requireE (as_list (jget_default item ''dependencies'' (JList []))) (here @ '' has invalid dependencies'')) (\<lambda>dependencies.
        bindE (mapE (stable_reference ids (here @ '' has a malformed dependency'') (here @ '' references an unknown node''))
                 dependencies) (\<lambda>names.
        Inr \<lparr>tn_id = stable_id, tn_kind = kind, tn_dependencies = sort names\<rparr>)))"

record dependency_tree =
  dt_packages :: "package_record list"
  dt_roots :: "string list"
  dt_nodes :: "tree_node list"

definition parse_dependency_tree ::
  "(string \<Rightarrow> string + json) \<Rightarrow> (rat \<Rightarrow> string) \<Rightarrow> string \<Rightarrow> string + dependency_tree" where
  "parse_dependency_tree parse float_text raw =
     bindE (decode_json parse raw ''uv dependency tree'') (\<lambda>j.
     bindE (requireE (as_object j) ''uv dependency tree must be an object'') (\<lambda>document.
     case (as_object (jget document ''resolution''), as_list (jget document ''roots'')) of
       (Some resolution, Some roots) \<Rightarrow>
         bindE (foldE (tree_step float_text) \<lparr>tr_stable = [], tr_nodes = [], tr_packages = []\<rparr> resolution) (\<lambda>st.
         bindE (mapE (stable_node (tr_stable st)) (sort_key fst (tr_nodes st))) (\<lambda>nodes.
         bindE (mapE (stable_reference (tr_stable st) ''uv dependency tree contains a malformed root''
                        ''uv dependency tree contains an unknown root'') roots) (\<lambda>stable_roots.
         bindE (normalize_package_records ''uv dependency tree packages'' (tr_packages st)) (\<lambda>packages.
         Inr \<lparr>dt_packages = packages, dt_roots = sort stable_roots, dt_nodes = nodes\<rparr>))))
     | _ \<Rightarrow> Inl ''uv dependency tree needs resolution and roots fields''))"

section \<open>Documents\<close>

definition EVIDENCE_SCHEMA :: int where
  "EVIDENCE_SCHEMA = 1"

definition texts_json :: "string list \<Rightarrow> json" where
  "texts_json xs = JList (map JStr xs)"

definition tree_document :: "dependency_tree \<Rightarrow> json" where
  "tree_document t = JObj
     [(''schema_version'', JInt EVIDENCE_SCHEMA),
      (''source'', JStr ''uv tree --frozen --all-groups --format json''),
      (''roots'', texts_json (dt_roots t)),
      (''nodes'', JList (map (\<lambda>n. JObj
         [(''id'', JStr (tn_id n)), (''kind'', JStr (tn_kind n)), (''dependencies'', texts_json (tn_dependencies n))]) (dt_nodes t)))]"

definition package_documents :: "package_record list \<Rightarrow> json" where
  "package_documents packages =
     JList (map (\<lambda>p. JObj [(''name'', JStr (pr_name p)), (''version'', JStr (pr_version p))]) packages)"

definition lock_selection_document :: "package_record list \<Rightarrow> json" where
  "lock_selection_document packages = JObj
     [(''schema_version'', JInt EVIDENCE_SCHEMA), (''selection'', JStr ''current runner environment markers''),
      (''packages'', package_documents packages)]"

definition installed_document :: "evidence_project \<Rightarrow> package_record list \<Rightarrow> json" where
  "installed_document project packages = JObj
     [(''schema_version'', JInt EVIDENCE_SCHEMA),
      (''project_exclusion'', JObj [(''name'', JStr (ep_name project)), (''version'', JStr (ep_version project)), (''editable'', JBool True)]),
      (''packages'', package_documents packages)]"

definition comparison_json :: "package_comparison \<Rightarrow> json" where
  "comparison_json c = JObj
     [(''source'', JStr (cmp_source c)), (''status'', JStr (cmp_status c)), (''missing'', texts_json (cmp_missing c)),
      (''extra'', texts_json (cmp_extra c)),
      (''version_mismatches'', JList (map (\<lambda>m. JObj
         [(''name'', JStr (vm_name m)), (''expected'', JStr (vm_expected m)), (''actual'', JStr (vm_actual m))]) (cmp_mismatches c)))]"

definition exclusion_json :: "string \<Rightarrow> string \<Rightarrow> string \<Rightarrow> json" where
  "exclusion_json scope name reason = JObj [(''scope'', JStr scope), (''name'', JStr name), (''reason'', JStr reason)]"

definition parity_document :: "package_record list \<Rightarrow> package_comparison list \<Rightarrow> json" where
  "parity_document packages comparisons = JObj
     [(''schema_version'', JInt EVIDENCE_SCHEMA),
      (''status'', JStr (if list_all (\<lambda>c. cmp_status c = ''exact'') comparisons then ''exact'' else ''mismatch'')),
      (''reference'', JStr ''platform-selected uv lock export''),
      (''package_count'', JInt (int (length packages))),
      (''comparisons'', JList (map comparison_json comparisons)),
      (''exclusions'', JList
        [exclusion_json ''project'' PROJECT_NAME ''first-party editable package'',
         exclusion_json ''bootstrap environment'' ''uv'' ''isolated pinned bootstrap tool'',
         exclusion_json ''scanner environment'' ''pip-audit and its tool dependencies'' ''isolated pinned scanner tool''])]"

text \<open>The findings for a reader: one row for each vulnerability, sorted.\<close>

type_synonym finding = "string \<times> string \<times> string \<times> string"

definition finding_row :: "(rat \<Rightarrow> string) \<Rightarrow> string \<Rightarrow> string \<Rightarrow> json \<Rightarrow> string + finding list" where
  "finding_row float_text name version j =
     (case as_object j of
        None \<Rightarrow> Inr []
      | Some vulnerability \<Rightarrow>
          (case (as_string (jget vulnerability ''id''), as_list (jget_default vulnerability ''fix_versions'' (JList []))) of
             (Some identifier, Some fixes) \<Rightarrow>
               Inr [(canonicalize_name name, version, identifier,
                     if fixes \<noteq> [] then join '', '' (map (str_json float_text) fixes) else ''none'')]
           | _ \<Rightarrow> Inl ''pip-audit finding has malformed id or fixes''))"

definition dependency_findings :: "(rat \<Rightarrow> string) \<Rightarrow> json \<Rightarrow> string + finding list" where
  "dependency_findings float_text j =
     (case as_object j of
        None \<Rightarrow> Inr []
      | Some item \<Rightarrow>
          (case (as_string (jget item ''name''), as_string (jget item ''version''), as_list (jget item ''vulns'')) of
             (Some name, Some version, Some vulnerabilities) \<Rightarrow>
               bindE (mapE (finding_row float_text name version) vulnerabilities) (\<lambda>rows. Inr (concat rows))
           | _ \<Rightarrow> Inr []))"

abbreviation TAB :: char where "TAB \<equiv> CHR 0x09"

definition human_findings :: "(rat \<Rightarrow> string) \<Rightarrow> object \<Rightarrow> string + string" where
  "human_findings float_text document =
     bindE (requireE (as_list (jget document ''dependencies'')) ''pip-audit JSON has no dependency array'') (\<lambda>dependencies.
     bindE (mapE (dependency_findings float_text) dependencies) (\<lambda>found.
     let rows = concat found in
     Inr (join [LF]
       ([''pip-audit dependency findings'', [],
         ''Audited packages: '' @ nat_str (length dependencies),
         ''Vulnerability records: '' @ nat_str (length rows),
         ''Findings are retained but are not merge-gating.'', []] @
        (if rows = [] then [''No known vulnerabilities found.'']
         else map (\<lambda>(name, version, identifier, fixes). join [TAB] [name, version, identifier, fixes]) (sort rows))) @ [LF])))"

text \<open>The browsers that the installed Playwright declares.\<close>

definition BROWSER_FIELDS :: "string list" where
  "BROWSER_FIELDS = [''browserVersion'', ''installByDefault'', ''revisionOverrides'', ''title'']"

definition browser_record :: "nat \<times> json \<Rightarrow> string + string \<times> object" where
  "browser_record indexed =
     (let here = ''Playwright browser record '' @ nat_str (fst indexed) in
      bindE (requireE (as_object (snd indexed)) (here @ '' must be an object'')) (\<lambda>item.
      case (as_string (jget item ''name''), as_string (jget item ''revision'')) of
        (Some name, Some revision) \<Rightarrow>
          Inr (name, [(''name'', JStr name), (''revision'', JStr revision)] @
                 List.map_filter (\<lambda>field. map_option (Pair field) (map_of item field)) BROWSER_FIELDS)
      | _ \<Rightarrow> Inl (here @ '' needs name and revision strings'')))"

definition browser_document :: "string \<Rightarrow> json \<Rightarrow> string + json" where
  "browser_document playwright_version j =
     bindE (requireE (Option.bind (as_object j) (\<lambda>d. as_list (jget d ''browsers'')))
       ''Playwright browsers.json has no browser array'') (\<lambda>items.
     bindE (mapE browser_record (List.enumerate 0 items)) (\<lambda>browsers.
     if length (filter (\<lambda>b. fst b = ''chromium'') browsers) \<noteq> 1 then
       Inl ''Playwright must declare exactly one Chromium revision''
     else Inr (JObj
       [(''schema_version'', JInt EVIDENCE_SCHEMA), (''playwright_version'', JStr playwright_version),
        (''source'', JStr ''installed Playwright package browsers.json''), (''browser_installation_performed'', JBool False),
        (''browsers'', JList (map (\<lambda>b. JObj (snd b)) browsers))])))"

section \<open>The package records are a normal form\<close>

definition named_entry :: "string \<times> string \<Rightarrow> string \<times> string" where
  "named_entry entry = (canonicalize_name (strip (fst entry)), strip (snd entry))"

definition complete_entry :: "string \<times> string \<Rightarrow> bool" where
  "complete_entry entry \<longleftrightarrow> fst (named_entry entry) \<noteq> [] \<and> snd (named_entry entry) \<noteq> []"

definition record_of :: "string \<times> string \<Rightarrow> package_record" where
  "record_of entry = PackageRecord (fst entry) (snd entry)"

lemma record_of_sel [simp]: "pr_name (record_of e) = fst e" "pr_version (record_of e) = snd e"
  by (simp_all add: record_of_def)

lemma inj_record_of: "inj record_of"
  by (rule injI) (simp add: record_of_def prod_eq_iff)

lemma normalize_fold:
  "foldE (normalize_step source) (d, dups) xs = Inr (d', []) \<longleftrightarrow>
     dups = [] \<and> list_all complete_entry xs \<and> distinct (map (fst \<circ> named_entry) xs) \<and>
     set (map (fst \<circ> named_entry) xs) \<inter> fst ` set d = {} \<and> d' = d @ map named_entry xs"
proof (induction xs arbitrary: d dups)
  case Nil
  then show ?case by auto
next
  case (Cons e xs)
  let ?n = "fst (named_entry e)" and ?v = "snd (named_entry e)"
  have step: "normalize_step source (d, dups) e =
      (if ?n = [] \<or> ?v = [] then Inl (source @ '' contains an empty package name or version'')
       else if map_of d ?n \<noteq> None then Inr (d, ?n # dups) else Inr (AList.update ?n ?v d, dups))"
    by (simp add: normalize_step_def named_entry_def Let_def)
  consider "\<not> complete_entry e" | "complete_entry e" "?n \<in> fst ` set d" | "complete_entry e" "?n \<notin> fst ` set d" by blast
  then show ?case
  proof cases
    case 1
    then show ?thesis by (auto simp: step complete_entry_def)
  next
    case 2
    then have "map_of d ?n \<noteq> None" by (metis map_of_None_keys list.set_map)
    with 2 show ?thesis by (simp add: step complete_entry_def Cons.IH)
  next
    case 3
    then have "map_of d ?n = None" by (metis map_of_None_keys list.set_map)
    then have "normalize_step source (d, dups) e = Inr (d @ [(?n, ?v)], dups)"
      using 3 by (simp add: step complete_entry_def dict_simps)
    then show ?thesis using 3 by (auto simp: Cons.IH)
  qed
qed

lemma normalize_records:
  "normalize_package_records source xs = Inr ps \<longleftrightarrow>
     list_all complete_entry xs \<and> distinct (map (fst \<circ> named_entry) xs) \<and> ps = map record_of (sort (map named_entry xs))"
proof -
  have "normalize_package_records source xs = Inr ps \<longleftrightarrow>
      (\<exists>d. foldE (normalize_step source) ([], []) xs = Inr (d, []) \<and> ps = map record_of (sort d))"
    by (auto simp: normalize_package_records_def ok_iff record_of_def split_def)
  then show ?thesis unfolding normalize_fold by auto
qed

definition package_set :: "package_record list \<Rightarrow> bool" where
  "package_set ps \<longleftrightarrow> sorted (map pr_name ps) \<and> distinct (map pr_name ps)"

lemma sorted_fst: "sorted xs \<Longrightarrow> sorted (map fst (xs :: (string \<times> string) list))"
  by (induction xs) (auto simp: less_eq_prod_def less_le_not_le)

lemma package_set_unique: "package_set ps \<Longrightarrow> package_set qs \<Longrightarrow> set ps = set qs \<Longrightarrow> ps = qs"
  unfolding package_set_def
  by (rule map_sorted_distinct_set_unique [of pr_name]) (auto simp: distinct_map)

lemma normalized_package_set:
  assumes "distinct (map (fst \<circ> named_entry) xs)"
  shows "package_set (map record_of (sort (map named_entry xs)))"
proof -
  have same: "mset (map fst (sort (map named_entry xs))) = mset (map (fst \<circ> named_entry) xs)" by (simp add: multiset.map_comp)
  have "distinct (map fst (sort (map named_entry xs)))"
    using assms mset_eq_imp_distinct_iff [OF same] by simp
  moreover have "sorted (map fst (sort (map named_entry xs)))" by (rule sorted_fst) simp
  ultimately show ?thesis by (simp add: package_set_def o_def)
qed

text \<open>
  C12. The records of a source are normalized to the set of its packages: normalization succeeds exactly when every name and
  version is there and no two entries have one normalized name; the result has each entry once, sorted by name.
\<close>

theorem normalized_records_are_the_packages:
  "normalize_package_records source xs = Inr ps \<longleftrightarrow>
     list_all (\<lambda>e. canonicalize_name (strip (fst e)) \<noteq> [] \<and> strip (snd e) \<noteq> []) xs \<and>
     distinct (map (\<lambda>e. canonicalize_name (strip (fst e))) xs) \<and>
     package_set ps \<and> set ps = (\<lambda>e. PackageRecord (canonicalize_name (strip (fst e))) (strip (snd e))) ` set xs"
proof -
  have names: "map (fst \<circ> named_entry) xs = map (\<lambda>e. canonicalize_name (strip (fst e))) xs"
    by (simp add: named_entry_def)
  have all: "list_all complete_entry xs \<longleftrightarrow> list_all (\<lambda>e. canonicalize_name (strip (fst e)) \<noteq> [] \<and> strip (snd e) \<noteq> []) xs"
    by (simp add: list_all_iff complete_entry_def named_entry_def)
  have members: "set (map record_of (sort (map named_entry xs))) =
      (\<lambda>e. PackageRecord (canonicalize_name (strip (fst e))) (strip (snd e))) ` set xs"
    by (auto simp: record_of_def named_entry_def image_image)
  show ?thesis
  proof (intro iffI conjI)
    assume ok: "normalize_package_records source xs = Inr ps"
    then have *: "list_all complete_entry xs" "distinct (map (fst \<circ> named_entry) xs)" "ps = map record_of (sort (map named_entry xs))"
      unfolding normalize_records by blast+
    show "list_all (\<lambda>e. canonicalize_name (strip (fst e)) \<noteq> [] \<and> strip (snd e) \<noteq> []) xs" using *(1) all by blast
    show "distinct (map (\<lambda>e. canonicalize_name (strip (fst e))) xs)" using *(2) unfolding names .
    show "package_set ps" unfolding *(3) by (rule normalized_package_set [OF *(2)])
    show "set ps = (\<lambda>e. PackageRecord (canonicalize_name (strip (fst e))) (strip (snd e))) ` set xs"
      unfolding *(3) by (rule members)
  next
    assume rhs: "list_all (\<lambda>e. canonicalize_name (strip (fst e)) \<noteq> [] \<and> strip (snd e) \<noteq> []) xs \<and>
      distinct (map (\<lambda>e. canonicalize_name (strip (fst e))) xs) \<and>
      package_set ps \<and> set ps = (\<lambda>e. PackageRecord (canonicalize_name (strip (fst e))) (strip (snd e))) ` set xs"
    have distinct: "distinct (map (fst \<circ> named_entry) xs)" using rhs unfolding names by blast
    have "ps = map record_of (sort (map named_entry xs))"
      using package_set_unique [OF _ normalized_package_set [OF distinct]] rhs members by presburger
    then show "normalize_package_records source xs = Inr ps"
      unfolding normalize_records using rhs all distinct by blast
  qed
qed

section \<open>Exact parity\<close>

lemma map_of_fold_update:
  "map_of (fold (\<lambda>p. AList.update (pr_name p) (pr_version p)) ps d) =
     (\<lambda>n. case map_of (rev (map (\<lambda>p. (pr_name p, pr_version p)) ps)) n of Some v \<Rightarrow> Some v | None \<Rightarrow> map_of d n)"
  by (induction ps arbitrary: d) (auto simp: dict_simps fun_eq_iff map_add_def split: option.splits)

lemma versions_of_distinct:
  assumes "distinct (map pr_name ps)"
  shows "map_of (versions_of ps) = map_of (map (\<lambda>p. (pr_name p, pr_version p)) ps)"
proof -
  let ?pairs = "map (\<lambda>p. (pr_name p, pr_version p)) ps"
  have "distinct (map fst ?pairs)" "distinct (map fst (rev ?pairs))"
    using assms by (simp_all add: o_def rev_map [symmetric])
  then have "map_of (rev ?pairs) = map_of ?pairs" by (simp only: map_of_inject_set set_rev)
  then show ?thesis
    by (simp add: versions_of_def map_of_fold_update fun_eq_iff split: option.splits)
qed

lemma filter_keys_Nil: "filter P (map fst d) = [] \<longleftrightarrow> (\<forall>n. n \<in> dom (map_of d) \<longrightarrow> \<not> P n)"
  unfolding filter_empty_conv set_keys by auto

lemma exact_iff:
  "cmp_status (compare_exact_packages e a source) = ''exact'' \<longleftrightarrow> map_of (versions_of e) = map_of (versions_of a)"
  (is "_ \<longleftrightarrow> ?e = ?a")
proof -
  have "cmp_status (compare_exact_packages e a source) = ''exact'' \<longleftrightarrow>
      (\<forall>n. n \<in> dom ?e \<longrightarrow> ?a n \<noteq> None) \<and> (\<forall>n. n \<in> dom ?a \<longrightarrow> ?e n \<noteq> None) \<and>
      (\<forall>n. n \<in> dom ?e \<longrightarrow> ?a n \<noteq> None \<longrightarrow> ?e n = ?a n)"
    by (auto simp: compare_exact_packages_def Let_def filter_keys_Nil filter_empty_conv set_keys simp del: set_map)
  also have "\<dots> \<longleftrightarrow> ?e = ?a" by (auto simp: fun_eq_iff dom_def) (metis not_None_eq)+
  finally show ?thesis .
qed

lemma exact_same_packages:
  assumes "package_set e" and "package_set a"
  shows "cmp_status (compare_exact_packages e a source) = ''exact'' \<longleftrightarrow> e = a"
proof -
  let ?pairs = "map (\<lambda>p. (pr_name p, pr_version p))"
  have names: "distinct (map fst (?pairs e))" "distinct (map fst (?pairs a))"
    using assms by (simp_all add: package_set_def o_def)
  have inj: "inj (\<lambda>p. (pr_name p, pr_version p))" by (rule injI) (simp add: package_record.expand)
  have "cmp_status (compare_exact_packages e a source) = ''exact'' \<longleftrightarrow> map_of (?pairs e) = map_of (?pairs a)"
    using assms by (simp add: exact_iff versions_of_distinct package_set_def)
  also have "\<dots> \<longleftrightarrow> set (?pairs e) = set (?pairs a)" by (rule map_of_inject_set [OF names])
  also have "\<dots> \<longleftrightarrow> set e = set a" by (simp add: inj_image_eq_iff [OF inj])
  also have "\<dots> \<longleftrightarrow> e = a" using package_set_unique [OF assms] by blast
  finally show ?thesis .
qed

lemma normalize_package_set: "normalize_package_records source xs = Inr ps \<Longrightarrow> package_set ps"
  using normalized_package_set by (auto simp: normalize_records)

lemma require_exact_ok [ok_iff]:
  "require_exact_comparisons cs = Inr u \<longleftrightarrow> list_all (\<lambda>c. cmp_status c = ''exact'') cs"
  by (auto simp: require_exact_comparisons_def Let_def filter_empty_conv list_all_iff)

section \<open>The tree is closed\<close>

definition tree_named :: "tree_state \<Rightarrow> bool" where
  "tree_named st \<longleftrightarrow> distinct (map fst (tr_nodes st)) \<and> ran (map_of (tr_stable st)) \<subseteq> fst ` set (tr_nodes st)"

lemma tree_step_named:
  assumes "tree_named st" and step: "tree_step float_text st entry = Inr st'"
  shows "tree_named st'"
proof -
  obtain stable_id kind item where new: "map_of (tr_nodes st) stable_id = None"
    and nodes: "tr_nodes st' = AList.update stable_id (kind, item) (tr_nodes st)"
    and ids: "tr_stable st' = AList.update (fst entry) stable_id (tr_stable st)"
    using step
    by (auto simp: tree_step_def ok_iff Let_def simp del: not_None_eq split: if_splits option.splits intro!: that)
  have keys: "fst ` set (tr_nodes st') = insert stable_id (fst ` set (tr_nodes st))"
    unfolding nodes by (rule update_keys)
  have "distinct (map fst (tr_nodes st'))"
    using assms(1) new unfolding nodes update_new [OF new] tree_named_def map_of_None_keys by simp
  moreover have "ran (map_of (tr_stable st')) \<subseteq> insert stable_id (ran (map_of (tr_stable st)))"
    unfolding ids update_lookup by (auto simp: ran_def)
  ultimately show ?thesis using assms(1) unfolding tree_named_def keys by blast
qed

lemma stable_reference_known: "stable_reference ids malformed unknown j = Inr name \<Longrightarrow> name \<in> ran (map_of ids)"
  by (auto simp: stable_reference_def ok_iff intro: ranI)

lemma stable_references_known: "mapE (stable_reference ids malformed unknown) js = Inr names \<Longrightarrow> set names \<subseteq> ran (map_of ids)"
  unfolding mapE_ok using stable_reference_known by (metis (mono_tags, lifting) list_all2_post subsetI)

lemma stable_node_known:
  "stable_node ids entry = Inr n \<Longrightarrow> tn_id n = fst entry \<and> set (tn_dependencies n) \<subseteq> ran (map_of ids)"
  by (auto simp: stable_node_def ok_iff Let_def split_def simp del: mapE_ok dest!: stable_references_known)

lemma stable_nodes_known:
  assumes "mapE (stable_node ids) entries = Inr nodes"
  shows "map tn_id nodes = map fst entries" and "\<forall>n \<in> set nodes. set (tn_dependencies n) \<subseteq> ran (map_of ids)"
proof -
  from assms have *: "list_all2 (\<lambda>e n. stable_node ids e = Inr n) entries nodes" by (simp add: mapE_ok)
  then show "map tn_id nodes = map fst entries"
    by (induction rule: list_all2_induct) (auto dest: stable_node_known)
  from * show "\<forall>n \<in> set nodes. set (tn_dependencies n) \<subseteq> ran (map_of ids)"
    by (rule list_all2_right) (use stable_node_known in blast)
qed

lemma parse_dependency_tree_ok:
  assumes "parse_dependency_tree parse float_text raw = Inr tree"
  shows "\<exists>resolution roots st stable_roots.
    foldE (tree_step float_text) \<lparr>tr_stable = [], tr_nodes = [], tr_packages = []\<rparr> resolution = Inr st \<and>
    mapE (stable_node (tr_stable st)) (sort_key fst (tr_nodes st)) = Inr (dt_nodes tree) \<and>
    mapE (stable_reference (tr_stable st) ''uv dependency tree contains a malformed root''
      ''uv dependency tree contains an unknown root'') roots = Inr stable_roots \<and> dt_roots tree = sort stable_roots \<and>
    normalize_package_records ''uv dependency tree packages'' (tr_packages st) = Inr (dt_packages tree)"
proof -
  obtain document where rest: "(case (as_object (jget document ''resolution''), as_list (jget document ''roots'')) of
       (Some resolution, Some roots) \<Rightarrow>
         bindE (foldE (tree_step float_text) \<lparr>tr_stable = [], tr_nodes = [], tr_packages = []\<rparr> resolution) (\<lambda>st.
         bindE (mapE (stable_node (tr_stable st)) (sort_key fst (tr_nodes st))) (\<lambda>nodes.
         bindE (mapE (stable_reference (tr_stable st) ''uv dependency tree contains a malformed root''
                        ''uv dependency tree contains an unknown root'') roots) (\<lambda>stable_roots.
         bindE (normalize_package_records ''uv dependency tree packages'' (tr_packages st)) (\<lambda>packages.
         Inr \<lparr>dt_packages = packages, dt_roots = sort stable_roots, dt_nodes = nodes\<rparr>))))
     | _ \<Rightarrow> Inl ''uv dependency tree needs resolution and roots fields'') = Inr tree"
    using assms unfolding parse_dependency_tree_def bindE_ok by blast
  then obtain resolution roots where "as_object (jget document ''resolution'') = Some resolution"
    "as_list (jget document ''roots'') = Some roots"
    by (cases "as_object (jget document ''resolution'')"; cases "as_list (jget document ''roots'')")
      (simp_all del: as_object_Some as_list_Some)
  with rest obtain st nodes stable_roots packages where
    folded: "foldE (tree_step float_text) \<lparr>tr_stable = [], tr_nodes = [], tr_packages = []\<rparr> resolution = Inr st" and
    nodes: "mapE (stable_node (tr_stable st)) (sort_key fst (tr_nodes st)) = Inr nodes" and
    roots: "mapE (stable_reference (tr_stable st) ''uv dependency tree contains a malformed root''
      ''uv dependency tree contains an unknown root'') roots = Inr stable_roots" and
    packages: "normalize_package_records ''uv dependency tree packages'' (tr_packages st) = Inr packages" and
    tree: "tree = \<lparr>dt_packages = packages, dt_roots = sort stable_roots, dt_nodes = nodes\<rparr>"
    by (auto simp: bindE_ok simp del: as_object_Some as_list_Some)
  then have "mapE (stable_node (tr_stable st)) (sort_key fst (tr_nodes st)) = Inr (dt_nodes tree)"
    "dt_roots tree = sort stable_roots"
    "normalize_package_records ''uv dependency tree packages'' (tr_packages st) = Inr (dt_packages tree)"
    by (simp_all del: mapE_ok)
  with folded roots show ?thesis by blast
qed

text \<open>
  C13. The normalized tree is a closed graph: no two nodes have one name, they are sorted, and every root and every
  dependency is the name of a node; its packages are a set of package records.
\<close>

theorem dependency_tree_is_closed:
  assumes "parse_dependency_tree parse float_text raw = Inr tree"
  shows "sorted (map tn_id (dt_nodes tree)) \<and> distinct (map tn_id (dt_nodes tree)) \<and>
    set (dt_roots tree) \<subseteq> tn_id ` set (dt_nodes tree) \<and>
    (\<forall>n \<in> set (dt_nodes tree). set (tn_dependencies n) \<subseteq> tn_id ` set (dt_nodes tree)) \<and> package_set (dt_packages tree)"
proof -
  obtain resolution roots st stable_roots where
    folded: "foldE (tree_step float_text) \<lparr>tr_stable = [], tr_nodes = [], tr_packages = []\<rparr> resolution = Inr st" and
    nodes: "mapE (stable_node (tr_stable st)) (sort_key fst (tr_nodes st)) = Inr (dt_nodes tree)" and
    roots: "mapE (stable_reference (tr_stable st) ''uv dependency tree contains a malformed root''
      ''uv dependency tree contains an unknown root'') roots = Inr stable_roots" and
    roots_eq: "dt_roots tree = sort stable_roots" and
    packages: "normalize_package_records ''uv dependency tree packages'' (tr_packages st) = Inr (dt_packages tree)"
    using parse_dependency_tree_ok [OF assms] by blast
  let ?nodes = "dt_nodes tree"
  have "tree_named st"
    by (rule foldE_rule [OF folded, where P = "\<lambda>_. tree_named"])
      (simp add: tree_named_def, rule tree_step_named)
  then have named: "distinct (map fst (tr_nodes st))" "ran (map_of (tr_stable st)) \<subseteq> fst ` set (tr_nodes st)"
    by (simp_all add: tree_named_def)
  have ids: "map tn_id ?nodes = map fst (sort_key fst (tr_nodes st))" by (rule stable_nodes_known(1) [OF nodes])
  then have names: "tn_id ` set ?nodes = fst ` set (tr_nodes st)" by (metis list.set_map set_sort)
  have "mset (map fst (sort_key fst (tr_nodes st))) = mset (map fst (tr_nodes st))" by simp
  then have "distinct (map fst (sort_key fst (tr_nodes st)))" using named(1) mset_eq_imp_distinct_iff by blast
  with ids have sorted: "sorted (map tn_id ?nodes)" "distinct (map tn_id ?nodes)" by simp_all
  have "set stable_roots \<subseteq> tn_id ` set ?nodes"
    using stable_references_known [OF roots] named(2) unfolding names by blast
  moreover have "\<forall>n \<in> set ?nodes. set (tn_dependencies n) \<subseteq> tn_id ` set ?nodes"
    using stable_nodes_known(2) [OF nodes] named(2) unfolding names by blast
  ultimately show ?thesis using sorted normalize_package_set [OF packages] unfolding roots_eq by simp
qed

text \<open>
  Parity is equality: two normalized package sets compare as exact if and only if they are the same.
\<close>

theorem exact_parity_is_equality:
  assumes "normalize_package_records source_e e = Inr expected" and "normalize_package_records source_a a = Inr actual"
  shows "cmp_status (compare_exact_packages expected actual source) = ''exact'' \<longleftrightarrow> expected = actual"
  using assms exact_same_packages normalize_package_set by blast

theorem exact_parity_is_equality_witness:
  "normalize_package_records ''a'' [(''My_Pkg'', ''1.0''), (''httpx'', '' 0.28.1'')] =
     Inr [PackageRecord ''httpx'' ''0.28.1'', PackageRecord ''my-pkg'' ''1.0''] \<and>
   normalize_package_records ''b'' [(''httpx'', ''0.28.1''), (''my.pkg'', ''1.1'')] =
     Inr [PackageRecord ''httpx'' ''0.28.1'', PackageRecord ''my-pkg'' ''1.1''] \<and>
   cmp_status (compare_exact_packages [PackageRecord ''httpx'' ''0.28.1'', PackageRecord ''my-pkg'' ''1.0'']
     [PackageRecord ''httpx'' ''0.28.1'', PackageRecord ''my-pkg'' ''1.1''] ''b'') \<noteq> ''exact''"
proof -
  have a: "normalize_package_records ''a'' [(''My_Pkg'', ''1.0''), (''httpx'', '' 0.28.1'')] =
     Inr [PackageRecord ''httpx'' ''0.28.1'', PackageRecord ''my-pkg'' ''1.0'']" by code_simp
  have b: "normalize_package_records ''b'' [(''httpx'', ''0.28.1''), (''my.pkg'', ''1.1'')] =
     Inr [PackageRecord ''httpx'' ''0.28.1'', PackageRecord ''my-pkg'' ''1.1'']" by code_simp
  show ?thesis using a b exact_parity_is_equality [OF a b, of "''b''"] by simp
qed

definition small_tree :: json where
  "small_tree = JObj
     [(''resolution'', JObj
        [(''n1'', JObj [(''kind'', JStr ''package''), (''name'', JStr ''httpx''), (''version'', JStr ''0.28.1''), (''source'', JObj [])]),
         (''n0'', JObj [(''kind'', JStr ''package''), (''name'', JStr PROJECT_NAME), (''version'', JStr ''0.1.0''),
            (''source'', JObj [(''editable'', JStr ''.'')]), (''dependencies'', JList [JObj [(''id'', JStr ''n1'')]])])]),
      (''roots'', JList [JObj [(''id'', JStr ''n0'')]])]"

theorem dependency_tree_is_closed_witness:
  "\<exists>tree. parse_dependency_tree (\<lambda>text. Inr small_tree) (\<lambda>q. []) ''tree'' = Inr tree \<and>
     set (dt_roots tree) \<subseteq> tn_id ` set (dt_nodes tree)"
proof -
  have "(case parse_dependency_tree (\<lambda>text. Inr small_tree) (\<lambda>q. []) ''tree'' of Inr tree \<Rightarrow> True | Inl e \<Rightarrow> False)" by code_simp
  then obtain tree where tree: "parse_dependency_tree (\<lambda>text. Inr small_tree) (\<lambda>q. []) ''tree'' = Inr tree"
    by (auto split: sum.splits)
  from dependency_tree_is_closed [OF this] tree show ?thesis by blast
qed

end
