(* ===== verification/Evidence_Run.thy ===== *)
theory Evidence_Run
  imports Evidence
begin

text \<open>
  \<open>generate_dependency_evidence\<close> of \<open>src/api_tests/dependency_evidence.py\<close>: the stages that fill the output directory,
  the check of what is in it, the completion record that is written last, and the handler that takes the record back
  and leaves diagnostics.  The output directory is part of the state; the commands run on the state and may change it.
  What the operating system refuses, the clock, the digests and the installed Playwright are parameters.
\<close>

section \<open>The output directory\<close>

text \<open>\<open>Document j\<close> is the text that \<open>json.dumps\<close> makes of \<open>j\<close> with indentation and sorted keys, and a line feed.\<close>

datatype content = Text string | Document json
datatype output_node = OutputFile content | OutputDirectory

record 'w place =
  pl_outputs :: "(string \<times> output_node) list"
  pl_world :: 'w

text \<open>A command or a read that the system refuses, with the text of the \<open>OSError\<close>, or that gives undecodable bytes.\<close>

datatype fault = Refused string | Undecodable

text \<open>What the generator raises: its own error, an \<open>OSError\<close>, or an error that it does not handle.\<close>

datatype evidence_failure = Failed string | SystemError string | Unhandled

record 'w evidence_tools =
  ev_run :: "string list \<Rightarrow> ('w place, fault, completed) io"
  ev_mkdir_fault :: "'w place \<Rightarrow> string option"
  ev_unlink_fault :: "string \<Rightarrow> 'w place \<Rightarrow> string option"
  ev_write_fault :: "string \<Rightarrow> content \<Rightarrow> 'w place \<Rightarrow> (string \<times> content option) option"
  ev_read_fault :: "string \<Rightarrow> 'w place \<Rightarrow> string option"
  ev_directory_text :: "string \<Rightarrow> string"
  ev_now :: "'w place \<Rightarrow> string"
  ev_sha256 :: "content \<Rightarrow> string"
  ev_parse_json :: "string \<Rightarrow> string + json"
  ev_float_text :: "rat \<Rightarrow> string"
  ev_resolve :: "string \<Rightarrow> string"
  ev_requirement :: "string \<Rightarrow> requirement option"
  ev_issue_text :: "issue \<Rightarrow> string"
  ev_playwright :: "'w place \<Rightarrow> (string \<times> (fault + string)) option"

record evidence_request =
  er_root :: string
  er_output :: string
  er_python :: string
  er_uv :: string
  er_scanner :: string
  er_files :: project_files
  er_implementation :: string
  er_version :: string
  er_platform :: string

type_synonym ('w, 'a) evidence_io = "('w place, evidence_failure, 'a) io"

definition put_output :: "string \<Rightarrow> content \<Rightarrow> 'w place \<Rightarrow> 'w place" where
  "put_output name c s = s\<lparr>pl_outputs := AList.update name (OutputFile c) (pl_outputs s)\<rparr>"

text \<open>\<open>unlink(missing_ok=True)\<close>, \<open>write_text\<close>, which may leave part of the text, and \<open>read_bytes\<close>.\<close>

definition unlink_output :: "'w evidence_tools \<Rightarrow> string \<Rightarrow> ('w, unit) evidence_io" where
  "unlink_output ts name s =
     (if map_of (pl_outputs s) name = Some OutputDirectory then (Inl (SystemError (ev_directory_text ts name)), s)
      else case ev_unlink_fault ts name s of
        Some e \<Rightarrow> (Inl (SystemError e), s)
      | None \<Rightarrow> (Inr (), s\<lparr>pl_outputs := AList.delete name (pl_outputs s)\<rparr>))"

definition write_output :: "'w evidence_tools \<Rightarrow> string \<Rightarrow> content \<Rightarrow> ('w, unit) evidence_io" where
  "write_output ts name c s =
     (if map_of (pl_outputs s) name = Some OutputDirectory then (Inl (SystemError (ev_directory_text ts name)), s)
      else case ev_write_fault ts name c s of
        Some (e, left) \<Rightarrow> (Inl (SystemError e), case left of None \<Rightarrow> s | Some part \<Rightarrow> put_output name part s)
      | None \<Rightarrow> (Inr (), put_output name c s))"

definition read_output :: "'w evidence_tools \<Rightarrow> string \<Rightarrow> ('w, content) evidence_io" where
  "read_output ts name s =
     (case ev_read_fault ts name s of
        Some e \<Rightarrow> (Inl (SystemError e), s)
      | None \<Rightarrow> (case map_of (pl_outputs s) name of
          Some (OutputFile c) \<Rightarrow> (Inr c, s)
        | _ \<Rightarrow> (Inl (SystemError (ev_directory_text ts name)), s)))"

definition write_json :: "'w evidence_tools \<Rightarrow> string \<Rightarrow> json \<Rightarrow> ('w, unit) evidence_io" where
  "write_json ts name j = write_output ts name (Document j)"

fun mapS :: "('a \<Rightarrow> ('s, 'e, 'b) io) \<Rightarrow> 'a list \<Rightarrow> ('s, 'e, 'b list) io" where
  "mapS f [] = liftE (Inr [])"
| "mapS f (x # xs) = bindS (f x) (\<lambda>y. bindS (mapS f xs) (\<lambda>ys. liftE (Inr (y # ys))))"

section \<open>The outputs\<close>

definition SETUP_OUTPUTS :: "string list" where
  "SETUP_OUTPUTS = [''bootstrap.log'', ''scanner-install.log'']"

definition LEGACY_OUTPUTS :: "string list" where
  "LEGACY_OUTPUTS = [''dependency-tree.txt'']"

definition GENERATED_OUTPUTS :: "string list" where
  "GENERATED_OUTPUTS =
     [''diagnostics.json'', ''metadata.json'', ''lock-export.txt'', ''lock-selection.json'', ''installed-packages.json'',
      ''dependency-tree.json'', ''playwright-browser-metadata.json'', ''pip-audit.json'', ''pip-audit.txt'', ''sbom.cdx.json'',
      ''scanner-status.json'', ''scanner.stderr.log'', ''parity.json'', ''completion.json'']"

definition SUCCESSFUL_OUTPUTS :: "string list" where
  "SUCCESSFUL_OUTPUTS = SETUP_OUTPUTS @ GENERATED_OUTPUTS"

definition COMPLETION :: string where
  "COMPLETION = ''completion.json''"

definition diagnostics_document :: "string \<Rightarrow> string \<Rightarrow> string \<Rightarrow> string option \<Rightarrow> json" where
  "diagnostics_document now status stage error = JObj
     ([(''schema_version'', JInt EVIDENCE_SCHEMA), (''updated_at'', JStr now), (''status'', JStr status), (''stage'', JStr stage)] @
      (case error of None \<Rightarrow> [] | Some e \<Rightarrow> [(''error'', JStr e)]))"

definition write_diagnostics ::
  "'w evidence_tools \<Rightarrow> string \<Rightarrow> string \<Rightarrow> string option \<Rightarrow> ('w, unit) evidence_io" where
  "write_diagnostics ts status stage error s =
     write_json ts ''diagnostics.json'' (diagnostics_document (ev_now ts s) status stage error) s"

text \<open>The file names in the directory, and the files that hold nothing.\<close>

definition present_files :: "'w place \<Rightarrow> string list" where
  "present_files s = map fst (filter (\<lambda>entry. snd entry \<noteq> OutputDirectory) (pl_outputs s))"

definition content_empty :: "content \<Rightarrow> bool" where
  "content_empty c \<longleftrightarrow> c = Text []"

definition validate_complete_outputs :: "'w evidence_tools \<Rightarrow> bool \<Rightarrow> ('w, unit) evidence_io" where
  "validate_complete_outputs ts include_completion s =
     (let expected = (if include_completion then SUCCESSFUL_OUTPUTS else remove1 COMPLETION SUCCESSFUL_OUTPUTS);
          present = present_files s;
          missing = sorted_keys (filter (\<lambda>n. n \<notin> set present) expected);
          unexpected = sorted_keys (filter (\<lambda>n. n \<notin> set expected) present);
          found = filter (\<lambda>n. n \<in> set present) expected
      in bindS (mapS (read_output ts) found) (\<lambda>contents.
         let empty = sorted_keys (map fst (filter (\<lambda>entry. content_empty (snd entry)) (zip found contents))) in
         if missing \<noteq> [] \<or> unexpected \<noteq> [] \<or> empty \<noteq> [] then
           liftE (Inl (Failed (''evidence allowlist is incomplete: missing='' @ repr_texts missing @ '', unexpected='' @
             repr_texts unexpected @ '', empty='' @ repr_texts empty)))
         else liftE (Inr ())) s)"

section \<open>The commands\<close>

definition evidence_of :: "string + 'a \<Rightarrow> evidence_failure + 'a" where
  "evidence_of r = (case r of Inl m \<Rightarrow> Inl (Failed m) | Inr x \<Rightarrow> Inr x)"

definition evidence_run :: "'w evidence_tools \<Rightarrow> string list \<Rightarrow> ('w, completed) evidence_io" where
  "evidence_run ts command s =
     (case ev_run ts command s of
        (Inl (Refused e), t) \<Rightarrow> (Inl (SystemError e), t)
      | (Inl Undecodable, t) \<Rightarrow> (Inl Unhandled, t)
      | (Inr res, t) \<Rightarrow> (Inr res, t))"

definition require_command :: "completed \<Rightarrow> string \<Rightarrow> evidence_failure + completed" where
  "require_command res message =
     (if returncode res \<noteq> 0 then
        let detail = (if strip (stderr res) \<noteq> [] then strip (stderr res)
                      else if strip (stdout res) \<noteq> [] then strip (stdout res)
                      else ''exit '' @ int_str (returncode res))
        in Inl (Failed (message @ '': '' @ redact_text detail))
      else Inr res)"

definition required_run :: "'w evidence_tools \<Rightarrow> string \<Rightarrow> string list \<Rightarrow> ('w, completed) evidence_io" where
  "required_run ts message command =
     bindS (evidence_run ts command) (\<lambda>res. liftE (require_command res message))"

definition load_contract :: "'w evidence_tools \<Rightarrow> project_files \<Rightarrow> evidence_failure + contract" where
  "load_contract ts files =
     (case validate_contract_files (pf_pyproject files) (pf_lock files) (pf_python_version files) of
        Inl e \<Rightarrow> Inl Unhandled
      | Inr (c, issues) \<Rightarrow>
          if c = None \<or> issues \<noteq> [] then
            Inl (Failed (if issues \<noteq> [] then join ''; '' (map (ev_issue_text ts) issues) else ''dependency contract is incomplete''))
          else Inr (the c))"

definition verify_runtime_and_tools ::
  "'w evidence_tools \<Rightarrow> evidence_request \<Rightarrow> contract \<Rightarrow> ('w, unit) evidence_io" where
  "verify_runtime_and_tools ts rq c =
     (if er_version rq \<noteq> python_pin c then
        liftE (Inl (Failed (''evidence requires Python '' @ python_pin c @ '', got '' @ er_version rq)))
      else
        bindS (required_run ts ''uv failed'' [er_uv rq, ''--version'']) (\<lambda>uv.
        if before_first '' ('' (strip (stdout uv)) \<noteq> ''uv '' @ uv_version c then
          liftE (Inl (Failed (''expected uv '' @ uv_version c @ '', got '' @ repr_text (strip (stdout uv)))))
        else
          bindS (required_run ts ''pip-audit failed'' [er_scanner rq, ''--version'']) (\<lambda>scanner.
          if strip (stdout scanner) \<noteq> ''pip-audit '' @ pip_audit_version c then
            liftE (Inl (Failed (''expected pip-audit '' @ pip_audit_version c @ '', got '' @ repr_text (strip (stdout scanner)))))
          else
            bindS (required_run ts ''uv.lock is stale or invalid'' (frozen_lock_check_command (er_uv rq) (er_python rq))) (\<lambda>_.
            bindS (required_run ts ''installed environment does not match the frozen lock'' (frozen_sync_check_command (er_uv rq))) (\<lambda>_.
            liftE (Inr ()))))))"

definition evidence_export_command :: "evidence_request \<Rightarrow> string list" where
  "evidence_export_command rq =
     [er_uv rq, ''export'', ''--frozen'', ''--all-groups'', ''--no-emit-project'', ''--no-annotate'', ''--no-header'', ''--format'',
      ''requirements.txt'', ''--python'', er_python rq, ''--no-managed-python'', ''--no-python-downloads'']"

definition evidence_tree_command :: "evidence_request \<Rightarrow> contract \<Rightarrow> string list" where
  "evidence_tree_command rq c =
     [er_uv rq, ''tree'', ''--frozen'', ''--all-groups'', ''--format'', ''json'', ''--preview-features'', ''json-output'',
      ''--python-version'', python_pin c, ''--no-python-downloads'']"

definition evidence_list_command :: "evidence_request \<Rightarrow> string list" where
  "evidence_list_command rq =
     [er_uv rq, ''pip'', ''list'', ''--format'', ''json'', ''--python'', er_python rq, ''--no-managed-python'', ''--no-python-downloads'']"

definition scanner_command :: "evidence_request \<Rightarrow> string \<Rightarrow> string list" where
  "scanner_command rq output_format =
     [er_scanner rq, ''--strict'', ''--progress-spinner'', ''off'', ''--vulnerability-service'', ''pypi'', ''--requirement'',
      join ''/'' [er_output rq, ''lock-export.txt''], ''--no-deps'', ''--disable-pip'', ''--format'', output_format]"

section \<open>The stages\<close>

definition in_stage :: "string \<Rightarrow> ('w, 'a) evidence_io \<Rightarrow> ('w place, string \<times> evidence_failure, 'a) io" where
  "in_stage stage m s = (case m s of (Inl f, t) \<Rightarrow> (Inl (stage, f), t) | (Inr x, t) \<Rightarrow> (Inr x, t))"

definition export_stage :: "'w evidence_tools \<Rightarrow> evidence_request \<Rightarrow> ('w, package_record list) evidence_io" where
  "export_stage ts rq =
     bindS (required_run ts ''could not export the frozen lock'' (evidence_export_command rq)) (\<lambda>export.
     bindS (liftE (evidence_of (parse_lock_export (ev_requirement ts) (stdout export)))) (\<lambda>packages.
     bindS (write_output ts ''lock-export.txt'' (Text (stdout export))) (\<lambda>_.
     bindS (write_json ts ''lock-selection.json'' (lock_selection_document packages)) (\<lambda>_.
     liftE (Inr packages)))))"

definition tree_stage :: "'w evidence_tools \<Rightarrow> evidence_request \<Rightarrow> contract \<Rightarrow> ('w, dependency_tree) evidence_io" where
  "tree_stage ts rq c =
     bindS (required_run ts ''could not generate the frozen dependency tree'' (evidence_tree_command rq c)) (\<lambda>res.
     bindS (liftE (evidence_of (parse_dependency_tree (ev_parse_json ts) (ev_float_text ts) (stdout res)))) (\<lambda>tree.
     bindS (write_json ts ''dependency-tree.json'' (tree_document tree)) (\<lambda>_.
     liftE (Inr tree))))"

definition installed_stage :: "'w evidence_tools \<Rightarrow> evidence_request \<Rightarrow> ('w, package_record list) evidence_io" where
  "installed_stage ts rq =
     bindS (required_run ts ''could not inventory the installed environment'' (evidence_list_command rq)) (\<lambda>res.
     bindS (liftE (evidence_of (parse_installed_inventory (ev_parse_json ts) (ev_resolve ts) (ev_resolve ts (er_root rq)) (stdout res))))
       (\<lambda>(project, packages).
     bindS (write_json ts ''installed-packages.json'' (installed_document project packages)) (\<lambda>_.
     liftE (Inr packages))))"

definition playwright_browser_metadata :: "'w evidence_tools \<Rightarrow> ('w, json) evidence_io" where
  "playwright_browser_metadata ts s =
     (case ev_playwright ts s of
        None \<Rightarrow> (Inl (Failed ''installed Playwright distribution is missing''), s)
      | Some (version, Inl (Refused e)) \<Rightarrow> (Inl (SystemError e), s)
      | Some (version, Inl Undecodable) \<Rightarrow> (Inl Unhandled, s)
      | Some (version, Inr raw) \<Rightarrow>
          (evidence_of (bindE (decode_json (ev_parse_json ts) raw ''Playwright browsers.json'') (browser_document version)), s))"

definition browser_stage :: "'w evidence_tools \<Rightarrow> ('w, unit) evidence_io" where
  "browser_stage ts =
     bindS (playwright_browser_metadata ts) (\<lambda>document. write_json ts ''playwright-browser-metadata.json'' document)"

definition scanner_status_document :: "completed \<Rightarrow> completed \<Rightarrow> json" where
  "scanner_status_document audit sbom = JObj
     [(''schema_version'', JInt EVIDENCE_SCHEMA), (''pip_audit_json_exit_code'', JInt (returncode audit)),
      (''cyclonedx_json_exit_code'', JInt (returncode sbom)), (''accepted_exit_codes'', JList [JInt 0, JInt 1])]"

definition scan_stage :: "'w evidence_tools \<Rightarrow> evidence_request \<Rightarrow> ('w, audit_report \<times> sbom_report) evidence_io" where
  "scan_stage ts rq =
     bindS (evidence_run ts (scanner_command rq ''json'')) (\<lambda>audit_result.
     bindS (evidence_run ts (scanner_command rq ''cyclonedx-json'')) (\<lambda>sbom_result.
     bindS (write_output ts ''scanner.stderr.log'' (Text (''[pip-audit-json]'' @ [LF] @ redact_text (stderr audit_result) @
       [LF] @ ''[cyclonedx-json]'' @ [LF] @ redact_text (stderr sbom_result)))) (\<lambda>_.
     bindS (write_json ts ''scanner-status.json'' (scanner_status_document audit_result sbom_result)) (\<lambda>_.
     bindS (liftE (evidence_of (parse_audit_report (ev_parse_json ts) (stdout audit_result) (returncode audit_result)))) (\<lambda>audit.
     bindS (liftE (evidence_of (parse_sbom_report (ev_parse_json ts) (stdout sbom_result) (returncode sbom_result)))) (\<lambda>sbom.
     if ar_vulnerabilities audit \<noteq> sr_vulnerabilities sbom then
       liftE (Inl (Failed (''pip-audit JSON and CycloneDX vulnerability counts disagree: '' @ nat_str (ar_vulnerabilities audit) @
         '' != '' @ nat_str (sr_vulnerabilities sbom))))
     else
       bindS (write_json ts ''pip-audit.json'' (JObj (ar_document audit))) (\<lambda>_.
       bindS (write_json ts ''sbom.cdx.json'' (JObj (sr_document sbom))) (\<lambda>_.
       bindS (liftE (evidence_of (human_findings (ev_float_text ts) (ar_document audit)))) (\<lambda>findings.
       bindS (write_output ts ''pip-audit.txt'' (Text findings)) (\<lambda>_.
       liftE (Inr (audit, sbom))))))))))))"

definition parity_comparisons ::
  "package_record list \<Rightarrow> dependency_tree \<Rightarrow> package_record list \<Rightarrow> audit_report \<Rightarrow> sbom_report \<Rightarrow> package_comparison list" where
  "parity_comparisons locked tree installed audit sbom =
     [compare_exact_packages locked (dt_packages tree) ''dependency tree'',
      compare_exact_packages locked installed ''installed'',
      compare_exact_packages locked (ar_packages audit) ''pip-audit'',
      compare_exact_packages locked (sr_packages sbom) ''CycloneDX SBOM'']"

definition parity_stage ::
  "'w evidence_tools \<Rightarrow> package_record list \<Rightarrow> package_comparison list \<Rightarrow> ('w, unit) evidence_io" where
  "parity_stage ts locked comparisons =
     bindS (write_json ts ''parity.json'' (parity_document locked comparisons)) (\<lambda>_.
     liftE (evidence_of (require_exact_comparisons comparisons)))"

definition metadata_document :: "string \<Rightarrow> evidence_request \<Rightarrow> contract \<Rightarrow> nat \<Rightarrow> json" where
  "metadata_document now rq c package_count = JObj
     [(''schema_version'', JInt EVIDENCE_SCHEMA), (''generated_at'', JStr now),
      (''python'', JObj [(''implementation'', JStr (er_implementation rq)), (''version'', JStr (er_version rq)),
         (''platform'', JStr (er_platform rq))]),
      (''tools'', JObj
         [(''uv'', JObj [(''version'', JStr (uv_version c)), (''environment'', JStr ''isolated bootstrap'')]),
          (''pip-audit'', JObj [(''version'', JStr (pip_audit_version c)), (''declared_version'', JStr (pip_audit_version c)),
             (''environment'', JStr ''isolated scanner'')])]),
      (''project_environment'', JStr ''.venv (frozen, all dependency groups)''),
      (''package_index'', JStr PYPI_INDEX), (''vulnerability_service'', JStr ''pypi''),
      (''selected_package_count'', JInt (int package_count)),
      (''inputs'', JObj
         [(''.python-version'', JStr (dg_pin (pf_digests (er_files rq)))),
          (''pyproject.toml'', JStr (dg_manifest (pf_digests (er_files rq)))),
          (''uv.lock'', JStr (dg_lock (pf_digests (er_files rq))))])]"

definition completion_document :: "string \<Rightarrow> nat \<Rightarrow> audit_report \<Rightarrow> (string \<times> string) list \<Rightarrow> json" where
  "completion_document now package_count audit outputs = JObj
     [(''schema_version'', JInt EVIDENCE_SCHEMA), (''status'', JStr ''complete''), (''generated_at'', JStr now),
      (''selected_package_count'', JInt (int package_count)),
      (''vulnerable_package_count'', JInt (int (ar_vulnerable_packages audit))),
      (''vulnerability_count'', JInt (int (ar_vulnerabilities audit))),
      (''findings_are_gating'', JBool False),
      (''outputs'', JObj (map (\<lambda>(name, digest). (name, JStr digest)) outputs))]"

definition digest_output :: "'w evidence_tools \<Rightarrow> string \<Rightarrow> ('w, string \<times> string) evidence_io" where
  "digest_output ts name = bindS (read_output ts name) (\<lambda>c. liftE (Inr (name, ev_sha256 ts c)))"

definition write_metadata ::
  "'w evidence_tools \<Rightarrow> evidence_request \<Rightarrow> contract \<Rightarrow> nat \<Rightarrow> ('w, unit) evidence_io" where
  "write_metadata ts rq c package_count s =
     write_json ts ''metadata.json'' (metadata_document (ev_now ts s) rq c package_count) s"

definition write_completion ::
  "'w evidence_tools \<Rightarrow> nat \<Rightarrow> audit_report \<Rightarrow> (string \<times> string) list \<Rightarrow> ('w, unit) evidence_io" where
  "write_completion ts package_count audit outputs s =
     write_json ts COMPLETION (completion_document (ev_now ts s) package_count audit outputs) s"

definition completion_stage ::
  "'w evidence_tools \<Rightarrow> evidence_request \<Rightarrow> contract \<Rightarrow> package_record list \<Rightarrow> audit_report \<Rightarrow> ('w, unit) evidence_io" where
  "completion_stage ts rq c locked audit =
     bindS (write_metadata ts rq c (length locked)) (\<lambda>_.
     bindS (write_diagnostics ts ''complete'' ''complete'' None) (\<lambda>_.
     bindS (validate_complete_outputs ts False) (\<lambda>_.
     bindS (mapS (digest_output ts) (remove1 COMPLETION SUCCESSFUL_OUTPUTS)) (\<lambda>outputs.
     bindS (write_completion ts (length locked) audit outputs) (\<lambda>_.
     validate_complete_outputs ts True)))))"

section \<open>The generator\<close>

definition evidence_body ::
  "'w evidence_tools \<Rightarrow> evidence_request \<Rightarrow> ('w place, string \<times> evidence_failure, unit) io" where
  "evidence_body ts rq =
     bindS (in_stage ''initialize'' (liftE (load_contract ts (er_files rq)))) (\<lambda>c.
     bindS (in_stage ''verify tools and frozen environment'' (verify_runtime_and_tools ts rq c)) (\<lambda>_.
     bindS (in_stage ''export selected lock graph'' (export_stage ts rq)) (\<lambda>locked.
     bindS (in_stage ''generate dependency tree'' (tree_stage ts rq c)) (\<lambda>tree.
     bindS (in_stage ''inventory installed environment'' (installed_stage ts rq)) (\<lambda>installed.
     bindS (in_stage ''derive Playwright browser metadata'' (browser_stage ts)) (\<lambda>_.
     bindS (in_stage ''scan selected dependency graph'' (scan_stage ts rq)) (\<lambda>(audit, sbom).
     bindS (in_stage ''enforce exact graph parity''
        (parity_stage ts locked (parity_comparisons locked tree installed audit sbom))) (\<lambda>_.
     in_stage ''write metadata and completion'' (completion_stage ts rq c locked audit)))))))))"

text \<open>The failures that the handler catches, with the text of the exception.\<close>

definition handled_text :: "evidence_failure \<Rightarrow> string option" where
  "handled_text f = (case f of Failed m \<Rightarrow> Some m | SystemError e \<Rightarrow> Some e | Unhandled \<Rightarrow> None)"

definition take_back :: "'w evidence_tools \<Rightarrow> string \<Rightarrow> string \<Rightarrow> ('w, unit) evidence_io" where
  "take_back ts stage message =
     bindS (unlink_output ts COMPLETION) (\<lambda>_.
     bindS (write_diagnostics ts ''failed'' stage (Some message)) (\<lambda>_.
     liftE (Inl (Failed message))))"

definition handled_body :: "'w evidence_tools \<Rightarrow> evidence_request \<Rightarrow> ('w, unit) evidence_io" where
  "handled_body ts rq s =
     (case evidence_body ts rq s of
        (Inr u, t) \<Rightarrow> (Inr (), t)
      | (Inl (stage, f), t) \<Rightarrow>
          (case handled_text f of
             None \<Rightarrow> (Inl f, t)
           | Some e \<Rightarrow> take_back ts stage (redact_text e) t))"

definition make_output_directory :: "'w evidence_tools \<Rightarrow> ('w, unit) evidence_io" where
  "make_output_directory ts s =
     (case ev_mkdir_fault ts s of Some e \<Rightarrow> (Inl (SystemError e), s) | None \<Rightarrow> (Inr (), s))"

definition generate_dependency_evidence :: "'w evidence_tools \<Rightarrow> evidence_request \<Rightarrow> ('w, unit) evidence_io" where
  "generate_dependency_evidence ts rq =
     bindS (make_output_directory ts) (\<lambda>_.
     bindS (mapS (unlink_output ts) (GENERATED_OUTPUTS @ LEGACY_OUTPUTS)) (\<lambda>_.
     bindS (write_diagnostics ts ''running'' ''initialize'' None) (\<lambda>_.
     handled_body ts rq)))"

definition write_failure_diagnostics :: "'w evidence_tools \<Rightarrow> string \<Rightarrow> string \<Rightarrow> ('w, unit) evidence_io" where
  "write_failure_diagnostics ts stage error =
     bindS (make_output_directory ts) (\<lambda>_. write_diagnostics ts ''failed'' stage (Some (redact_text error)))"

section \<open>What the stages return\<close>

lemma evidence_of_ok [ok_iff]: "evidence_of r = Inr x \<longleftrightarrow> r = Inr x"
  by (auto simp: evidence_of_def split: sum.splits)

lemma in_stage_ok [ok_iff]: "in_stage stage m s = (Inr x, t) \<longleftrightarrow> m s = (Inr x, t)"
  by (auto simp: in_stage_def split: prod.splits sum.splits)

lemma require_command_ok [ok_iff]: "require_command res message = Inr x \<longleftrightarrow> x = res \<and> returncode res = 0"
  by (auto simp: require_command_def Let_def)

lemma mapS_rule:
  assumes "mapS f xs s = (Inr ys, t)" and "\<And>x y u v. f x u = (Inr y, v) \<Longrightarrow> v = u \<and> P u x y"
  shows "t = s \<and> list_all2 (P s) xs ys"
  using assms(1)
proof (induction xs arbitrary: ys)
  case Nil
  then show ?case by (simp add: ok_iff)
next
  case (Cons x xs)
  then obtain y u zs where fx: "f x s = (Inr y, u)" and rest: "mapS f xs u = (Inr zs, t)" and ys: "ys = y # zs"
    by (auto simp: ok_iff)
  from assms(2) [OF fx] rest Cons.IH show ?case by (auto simp: ys)
qed

lemma if_Inl_liftE_ok [ok_iff]: "(if b then liftE (Inl e) else m) s = (Inr x, t) \<longleftrightarrow> \<not> b \<and> m s = (Inr x, t)"
  by (simp add: liftE_def)

lemma write_output_ok: "write_output ts name c s = (Inr u, t) \<Longrightarrow> t = put_output name c s"
  by (auto simp: write_output_def split: if_splits option.splits prod.splits)

lemma read_output_ok:
  "read_output ts name s = (Inr c, t) \<Longrightarrow> t = s \<and> map_of (pl_outputs s) name = Some (OutputFile c)"
  by (auto simp: read_output_def split: option.splits output_node.splits)

lemma digest_output_ok:
  "digest_output ts name s = (Inr d, t) \<Longrightarrow>
   t = s \<and> fst d = name \<and> (\<exists>c. map_of (pl_outputs s) name = Some (OutputFile c) \<and> snd d = ev_sha256 ts c)"
  by (auto simp: digest_output_def ok_iff dest!: read_output_ok)

text \<open>The directory holds exactly the expected files, none of them empty.\<close>

definition holds_exactly :: "string list \<Rightarrow> 'w place \<Rightarrow> bool" where
  "holds_exactly names s \<longleftrightarrow> set (present_files s) = set names \<and>
     (\<forall>n \<in> set names. \<exists>c. map_of (pl_outputs s) n = Some (OutputFile c) \<and> \<not> content_empty c)"

lemma keys_filter_Nil: "sorted_keys (filter P xs) = [] \<longleftrightarrow> (\<forall>x \<in> set xs. \<not> P x)"
  by (simp add: filter_empty_conv)

lemma validate_complete_ok:
  assumes "validate_complete_outputs ts b s = (Inr u, t)"
  shows "t = s \<and> holds_exactly (if b then SUCCESSFUL_OUTPUTS else remove1 COMPLETION SUCCESSFUL_OUTPUTS) s"
proof -
  define expected where "expected = (if b then SUCCESSFUL_OUTPUTS else remove1 COMPLETION SUCCESSFUL_OUTPUTS)"
  let ?found = "filter (\<lambda>n. n \<in> set (present_files s)) expected"
  obtain contents where contents: "mapS (read_output ts) ?found s = (Inr contents, t)"
    and missing: "sorted_keys (filter (\<lambda>n. n \<notin> set (present_files s)) expected) = []"
    and unexpected: "sorted_keys (filter (\<lambda>n. n \<notin> set expected) (present_files s)) = []"
    and empty: "sorted_keys (map fst (filter (\<lambda>entry. content_empty (snd entry)) (zip ?found contents))) = []"
    using assms unfolding validate_complete_outputs_def expected_def [symmetric] Let_def
    by (auto simp: ok_iff simp del: sorted_keys_Nil_iff split: if_splits)
  have read: "t = s \<and> list_all2 (\<lambda>n c. map_of (pl_outputs s) n = Some (OutputFile c)) ?found contents"
    by (rule mapS_rule [OF contents, where P = "\<lambda>u n c. map_of (pl_outputs u) n = Some (OutputFile c)"])
      (rule read_output_ok)
  have same: "set (present_files s) = set expected" using missing unexpected unfolding keys_filter_Nil by blast
  then have found: "?found = expected" by (simp add: filter_id_conv)
  have read': "list_all2 (\<lambda>n c. map_of (pl_outputs s) n = Some (OutputFile c)) expected contents"
    using read unfolding found by blast
  have "\<exists>c. map_of (pl_outputs s) n = Some (OutputFile c) \<and> \<not> content_empty c" if n: "n \<in> set expected" for n
  proof -
    obtain i where i: "i < length expected" "expected ! i = n" using n by (metis in_set_conv_nth)
    have len: "length contents = length expected" using list_all2_lengthD [OF read'] by simp
    have "map_of (pl_outputs s) n = Some (OutputFile (contents ! i))"
      using list_all2_nthD [OF read' i(1)] i(2) by simp
    moreover have "zip expected contents ! i = (n, contents ! i)" "i < length (zip expected contents)" using i len by simp_all
    then have "(n, contents ! i) \<in> set (zip expected contents)" by (metis nth_mem)
    moreover have "filter (\<lambda>entry. content_empty (snd entry)) (zip expected contents) = []"
      using empty unfolding found by simp
    then have "\<forall>e \<in> set (zip expected contents). \<not> content_empty (snd e)" unfolding filter_empty_conv .
    ultimately show ?thesis by (metis snd_conv)
  qed
  with same read show ?thesis unfolding holds_exactly_def expected_def by blast
qed

lemma evidence_body_ok:
  assumes "evidence_body ts rq s = (Inr u, t)"
  shows "\<exists>c locked tree installed audit sbom s1 s2 s3 s4 s5 s6 s7.
    load_contract ts (er_files rq) = Inr c \<and> verify_runtime_and_tools ts rq c s = (Inr (), s1) \<and>
    export_stage ts rq s1 = (Inr locked, s2) \<and> tree_stage ts rq c s2 = (Inr tree, s3) \<and>
    installed_stage ts rq s3 = (Inr installed, s4) \<and> browser_stage ts s4 = (Inr (), s5) \<and>
    scan_stage ts rq s5 = (Inr (audit, sbom), s6) \<and>
    parity_stage ts locked (parity_comparisons locked tree installed audit sbom) s6 = (Inr (), s7) \<and>
    completion_stage ts rq c locked audit s7 = (Inr (), t)"
  using assms unfolding evidence_body_def by (simp add: bindS_ok in_stage_ok liftE_ok split_def) blast

lemma export_stage_ok:
  "export_stage ts rq s = (Inr locked, t) \<Longrightarrow> \<exists>export. parse_lock_export (ev_requirement ts) export = Inr locked"
  by (auto simp: export_stage_def ok_iff)

lemma tree_stage_ok:
  "tree_stage ts rq c s = (Inr tree, t) \<Longrightarrow>
   \<exists>raw. parse_dependency_tree (ev_parse_json ts) (ev_float_text ts) raw = Inr tree"
  by (auto simp: tree_stage_def ok_iff)

lemma installed_stage_ok:
  "installed_stage ts rq s = (Inr installed, t) \<Longrightarrow>
   \<exists>raw project. parse_installed_inventory (ev_parse_json ts) (ev_resolve ts) (ev_resolve ts (er_root rq)) raw = Inr (project, installed)"
  by (auto simp: installed_stage_def ok_iff split_def)

lemma scan_stage_ok:
  "scan_stage ts rq s = (Inr (audit, sbom), t) \<Longrightarrow>
   \<exists>(audit_result :: completed) (sbom_result :: completed). parse_audit_report (ev_parse_json ts) (stdout audit_result) (returncode audit_result) = Inr audit \<and>
     parse_sbom_report (ev_parse_json ts) (stdout sbom_result) (returncode sbom_result) = Inr sbom \<and>
     ar_vulnerabilities audit = sr_vulnerabilities sbom"
  unfolding scan_stage_def bindS_ok liftE_ok evidence_of_ok by (auto simp: ok_iff split: if_splits intro!: exI)

lemma lock_export_packages: "parse_lock_export parse raw = Inr locked \<Longrightarrow> package_set locked"
  by (auto simp: parse_lock_export_def ok_iff simp del: mapE_ok dest: normalize_package_set)

lemma installed_packages:
  "parse_installed_inventory parse resolve root_dir raw = Inr (project, installed) \<Longrightarrow> package_set installed"
  by (auto simp: parse_installed_inventory_def ok_iff split_def dest: normalize_package_set)

lemma audit_packages: "parse_audit_report parse raw code = Inr audit \<Longrightarrow> package_set (ar_packages audit)"
  by (auto simp: parse_audit_report_def ok_iff Let_def simp del: mapE_ok dest!: normalize_package_set)

lemma sbom_packages: "parse_sbom_report parse raw code = Inr sbom \<Longrightarrow> package_set (sr_packages sbom)"
  by (auto simp: parse_sbom_report_def ok_iff simp del: mapE_ok dest!: normalize_package_set split: if_splits)

lemma tree_packages: "parse_dependency_tree parse float_text raw = Inr tree \<Longrightarrow> package_set (dt_packages tree)"
  using parse_dependency_tree_ok normalize_package_set by blast

lemma parity_stage_ok:
  assumes "parity_stage ts locked (parity_comparisons locked tree installed audit sbom) s = (Inr u, t)"
    and "package_set locked" "package_set (dt_packages tree)" "package_set installed" "package_set (ar_packages audit)"
      "package_set (sr_packages sbom)"
  shows "dt_packages tree = locked \<and> installed = locked \<and> ar_packages audit = locked \<and> sr_packages sbom = locked"
  using assms by (auto simp: parity_stage_def parity_comparisons_def ok_iff exact_same_packages)

lemma load_contract_ok [ok_iff]:
  "load_contract ts files = Inr c \<longleftrightarrow>
     validate_contract_files (pf_pyproject files) (pf_lock files) (pf_python_version files) = Inr (Some c, [])"
  by (auto simp: load_contract_def split: sum.splits if_splits)

section \<open>A complete set of evidence\<close>

lemma take_back_never_returns: "take_back ts stage message s \<noteq> (Inr u, t)"
  by (simp add: take_back_def ok_iff)

lemma handled_body_ok [ok_iff]: "handled_body ts rq s = (Inr u, t) \<longleftrightarrow> evidence_body ts rq s = (Inr (), t)"
proof (cases "evidence_body ts rq s")
  case (Pair r v)
  then show ?thesis
    by (cases r) (auto simp: handled_body_def take_back_never_returns split: option.splits)
qed

lemma generate_ok:
  "generate_dependency_evidence ts rq s = (Inr u, t) \<Longrightarrow> \<exists>v. evidence_body ts rq v = (Inr (), t)"
  by (auto simp: generate_dependency_evidence_def ok_iff)

text \<open>
  A set of evidence is only complete when its sources agree: the contract holds without issue and the interpreter is
  the pinned one; the dependency tree, the installed environment, the audit and the bill of materials name exactly the
  packages of the selected lock, in the same versions; and the two scans count the same vulnerabilities.
\<close>

theorem complete_evidence_agrees_with_the_lock:
  assumes "generate_dependency_evidence ts rq s = (Inr u, t)"
  shows "\<exists>c locked tree project audit sbom export graph listing (audit_result :: completed) (sbom_result :: completed).
    validate_contract_files (pf_pyproject (er_files rq)) (pf_lock (er_files rq)) (pf_python_version (er_files rq)) = Inr (Some c, []) \<and>
    er_version rq = python_pin c \<and>
    parse_lock_export (ev_requirement ts) export = Inr locked \<and>
    parse_dependency_tree (ev_parse_json ts) (ev_float_text ts) graph = Inr tree \<and> dt_packages tree = locked \<and>
    parse_installed_inventory (ev_parse_json ts) (ev_resolve ts) (ev_resolve ts (er_root rq)) listing = Inr (project, locked) \<and>
    parse_audit_report (ev_parse_json ts) (stdout audit_result) (returncode audit_result) = Inr audit \<and> ar_packages audit = locked \<and>
    parse_sbom_report (ev_parse_json ts) (stdout sbom_result) (returncode sbom_result) = Inr sbom \<and> sr_packages sbom = locked \<and>
    ar_vulnerabilities audit = sr_vulnerabilities sbom"
proof -
  obtain v where "evidence_body ts rq v = (Inr (), t)" using generate_ok [OF assms] by blast
  from evidence_body_ok [OF this] obtain c locked tree installed audit sbom s1 s2 s3 s4 s5 s6 s7 where
    c: "load_contract ts (er_files rq) = Inr c" and runtime: "verify_runtime_and_tools ts rq c v = (Inr (), s1)" and
    lock: "export_stage ts rq s1 = (Inr locked, s2)" and tree: "tree_stage ts rq c s2 = (Inr tree, s3)" and
    inst: "installed_stage ts rq s3 = (Inr installed, s4)" and scan: "scan_stage ts rq s5 = (Inr (audit, sbom), s6)" and
    parity: "parity_stage ts locked (parity_comparisons locked tree installed audit sbom) s6 = (Inr (), s7)"
    by blast
  obtain export graph listing project where
    export: "parse_lock_export (ev_requirement ts) export = Inr locked" and
    graph: "parse_dependency_tree (ev_parse_json ts) (ev_float_text ts) graph = Inr tree" and
    listing: "parse_installed_inventory (ev_parse_json ts) (ev_resolve ts) (ev_resolve ts (er_root rq)) listing = Inr (project, installed)"
    using export_stage_ok [OF lock] tree_stage_ok [OF tree] installed_stage_ok [OF inst] by blast
  obtain audit_result sbom_result :: completed where
    audit: "parse_audit_report (ev_parse_json ts) (stdout audit_result) (returncode audit_result) = Inr audit" and
    sbom: "parse_sbom_report (ev_parse_json ts) (stdout sbom_result) (returncode sbom_result) = Inr sbom" and
    counts: "ar_vulnerabilities audit = sr_vulnerabilities sbom"
    using scan_stage_ok [OF scan] by blast
  have same: "dt_packages tree = locked" "installed = locked" "ar_packages audit = locked" "sr_packages sbom = locked"
    using parity_stage_ok [OF parity lock_export_packages [OF export] tree_packages [OF graph] installed_packages [OF listing]
        audit_packages [OF audit] sbom_packages [OF sbom]] by blast+
  have "er_version rq = python_pin c"
    using runtime by (auto simp: verify_runtime_and_tools_def ok_iff split: if_splits)
  then show ?thesis
    using c [unfolded load_contract_ok] export graph same(1) listing [unfolded same(2)] audit same(3) sbom same(4) counts by blast
qed

lemma put_output_lookup: "map_of (pl_outputs (put_output name c s)) = (map_of (pl_outputs s))(name \<mapsto> OutputFile c)"
  by (simp add: put_output_def dict_simps)

definition sealed :: "'w evidence_tools \<Rightarrow> 'w place \<Rightarrow> string \<Rightarrow> string \<times> string \<Rightarrow> bool" where
  "sealed ts s name d \<longleftrightarrow> fst d = name \<and> (\<exists>c. map_of (pl_outputs s) name = Some (OutputFile c) \<and> snd d = ev_sha256 ts c)"

lemma completion_stage_ok:
  assumes "completion_stage ts rq c locked audit s = (Inr u, t)"
  shows "holds_exactly SUCCESSFUL_OUTPUTS t \<and>
    (\<exists>now digests. map_of (pl_outputs t) COMPLETION =
        Some (OutputFile (Document (completion_document now (length locked) audit digests))) \<and>
      list_all2 (sealed ts t) (remove1 COMPLETION SUCCESSFUL_OUTPUTS) digests)"
proof -
  obtain s1 s2 s3 digests s4 s5 where
    digests: "mapS (digest_output ts) (remove1 COMPLETION SUCCESSFUL_OUTPUTS) s3 = (Inr digests, s4)" and
    written: "write_completion ts (length locked) audit digests s4 = (Inr (), s5)" and
    valid: "validate_complete_outputs ts True s5 = (Inr (), t)"
    using assms unfolding completion_stage_def by (simp add: bindS_ok) blast
  let ?doc = "completion_document (ev_now ts s4) (length locked) audit digests"
  have t: "t = put_output COMPLETION (Document ?doc) s4" "holds_exactly SUCCESSFUL_OUTPUTS t"
    using write_output_ok [OF written [unfolded write_completion_def write_json_def]] validate_complete_ok [OF valid] by simp_all
  have sealed: "s4 = s3 \<and> list_all2 (sealed ts s3) (remove1 COMPLETION SUCCESSFUL_OUTPUTS) digests"
    by (rule mapS_rule [OF digests]) (use digest_output_ok in \<open>fastforce simp: sealed_def\<close>)
  have kept: "sealed ts t name d" if "sealed ts s3 name d" "name \<noteq> COMPLETION" for name d
    using that sealed by (simp add: sealed_def t put_output_lookup)
  have "COMPLETION \<notin> set (remove1 COMPLETION SUCCESSFUL_OUTPUTS)" by code_simp
  then have "list_all2 (sealed ts t) (remove1 COMPLETION SUCCESSFUL_OUTPUTS) digests"
    by (intro list.rel_mono_strong [OF sealed [THEN conjunct2]]) (metis kept)
  moreover have "map_of (pl_outputs t) COMPLETION = Some (OutputFile (Document ?doc))" by (simp add: t put_output_lookup)
  ultimately show ?thesis using t(2) by blast
qed

lemma generate_completed:
  assumes "generate_dependency_evidence ts rq s = (Inr u, t)"
  obtains c locked audit v where "completion_stage ts rq c locked audit v = (Inr (), t)"
proof -
  obtain v where "evidence_body ts rq v = (Inr (), t)" using generate_ok [OF assms] by blast
  from evidence_body_ok [OF this] show thesis using that by blast
qed

text \<open>
  C8. The completion record seals the directory: when the generator returns, the directory holds exactly the successful
  outputs, none of them empty, and the record lists for each other output the digest of what is in it.
\<close>

theorem completion_record_seals_the_outputs:
  assumes "generate_dependency_evidence ts rq s = (Inr u, t)"
  shows "holds_exactly SUCCESSFUL_OUTPUTS t \<and>
    (\<exists>now package_count audit digests. map_of (pl_outputs t) COMPLETION =
        Some (OutputFile (Document (completion_document now package_count audit digests))) \<and>
      list_all2 (sealed ts t) (remove1 COMPLETION SUCCESSFUL_OUTPUTS) digests)"
proof -
  obtain c locked audit v where "completion_stage ts rq c locked audit v = (Inr (), t)"
    by (rule generate_completed [OF assms])
  from completion_stage_ok [OF this] show ?thesis by blast
qed

lemma make_output_directory_error: "make_output_directory ts s = (Inl (Failed m), t) \<Longrightarrow> False"
  by (auto simp: make_output_directory_def split: option.splits)

lemma unlink_output_error: "unlink_output ts name s = (Inl (Failed m), t) \<Longrightarrow> False"
  by (auto simp: unlink_output_def split: option.splits if_splits)

lemma unlink_outputs_error: "mapS (unlink_output ts) names s = (Inl (Failed m), t) \<Longrightarrow> False"
  by (induction names arbitrary: s) (auto simp: bindS_err liftE_def dest: unlink_output_error)

lemma write_output_error: "write_output ts name c s = (Inl (Failed m), t) \<Longrightarrow> False"
  by (auto simp: write_output_def split: option.splits if_splits prod.splits)

lemma take_back_error:
  assumes "take_back ts stage message s = (Inl (Failed m), t)"
  shows "m = message \<and> map_of (pl_outputs t) COMPLETION = None \<and>
    (\<exists>now. map_of (pl_outputs t) ''diagnostics.json'' =
       Some (OutputFile (Document (diagnostics_document now ''failed'' stage (Some m)))))"
proof -
  obtain u v where u: "unlink_output ts COMPLETION s = (Inr (), u)" and m: "m = message" and
    t: "write_diagnostics ts ''failed'' stage (Some message) u = (Inr (), t)"
    using assms
    by (auto simp: take_back_def bindS_err liftE_def write_diagnostics_def write_json_def
        dest: unlink_output_error write_output_error)
  have "map_of (pl_outputs u) COMPLETION = None"
    using u by (auto simp: unlink_output_def delete_conv split: if_splits option.splits)
  moreover have "COMPLETION \<noteq> ''diagnostics.json''" by code_simp
  ultimately show ?thesis
    using write_output_ok [OF t [unfolded write_diagnostics_def write_json_def]] m by (auto simp: put_output_lookup)
qed

lemma generate_failed:
  assumes "generate_dependency_evidence ts rq s = (Inl (Failed m), t)"
  obtains stage e u where "take_back ts stage (redact_text e) u = (Inl (Failed m), t)"
proof -
  obtain v where "handled_body ts rq v = (Inl (Failed m), t)"
    using assms
    by (auto simp: generate_dependency_evidence_def bindS_err write_diagnostics_def write_json_def
        dest: make_output_directory_error unlink_outputs_error write_output_error)
  then show thesis
    using that by (auto simp: handled_body_def handled_text_def split: prod.splits sum.splits option.splits evidence_failure.splits)
qed


section \<open>When the evidence is complete\<close>

text \<open>
  A directory of non-empty files with the given names, and operations that return a value with a property from every such
  directory and leave one: the rules follow the program.
\<close>

definition clean :: "string set \<Rightarrow> 'w place \<Rightarrow> bool" where
  "clean names s \<longleftrightarrow> distinct (map fst (pl_outputs s)) \<and> fst ` set (pl_outputs s) = names \<and>
     (\<forall>n. \<forall>x. map_of (pl_outputs s) n = Some x \<longrightarrow> (\<exists>c. x = OutputFile c \<and> \<not> content_empty c))"

definition total :: "string set \<Rightarrow> ('w place, 'e, 'a) io \<Rightarrow> ('a \<Rightarrow> bool) \<Rightarrow> string set \<Rightarrow> bool" where
  "total names m P names' \<longleftrightarrow> (\<forall>s. clean names s \<longrightarrow> (\<exists>v t. m s = (Inr v, t) \<and> P v \<and> clean names' t))"

definition faultless :: "'w evidence_tools \<Rightarrow> bool" where
  "faultless ts \<longleftrightarrow> (\<forall>s. ev_mkdir_fault ts s = None) \<and> (\<forall>n s. ev_unlink_fault ts n s = None) \<and>
     (\<forall>n c s. ev_write_fault ts n c s = None) \<and> (\<forall>n s. ev_read_fault ts n s = None)"

definition answers :: "'w evidence_tools \<Rightarrow> (string list \<Rightarrow> completed) \<Rightarrow> bool" where
  "answers ts out \<longleftrightarrow> (\<forall>command s. fst (ev_run ts command s) = Inr (out command) \<and>
     pl_outputs (snd (ev_run ts command s)) = pl_outputs s)"

named_theorems total_rules \<open>operations that return\<close>

lemma total_bind [total_rules]:
  "total names m P K \<Longrightarrow> (\<And>v. P v \<Longrightarrow> total K (f v) Q names') \<Longrightarrow> total names (bindS m f) Q names'"
proof -
  assume m: "total names m P K" and f: "\<And>v. P v \<Longrightarrow> total K (f v) Q names'"
  have "\<exists>w t. bindS m f s = (Inr w, t) \<and> Q w \<and> clean names' t" if s: "clean names s" for s
  proof -
    obtain v u where v: "m s = (Inr v, u)" "P v" "clean K u" using m s unfolding total_def by blast
    obtain w t where "f v u = (Inr w, t)" "Q w" "clean names' t" using f [OF v(2)] v(3) unfolding total_def by blast
    with v(1) show ?thesis by (auto simp: bindS_def)
  qed
  then show ?thesis unfolding total_def by blast
qed

lemma total_return [total_rules]: "P v \<Longrightarrow> total names (liftE (Inr v)) P names"
  by (simp add: total_def liftE_def)

lemma clean_lookup: "clean names s \<Longrightarrow> n \<in> names \<longleftrightarrow> (\<exists>c. map_of (pl_outputs s) n = Some (OutputFile c) \<and> \<not> content_empty c)"
proof -
  assume s: "clean names s"
  then have "n \<in> names \<longleftrightarrow> map_of (pl_outputs s) n \<noteq> None"
    unfolding clean_def by (metis map_of_None_keys list.set_map)
  also have "\<dots> \<longleftrightarrow> (\<exists>c. map_of (pl_outputs s) n = Some (OutputFile c) \<and> \<not> content_empty c)"
  proof (cases "map_of (pl_outputs s) n")
    case (Some x)
    then obtain c where "x = OutputFile c" "\<not> content_empty c" using s unfolding clean_def by blast
    with Some show ?thesis by simp
  qed simp
  finally show ?thesis .
qed

lemma clean_no_directory: "clean names s \<Longrightarrow> map_of (pl_outputs s) n \<noteq> Some OutputDirectory"
  unfolding clean_def by blast

lemma clean_same: "pl_outputs t = pl_outputs s \<Longrightarrow> clean names s \<Longrightarrow> clean names t"
  by (simp add: clean_def)

lemma clean_put: "clean names s \<Longrightarrow> \<not> content_empty c \<Longrightarrow> clean (insert n names) (put_output n c s)"
proof -
  assume s: "clean names s" and c: "\<not> content_empty c"
  have "\<exists>d. x = OutputFile d \<and> \<not> content_empty d" if "map_of (pl_outputs (put_output n c s)) m = Some x" for m x
  proof (cases "m = n")
    case True
    then show ?thesis using that c by (auto simp: put_output_lookup)
  next
    case False
    then have "map_of (pl_outputs s) m = Some x" using that by (simp add: put_output_lookup)
    then show ?thesis using s unfolding clean_def by blast
  qed
  moreover have "distinct (map fst (pl_outputs (put_output n c s)))" "fst ` set (pl_outputs (put_output n c s)) = insert n names"
    using s by (simp_all add: clean_def put_output_def distinct_update update_keys)
  ultimately show ?thesis unfolding clean_def by blast
qed

lemma total_write [total_rules]:
  "faultless ts \<Longrightarrow> \<not> content_empty c \<Longrightarrow> total names (write_output ts n c) (\<lambda>_. True) (insert n names)"
  by (auto simp: total_def write_output_def faultless_def clean_no_directory clean_put)

lemma total_write_json [total_rules]:
  "faultless ts \<Longrightarrow> total names (write_json ts n j) (\<lambda>_. True) (insert n names)"
  unfolding write_json_def by (rule total_write) (simp_all add: content_empty_def)

text \<open>A step whose document depends on the clock.\<close>

lemma total_at: "(\<And>s. total names (m s) P names') \<Longrightarrow> total names (\<lambda>s. m s s) P names'"
  by (simp add: total_def)

lemma total_diagnostics [total_rules]:
  "faultless ts \<Longrightarrow> total names (write_diagnostics ts status stage e) (\<lambda>_. True) (insert ''diagnostics.json'' names)"
  unfolding write_diagnostics_def [abs_def] by (rule total_at) (rule total_write_json)

lemma total_metadata [total_rules]:
  "faultless ts \<Longrightarrow> total names (write_metadata ts rq c k) (\<lambda>_. True) (insert ''metadata.json'' names)"
  unfolding write_metadata_def [abs_def] by (rule total_at) (rule total_write_json)

lemma total_completion [total_rules]:
  "faultless ts \<Longrightarrow> total names (write_completion ts k audit ds) (\<lambda>_. True) (insert COMPLETION names)"
  unfolding write_completion_def [abs_def] by (rule total_at) (rule total_write_json)

lemma total_run [total_rules]: "answers ts out \<Longrightarrow> total names (evidence_run ts command) (\<lambda>res. res = out command) names"
proof -
  assume a: "answers ts out"
  have "\<exists>t. evidence_run ts command s = (Inr (out command), t) \<and> pl_outputs t = pl_outputs s" for s
    using a by (cases "ev_run ts command s") (auto simp: answers_def evidence_run_def dest!: spec [of _ command] spec [of _ s])
  then show ?thesis unfolding total_def using clean_same by metis
qed

lemma total_required [total_rules]:
  assumes "answers ts out" and "returncode (out command) = 0"
  shows "total names (required_run ts message command) (\<lambda>res. res = out command) names"
  unfolding required_run_def
  by (rule total_bind [OF total_run [OF assms(1)]]) (use assms(2) in \<open>simp add: require_command_def total_return\<close>)

lemma total_parse [total_rules]:
  "r = Inr v \<Longrightarrow> total names (liftE (evidence_of r)) (\<lambda>x. x = v) names"
  by (simp add: evidence_of_def total_return)

lemma clean_delete:
  "clean names s \<Longrightarrow> clean (names - {n}) (s\<lparr>pl_outputs := AList.delete n (pl_outputs s)\<rparr>)"
proof -
  assume s: "clean names s"
  let ?d = "AList.delete n (pl_outputs s)"
  have keys: "map fst ?d = removeAll n (map fst (pl_outputs s))" by (rule delete_keys)
  have "fst ` set ?d = names - {n}"
    using s unfolding clean_def list.set_map [symmetric] keys by simp
  moreover have "distinct (map fst ?d)" using s unfolding clean_def keys by (simp add: distinct_removeAll)
  ultimately have names: "fst ` set ?d = names - {n}" "distinct (map fst ?d)" by blast+
  show ?thesis unfolding clean_def
  proof (intro conjI allI impI)
    fix m x
    assume "map_of (pl_outputs (s\<lparr>pl_outputs := ?d\<rparr>)) m = Some x"
    then have "map_of (pl_outputs s) m = Some x" by (simp add: delete_conv split: if_splits)
    then show "\<exists>c. x = OutputFile c \<and> \<not> content_empty c" using s unfolding clean_def by blast
  qed (use names in simp_all)
qed

lemma total_unlink [total_rules]:
  "faultless ts \<Longrightarrow> total names (unlink_output ts n) (\<lambda>_. True) (names - {n})"
  by (auto simp: total_def unlink_output_def faultless_def clean_no_directory clean_delete)

lemma total_unlinks: "faultless ts \<Longrightarrow> total names (mapS (unlink_output ts) ns) (\<lambda>_. True) (names - set ns)"
proof (induction ns arbitrary: names)
  case Nil
  then show ?case by (simp add: total_return)
next
  case (Cons n ns)
  have "names - set (n # ns) = names - {n} - set ns" by auto
  moreover have "total names (mapS (unlink_output ts) (n # ns)) (\<lambda>_. True) (names - {n} - set ns)"
    unfolding mapS.simps
    by (rule total_bind [OF total_unlink [OF Cons.prems]], rule total_bind [OF Cons.IH [OF Cons.prems]], rule total_return) simp
  ultimately show ?case by simp
qed

lemma total_read: "faultless ts \<Longrightarrow> n \<in> names \<Longrightarrow> total names (read_output ts n) (\<lambda>c. \<not> content_empty c) names"
  by (auto simp: total_def read_output_def faultless_def clean_lookup)

lemma total_mapS:
  "(\<And>x. x \<in> set xs \<Longrightarrow> total names (f x) P names) \<Longrightarrow>
   total names (mapS f xs) (\<lambda>ys. length ys = length xs \<and> list_all P ys) names"
proof (induction xs)
  case Nil
  then show ?case by (simp add: total_return)
next
  case (Cons x xs)
  show ?case unfolding mapS.simps
    by (rule total_bind [OF Cons.prems], simp, rule total_bind [OF Cons.IH], rule Cons.prems, simp)
      (auto intro: total_return)
qed

lemma present_clean: "clean names s \<Longrightarrow> set (present_files s) = names"
proof -
  assume s: "clean names s"
  then have "\<forall>e \<in> set (pl_outputs s). snd e \<noteq> OutputDirectory"
    unfolding clean_def by (metis map_of_is_SomeI output_node.distinct(1) prod.collapse)
  then have "filter (\<lambda>entry. snd entry \<noteq> OutputDirectory) (pl_outputs s) = pl_outputs s" by (simp add: filter_id_conv)
  then show ?thesis using s by (simp add: present_files_def clean_def)
qed

lemma total_validate:
  assumes "faultless ts" and "set (if b then SUCCESSFUL_OUTPUTS else remove1 COMPLETION SUCCESSFUL_OUTPUTS) = names"
  shows "total names (validate_complete_outputs ts b) (\<lambda>_. True) names"
proof -
  define expected where "expected = (if b then SUCCESSFUL_OUTPUTS else remove1 COMPLETION SUCCESSFUL_OUTPUTS)"
  have names: "set expected = names" using assms(2) by (simp add: expected_def)
  have read: "total names (mapS (read_output ts) expected) (\<lambda>cs. length cs = length expected \<and> list_all (\<lambda>c. \<not> content_empty c) cs) names"
    by (rule total_mapS) (use assms(1) names in \<open>simp add: total_read\<close>)
  have "\<exists>v t. validate_complete_outputs ts b s = (Inr v, t) \<and> True \<and> clean names t" if s: "clean names s" for s
  proof -
    have found: "filter (\<lambda>n. n \<in> set (present_files s)) expected = expected"
      "filter (\<lambda>n. n \<notin> set (present_files s)) expected = []" "filter (\<lambda>n. n \<notin> set expected) (present_files s) = []"
      by (simp_all add: present_clean [OF s] names filter_id_conv filter_empty_conv)
    obtain cs t where cs: "mapS (read_output ts) expected s = (Inr cs, t)" "list_all (\<lambda>c. \<not> content_empty c) cs" "clean names t"
      using read s unfolding total_def by blast
    have "filter (\<lambda>entry. content_empty (snd entry)) (zip expected cs) = []"
      using cs(2) by (auto simp: filter_empty_conv list_all_iff dest: set_zip_rightD)
    then show ?thesis
      using cs(1,3) unfolding validate_complete_outputs_def expected_def [symmetric] Let_def found
      by (simp add: bindS_def liftE_def)
  qed
  then show ?thesis unfolding total_def by blast
qed

text \<open>The sources of the evidence agree: what the generator demands of the contract, the tools and their outputs.\<close>

definition required_commands :: "evidence_request \<Rightarrow> contract \<Rightarrow> string list list" where
  "required_commands rq c =
     [[er_uv rq, ''--version''], [er_scanner rq, ''--version''], frozen_lock_check_command (er_uv rq) (er_python rq),
      frozen_sync_check_command (er_uv rq), evidence_export_command rq, evidence_tree_command rq c, evidence_list_command rq]"

definition tools_agree :: "evidence_request \<Rightarrow> (string list \<Rightarrow> completed) \<Rightarrow> contract \<Rightarrow> bool" where
  "tools_agree rq out c \<longleftrightarrow>
     validate_contract_files (pf_pyproject (er_files rq)) (pf_lock (er_files rq)) (pf_python_version (er_files rq)) = Inr (Some c, []) \<and>
     er_version rq = python_pin c \<and> list_all (\<lambda>command. returncode (out command) = 0) (required_commands rq c) \<and>
     before_first '' ('' (strip (stdout (out [er_uv rq, ''--version'']))) = ''uv '' @ uv_version c \<and>
     strip (stdout (out [er_scanner rq, ''--version''])) = ''pip-audit '' @ pip_audit_version c"

definition scans_agree :: "'w evidence_tools \<Rightarrow> completed \<Rightarrow> completed \<Rightarrow> package_record list \<Rightarrow> bool" where
  "scans_agree ts audit_result sbom_result locked \<longleftrightarrow>
     (\<exists>audit sbom text. parse_audit_report (ev_parse_json ts) (stdout audit_result) (returncode audit_result) = Inr audit \<and>
        parse_sbom_report (ev_parse_json ts) (stdout sbom_result) (returncode sbom_result) = Inr sbom \<and>
        ar_vulnerabilities audit = sr_vulnerabilities sbom \<and> human_findings (ev_float_text ts) (ar_document audit) = Inr text \<and>
        ar_packages audit = locked \<and> sr_packages sbom = locked)"

definition packages_agree ::
  "'w evidence_tools \<Rightarrow> evidence_request \<Rightarrow> (string list \<Rightarrow> completed) \<Rightarrow> contract \<Rightarrow> package_record list \<Rightarrow> bool" where
  "packages_agree ts rq out c locked \<longleftrightarrow>
     parse_lock_export (ev_requirement ts) (stdout (out (evidence_export_command rq))) = Inr locked \<and>
     (\<exists>tree. parse_dependency_tree (ev_parse_json ts) (ev_float_text ts) (stdout (out (evidence_tree_command rq c))) = Inr tree \<and>
        dt_packages tree = locked) \<and>
     (\<exists>project. parse_installed_inventory (ev_parse_json ts) (ev_resolve ts) (ev_resolve ts (er_root rq))
        (stdout (out (evidence_list_command rq))) = Inr (project, locked)) \<and>
     scans_agree ts (out (scanner_command rq ''json'')) (out (scanner_command rq ''cyclonedx-json'')) locked"

text \<open>The installed Playwright, which does not change.\<close>

definition playwright_is :: "'w evidence_tools \<Rightarrow> (string \<times> (fault + string)) option \<Rightarrow> bool" where
  "playwright_is ts p \<longleftrightarrow> (\<forall>s. ev_playwright ts s = p)"

definition browsers_declared :: "'w evidence_tools \<Rightarrow> (string \<times> (fault + string)) option \<Rightarrow> bool" where
  "browsers_declared ts p \<longleftrightarrow> (\<exists>version raw j document. p = Some (version, Inr raw) \<and> ev_parse_json ts raw = Inr j \<and>
     browser_document version j = Inr document)"

text \<open>The steps of a stage.\<close>

lemma total_if_not [total_rules]: "\<not> b \<Longrightarrow> total names m P K \<Longrightarrow> total names (if b then e else m) P K"
  by simp

lemma total_run_bind:
  "answers ts out \<Longrightarrow> total names (f (out command)) Q K \<Longrightarrow> total names (bindS (evidence_run ts command) f) Q K"
  by (rule total_bind [OF total_run]) auto

lemma total_required_bind:
  "answers ts out \<Longrightarrow> returncode (out command) = 0 \<Longrightarrow> total names (f (out command)) Q K \<Longrightarrow>
   total names (bindS (required_run ts message command) f) Q K"
  by (rule total_bind [OF total_required]) auto

lemma total_parse_bind: "r = Inr v \<Longrightarrow> total names (f v) Q K \<Longrightarrow> total names (bindS (liftE (evidence_of r)) f) Q K"
  by (rule total_bind [OF total_parse]) auto

lemma total_write_bind:
  "faultless ts \<Longrightarrow> \<not> content_empty c \<Longrightarrow> total (insert n names) (f ()) Q K \<Longrightarrow>
   total names (bindS (write_output ts n c) f) Q K"
  by (rule total_bind [OF total_write]) auto

lemma total_json_bind:
  "faultless ts \<Longrightarrow> total (insert n names) (f ()) Q K \<Longrightarrow> total names (bindS (write_json ts n j) f) Q K"
  by (rule total_bind [OF total_write_json]) auto

lemma total_verify:
  assumes "answers ts out" and "tools_agree rq out c"
  shows "total names (verify_runtime_and_tools ts rq c) (\<lambda>_. True) names"
proof -
  have codes: "returncode (out command) = 0" if "command \<in> set (required_commands rq c)" for command
    using assms(2) that by (simp add: tools_agree_def list_all_iff)
  show ?thesis
    unfolding verify_runtime_and_tools_def
    using assms(2)
    by (intro total_if_not total_required_bind [OF assms(1)] total_return codes)
      (simp_all add: tools_agree_def required_commands_def)
qed

lemma export_not_empty: "parse_lock_export parse raw = Inr locked \<Longrightarrow> raw \<noteq> []"
  by (auto simp: parse_lock_export_def requirement_blocks_def splitlines_def)

lemma total_export:
  assumes "faultless ts" "answers ts out" "returncode (out (evidence_export_command rq)) = 0"
    "parse_lock_export (ev_requirement ts) (stdout (out (evidence_export_command rq))) = Inr locked"
  shows "total names (export_stage ts rq) (\<lambda>v. v = locked) (insert ''lock-selection.json'' (insert ''lock-export.txt'' names))"
  unfolding export_stage_def
  by (rule total_required_bind [OF assms(2,3)], rule total_parse_bind [OF assms(4)], rule total_write_bind [OF assms(1)],
      simp add: content_empty_def export_not_empty [OF assms(4)], rule total_json_bind [OF assms(1)], rule total_return, rule refl)

lemma total_tree:
  assumes "faultless ts" "answers ts out" "returncode (out (evidence_tree_command rq c)) = 0"
    "parse_dependency_tree (ev_parse_json ts) (ev_float_text ts) (stdout (out (evidence_tree_command rq c))) = Inr tree"
  shows "total names (tree_stage ts rq c) (\<lambda>v. v = tree) (insert ''dependency-tree.json'' names)"
  unfolding tree_stage_def
  by (rule total_required_bind [OF assms(2,3)], rule total_parse_bind [OF assms(4)], rule total_json_bind [OF assms(1)],
      rule total_return, rule refl)

lemma total_installed:
  assumes "faultless ts" "answers ts out" "returncode (out (evidence_list_command rq)) = 0"
    "parse_installed_inventory (ev_parse_json ts) (ev_resolve ts) (ev_resolve ts (er_root rq))
       (stdout (out (evidence_list_command rq))) = Inr (project, installed)"
  shows "total names (installed_stage ts rq) (\<lambda>v. v = installed) (insert ''installed-packages.json'' names)"
  unfolding installed_stage_def
  by (rule total_required_bind [OF assms(2,3)], rule total_parse_bind [OF assms(4)], unfold prod.case,
      rule total_json_bind [OF assms(1)], rule total_return, rule refl)

lemma total_browser:
  assumes "faultless ts" "playwright_is ts p" "browsers_declared ts p"
  shows "total names (browser_stage ts) (\<lambda>_. True) (insert ''playwright-browser-metadata.json'' names)"
proof -
  obtain version raw j document where "p = Some (version, Inr raw)" "ev_parse_json ts raw = Inr j"
    "browser_document version j = Inr document"
    using assms(3) unfolding browsers_declared_def by blast
  then have "playwright_browser_metadata ts s = (Inr document, s)" for s
    using assms(2) by (simp add: playwright_browser_metadata_def playwright_is_def decode_json_def evidence_of_def)
  then have "total names (playwright_browser_metadata ts) (\<lambda>_. True) names" by (simp add: total_def)
  then show ?thesis unfolding browser_stage_def by (rule total_bind) (rule total_write_json [OF assms(1)])
qed

lemma total_scan:
  assumes "faultless ts" "answers ts out"
    "parse_audit_report (ev_parse_json ts) (stdout (out (scanner_command rq ''json''))) (returncode (out (scanner_command rq ''json''))) = Inr audit"
    "parse_sbom_report (ev_parse_json ts) (stdout (out (scanner_command rq ''cyclonedx-json'')))
       (returncode (out (scanner_command rq ''cyclonedx-json''))) = Inr sbom"
    "ar_vulnerabilities audit = sr_vulnerabilities sbom"
    "human_findings (ev_float_text ts) (ar_document audit) = Inr findings"
  shows "total names (scan_stage ts rq) (\<lambda>v. v = (audit, sbom))
    (insert ''pip-audit.txt'' (insert ''sbom.cdx.json'' (insert ''pip-audit.json'' (insert ''scanner-status.json''
      (insert ''scanner.stderr.log'' names)))))"
proof -
  have findings: "findings \<noteq> []" using assms(6) by (auto simp: human_findings_def ok_iff Let_def)
  show ?thesis
    unfolding scan_stage_def
    by (rule total_run_bind [OF assms(2)], rule total_run_bind [OF assms(2)], rule total_write_bind [OF assms(1)],
        simp add: content_empty_def, rule total_json_bind [OF assms(1)], rule total_parse_bind [OF assms(3)],
        rule total_parse_bind [OF assms(4)], rule total_if_not, simp add: assms(5), rule total_json_bind [OF assms(1)],
        rule total_json_bind [OF assms(1)], rule total_parse_bind [OF assms(6)], rule total_write_bind [OF assms(1)],
        simp add: content_empty_def findings, rule total_return, rule refl)
qed

lemma total_parity:
  assumes "faultless ts" "list_all (\<lambda>c. cmp_status c = ''exact'') comparisons"
  shows "total names (parity_stage ts locked comparisons) (\<lambda>_. True) (insert ''parity.json'' names)"
proof -
  have "require_exact_comparisons comparisons = Inr ()" using assms(2) by (simp add: require_exact_ok)
  then show ?thesis
    unfolding parity_stage_def
    by (intro total_json_bind [OF assms(1)]) (simp add: evidence_of_def total_return)
qed

lemma total_completion_stage:
  assumes "faultless ts"
    and names: "insert ''diagnostics.json'' (insert ''metadata.json'' names) = set (remove1 COMPLETION SUCCESSFUL_OUTPUTS)"
  shows "total names (completion_stage ts rq c locked audit) (\<lambda>_. True) (set SUCCESSFUL_OUTPUTS)"
proof -
  let ?all = "set (remove1 COMPLETION SUCCESSFUL_OUTPUTS)"
  have all: "insert COMPLETION ?all = set SUCCESSFUL_OUTPUTS" by code_simp
  have digest: "total ?all (digest_output ts n) (\<lambda>_. True) ?all" if "n \<in> ?all" for n
    unfolding digest_output_def by (rule total_bind [OF total_read [OF assms(1) that]], rule total_return) simp
  have diagnostics: "total (insert ''metadata.json'' names) (write_diagnostics ts ''complete'' ''complete'' None) (\<lambda>_. True) ?all"
    using total_diagnostics [OF assms(1), of "insert ''metadata.json'' names"] unfolding names .
  have completion: "total ?all (write_completion ts k audit ds) (\<lambda>_. True) (set SUCCESSFUL_OUTPUTS)" for k ds
    using total_completion [OF assms(1), of ?all] unfolding all .
  show ?thesis
    unfolding completion_stage_def
    by (rule total_bind [OF total_metadata [OF assms(1)]], rule total_bind [OF diagnostics],
        rule total_bind [OF total_validate [OF assms(1)]], simp, rule total_bind [OF total_mapS [OF digest]], assumption,
        rule total_bind [OF completion], rule total_validate [OF assms(1)], simp)
qed

lemma total_stage: "total names m P K \<Longrightarrow> total names (in_stage stage m) P K"
  unfolding total_def by (meson in_stage_ok)

lemma total_body:
  assumes "faultless ts" "answers ts out" "playwright_is ts p" "browsers_declared ts p"
    and tools: "tools_agree rq out c" and packages: "packages_agree ts rq out c locked"
  shows "total (insert ''diagnostics.json'' (set SETUP_OUTPUTS)) (evidence_body ts rq) (\<lambda>_. True) (set SUCCESSFUL_OUTPUTS)"
proof -
  have codes: "returncode (out command) = 0" if "command \<in> set (required_commands rq c)" for command
    using tools that by (simp add: tools_agree_def list_all_iff)
  obtain tree project audit sbom findings where
    lock: "parse_lock_export (ev_requirement ts) (stdout (out (evidence_export_command rq))) = Inr locked" and
    tree: "parse_dependency_tree (ev_parse_json ts) (ev_float_text ts) (stdout (out (evidence_tree_command rq c))) = Inr tree"
      "dt_packages tree = locked" and
    listing: "parse_installed_inventory (ev_parse_json ts) (ev_resolve ts) (ev_resolve ts (er_root rq))
        (stdout (out (evidence_list_command rq))) = Inr (project, locked)" and
    audit: "parse_audit_report (ev_parse_json ts) (stdout (out (scanner_command rq ''json''))) (returncode (out (scanner_command rq ''json''))) = Inr audit"
      "ar_packages audit = locked" and
    sbom: "parse_sbom_report (ev_parse_json ts) (stdout (out (scanner_command rq ''cyclonedx-json'')))
       (returncode (out (scanner_command rq ''cyclonedx-json''))) = Inr sbom" "sr_packages sbom = locked" and
    counts: "ar_vulnerabilities audit = sr_vulnerabilities sbom" and
    findings: "human_findings (ev_float_text ts) (ar_document audit) = Inr findings"
    using packages unfolding packages_agree_def scans_agree_def by blast
  have "package_set locked" by (rule lock_export_packages [OF lock])
  then have exact: "list_all (\<lambda>c. cmp_status c = ''exact'') (parity_comparisons locked tree locked audit sbom)"
    by (simp add: parity_comparisons_def exact_same_packages tree(2) audit(2) sbom(2))
  have contract: "load_contract ts (er_files rq) = Inr c" using tools by (simp add: load_contract_ok tools_agree_def)
  have load: "total names (in_stage st (liftE (load_contract ts (er_files rq)))) (\<lambda>v. v = c) names" for st and names :: "string set"
    by (rule total_stage) (simp add: contract total_return)
  note run = assms(1,2)
  have names: "insert ''diagnostics.json'' (insert ''metadata.json'' (insert ''parity.json'' (insert ''pip-audit.txt''
      (insert ''sbom.cdx.json'' (insert ''pip-audit.json'' (insert ''scanner-status.json'' (insert ''scanner.stderr.log''
      (insert ''playwright-browser-metadata.json'' (insert ''installed-packages.json'' (insert ''dependency-tree.json''
      (insert ''lock-selection.json'' (insert ''lock-export.txt'' (insert ''diagnostics.json'' (set SETUP_OUTPUTS)))))))))))))) =
      set (remove1 COMPLETION SUCCESSFUL_OUTPUTS)"
    by code_simp
  show ?thesis
    unfolding evidence_body_def
    apply (rule total_bind [OF load], hypsubst)
    apply (rule total_bind [OF total_stage [OF total_verify [OF run(2) tools]]])
    apply (rule total_bind [OF total_stage [OF total_export [OF run codes lock]]], simp add: required_commands_def, hypsubst)
    apply (rule total_bind [OF total_stage [OF total_tree [OF run codes tree(1)]]], simp add: required_commands_def, hypsubst)
    apply (rule total_bind [OF total_stage [OF total_installed [OF run codes listing]]], simp add: required_commands_def, hypsubst)
    apply (rule total_bind [OF total_stage [OF total_browser [OF assms(1,3,4)]]])
    apply (rule total_bind [OF total_stage [OF total_scan [OF run audit(1) sbom(1) counts findings]]], hypsubst, unfold prod.case)
    apply (rule total_bind [OF total_stage [OF total_parity [OF assms(1) exact]]])
    apply (rule total_stage, rule total_completion_stage [OF assms(1) names])
    done
qed

section \<open>The converse\<close>

lemma answers_run: "answers ts out \<Longrightarrow> evidence_run ts command s = (Inr res, t) \<Longrightarrow> res = out command"
proof -
  assume a: "answers ts out" and r: "evidence_run ts command s = (Inr res, t)"
  have "fst (ev_run ts command s) = Inr (out command)" using a by (simp add: answers_def)
  then show ?thesis using r by (cases "ev_run ts command s") (simp add: evidence_run_def)
qed

lemma answers_required:
  "answers ts out \<Longrightarrow> required_run ts message command s = (Inr res, t) \<Longrightarrow> res = out command \<and> returncode (out command) = 0"
  unfolding required_run_def by (auto simp: ok_iff dest: answers_run)

lemma verified_tools:
  assumes "answers ts out" and "verify_runtime_and_tools ts rq c s = (Inr u, t)"
  shows "er_version rq = python_pin c \<and> returncode (out [er_uv rq, ''--version'']) = 0 \<and>
    returncode (out [er_scanner rq, ''--version'']) = 0 \<and>
    returncode (out (frozen_lock_check_command (er_uv rq) (er_python rq))) = 0 \<and>
    returncode (out (frozen_sync_check_command (er_uv rq))) = 0 \<and>
    before_first '' ('' (strip (stdout (out [er_uv rq, ''--version'']))) = ''uv '' @ uv_version c \<and>
    strip (stdout (out [er_scanner rq, ''--version''])) = ''pip-audit '' @ pip_audit_version c"
proof -
  obtain uv s1 scanner s2 lock s3 parity s4 where
    *: "required_run ts ''uv failed'' [er_uv rq, ''--version''] s = (Inr uv, s1)"
      "before_first '' ('' (strip (stdout uv)) = ''uv '' @ uv_version c"
      "required_run ts ''pip-audit failed'' [er_scanner rq, ''--version''] s1 = (Inr scanner, s2)"
      "strip (stdout scanner) = ''pip-audit '' @ pip_audit_version c"
      "required_run ts ''uv.lock is stale or invalid'' (frozen_lock_check_command (er_uv rq) (er_python rq)) s2 = (Inr lock, s3)"
      "required_run ts ''installed environment does not match the frozen lock'' (frozen_sync_check_command (er_uv rq)) s3 = (Inr parity, s4)"
    and version: "er_version rq = python_pin c"
    using assms(2) unfolding verify_runtime_and_tools_def
    by (auto simp: bindS_ok liftE_ok simp del: append.simps split: if_splits intro!: that)
  show ?thesis
    using answers_required [OF assms(1) *(1)] answers_required [OF assms(1) *(3)] answers_required [OF assms(1) *(5)]
      answers_required [OF assms(1) *(6)] *(2,4) version by simp
qed

lemma verified_packages:
  assumes answers: "answers ts out" and "playwright_is ts p" and c: "load_contract ts (er_files rq) = Inr c"
    and verify: "verify_runtime_and_tools ts rq c s = (Inr (), s1)" and lock: "export_stage ts rq s1 = (Inr locked, s2)"
    and tree: "tree_stage ts rq c s2 = (Inr tree, s3)" and installed: "installed_stage ts rq s3 = (Inr installed, s4)"
    and browser: "browser_stage ts s4 = (Inr (), s5)" and scan: "scan_stage ts rq s5 = (Inr (audit, sbom), s6)"
    and parity: "parity_stage ts locked (parity_comparisons locked tree installed audit sbom) s6 = (Inr (), s7)"
  shows "tools_agree rq out c \<and> packages_agree ts rq out c locked \<and> browsers_declared ts p"
proof -
  obtain export v where "required_run ts ''could not export the frozen lock'' (evidence_export_command rq) s1 = (Inr export, v)"
    "parse_lock_export (ev_requirement ts) (stdout export) = Inr locked"
    using lock unfolding export_stage_def bindS_ok liftE_ok evidence_of_ok by blast
  then have lock: "returncode (out (evidence_export_command rq)) = 0"
    "parse_lock_export (ev_requirement ts) (stdout (out (evidence_export_command rq))) = Inr locked"
    using answers_required [OF answers] by blast+
  obtain graph v where "required_run ts ''could not generate the frozen dependency tree'' (evidence_tree_command rq c) s2 = (Inr graph, v)"
    "parse_dependency_tree (ev_parse_json ts) (ev_float_text ts) (stdout graph) = Inr tree"
    using tree unfolding tree_stage_def bindS_ok liftE_ok evidence_of_ok by blast
  then have tree: "returncode (out (evidence_tree_command rq c)) = 0"
    "parse_dependency_tree (ev_parse_json ts) (ev_float_text ts) (stdout (out (evidence_tree_command rq c))) = Inr tree"
    using answers_required [OF answers] by blast+
  obtain listing v project where
    "required_run ts ''could not inventory the installed environment'' (evidence_list_command rq) s3 = (Inr listing, v)"
    "parse_installed_inventory (ev_parse_json ts) (ev_resolve ts) (ev_resolve ts (er_root rq)) (stdout listing) = Inr (project, installed)"
    using installed unfolding installed_stage_def bindS_ok liftE_ok evidence_of_ok split_def by (metis prod.collapse sum.inject(2))
  then have installed: "returncode (out (evidence_list_command rq)) = 0"
    "parse_installed_inventory (ev_parse_json ts) (ev_resolve ts) (ev_resolve ts (er_root rq))
       (stdout (out (evidence_list_command rq))) = Inr (project, installed)"
    using answers_required [OF answers] by blast+
  obtain audit_result v sbom_result w findings where "evidence_run ts (scanner_command rq ''json'') s5 = (Inr audit_result, v)"
    "evidence_run ts (scanner_command rq ''cyclonedx-json'') v = (Inr sbom_result, w)"
    "parse_audit_report (ev_parse_json ts) (stdout audit_result) (returncode audit_result) = Inr audit"
    "parse_sbom_report (ev_parse_json ts) (stdout sbom_result) (returncode sbom_result) = Inr sbom"
    and counts: "ar_vulnerabilities audit = sr_vulnerabilities sbom"
    and findings: "human_findings (ev_float_text ts) (ar_document audit) = Inr findings"
    using scan unfolding scan_stage_def bindS_ok liftE_ok evidence_of_ok if_Inl_liftE_ok by blast
  then have scans:
    "parse_audit_report (ev_parse_json ts) (stdout (out (scanner_command rq ''json''))) (returncode (out (scanner_command rq ''json''))) = Inr audit"
    "parse_sbom_report (ev_parse_json ts) (stdout (out (scanner_command rq ''cyclonedx-json'')))
       (returncode (out (scanner_command rq ''cyclonedx-json''))) = Inr sbom"
    using answers_run [OF answers] by blast+
  have same: "dt_packages tree = locked" "installed = locked" "ar_packages audit = locked" "sr_packages sbom = locked"
    using parity_stage_ok [OF parity lock_export_packages [OF lock(2)] tree_packages [OF tree(2)] installed_packages [OF installed(2)]
        audit_packages [OF scans(1)] sbom_packages [OF scans(2)]] by blast+
  have "scans_agree ts (out (scanner_command rq ''json'')) (out (scanner_command rq ''cyclonedx-json'')) locked"
    using scans counts findings same(3,4) unfolding scans_agree_def by blast
  then have "packages_agree ts rq out c locked"
    using lock(2) tree(2) same(1) installed(2) [unfolded same(2)] unfolding packages_agree_def by blast
  moreover have "tools_agree rq out c"
    using verified_tools [OF answers verify] c lock(1) tree(1) installed(1)
    by (simp add: tools_agree_def required_commands_def load_contract_ok)
  moreover have "browsers_declared ts p"
    using browser assms(2)
    by (auto simp: browser_stage_def playwright_browser_metadata_def playwright_is_def browsers_declared_def bindS_ok
        evidence_of_ok bindE_ok decode_json_def split: option.splits sum.splits fault.splits prod.splits)
  ultimately show ?thesis by blast
qed

lemma total_handled: "total names (evidence_body ts rq) P K \<Longrightarrow> total names (handled_body ts rq) (\<lambda>_. True) K"
  unfolding total_def by (metis handled_body_ok old.unit.exhaust)

lemma total_generate:
  assumes "faultless ts" "answers ts out" "playwright_is ts p" "browsers_declared ts p" "tools_agree rq out c"
    "packages_agree ts rq out c locked"
    and names: "set SETUP_OUTPUTS \<subseteq> names" "names \<subseteq> set (SETUP_OUTPUTS @ GENERATED_OUTPUTS @ LEGACY_OUTPUTS)"
  shows "total names (generate_dependency_evidence ts rq) (\<lambda>_. True) (set SUCCESSFUL_OUTPUTS)"
proof -
  have "set SETUP_OUTPUTS \<inter> set (GENERATED_OUTPUTS @ LEGACY_OUTPUTS) = {}" by code_simp
  then have left: "names - set (GENERATED_OUTPUTS @ LEGACY_OUTPUTS) = set SETUP_OUTPUTS" using names by auto
  have made: "total names (make_output_directory ts) (\<lambda>_. True) names"
    using assms(1) by (simp add: total_def make_output_directory_def faultless_def)
  show ?thesis
    unfolding generate_dependency_evidence_def
    by (rule total_bind [OF made], rule total_bind [OF total_unlinks [OF assms(1)]], unfold left,
        rule total_bind [OF total_diagnostics [OF assms(1)]], rule total_handled [OF total_body [OF assms(1-6)]])
qed

text \<open>
  C7. The generator completes exactly when the sources agree: on a system that refuses nothing, with commands that always
  answer and a directory that holds the setup logs and at most old outputs, it returns if and only if the contract and the
  tools are the pinned ones and the lock export, the tree, the installed environment and both scans have the same packages.
\<close>

theorem evidence_completes_iff_the_sources_agree:
  assumes "faultless ts" and "answers ts out" and "playwright_is ts p"
    and "clean names s" and "set SETUP_OUTPUTS \<subseteq> names" and "names \<subseteq> set (SETUP_OUTPUTS @ GENERATED_OUTPUTS @ LEGACY_OUTPUTS)"
  shows "(\<exists>t. generate_dependency_evidence ts rq s = (Inr (), t)) \<longleftrightarrow>
    (\<exists>c locked. tools_agree rq out c \<and> packages_agree ts rq out c locked \<and> browsers_declared ts p)"
proof
  assume "\<exists>t. generate_dependency_evidence ts rq s = (Inr (), t)"
  then obtain t v where "evidence_body ts rq v = (Inr (), t)" using generate_ok by blast
  from evidence_body_ok [OF this] show "\<exists>c locked. tools_agree rq out c \<and> packages_agree ts rq out c locked \<and> browsers_declared ts p"
    using verified_packages [OF assms(2,3)] by meson
next
  assume "\<exists>c locked. tools_agree rq out c \<and> packages_agree ts rq out c locked \<and> browsers_declared ts p"
  then show "\<exists>t. generate_dependency_evidence ts rq s = (Inr (), t)"
    using total_generate [OF assms(1,2,3) _ _ _ assms(5,6)] assms(4) unfolding total_def by (metis old.unit.exhaust)
qed

section \<open>A small project\<close>

text \<open>The tools of a project with one locked package; the texts of the commands name the JSON value they stand for.\<close>

definition small_documents :: "(string \<times> json) list" where
  "small_documents =
     [(''t'', small_tree),
      (''l'', JList
         [JObj [(''name'', JStr PROJECT_NAME), (''version'', JStr ''0.1.0''), (''editable_project_location'', JStr ''/repo'')],
          JObj [(''name'', JStr ''httpx''), (''version'', JStr ''0.28.1'')]]),
      (''a'', JObj [(''dependencies'', JList
         [JObj [(''name'', JStr ''httpx''), (''version'', JStr ''0.28.1''), (''vulns'', JList [])]])]),
      (''s'', JObj [(''bomFormat'', JStr ''CycloneDX''), (''specVersion'', JStr ''1.4''), (''components'', JList
         [JObj [(''name'', JStr ''httpx''), (''version'', JStr ''0.28.1'')]])]),
      (''b'', JObj [(''browsers'', JList [JObj [(''name'', JStr ''chromium''), (''revision'', JStr ''1'')]])])]"

definition small_output :: "string list \<Rightarrow> string" where
  "small_output command =
     (let sub = command ! 1 in
      if sub = ''--version'' then (if hd command = ''uv'' then ''uv 0.9.1'' else ''pip-audit 2.9.0'')
      else if sub = ''export'' then ''httpx==0.28.1 '' @ [CHR 0x5C, LF] @ '' --hash=sha256:0''
      else if sub = ''tree'' then ''t'' else if sub = ''pip'' then ''l''
      else if sub = ''--strict'' then (if last command = ''json'' then ''a'' else ''s'') else [])"

definition small_evidence_tools :: "nat evidence_tools" where
  "small_evidence_tools =
     \<lparr>ev_run = (\<lambda>command s. (Inr \<lparr>returncode = 0, stdout = small_output command, stderr = []\<rparr>, s\<lparr>pl_world := Suc (pl_world s)\<rparr>)),
      ev_mkdir_fault = (\<lambda>s. None), ev_unlink_fault = (\<lambda>name s. None), ev_write_fault = (\<lambda>name c s. None),
      ev_read_fault = (\<lambda>name s. None), ev_directory_text = (\<lambda>name. name), ev_now = (\<lambda>s. []),
      ev_sha256 = (\<lambda>c. []),
      ev_parse_json = (\<lambda>text. case map_of small_documents text of None \<Rightarrow> Inl [] | Some j \<Rightarrow> Inr j),
      ev_float_text = (\<lambda>q. []), ev_resolve = (\<lambda>p. p),
      ev_requirement = (\<lambda>line. if line = ''httpx==0.28.1''
         then Some \<lparr>rq_name = ''httpx'', rq_specifiers = [(''=='', ''0.28.1'')], rq_marker = None\<rparr> else None),
      ev_issue_text = (\<lambda>i. []), ev_playwright = (\<lambda>s. Some (''1.49'', Inr ''b''))\<rparr>"

definition small_request :: evidence_request where
  "small_request = \<lparr>er_root = ''/repo'', er_output = ''/out'', er_python = ''/py'', er_uv = ''uv'',
     er_scanner = ''pip-audit'', er_files = small_files, er_implementation = ''CPython'', er_version = ''3.12.8'',
     er_platform = ''linux''\<rparr>"

definition prepared_place :: "nat place" where
  "prepared_place = \<lparr>pl_outputs = [(''bootstrap.log'', OutputFile (Text ''ready'')), (''scanner-install.log'', OutputFile (Text ''done''))],
     pl_world = 0\<rparr>"

definition bare_place :: "nat place" where
  "bare_place = \<lparr>pl_outputs = [(''completion.json'', OutputFile (Text ''old''))], pl_world = 0\<rparr>"

definition small_answer :: "string list \<Rightarrow> completed" where
  "small_answer command = \<lparr>returncode = 0, stdout = small_output command, stderr = []\<rparr>"

definition wrong_request :: evidence_request where
  "wrong_request = small_request\<lparr>er_version := ''3.11''\<rparr>"

lemma small_sources:
  "faultless small_evidence_tools" "answers small_evidence_tools small_answer"
  "playwright_is small_evidence_tools (Some (''1.49'', Inr ''b''))"
  by (simp_all add: faultless_def answers_def playwright_is_def small_evidence_tools_def small_answer_def)

lemma small_place: "clean (set SETUP_OUTPUTS) prepared_place"
  by (auto simp: clean_def prepared_place_def SETUP_OUTPUTS_def content_empty_def split: if_splits)

lemma small_tools_agree: "tools_agree small_request small_answer example_contract"
proof -
  have files: "er_files small_request = \<lparr>pf_pyproject = example_pyproject, pf_lock = Parsed (JObj example_lock),
      pf_python_version = Some ''3.12.8'', pf_digests = \<lparr>dg_pin = ''a'', dg_manifest = ''b'', dg_lock = ''c''\<rparr>\<rparr>"
    by (simp add: small_request_def small_files_def)
  have "er_version small_request = python_pin example_contract"
    "before_first '' ('' (strip (stdout (small_answer [er_uv small_request, ''--version'']))) = ''uv '' @ uv_version example_contract"
    "strip (stdout (small_answer [er_scanner small_request, ''--version''])) = ''pip-audit '' @ pip_audit_version example_contract"
    by code_simp+
  then show ?thesis
    unfolding tools_agree_def files project_files.simps using example_accepted by (simp add: small_answer_def list_all_iff)
qed

lemma small_packages_agree:
  "packages_agree small_evidence_tools small_request small_answer example_contract [PackageRecord ''httpx'' ''0.28.1'']"
proof -
  let ?parse = "ev_parse_json small_evidence_tools" and ?locked = "[PackageRecord ''httpx'' ''0.28.1'']"
  have lock: "parse_lock_export (ev_requirement small_evidence_tools) (stdout (small_answer (evidence_export_command small_request))) = Inr ?locked"
    by code_simp
  have "(case parse_dependency_tree ?parse (ev_float_text small_evidence_tools)
      (stdout (small_answer (evidence_tree_command small_request example_contract))) of
      Inr tree \<Rightarrow> dt_packages tree = ?locked | Inl e \<Rightarrow> False)" by code_simp
  then have tree: "\<exists>tree. parse_dependency_tree ?parse (ev_float_text small_evidence_tools)
      (stdout (small_answer (evidence_tree_command small_request example_contract))) = Inr tree \<and> dt_packages tree = ?locked"
    by (auto split: sum.splits)
  have "(case parse_installed_inventory ?parse (ev_resolve small_evidence_tools) (ev_resolve small_evidence_tools (er_root small_request))
      (stdout (small_answer (evidence_list_command small_request))) of
      Inr (project, packages) \<Rightarrow> packages = ?locked | Inl e \<Rightarrow> False)" by code_simp
  then have listing: "\<exists>project. parse_installed_inventory ?parse (ev_resolve small_evidence_tools)
      (ev_resolve small_evidence_tools (er_root small_request)) (stdout (small_answer (evidence_list_command small_request))) =
      Inr (project, ?locked)"
    by (auto split: sum.splits prod.splits)
  have "(case (parse_audit_report ?parse ''a'' 0, parse_sbom_report ?parse ''s'' 0) of
      (Inr audit, Inr sbom) \<Rightarrow> ar_vulnerabilities audit = sr_vulnerabilities sbom \<and> ar_packages audit = ?locked \<and>
        sr_packages sbom = ?locked \<and>
        (case human_findings (ev_float_text small_evidence_tools) (ar_document audit) of Inr findings \<Rightarrow> True | Inl e \<Rightarrow> False)
    | _ \<Rightarrow> False)" by code_simp
  moreover have "stdout (small_answer (scanner_command small_request ''json'')) = ''a''"
    "stdout (small_answer (scanner_command small_request ''cyclonedx-json'')) = ''s''" by code_simp+
  ultimately have "scans_agree small_evidence_tools (small_answer (scanner_command small_request ''json''))
      (small_answer (scanner_command small_request ''cyclonedx-json'')) ?locked"
    by (auto simp: scans_agree_def small_answer_def split: sum.splits)
  then show ?thesis using lock tree listing unfolding packages_agree_def by blast
qed

lemma small_browsers: "browsers_declared small_evidence_tools (Some (''1.49'', Inr ''b''))"
proof -
  have "(case ev_parse_json small_evidence_tools ''b'' of Inr j \<Rightarrow>
      (case browser_document ''1.49'' j of Inr document \<Rightarrow> True | Inl e \<Rightarrow> False) | Inl e \<Rightarrow> False)" by code_simp
  then show ?thesis unfolding browsers_declared_def by (auto split: sum.splits)
qed

lemma setup_names: "set SETUP_OUTPUTS \<subseteq> set (SETUP_OUTPUTS @ GENERATED_OUTPUTS @ LEGACY_OUTPUTS)"
  by auto

lemma small_evidence_returns:
  "\<exists>t. generate_dependency_evidence small_evidence_tools small_request prepared_place = (Inr (), t)"
  using total_generate [OF small_sources small_browsers small_tools_agree small_packages_agree order_refl setup_names] small_place
  unfolding total_def by (metis old.unit.exhaust)

theorem evidence_completes_iff_the_sources_agree_witness:
  "\<exists>t. generate_dependency_evidence small_evidence_tools small_request prepared_place = (Inr (), t)"
  using evidence_completes_iff_the_sources_agree [OF small_sources small_place order_refl setup_names, of small_request]
    small_tools_agree small_packages_agree small_browsers by blast

lemma small_evidence_fails:
  "(case fst (generate_dependency_evidence small_evidence_tools wrong_request bare_place) of Inl (Failed m) \<Rightarrow> True | _ \<Rightarrow> False)"
  by code_simp

theorem completion_record_seals_the_outputs_witness:
  "\<exists>t. generate_dependency_evidence small_evidence_tools small_request prepared_place = (Inr (), t) \<and>
     holds_exactly SUCCESSFUL_OUTPUTS t"
proof -
  obtain t where t: "generate_dependency_evidence small_evidence_tools small_request prepared_place = (Inr (), t)"
    using small_evidence_returns by blast
  from completion_record_seals_the_outputs [OF this] t show ?thesis by blast
qed


end
