(* ===== verification/Evidence_Setup.thy ===== *)
theory Evidence_Setup
  imports Evidence_Run
begin

text \<open>
  \<open>src/api_tests/tools/dependency_evidence.py\<close>: the command that prepares the machine and has the evidence generated.  It
  removes what an earlier run left, rebuilds or reuses the project environment (\<open>Bootstrap\<close>), installs the scanner, and
  runs the generator (\<open>Evidence_Run\<close>) in a process of the project's interpreter.  The machine of the bootstrap is the world
  behind the output directory.  The child process runs the same program with \<open>--generate-only\<close>; an error that escapes it
  is the exit status 1 of the interpreter.  What is printed is not modelled.
\<close>

section \<open>The two processes\<close>

text \<open>What a process knows of itself: its interpreter, the repository it was imported from and the files it finds there.\<close>

record process =
  pr_root :: string
  pr_executable :: string
  pr_version :: string
  pr_implementation :: string
  pr_platform :: string
  pr_files :: project_files

record 'v setup_tools =
  su_evidence :: "'v machine evidence_tools"
  su_bootstrap :: "'v tools"
  su_failure_text :: "failure \<Rightarrow> string"
  su_child :: process
  su_start_fault :: "'v machine place \<Rightarrow> string option"

record evidence_arguments =
  ea_output :: string
  ea_generate_only :: bool
  ea_uv :: "string option"
  ea_scanner :: "string option"

type_synonym ('v, 'a) setup_io = "('v machine place, evidence_failure, 'a) io"

text \<open>Both paths are resolved, so being below a directory is having its path and a slash as a prefix.\<close>

definition evidence_entry ::
  "'v setup_tools \<Rightarrow> process \<Rightarrow> string \<Rightarrow> (string \<Rightarrow> ('v, int) setup_io) \<Rightarrow> ('v, int) setup_io" where
  "evidence_entry su pr output k =
     (let resolve = ev_resolve (su_evidence su);
          output_dir = resolve (if startswith output ''/'' then output else pr_root pr @ ''/'' @ output);
          artifacts_root = resolve (pr_root pr @ ''/artifacts'')
      in if \<not> startswith output_dir (artifacts_root @ ''/'') \<or> output_dir = artifacts_root then liftE (Inr 2)
         else bindS (make_output_directory (su_evidence su)) (\<lambda>_. k output_dir))"

definition generator_request :: "'v setup_tools \<Rightarrow> process \<Rightarrow> string \<Rightarrow> string \<Rightarrow> string \<Rightarrow> evidence_request" where
  "generator_request su pr output_dir uv scanner =
     \<lparr>er_root = pr_root pr, er_output = output_dir, er_python = pr_executable pr, er_uv = ev_resolve (su_evidence su) uv,
      er_scanner = ev_resolve (su_evidence su) scanner, er_files = pr_files pr, er_implementation = pr_implementation pr,
      er_version = pr_version pr, er_platform = pr_platform pr\<rparr>"

definition generate_only ::
  "'v setup_tools \<Rightarrow> process \<Rightarrow> string option \<Rightarrow> string option \<Rightarrow> string \<Rightarrow> ('v, int) setup_io" where
  "generate_only su pr uv scanner output_dir s =
     (case (uv, scanner) of
        (Some u, Some sc) \<Rightarrow>
          (case generate_dependency_evidence (su_evidence su) (generator_request su pr output_dir u sc) s of
             (Inl (Failed m), t) \<Rightarrow> (Inr 1, t)
           | (Inl e, t) \<Rightarrow> (Inl e, t)
           | (Inr _, t) \<Rightarrow> (Inr 0, t))
      | _ \<Rightarrow> (Inr 2, s))"

text \<open>The child process, started with the output directory, the pinned uv and the scanner.\<close>

definition run_child :: "'v setup_tools \<Rightarrow> string \<Rightarrow> string \<Rightarrow> string \<Rightarrow> ('v, int) setup_io" where
  "run_child su output_dir uv scanner s =
     (case su_start_fault su s of
        Some e \<Rightarrow> (Inl (SystemError e), s)
      | None \<Rightarrow>
          (case evidence_entry su (su_child su) output_dir (generate_only su (su_child su) (Some uv) (Some scanner)) s of
             (Inl e, t) \<Rightarrow> (Inr 1, t)
           | (Inr code, t) \<Rightarrow> (Inr code, t)))"

section \<open>Setup\<close>

definition setup_failure :: "'v setup_tools \<Rightarrow> failure \<Rightarrow> evidence_failure" where
  "setup_failure su f =
     (case f of BootstrapError e \<Rightarrow> Failed (su_failure_text su f) | OsError \<Rightarrow> SystemError (su_failure_text su f)
      | ContractCrash c \<Rightarrow> Unhandled)"

definition run_bootstrap :: "'v setup_tools \<Rightarrow> process \<Rightarrow> ('v, bool) setup_io" where
  "run_bootstrap su pr s =
     (case bootstrap_environment (su_bootstrap su) (pr_root pr) (pr_files pr) (pr_executable pr) (pr_version pr) (pl_world s) of
        (Inl f, m) \<Rightarrow> (Inl (setup_failure su f), s\<lparr>pl_world := m\<rparr>)
      | (Inr reused, m) \<Rightarrow> (Inr reused, s\<lparr>pl_world := m\<rparr>))"

definition scanner_root :: "process \<Rightarrow> contract \<Rightarrow> string" where
  "scanner_root pr c = join ''/'' [pr_root pr, ''.dependency-tools'', ''pip-audit-'' @ pip_audit_version c]"

definition scanner_environment_command :: "process \<Rightarrow> contract \<Rightarrow> string list" where
  "scanner_environment_command pr c = [pr_executable pr, ''-m'', ''venv'', ''--clear'', scanner_root pr c]"

definition scanner_install_command :: "process \<Rightarrow> contract \<Rightarrow> string list" where
  "scanner_install_command pr c =
     [join ''/'' [scanner_root pr c, ''bin'', ''python''], ''-m'', ''pip'', ''install'', ''--isolated'', ''--disable-pip-version-check'',
      ''--index-url'', PYPI_INDEX, ''pip-audit=='' @ pip_audit_version c]"

definition bootstrap_text :: "contract \<Rightarrow> string" where
  "bootstrap_text c = ''Python '' @ python_pin c @ [LF] @ ''uv '' @ uv_version c @ [LF] @
     ''Frozen project environment synchronized and verified.'' @ [LF]"

text \<open>The body of the \<open>try\<close> up to the child process: the pinned uv and the scanner.\<close>

definition prepare_environment :: "'v setup_tools \<Rightarrow> process \<Rightarrow> ('v, string \<times> string) setup_io" where
  "prepare_environment su pr =
     (let ts = su_evidence su in
      bindS (liftE (load_contract ts (pr_files pr))) (\<lambda>c.
      bindS (run_bootstrap su pr) (\<lambda>_.
      bindS (write_output ts ''bootstrap.log'' (Text (bootstrap_text c))) (\<lambda>_.
      bindS (required_run ts ''could not create scanner environment'' (scanner_environment_command pr c)) (\<lambda>_.
      bindS (evidence_run ts (scanner_install_command pr c)) (\<lambda>install.
      bindS (write_output ts ''scanner-install.log'' (Text (redact_text (stdout install @ stderr install)))) (\<lambda>_.
      bindS (liftE (require_command install ''could not install pinned pip-audit'')) (\<lambda>_.
      liftE (Inr (pinned_uv_executable (pr_root pr) c, join ''/'' [scanner_root pr c, ''bin'', ''pip-audit'']))))))))))"

definition write_missing :: "'v setup_tools \<Rightarrow> string \<Rightarrow> string \<Rightarrow> ('v, unit) setup_io" where
  "write_missing su name message s =
     (if map_of (pl_outputs s) name \<noteq> None then (Inr (), s) else write_output (su_evidence su) name (Text message) s)"

definition report_setup_failure :: "'v setup_tools \<Rightarrow> string \<Rightarrow> ('v, int) setup_io" where
  "report_setup_failure su message =
     bindS (write_missing su ''bootstrap.log'' (message @ [LF])) (\<lambda>_.
     bindS (write_missing su ''scanner-install.log'' (''Scanner setup did not complete.'' @ [LF])) (\<lambda>_.
     bindS (write_failure_diagnostics (su_evidence su) ''environment setup'' message) (\<lambda>_.
     liftE (Inr 1))))"

definition set_up_and_generate :: "'v setup_tools \<Rightarrow> process \<Rightarrow> string \<Rightarrow> ('v, int) setup_io" where
  "set_up_and_generate su pr output_dir =
     bindS (mapS (unlink_output (su_evidence su)) (SETUP_OUTPUTS @ GENERATED_OUTPUTS @ LEGACY_OUTPUTS)) (\<lambda>_ s.
     case bindS (prepare_environment su pr) (\<lambda>(uv, scanner). run_child su output_dir uv scanner) s of
       (Inr code, t) \<Rightarrow> (Inr code, t)
     | (Inl f, t) \<Rightarrow> (case handled_text f of
           None \<Rightarrow> (Inl f, t)
         | Some e \<Rightarrow> report_setup_failure su (redact_text e) t))"

definition evidence_main :: "'v setup_tools \<Rightarrow> process \<Rightarrow> evidence_arguments \<Rightarrow> ('v, int) setup_io" where
  "evidence_main su pr arguments =
     evidence_entry su pr (ea_output arguments)
       (if ea_generate_only arguments then generate_only su pr (ea_uv arguments) (ea_scanner arguments)
        else set_up_and_generate su pr)"

section \<open>The record does not outlive a failure\<close>

definition gone :: "'w place \<Rightarrow> bool" where
  "gone s \<longleftrightarrow> map_of (pl_outputs s) COMPLETION = None"

text \<open>Operations that do not make a completion record.\<close>

definition makes_none :: "('w place, 'e, 'a) io \<Rightarrow> bool" where
  "makes_none m \<longleftrightarrow> (\<forall>s r t. gone s \<longrightarrow> m s = (r, t) \<longrightarrow> gone t)"

named_theorems makes_none_rules

lemma makes_none_bindS [makes_none_rules]:
  assumes "makes_none m" "\<And>x. makes_none (f x)"
  shows "makes_none (bindS m f)"
  unfolding makes_none_def
proof (intro allI impI)
  fix s r t assume s: "gone s" and run: "bindS m f s = (r, t)"
  obtain q u where u: "m s = (q, u)" by fastforce
  then have "gone u" using assms(1) s unfolding makes_none_def by blast
  then show "gone t" using run u assms(2) unfolding bindS_def makes_none_def by (cases q) auto
qed

lemma makes_none_liftE [makes_none_rules]: "makes_none (liftE r)"
  by (simp add: makes_none_def liftE_def)

lemma makes_none_write: "name \<noteq> COMPLETION \<Longrightarrow> makes_none (write_output ts name c)"
  by (auto simp: makes_none_def write_output_def gone_def put_output_lookup split: if_splits option.splits)

lemma makes_none_missing: "name \<noteq> COMPLETION \<Longrightarrow> makes_none (write_missing su name message)"
  using makes_none_write [of name "su_evidence su" "Text message"] by (auto simp: makes_none_def write_missing_def split: if_splits)

lemma log_names: "''bootstrap.log'' \<noteq> COMPLETION" "''scanner-install.log'' \<noteq> COMPLETION" "''diagnostics.json'' \<noteq> COMPLETION"
  by code_simp+

lemmas makes_none_logs [makes_none_rules] =
  makes_none_write [OF log_names(1)] makes_none_write [OF log_names(2)] makes_none_missing [OF log_names(1)] makes_none_missing [OF log_names(2)]

lemma makes_none_directory [makes_none_rules]: "makes_none (make_output_directory ts)"
  by (auto simp: makes_none_def make_output_directory_def split: option.splits)

lemma makes_none_diagnostics [makes_none_rules]: "makes_none (write_diagnostics ts status stage e)"
  unfolding makes_none_def write_diagnostics_def write_json_def
  using makes_none_write [OF log_names(3)] unfolding makes_none_def by blast

lemma makes_none_bootstrap [makes_none_rules]: "makes_none (run_bootstrap su pr)"
  by (auto simp: makes_none_def run_bootstrap_def gone_def split: prod.splits sum.splits)

text \<open>Commands that leave the output directory alone.\<close>

definition tame :: "'w evidence_tools \<Rightarrow> bool" where
  "tame ts \<longleftrightarrow> (\<forall>command s. pl_outputs (snd (ev_run ts command s)) = pl_outputs s)"

lemma makes_none_command [makes_none_rules]: "tame ts \<Longrightarrow> makes_none (evidence_run ts command)"
  unfolding makes_none_def
proof (intro allI impI)
  fix s r t assume tame: "tame ts" and s: "gone s" and run: "evidence_run ts command s = (r, t)"
  have "pl_outputs t = pl_outputs s"
    using run tame [unfolded tame_def, rule_format, of command s]
    by (auto simp: evidence_run_def split: prod.splits sum.splits fault.splits)
  then show "gone t" using s by (simp add: gone_def)
qed

lemma makes_none_required [makes_none_rules]: "tame ts \<Longrightarrow> makes_none (required_run ts message command)"
  unfolding required_run_def by (intro makes_none_rules)

lemma makes_none_prepare: "tame (su_evidence su) \<Longrightarrow> makes_none (prepare_environment su pr)"
  unfolding prepare_environment_def Let_def by (intro makes_none_rules)

lemma makes_none_report: "makes_none (report_setup_failure su message)"
  unfolding report_setup_failure_def write_failure_diagnostics_def by (intro makes_none_rules)

lemma unlink_ok:
  "unlink_output ts name s = (Inr u, t) \<Longrightarrow> map_of (pl_outputs t) = (map_of (pl_outputs s))(name := None)"
  by (auto simp: unlink_output_def delete_conv split: if_splits option.splits)

lemma unlinked:
  "mapS (unlink_output ts) names s = (Inr us, t) \<Longrightarrow> n \<in> set names \<or> map_of (pl_outputs s) n = None \<Longrightarrow> map_of (pl_outputs t) n = None"
proof (induction names arbitrary: s us)
  case (Cons name names)
  then obtain u v where u: "unlink_output ts name s = (Inr u, v)" and rest: "mapS (unlink_output ts) names v = (Inr (tl us), t)"
    by (auto simp: ok_iff)
  show ?case by (rule Cons.IH [OF rest]) (use Cons.prems(2) unlink_ok [OF u] in auto)
qed (simp add: ok_iff)

text \<open>The record lists the digest of every other output, and the outputs are exactly the successful ones.\<close>

definition sealed_directory :: "'w evidence_tools \<Rightarrow> 'w place \<Rightarrow> bool" where
  "sealed_directory ts t \<longleftrightarrow> holds_exactly SUCCESSFUL_OUTPUTS t \<and>
    (\<exists>now package_count audit digests. map_of (pl_outputs t) COMPLETION =
        Some (OutputFile (Document (completion_document now package_count audit digests))) \<and>
      list_all2 (sealed ts t) (remove1 COMPLETION SUCCESSFUL_OUTPUTS) digests)"

definition generator_crashed :: "'w evidence_tools \<Rightarrow> 'w place \<Rightarrow> bool" where
  "generator_crashed ts t \<longleftrightarrow> (\<exists>rq v e. generate_dependency_evidence ts rq v = (Inl e, t) \<and> (\<forall>m. e \<noteq> Failed m))"

lemma generate_outcome:
  assumes "generate_dependency_evidence ts rq v = (r, t)"
  shows "case r of Inr u \<Rightarrow> sealed_directory ts t | Inl (Failed m) \<Rightarrow> gone t | Inl e \<Rightarrow> generator_crashed ts t"
proof (cases r)
  case (Inr u)
  obtain c locked audit w where "completion_stage ts rq c locked audit w = (Inr (), t)"
    by (rule generate_completed [OF assms [unfolded Inr]])
  from completion_stage_ok [OF this] show ?thesis unfolding Inr sealed_directory_def sum.case by blast
next
  case (Inl e)
  show ?thesis
  proof (cases e)
    case (Failed m)
    obtain stage x u where "take_back ts stage (redact_text x) u = (Inl (Failed m), t)"
      by (rule generate_failed [OF assms [unfolded Inl Failed]])
    from take_back_error [OF this] show ?thesis by (simp add: Inl Failed gone_def)
  qed (use assms Inl in \<open>auto simp: generator_crashed_def\<close>)
qed

lemma child_outcome:
  assumes "run_child su output_dir uv scanner v = (Inr code, t)" "gone v"
  shows "code = 0 \<and> sealed_directory (su_evidence su) t \<or> code \<noteq> 0 \<and> gone t \<or> code = 1 \<and> generator_crashed (su_evidence su) t"
proof -
  let ?ts = "su_evidence su"
  let ?k = "generate_only su (su_child su) (Some uv) (Some scanner)"
  have body: "r = Inr 0 \<and> sealed_directory ?ts u \<or> r = Inr 1 \<and> gone u \<or> (\<exists>e. r = Inl e) \<and> generator_crashed ?ts u"
    if "?k d w = (r, u)" for d w r u
  proof -
    obtain q x where q: "generate_dependency_evidence ?ts (generator_request su (su_child su) d uv scanner) w = (q, x)" by fastforce
    show ?thesis
      using that generate_outcome [OF q]
      by (auto simp: generate_only_def q split: sum.splits evidence_failure.splits)
  qed
  obtain r where r: "evidence_entry su (su_child su) output_dir ?k v = (r, t)" and code: "code = (case r of Inl e \<Rightarrow> 1 | Inr c \<Rightarrow> c)"
    using assms(1) by (auto simp: run_child_def split: option.splits prod.splits sum.splits)
  consider "r = Inr 2" "t = v" | e where "r = Inl e" "t = v" | d where "?k d v = (r, t)"
    using r by (auto simp: evidence_entry_def Let_def bindS_def liftE_def make_output_directory_def split: if_splits option.splits prod.splits sum.splits)
  then show ?thesis
  proof cases
    case 3
    from body [OF this] show ?thesis using code by auto
  qed (use code assms(2) in auto)
qed


text \<open>A machine on which nothing can be started, after a run that left a record.\<close>

definition offline_tools :: "nat setup_tools" where
  "offline_tools =
     \<lparr>su_evidence = \<lparr>ev_run = (\<lambda>command s. (Inl (Refused ''no such file''), s)),
        ev_mkdir_fault = (\<lambda>s. None), ev_unlink_fault = (\<lambda>name s. None), ev_write_fault = (\<lambda>name c s. None),
        ev_read_fault = (\<lambda>name s. None), ev_directory_text = (\<lambda>name. name), ev_now = (\<lambda>s. []), ev_sha256 = (\<lambda>c. []),
        ev_parse_json = (\<lambda>text. Inl []), ev_float_text = (\<lambda>q. []), ev_resolve = (\<lambda>p. p), ev_requirement = (\<lambda>line. None),
        ev_issue_text = (\<lambda>i. []), ev_playwright = (\<lambda>s. None)\<rparr>,
      su_bootstrap = small_tools\<lparr>tl_run := (\<lambda>command s. (Inl (), s)), tl_is_file := (\<lambda>p s. False)\<rparr>,
      su_failure_text = (\<lambda>f. ''no such file''),
      su_child = \<lparr>pr_root = ''/repo'', pr_executable = ''/py'', pr_version = ''3.12.8'', pr_implementation = ''CPython'',
        pr_platform = ''linux'', pr_files = small_files\<rparr>,
      su_start_fault = (\<lambda>s. None)\<rparr>"

definition default_arguments :: evidence_arguments where
  "default_arguments = \<lparr>ea_output = ''artifacts/dependency-evidence'', ea_generate_only = False, ea_uv = None, ea_scanner = None\<rparr>"

definition sealed_before :: "nat machine place" where
  "sealed_before = \<lparr>pl_outputs = [(''completion.json'', OutputFile (Text ''old''))], pl_world = fresh_machine\<rparr>"


end
