(* ===== verification/Evidence_Redaction.thy ===== *)
theory Evidence_Redaction
  imports Evidence
begin

text \<open>
  What \<open>redact_text\<close> of \<open>src/api_tests/dependency_evidence.py\<close> guarantees: no GitHub token is left in the text.  A
  token is a maximal run of word characters, and a replacement neither contains one nor runs into the text around it;
  so a token of the result would be a token of the text at a place where the scan found none.
\<close>

section \<open>Tokens\<close>

definition last_of :: "char option \<Rightarrow> string \<Rightarrow> char option" where
  "last_of before s = (if s = [] then before else Some (last s))"

lemma last_of_simps [simp]:
  "last_of before [] = before" "last_of before (c # s) = last_of (Some c) s"
  "last_of before (s @ t) = last_of (last_of before s) t"
  by (simp_all add: last_of_def)

text \<open>A token of GitHub stands in the text, with word boundaries around it.\<close>

definition has_token :: "char option \<Rightarrow> string \<Rightarrow> bool" where
  "has_token before s \<longleftrightarrow>
     (\<exists>a m b. s = a @ m @ b \<and> m \<in> lang KNOWN_TOKEN \<and> whole_words (last_of before a) m b)"

lemma lang_Rep_Cls: "u \<in> lang (Rep n (Cls P)) \<Longrightarrow> list_all P u"
  by (simp add: lang_Rep_iff)

lemma token_char_word: "token_char c \<Longrightarrow> is_word c"
  by (auto simp: token_char_def is_word_def is_alnum_def is_alpha_def is_digit_def is_ascii_alnum_def)

lemma letters_word: "c \<in> set ''abcdefghijklmnopqrstuvwxyz_'' \<Longrightarrow> is_word c"
proof -
  have "list_all is_word ''abcdefghijklmnopqrstuvwxyz_''" by code_simp
  then show "c \<in> set ''abcdefghijklmnopqrstuvwxyz_'' \<Longrightarrow> is_word c" unfolding list_all_iff by blast
qed

lemma at_least_word: "u \<in> lang (AtLeast n (Cls token_char)) \<Longrightarrow> list_all is_word u"
proof -
  assume "u \<in> lang (AtLeast n (Cls token_char))"
  then obtain v w where "u = v @ w" "v \<in> lang (Rep n (Cls token_char))" "w \<in> lang (Star (Cls token_char))"
    unfolding AtLeast_def lang.simps(3) by blast
  then have "list_all token_char u" unfolding lang_Star_Cls using lang_Rep_Cls by auto
  then show ?thesis by (auto simp: list_all_iff token_char_word)
qed

lemma token_shape: "m \<in> lang KNOWN_TOKEN \<Longrightarrow> (\<exists>m'. m = CHR ''g'' # m') \<and> list_all is_word m"
proof -
  assume "m \<in> lang KNOWN_TOKEN"
  then consider c u where "m = ''gh'' @ [c] @ ''_'' @ u" "c \<in> set ''pousr''" "u \<in> lang (AtLeast 20 (Cls token_char))"
    | u where "m = ''github_pat_'' @ u" "u \<in> lang (AtLeast 20 (Cls token_char))"
    unfolding KNOWN_TOKEN_def Seqs.simps lang.simps(2,3,4) lang_Lit by blast
  then show ?thesis
  proof cases
    case 1
    have "is_word c" using 1(2) by (intro letters_word) auto
    moreover have "list_all is_word ''gh''" "list_all is_word ''_''" by code_simp+
    ultimately show ?thesis using at_least_word [OF 1(3)] unfolding 1(1) by simp
  next
    case 2
    have "list_all is_word ''github_pat_''" by code_simp
    then show ?thesis using at_least_word [OF 2(2)] unfolding 2(1) by simp
  qed
qed

section \<open>Replacements that keep to themselves\<close>

definition wordy :: "char option \<Rightarrow> bool" where
  "wordy a = case_option False is_word a"

lemma boundary_wordy: "boundary a b \<longleftrightarrow> wordy a \<noteq> wordy b"
  by (simp add: boundary_def wordy_def)

lemma wordy_simps [simp]: "\<not> wordy None" "wordy (Some c) = is_word c"
  by (simp_all add: wordy_def)

fun tame :: "(way \<Rightarrow> string) \<Rightarrow> char option \<Rightarrow> piece list \<Rightarrow> bool" where
  "tame f before [] = True"
| "tame f before (Kept c # ps) = tame f (Some c) ps"
| "tame f before (Hit w # ps) \<longleftrightarrow> \<not> wordy before \<and> wordy (first_of (way_text w)) \<and> CHR ''g'' \<notin> set (f w) \<and>
     f w \<noteq> [] \<and> \<not> is_word (last (f w)) \<and> \<not> wordy (first_of (concat (map original ps))) \<and>
     tame f (last_of before (way_text w)) ps"

lemma first_of_append: "first_of (s @ t) = (if s = [] then first_of t else first_of s)"
  by (cases s) (auto simp: first_of_def)

text \<open>Inside a run of word characters every piece is kept.\<close>

lemma run_is_kept:
  assumes "tame f before ps" and "wordy before" and "concat (map (render f) ps) = m @ b" and "list_all is_word m"
    and "\<not> wordy (first_of b)"
  shows "\<exists>b'. concat (map original ps) = m @ b' \<and> \<not> wordy (first_of b')"
  using assms
proof (induction m arbitrary: before ps)
  case Nil
  show ?case
  proof (cases ps)
    case Nil
    then show ?thesis by (simp add: first_of_def)
  next
    case (Cons p qs)
    then obtain c where "p = Kept c" using Nil.prems(1,2) by (cases p) auto
    then have "b = c # concat (map (render f) qs)" using Nil.prems(3) Cons by simp
    then show ?thesis using Nil.prems(5) Cons \<open>p = Kept c\<close> by (simp add: first_of_def)
  qed
next
  case (Cons c m)
  obtain p qs where ps: "ps = p # qs" using Cons.prems(3) by (cases ps) auto
  obtain d where p: "p = Kept d" using Cons.prems(1,2) ps by (cases p) auto
  have "d = c" and rest: "concat (map (render f) qs) = m @ b" using Cons.prems(3) by (simp_all add: ps p)
  have "tame f (Some d) qs" "wordy (Some d)" using Cons.prems(1,4) \<open>d = c\<close> by (simp_all add: ps p)
  from Cons.IH [OF this rest _ Cons.prems(5)] Cons.prems(4) show ?case using ps p \<open>d = c\<close> by auto
qed

text \<open>A token of the rendered text is a token of the original, and begins where a character was kept.\<close>

lemma rendered_token:
  assumes "tame f before ps" and "concat (map (render f) ps) = a @ m @ b" and "m \<in> lang KNOWN_TOKEN"
    and "whole_words (last_of before' a) m b"
    and "wordy before = wordy before' \<or> \<not> wordy (first_of (concat (map original ps)))"
  shows "\<exists>ps1 c ps2 b'. ps = ps1 @ Kept c # ps2 \<and> c # concat (map original ps2) = m @ b' \<and>
    whole_words (last_of before (concat (map original ps1))) m b'"
  using assms
proof (induction ps arbitrary: before before' a)
  case Nil
  then show ?case using token_shape [OF assms(3)] by auto
next
  case (Cons p ps)
  obtain m' where m: "m = CHR ''g'' # m'" and word: "list_all is_word m" using token_shape [OF assms(3)] by blast
  have ends: "wordy (first_of (rev m))"
  proof (cases "rev m")
    case (Cons c cs)
    then have "c \<in> set m" by (metis list.set_intros(1) set_rev)
    then show ?thesis using word Cons by (simp add: list_all_iff first_of_def)
  qed (simp add: m)
  show ?case
  proof (cases p)
    case (Kept c)
    show ?thesis
    proof (cases a)
      case Nil
      have c: "c = CHR ''g''" and rest: "concat (map (render f) ps) = m' @ b" using Cons.prems(2) Kept Nil m by auto
      have g: "is_word CHR ''g''" using word m by simp
      have tame: "tame f (Some c) ps" using Cons.prems(1) Kept by simp
      have after: "\<not> wordy (first_of b)" using Cons.prems(4) ends by (simp add: whole_words_def boundary_wordy)
      obtain b' where b': "concat (map original ps) = m' @ b'" "\<not> wordy (first_of b')"
        using run_is_kept [OF tame _ rest _ after] word m g c by auto
      have "\<not> wordy before'" using Cons.prems(4) Nil m g by (simp add: whole_words_def boundary_wordy first_of_def)
      then have "\<not> wordy before" using Cons.prems(5) Kept c g by (simp add: first_of_def)
      then have "whole_words before m b'" using b'(2) ends m g by (simp add: whole_words_def boundary_wordy first_of_def)
      then have "p # ps = [] @ Kept c # ps \<and> c # concat (map original ps) = m @ b' \<and>
          whole_words (last_of before (concat (map original []))) m b'" using Kept b'(1) c m by simp
      then show ?thesis by blast
    next
      case (Cons d a')
      then have eqs: "concat (map (render f) ps) = a' @ m @ b" "tame f (Some c) ps" "whole_words (last_of (Some c) a') m b"
        using Cons.prems Kept by auto
      then obtain ps1 e ps2 b' where "ps = ps1 @ Kept e # ps2" "e # concat (map original ps2) = m @ b'"
        "whole_words (last_of (Some c) (concat (map original ps1))) m b'"
        using Cons.IH [of "Some c" a' "Some c"] assms(3) by blast
      then have "p # ps = (p # ps1) @ Kept e # ps2 \<and> e # concat (map original ps2) = m @ b' \<and>
          whole_words (last_of before (concat (map original (p # ps1)))) m b'" using Kept by simp
      then show ?thesis by blast
    qed
  next
    case (Hit w)
    have g: "CHR ''g'' \<notin> set (f w)" "f w \<noteq> []" "\<not> is_word (last (f w))" and rest: "\<not> wordy (first_of (concat (map original ps)))"
      and tame: "tame f (last_of before (way_text w)) ps" using Cons.prems(1) Hit by auto
    have whole: "f w @ concat (map (render f) ps) = a @ m @ b" using Cons.prems(2) Hit by simp
    then obtain a' where a: "a = f w @ a'" and eq: "concat (map (render f) ps) = a' @ m @ b"
    proof -
      from whole consider us where "f w = a @ us" "us @ concat (map (render f) ps) = m @ b"
        | us where "a = f w @ us" "concat (map (render f) ps) = us @ m @ b"
        unfolding append_eq_append_conv2 by auto
      then show thesis
      proof cases
        case 1
        then have "us = []" using g(1) m by (cases us) auto
        then show ?thesis using 1 that [of "[]"] by simp
      next
        case 2
        then show ?thesis using that by blast
      qed
    qed
    have "whole_words (last_of (Some (last (f w))) a') m b"
      using Cons.prems(4) g(2) by (simp add: a last_of_def [of before' "f w"])
    then obtain ps1 e ps2 b' where "ps = ps1 @ Kept e # ps2" "e # concat (map original ps2) = m @ b'"
      "whole_words (last_of (last_of before (way_text w)) (concat (map original ps1))) m b'"
      using Cons.IH [OF tame eq assms(3)] rest by blast
    then have "p # ps = (p # ps1) @ Kept e # ps2 \<and> e # concat (map original ps2) = m @ b' \<and>
        whole_words (last_of before (concat (map original (p # ps1)))) m b'" using Hit by simp
    then show ?thesis by blast
  qed
qed

section \<open>No token survives\<close>

lemma scanned_append: "scanned ctx r before (ps @ qs) \<Longrightarrow> scanned ctx r (last_of before (concat (map original ps))) qs"
proof (induction ps arbitrary: before)
  case (Cons p ps)
  then show ?case
  proof (cases p)
    case (Hit w)
    then have "last_of before (way_text w) = Some (last (way_text w))" using Cons.prems by (simp add: last_of_def)
    then show ?thesis using Cons Hit by simp
  qed simp
qed simp

lemma REDACTED_shape: "CHR ''g'' \<notin> set REDACTED" "REDACTED \<noteq> []" "\<not> is_word (last REDACTED)"
  by code_simp+

lemma tame_tokens: "scanned whole_words KNOWN_TOKEN before ps \<Longrightarrow> tame (\<lambda>w. REDACTED) before ps"
proof (induction ps arbitrary: before)
  case (Cons p ps)
  show ?case
  proof (cases p)
    case (Hit w)
    then have w: "way_text w \<in> lang KNOWN_TOKEN" "way_rest w = concat (map original ps)" "whole_words before (way_text w) (way_rest w)"
      "scanned whole_words KNOWN_TOKEN (Some (last (way_text w))) ps" using Cons.prems by auto
    obtain m' where m: "way_text w = CHR ''g'' # m'" and word: "list_all is_word (way_text w)" using token_shape [OF w(1)] by blast
    have "wordy (first_of (way_text w))" using m word by (simp add: first_of_def)
    moreover have "wordy (first_of (rev (way_text w)))"
    proof (cases "rev (way_text w)")
      case (Cons c cs)
      then have "c \<in> set (way_text w)" by (metis list.set_intros(1) set_rev)
      then show ?thesis using word Cons by (simp add: list_all_iff first_of_def)
    qed (simp add: m)
    moreover have "last_of before (way_text w) = Some (last (way_text w))" using m by (simp add: last_of_def)
    ultimately show ?thesis
      using w Cons.IH [OF w(4)] REDACTED_shape by (simp add: Hit whole_words_def boundary_wordy)
  qed (use Cons in simp)
qed simp

lemma no_token_after_tokens: "\<not> has_token None (rx_sub whole_words KNOWN_TOKEN (\<lambda>w. REDACTED) s)"
proof
  let ?ps = "scan whole_words KNOWN_TOKEN None s"
  assume "has_token None (rx_sub whole_words KNOWN_TOKEN (\<lambda>w. REDACTED) s)"
  then obtain a m b where whole: "concat (map (render (\<lambda>w. REDACTED)) ?ps) = a @ m @ b" and m: "m \<in> lang KNOWN_TOKEN"
    "whole_words (last_of None a) m b" unfolding has_token_def rx_sub_def by blast
  from rendered_token [OF tame_tokens [OF scan_scanned] whole m]
  obtain ps1 c ps2 b' where ps: "?ps = ps1 @ Kept c # ps2" and found: "c # concat (map original ps2) = m @ b'"
    "whole_words (last_of None (concat (map original ps1))) m b'" by blast
  have "scanned whole_words KNOWN_TOKEN (last_of None (concat (map original ps1))) (Kept c # ps2)"
    using scanned_append scan_scanned ps by metis
  then have "\<not> whole_words (last_of None (concat (map original ps1))) m b'"
    using found(1) m(1) token_shape [OF m(1)] by auto
  with found(2) show False by contradiction
qed

text \<open>The replacement of an assignment keeps its name and its separator, in which no token can begin.\<close>

lemma lang_LitI: "u \<in> lang (LitI v) \<Longrightarrow> map lower_char u = v"
  by (induction v arbitrary: u) auto

definition secret_letters :: string where
  "secret_letters = ''authorizationcookiepasswordsessiontokenapikey_-''"

lemma secret_name_letters:
  "u \<in> lang SECRET_NAMES \<Longrightarrow> u \<noteq> [] \<and> lower_char (hd u) \<in> set ''acpst'' \<and> set (map lower_char u) \<subseteq> set secret_letters"
proof -
  assume "u \<in> lang SECRET_NAMES"
  then consider v where "map lower_char u = v" "v \<in> {''authorization'', ''cookie'', ''password'', ''session'', ''token''}"
    | x y z where "u = x @ y @ z" "map lower_char x = ''api''" "y = [] \<or> (\<exists>c. y = [c] \<and> c \<in> set ''_-'')" "map lower_char z = ''key''"
    unfolding SECRET_NAMES_def Alts.simps Seqs.simps Opt_def lang.simps(1,2,3,4) Un_iff mem_Collect_eq
    by (elim disjE exE conjE) (blast dest: lang_LitI)+
  then show ?thesis
  proof cases
    case 1
    have "list_all (\<lambda>v. v \<noteq> [] \<and> hd v \<in> set ''acpst'' \<and> set v \<subseteq> set secret_letters) [''authorization'', ''cookie'', ''password'', ''session'', ''token'']"
      by code_simp
    then have v: "v \<noteq> [] \<and> hd v \<in> set ''acpst'' \<and> set v \<subseteq> set secret_letters" using 1(2) by (auto simp: list_all_iff)
    then have "u \<noteq> []" using 1(1) by auto
    then show ?thesis using v 1(1) by (metis list.map_sel(1))
  next
    case 2
    have "set ''api'' \<subseteq> set secret_letters" "set ''key'' \<subseteq> set secret_letters"
      "lower_char CHR ''_'' \<in> set secret_letters" "lower_char CHR ''-'' \<in> set secret_letters" by code_simp+
    moreover obtain c cs where "x = c # cs" "lower_char c = CHR ''a''" using 2(2) by (cases x) auto
    ultimately show ?thesis using 2 unfolding 2(1) map_append set_append by auto
  qed
qed

lemma first_way_starts_word:
  assumes "first_way starts_word r before s = Some w" and "[] \<notin> lang r"
  shows "rx_match r s = Some w"
proof -
  have w: "w \<in> set (ways r s)" "starts_word before (way_text w) (way_rest w)"
    using assms(1) by (auto simp: first_way_def find_Some_iff)
  then obtain v vs where ways: "ways r s = v # vs" by (cases "ways r s") auto
  have first: "way_text x \<noteq> [] \<and> first_of (way_text x) = first_of s" if "x \<in> set (ways r s)" for x
  proof -
    have "s = way_text x @ way_rest x" "way_text x \<in> lang r" using ways_sound [OF that] by blast+
    then show ?thesis using assms(2) by (metis first_of_append)
  qed
  then have "way_text v \<noteq> []" "starts_word before (way_text v) (way_rest v)"
    using w(2) first [OF w(1)] first [of v] by (simp_all add: ways starts_word_def)
  then have "first_way starts_word r before s = Some v" by (simp add: first_way_def ways)
  then show ?thesis using assms(1) ways by (simp add: rx_match_def)
qed

lemma rx_match_SeqE:
  assumes "rx_match (Seq r q) s = Some w"
  obtains v u where "v \<in> set (ways r s)" and "rx_match q (way_rest v) = Some u" and "w = way_then v u"
proof -
  have "\<exists>v \<in> set vs. \<exists>u us'. ways q (way_rest v) = u # us' \<and> w = way_then v u"
    if "concat (map (\<lambda>v. map (way_then v) (ways q (way_rest v))) vs) = w # us" for vs us
    using that
  proof (induction vs)
    case (Cons v vs)
    then show ?case by (cases "ways q (way_rest v)") auto
  qed simp
  moreover obtain us where "ways (Seq r q) s = w # us" using assms by (auto simp: rx_match_def split: list.splits)
  ultimately obtain v u us' where "v \<in> set (ways r s)" "ways q (way_rest v) = u # us'" "w = way_then v u"
    unfolding ways.simps by blast
  then show thesis using that by (simp add: rx_match_def)
qed

lemma rx_match_Plus_rest:
  assumes "rx_match (Grp n (Plus (Cls P))) s = Some w"
  shows "way_rest w = [] \<or> \<not> P (hd (way_rest w))"
proof -
  obtain v where v: "rx_match (Plus (Cls P)) s = Some v" "way_rest w = way_rest v"
    using assms by (auto simp: rx_match_Grp)
  obtain a u where "rx_match (Star (Cls P)) (way_rest a) = Some u" "v = way_then a u"
    using rx_match_SeqE [OF v(1) [unfolded Plus_def]] by metis
  then have "way_rest w = dropWhile P (way_rest a)" using v(2) by (auto simp: rx_match_Star_Cls)
  then show ?thesis by (metis hd_dropWhile)
qed

lemma ways_GrpE:
  assumes "w \<in> set (ways (Grp n r) s)" and "group_free r"
  shows "way_groups w = [(n, way_text w)] \<and> way_text w \<in> lang r"
  using assms ways_sound [OF assms(1)] by (auto dest: group_free_ways)

definition SEPARATOR :: rx where
  "SEPARATOR = Seqs [Star (Cls is_space), Cls (\<lambda>c. c \<in> set '':=''), Star (Cls is_space)]"

lemma separator_free: "u \<in> lang SEPARATOR \<Longrightarrow> list_all (\<lambda>c. is_space c \<or> c \<in> set '':='') u"
  unfolding SEPARATOR_def Seqs.simps lang.simps(2,3) lang_Star_Cls by (auto simp: list_all_iff)

lemma group_free_names: "group_free SECRET_NAMES" "group_free SEPARATOR"
  by code_simp+

lemma secret_match:
  assumes "first_way starts_word SECRET_ASSIGNMENT before s = Some w"
  shows "kept_group ''1'' w \<in> lang SECRET_NAMES \<and> kept_group ''2'' w \<in> lang SEPARATOR \<and>
    (\<exists>t. way_text w = kept_group ''1'' w @ kept_group ''2'' w @ t) \<and>
    (way_rest w = [] \<or> is_space (hd (way_rest w)) \<or> hd (way_rest w) \<in> set '',;'')"
proof -
  let ?val = "Grp ''3'' (Plus (Cls (\<lambda>c. \<not> is_space c \<and> c \<notin> set '',;'')))"
  have eq: "SECRET_ASSIGNMENT = Seq (Grp ''1'' SECRET_NAMES) (Seq (Grp ''2'' SEPARATOR) ?val)"
    unfolding SECRET_ASSIGNMENT_def SEPARATOR_def Seqs.simps by (rule refl)
  have "[] \<notin> lang SECRET_ASSIGNMENT"
  proof
    assume "[] \<in> lang SECRET_ASSIGNMENT"
    then obtain u v where "[] = u @ v" "u \<in> lang SECRET_NAMES" unfolding eq lang.simps(3,6) by blast
    then show False using secret_name_letters by blast
  qed
  then have match: "rx_match SECRET_ASSIGNMENT s = Some w" using assms by (rule first_way_starts_word [rotated])
  obtain v1 u where v1: "v1 \<in> set (ways (Grp ''1'' SECRET_NAMES) s)"
    and u: "rx_match (Seq (Grp ''2'' SEPARATOR) ?val) (way_rest v1) = Some u" and w: "w = way_then v1 u"
    by (rule rx_match_SeqE [OF match [unfolded eq]])
  obtain v2 v3 where v2: "v2 \<in> set (ways (Grp ''2'' SEPARATOR) (way_rest v1))" and v3: "rx_match ?val (way_rest v2) = Some v3"
    and u2: "u = way_then v2 v3"
    by (rule rx_match_SeqE [OF u])
  note g1 = ways_GrpE [OF v1 group_free_names(1)] and g2 = ways_GrpE [OF v2 group_free_names(2)]
  have "kept_group ''1'' w = way_text v1" "kept_group ''2'' w = way_text v2"
    using g1 g2 by (simp_all add: kept_group_def rx_group_def w u2)
  moreover have "way_text w = way_text v1 @ way_text v2 @ way_text v3" "way_rest w = way_rest v3" by (simp_all add: w u2)
  ultimately show ?thesis using g1 g2 rx_match_Plus_rest [OF v3] by auto
qed

lemma no_g_in_names: "u \<in> lang SECRET_NAMES \<Longrightarrow> CHR ''g'' \<notin> set u"
proof
  assume u: "u \<in> lang SECRET_NAMES" and "CHR ''g'' \<in> set u"
  then have "lower_char CHR ''g'' \<in> set secret_letters" using secret_name_letters by auto
  moreover have "lower_char CHR ''g'' \<notin> set secret_letters" by code_simp
  ultimately show False by contradiction
qed

lemma lower_ascii: "is_ascii_lower (lower_char c) \<Longrightarrow> is_ascii_letter c"
  by (auto simp: is_ascii_lower_def is_ascii_upper_def is_ascii_letter_def lower_char_def Let_def of_char_of split: if_splits)

lemma name_starts_word: "u \<in> lang SECRET_NAMES \<Longrightarrow> is_word (hd u)"
proof -
  assume "u \<in> lang SECRET_NAMES"
  then have "lower_char (hd u) \<in> set ''acpst''" using secret_name_letters by blast
  moreover have "list_all is_ascii_lower ''acpst''" by code_simp
  ultimately have "is_ascii_letter (hd u)" using lower_ascii unfolding list_all_iff by blast
  then show ?thesis by (simp add: is_word_def is_alnum_def is_alpha_def)
qed

lemma space_not_word: "is_space c \<Longrightarrow> \<not> is_word c"
  by (auto simp: is_space_def is_word_def is_alnum_def is_alpha_def is_digit_def is_ascii_letter_def is_ascii_upper_def
      is_ascii_lower_def is_ascii_digit_def Let_def)

definition keep_secret_name :: "way \<Rightarrow> string" where
  "keep_secret_name w = kept_group ''1'' w @ kept_group ''2'' w @ REDACTED"

lemma tame_secrets: "tame keep_secret_name before (scan starts_word SECRET_ASSIGNMENT before s)"
proof (induction "length s" arbitrary: s before rule: less_induct)
  case less
  show ?case
  proof (cases rule: scan_cases [of s _ starts_word SECRET_ASSIGNMENT before])
    case (Hit w)
    have len: "length (way_rest w) < length s" using Hit(2,3) by (metis length_append length_greater_0_conv less_add_same_cancel2)
    note m = secret_match [OF Hit(1)]
    have k1: "kept_group ''1'' w \<noteq> []" "is_word (hd (kept_group ''1'' w))" "CHR ''g'' \<notin> set (kept_group ''1'' w)"
      using m secret_name_letters name_starts_word no_g_in_names by blast+
    have "list_all (\<lambda>c. is_space c \<or> c \<in> set '':='') (kept_group ''2'' w)" using m separator_free by blast
    moreover have "\<not> is_space CHR ''g''" by code_simp
    ultimately have k2: "CHR ''g'' \<notin> set (kept_group ''2'' w)" by (auto simp: list_all_iff)
    have first: "wordy (first_of (way_text w))"
    proof -
      obtain t where "way_text w = kept_group ''1'' w @ t" using m by auto
      then show ?thesis using k1(1,2) by (cases "kept_group ''1'' w") (auto simp: first_of_def)
    qed
    moreover have "starts_word before (way_text w) (way_rest w)" using first_way_sound [OF Hit(1)] by blast
    ultimately have "\<not> wordy before" by (simp add: starts_word_def boundary_wordy)
    moreover have "\<not> wordy (first_of (way_rest w))"
    proof (cases "way_rest w")
      case (Cons c cs)
      have "\<not> is_word CHR '',''" "\<not> is_word CHR '';''" by code_simp+
      then show ?thesis using m Cons space_not_word by (auto simp: first_of_def)
    qed (simp add: first_of_def)
    moreover have "last_of before (way_text w) = Some (last (way_text w))" using Hit(3) by (simp add: last_of_def)
    moreover have "tame keep_secret_name (Some (last (way_text w))) (scan starts_word SECRET_ASSIGNMENT (Some (last (way_text w))) (way_rest w))"
      by (rule less.hyps [OF len])
    ultimately show ?thesis
      using first k1(3) k2 REDACTED_shape by (simp add: scan_Hit [OF Hit(1)] scan_original keep_secret_name_def)
  next
    case (Kept c cs)
    then show ?thesis using less by (simp add: scan_Kept)
  qed simp
qed

lemma secrets_keep_tokens:
  assumes "has_token None (rx_sub starts_word SECRET_ASSIGNMENT keep_secret_name s)"
  shows "has_token None s"
proof -
  let ?ps = "scan starts_word SECRET_ASSIGNMENT None s"
  obtain a m b where whole: "concat (map (render keep_secret_name) ?ps) = a @ m @ b" and m: "m \<in> lang KNOWN_TOKEN"
    "whole_words (last_of None a) m b" using assms unfolding has_token_def rx_sub_def by blast
  from rendered_token [OF tame_secrets whole m]
  obtain ps1 c ps2 b' where ps: "?ps = ps1 @ Kept c # ps2" and found: "c # concat (map original ps2) = m @ b'"
    "whole_words (last_of None (concat (map original ps1))) m b'" by blast
  have "s = concat (map original ps1) @ m @ b'"
    using scan_original [of starts_word SECRET_ASSIGNMENT None s] unfolding ps by (simp add: found(1))
  then show ?thesis using found(2) m(1) unfolding has_token_def by blast
qed

text \<open>
  C11. No token survives: the redacted text has no GitHub token, that is no word of the token pattern between word
  boundaries, whatever the text was.
\<close>

theorem no_token_survives_redaction: "\<not> has_token None (redact_text s)"
proof -
  have "redact_text s = rx_sub starts_word SECRET_ASSIGNMENT keep_secret_name (rx_sub whole_words KNOWN_TOKEN (\<lambda>w. REDACTED)
      (rx_sub any_context URL_USERINFO (\<lambda>w. kept_group ''1'' w @ REDACTED @ ''@'') s))"
    by (simp add: redact_text_def keep_secret_name_def [abs_def] Let_def)
  then show ?thesis using secrets_keep_tokens no_token_after_tokens by metis
qed

end
