(* ===== verification/Redaction.thy ===== *)
theory Redaction
  imports Py_Sub Py_Repr Client
begin

text \<open>
  \<open>src/api_tests/logging.py\<close>: what is written about a response.  Headers, JSON bodies, other bodies and URLs are redacted
  before they reach the request log or the message of a failure.  A response is what the library gives the hooks: the
  decoded body, the header items and the request.  Parameters: the JSON parser (\<open>None\<close> is its \<open>JSONDecodeError\<close>), the
  \<open>repr\<close> of a float, \<open>unquote\<close>, and the file system's refusal of the log.
\<close>

section \<open>Patterns\<close>

definition MAX_BODY_BYTES :: nat where
  "MAX_BODY_BYTES = 4096"

definition SENSITIVE_HEADER_NAMES :: "string list" where
  "SENSITIVE_HEADER_NAMES = [''authorization'', ''cookie'', ''location'', ''set-cookie'']"

definition SENSITIVE_OAUTH_QUERY_NAMES :: "string list" where
  "SENSITIVE_OAUTH_QUERY_NAMES = [''client_id'', ''code'', ''code_challenge'', ''id_token_hint'', ''nonce'', ''state'']"

definition SENSITIVE_PROFILE_QUERY_NAMES :: "string list" where
  "SENSITIVE_PROFILE_QUERY_NAMES = [''displayname'', ''email'', ''id'', ''idpsub'']"

definition USER_PROFILE_KEYS :: "string list" where
  "USER_PROFILE_KEYS = [''displayname'', ''email'', ''id'', ''idpsub'', ''name'', ''sub'']"

definition IDENTITY_REFERENCE_KEYS :: "string list" where
  "IDENTITY_REFERENCE_KEYS = [''createdby'', ''deactivatedby'', ''deletedby'', ''ownerid'', ''updatedby'', ''userid'']"

definition SENSITIVE_KEY_RE :: rx where
  "SENSITIVE_KEY_RE = Alts (map LitI
     [''authorization'', ''cookie'', ''email'', ''username'', ''password'', ''client_secret'', ''access_token'', ''refresh_token'',
      ''id_token'', ''token''])"

definition local_char :: "char \<Rightarrow> bool" where
  "local_char c \<longleftrightarrow> is_ascii_alnum c \<or> c \<in> set ''._%+-''"

definition domain_char :: "char \<Rightarrow> bool" where
  "domain_char c \<longleftrightarrow> is_ascii_alnum c \<or> c \<in> set ''.-''"

definition EMAIL_RE :: rx where
  "EMAIL_RE = Seqs [Plus (Cls local_char), Lit ''@'', Plus (Cls domain_char), Lit ''.'', AtLeast 2 (Cls is_ascii_letter)]"

text \<open>The look-behind and the look-ahead of the pattern.\<close>

definition email_context :: match_context where
  "email_context before matched behind \<longleftrightarrow>
     \<not> case_option False local_char before \<and> \<not> case_option False domain_char (first_of behind)"

definition preview_char :: "char \<Rightarrow> bool" where
  "preview_char c \<longleftrightarrow> is_ascii_alnum c \<or> c \<in> set ''_-''"

definition PREVIEW_TOKEN_RE :: rx where
  "PREVIEW_TOKEN_RE = Seqs [Lit ''v2.'', Plus (Cls preview_char), Lit ''.'', Plus (Cls preview_char)]"

abbreviation spaces :: rx where "spaces \<equiv> Star (Cls is_space)"
abbreviation quote_mark :: rx where "quote_mark \<equiv> Opt (Cls (\<lambda>c. c = CHR 0x22 \<or> c = CHR 0x27))"

definition BEARER_RE :: rx where
  "BEARER_RE = Seqs
     [Grp ''1'' (Seqs [LitI ''authorization:'', spaces, LitI ''bearer'', Plus (Cls is_space)]),
      Plus (Cls (\<lambda>c. \<not> is_space c \<and> c \<notin> set '',;''))]"

definition CREDENTIAL_RE :: rx where
  "CREDENTIAL_RE = Seqs
     [Grp ''1'' (Seqs
        [Alts (map LitI [''access_token'', ''refresh_token'', ''id_token'', ''password'', ''client_secret'', ''email'', ''username'']),
         quote_mark, spaces, Cls (\<lambda>c. c \<in> set '':=''), spaces, quote_mark]),
      Plus (Cls (\<lambda>c. \<not> is_space c \<and> c \<notin> set '',;}'' \<and> c \<noteq> CHR 0x22 \<and> c \<noteq> CHR 0x27))]"

definition COOKIE_RE :: rx where
  "COOKIE_RE = Seqs
     [Grp ''1'' (Seqs [Alts (map LitI [''cookie'', ''set-cookie'']), spaces, Lit '':'', spaces]),
      Plus (Cls (\<lambda>c. c \<noteq> LF \<and> c \<noteq> CR))]"

definition QUERY_RE :: rx where
  "QUERY_RE = Seqs
     [Grp ''1'' (Seqs [Cls (\<lambda>c. c \<in> set ''?&''),
        Alts (map LitI [''client_id'', ''code'', ''code_challenge'', ''id_token_hint'', ''nonce'', ''state'']), Lit ''='']),
      Plus (Cls (\<lambda>c. c \<notin> set ''&#'' \<and> \<not> is_space c))]"

definition USER_PATH_RE :: rx where
  "USER_PATH_RE = Seq (Grp ''1'' (LitI ''/v1/users/'')) (Plus (Cls (\<lambda>c. c \<notin> set ''/?#'')))"

section \<open>Text\<close>

definition HIDDEN :: string where
  "HIDDEN = ''[REDACTED]''"

definition keep_first :: "way \<Rightarrow> string" where
  "keep_first w = kept_group ''1'' w @ HIDDEN"

definition hide :: "way \<Rightarrow> string" where
  "hide w = HIDDEN"

text \<open>\<open>_redact_sensitive_text\<close> of artifacts, and \<open>redact_sensitive_text\<close> of messages.\<close>

definition redact_artifact_text :: "string \<Rightarrow> string" where
  "redact_artifact_text s =
     rx_sub any_context COOKIE_RE keep_first
       (rx_sub any_context CREDENTIAL_RE keep_first
         (rx_sub any_context BEARER_RE keep_first
           (rx_sub whole_words PREVIEW_TOKEN_RE hide
             (rx_sub email_context EMAIL_RE hide s))))"

definition redact_sensitive_text :: "string \<Rightarrow> string" where
  "redact_sensitive_text s = rx_sub any_context QUERY_RE keep_first (redact_artifact_text s)"

section \<open>UTF-8\<close>

definition utf8_encode :: "string \<Rightarrow> int list" where
  "utf8_encode s = concat (map utf8_bytes s)"

text \<open>\<open>decode(errors="ignore")\<close> of the bytes of such text, cut anywhere.\<close>

fun utf8_decode :: "int list \<Rightarrow> string" where
  "utf8_decode [] = []"
| "utf8_decode (b # bs) =
     (if b < 128 then char_of b # utf8_decode bs
      else if 192 \<le> b then (case bs of [] \<Rightarrow> [] | d # ds \<Rightarrow> char_of (64 * (b - 192) + (d - 128)) # utf8_decode ds)
      else utf8_decode bs)"

definition utf8_prefix :: "string \<Rightarrow> nat \<Rightarrow> string" where
  "utf8_prefix s byte_limit =
     (let encoded = utf8_encode s in
      if length encoded \<le> byte_limit then s else utf8_decode (take byte_limit encoded))"

section \<open>JSON\<close>

definition sensitive_key :: "bool \<Rightarrow> string \<Rightarrow> bool" where
  "sensitive_key redact_user_profile key \<longleftrightarrow> rx_search any_context SENSITIVE_KEY_RE key \<or>
     casefold key \<in> set IDENTITY_REFERENCE_KEYS \<or> redact_user_profile \<and> casefold key \<in> set USER_PROFILE_KEYS"

fun redact_json :: "bool \<Rightarrow> json \<Rightarrow> json"
  and redact_entry :: "bool \<Rightarrow> string \<times> json \<Rightarrow> string \<times> json" where
  "redact_json profile (JObj d) = JObj (map (redact_entry profile) d)"
| "redact_json profile (JList xs) = JList (map (redact_json profile) xs)"
| "redact_json profile (JStr s) = JStr (redact_artifact_text s)"
| "redact_json profile j = j"
| "redact_entry profile (key, item) = (key, if sensitive_key profile key then JStr HIDDEN else redact_json profile item)"

section \<open>Headers and URLs\<close>

definition redact_headers :: "(string \<times> string) list \<Rightarrow> (string \<times> string) list" where
  "redact_headers headers = fold (\<lambda>(name, value).
     AList.update name (if lower name \<in> set SENSITIVE_HEADER_NAMES then HIDDEN else value)) headers []"

text \<open>\<open>parse_qsl\<close> with blank values, and \<open>urlencode\<close>.\<close>

definition query_pair :: "(string \<Rightarrow> string) \<Rightarrow> string \<Rightarrow> (string \<times> string) option" where
  "query_pair unquote part =
     (if part = [] then None
      else let (name, value) = (case split_first ''='' part of None \<Rightarrow> (part, []) | Some nv \<Rightarrow> nv) in
        Some (unquote (replace_chr CHR ''+'' '' '' name), unquote (replace_chr CHR ''+'' '' '' value)))"

definition parse_qsl :: "(string \<Rightarrow> string) \<Rightarrow> string \<Rightarrow> (string \<times> string) list" where
  "parse_qsl unquote query = (if query = [] then [] else List.map_filter (query_pair unquote) (split_chr CHR ''&'' query))"

definition quote_plus :: "string \<Rightarrow> string" where
  "quote_plus s = concat (map (\<lambda>c. if c = CHR '' '' then ''+'' else quote_char c) s)"

definition urlencode :: "(string \<times> string) list \<Rightarrow> string" where
  "urlencode pairs = join ''&'' (map (\<lambda>(name, value). quote_plus name @ ''='' @ quote_plus value) pairs)"

text \<open>\<open>urlunsplit\<close>; the schemes that use an authority are those of the library.\<close>

definition uses_netloc :: "string list" where
  "uses_netloc = [[], ''ftp'', ''http'', ''gopher'', ''nntp'', ''telnet'', ''imap'', ''wais'', ''file'', ''mms'', ''https'', ''shttp'',
     ''snews'', ''prospero'', ''rtsp'', ''rtsps'', ''rtspu'', ''rsync'', ''svn'', ''svn+ssh'', ''sftp'', ''nfs'', ''git'', ''git+ssh'',
     ''ws'', ''wss'', ''itms-services'']"

definition urlunsplit :: "string \<Rightarrow> string \<Rightarrow> string \<Rightarrow> string \<Rightarrow> string \<Rightarrow> string" where
  "urlunsplit scheme netloc path query fragment =
     (let located = (if netloc \<noteq> []
            then ''//'' @ netloc @ (if path \<noteq> [] \<and> \<not> startswith path ''/'' then ''/'' @ path else path)
          else if startswith path ''//'' then ''//'' @ path
          else if scheme \<noteq> [] \<and> scheme \<in> set uses_netloc \<and> (path = [] \<or> startswith path ''/'') then ''//'' @ path
          else path);
          schemed = (if scheme \<noteq> [] then scheme @ '':'' @ located else located);
          queried = (if query \<noteq> [] then schemed @ ''?'' @ query else schemed)
      in if fragment \<noteq> [] then queried @ ''#'' @ fragment else queried)"

text \<open>\<open>None\<close> is the \<open>ValueError\<close> of \<open>urlsplit\<close>.\<close>

definition redact_url :: "(string \<Rightarrow> string) \<Rightarrow> string \<Rightarrow> string option" where
  "redact_url unquote url =
     (case urlsplit url of
        None \<Rightarrow> None
      | Some u \<Rightarrow>
          let path = rx_sub any_context USER_PATH_RE keep_first (su_path u);
              query = urlencode (map (\<lambda>(name, value).
                (name, if casefold name \<in> set (SENSITIVE_OAUTH_QUERY_NAMES @ SENSITIVE_PROFILE_QUERY_NAMES) then HIDDEN else value))
                (parse_qsl unquote (su_query u)))
          in Some (redact_artifact_text (urlunsplit (su_scheme u) (su_netloc u) path query (su_fragment u))))"

section \<open>Responses\<close>

text \<open>
  A response as the hooks see it; header names are in lower case, as \<open>httpx\<close> lists them.  The path is the one of the
  request, \<open>None\<close> when the response has no request.
\<close>

record logged_response =
  lg_method :: string
  lg_url :: string
  lg_path :: "string option"
  lg_status :: int
  lg_headers :: "(string \<times> string) list"
  lg_text :: string

record log_tools =
  lt_parse_json :: "string \<Rightarrow> json option"
  lt_float_text :: "rat \<Rightarrow> string"
  lt_unquote :: "string \<Rightarrow> string"
  lt_round :: "rat \<Rightarrow> rat"

text \<open>\<open>(?:/v1/users(?:/|$)|/auth/v1/user$)\<close>, where the dollar also holds before a final line feed.\<close>

definition at_end :: match_context where
  "at_end before matched behind \<longleftrightarrow> behind = [] \<or> behind = [LF]"

definition is_user_profile_path :: "string \<Rightarrow> bool" where
  "is_user_profile_path path \<longleftrightarrow> rx_search any_context (LitI ''/v1/users/'') path \<or>
     rx_search at_end (Alt (LitI ''/v1/users'') (LitI ''/auth/v1/user'')) path"

definition is_user_profile_response :: "logged_response \<Rightarrow> bool" where
  "is_user_profile_response r \<longleftrightarrow> (case lg_path r of None \<Rightarrow> False | Some path \<Rightarrow> is_user_profile_path path)"

definition header_of :: "logged_response \<Rightarrow> string \<Rightarrow> string option" where
  "header_of r name = map_of (lg_headers r) name"

definition redact_body_prefix :: "log_tools \<Rightarrow> logged_response \<Rightarrow> string" where
  "redact_body_prefix lt r =
     (if \<not> contains ''json'' (lower (case header_of r ''content-type'' of None \<Rightarrow> [] | Some t \<Rightarrow> t)) then
        utf8_prefix (redact_artifact_text (lg_text r)) MAX_BODY_BYTES
      else utf8_prefix
        (case lt_parse_json lt (lg_text r) of
           None \<Rightarrow> redact_artifact_text (lg_text r)
         | Some payload \<Rightarrow> dump_json (lt_float_text lt) (redact_json (is_user_profile_response r) payload)) MAX_BODY_BYTES)"

definition redacted_response_context :: "log_tools \<Rightarrow> logged_response \<Rightarrow> nat \<Rightarrow> string" where
  "redacted_response_context lt r limit =
     (let body = redact_body_prefix lt r;
          shown = (if limit < length body then take limit body @ ''...'' else body)
      in ''HTTP '' @ int_str (lg_status r) @ ''; content-type='' @
         repr_text (case header_of r ''content-type'' of None \<Rightarrow> ''<missing>'' | Some t \<Rightarrow> t) @ ''; body='' @ repr_text shown)"

text \<open>The time since the request hook, when that recorded one.\<close>

definition elapsed_seconds :: "log_tools \<Rightarrow> rat option \<Rightarrow> rat \<Rightarrow> rat option" where
  "elapsed_seconds lt started_at now = map_option (\<lambda>t. lt_round lt (now - t)) started_at"

text \<open>The hook of a response: one line is appended to the log, unless the URL cannot be split.\<close>

definition log_entry :: "log_tools \<Rightarrow> rat option \<Rightarrow> logged_response \<Rightarrow> string \<Rightarrow> json" where
  "log_entry lt elapsed r url = JObj
     [(''method'', JStr (lg_method r)), (''url'', JStr url), (''status'', JInt (lg_status r)),
      (''elapsed_seconds'', (case elapsed of None \<Rightarrow> JNull | Some t \<Rightarrow> JFloat t)),
      (''response_headers'', JObj (map (\<lambda>(name, value). (name, JStr value)) (redact_headers (lg_headers r)))),
      (''response_body_prefix'', JStr (redact_body_prefix lt r))]"

definition log_response :: "log_tools \<Rightarrow> rat option \<Rightarrow> rat \<Rightarrow> logged_response \<Rightarrow> (string, url_error, unit) io" where
  "log_response lt started_at now r logged =
     (case redact_url (lt_unquote lt) (lg_url r) of
        None \<Rightarrow> (Inl InvalidUrl, logged)
      | Some url \<Rightarrow> (Inr (), logged @ dump_json (lt_float_text lt) (log_entry lt (elapsed_seconds lt started_at now) r url) @ [LF]))"

section \<open>A cut of a body is a prefix\<close>

lemma utf8_bytes_cases:
  obtains "(of_char c :: int) < 128" "utf8_bytes c = [of_char c]"
    | b d where "utf8_bytes c = [b, d]" "192 \<le> b" "128 \<le> d" "d < 192" "64 * (b - 192) + (d - 128) = of_char c"
proof (cases "(of_char c :: int) < 128")
  case True
  then show thesis using that(1) by (simp add: utf8_bytes_def Let_def)
next
  case False
  let ?n = "of_char c :: int"
  have "utf8_bytes c = [192 + ?n div 64, 128 + ?n mod 64]" using False by (simp add: utf8_bytes_def Let_def)
  moreover have "0 \<le> ?n div 64" "0 \<le> ?n mod 64" "?n mod 64 < 64" "64 * (?n div 64) + ?n mod 64 = ?n"
    using of_char_bounds [of c] by auto
  ultimately show thesis using that(2) by force
qed

lemma utf8_encode_simps [simp]: "utf8_encode [] = []" "utf8_encode (c # s) = utf8_bytes c @ utf8_encode s"
  by (simp_all add: utf8_encode_def)

text \<open>Decoding a cut encoding gives the longest prefix that fits.\<close>

lemma utf8_decode_take:
  "\<exists>t. prefix t s \<and> utf8_decode (take n (utf8_encode s)) = t \<and> length (utf8_encode t) \<le> n \<and>
     (\<forall>u. prefix u s \<longrightarrow> length (utf8_encode u) \<le> n \<longrightarrow> prefix u t)"
proof (induction s arbitrary: n)
  case Nil
  then show ?case by simp
next
  case (Cons c s)
  have short: "utf8_decode (take n (utf8_bytes c)) = [] \<Longrightarrow> n < length (utf8_bytes c) \<Longrightarrow> ?case"
  proof -
    assume empty: "utf8_decode (take n (utf8_bytes c)) = []" and n: "n < length (utf8_bytes c)"
    have "prefix u [] " if "prefix u (c # s)" "length (utf8_encode u) \<le> n" for u
      using that n by (cases u) auto
    then show ?case using empty n by (auto intro!: exI [of _ "[]"])
  qed
  have step: ?case if len: "length (utf8_bytes c) \<le> n"
    and dec: "\<And>bs. utf8_decode (utf8_bytes c @ bs) = c # utf8_decode bs"
  proof -
    obtain t where t: "prefix t s" "utf8_decode (take (n - length (utf8_bytes c)) (utf8_encode s)) = t"
      "length (utf8_encode t) \<le> n - length (utf8_bytes c)"
      "\<forall>u. prefix u s \<longrightarrow> length (utf8_encode u) \<le> n - length (utf8_bytes c) \<longrightarrow> prefix u t"
      using Cons.IH [of "n - length (utf8_bytes c)"] by blast
    have "prefix u (c # t)" if "prefix u (c # s)" "length (utf8_encode u) \<le> n" for u
      using that t(4) by (cases u) auto
    then show ?case using t len by (intro exI [of _ "c # t"]) (simp add: dec)
  qed
  show ?case
  proof (cases rule: utf8_bytes_cases [of c])
    case 1
    show ?thesis
    proof (cases n)
      case 0
      then show ?thesis by (intro short) (simp_all add: 1(2))
    next
      case (Suc m)
      show ?thesis by (rule step) (use 1 Suc in simp_all)
    qed
  next
    case (2 b d)
    show ?thesis
    proof (cases "n < 2")
      case True
      then consider "n = 0" | "n = 1" by linarith
      then show ?thesis by cases (intro short; use 2 in simp)+
    next
      case False
      show ?thesis by (rule step) (use 2 False in simp_all)
    qed
  qed
qed

text \<open>
  A cut body is the longest prefix of the text that fits: the prefix in bytes is a prefix of the text, encodes to at
  most the limit, and every prefix that does is a prefix of it.
\<close>

theorem utf8_prefix_is_the_longest_that_fits:
  "prefix (utf8_prefix s n) s \<and> length (utf8_encode (utf8_prefix s n)) \<le> n \<and>
     (\<forall>u. prefix u s \<longrightarrow> length (utf8_encode u) \<le> n \<longrightarrow> prefix u (utf8_prefix s n))"
  using utf8_decode_take [of s n] by (auto simp: utf8_prefix_def Let_def)

section \<open>The log does not depend on secrets\<close>

text \<open>Two values that may differ below sensitive keys only.\<close>

inductive agree_but_secrets :: "bool \<Rightarrow> json \<Rightarrow> json \<Rightarrow> bool" for profile where
  same: "agree_but_secrets profile j j"
| elements: "list_all2 (agree_but_secrets profile) xs ys \<Longrightarrow> agree_but_secrets profile (JList xs) (JList ys)"
| members: "list_all2 (\<lambda>a b. fst a = fst b \<and> (sensitive_key profile (fst a) \<or> agree_but_secrets profile (snd a) (snd b))) d e \<Longrightarrow>
    agree_but_secrets profile (JObj d) (JObj e)"
monos list_all2_mono

lemma redact_entry_cases:
  "redact_entry profile a = (fst a, if sensitive_key profile (fst a) then JStr HIDDEN else redact_json profile (snd a))"
  by (cases a) simp

lemma redact_json_agree: "agree_but_secrets profile j k \<Longrightarrow> redact_json profile j = redact_json profile k"
proof (induction rule: agree_but_secrets.induct)
  case (elements xs ys)
  then have "map (redact_json profile) xs = map (redact_json profile) ys"
    by (auto simp: list_all2_conv_all_nth intro!: nth_equalityI)
  then show ?case by simp
next
  case (members d e)
  then have "map (redact_entry profile) d = map (redact_entry profile) e"
    by (auto simp: list_all2_conv_all_nth redact_entry_cases intro!: nth_equalityI)
  then show ?case by simp
qed simp

lemma redact_headers_agree:
  "list_all2 (\<lambda>a b. fst a = fst b \<and> (lower (fst a) \<in> set SENSITIVE_HEADER_NAMES \<or> snd a = snd b)) hs ks \<Longrightarrow>
   redact_headers hs = redact_headers ks"
proof -
  assume "list_all2 (\<lambda>a b. fst a = fst b \<and> (lower (fst a) \<in> set SENSITIVE_HEADER_NAMES \<or> snd a = snd b)) hs ks"
  then have "fold (\<lambda>(name, value). AList.update name (if lower name \<in> set SENSITIVE_HEADER_NAMES then HIDDEN else value)) hs acc =
      fold (\<lambda>(name, value). AList.update name (if lower name \<in> set SENSITIVE_HEADER_NAMES then HIDDEN else value)) ks acc" for acc
    by (induction arbitrary: acc rule: list_all2_induct) (auto simp: split_def)
  then show ?thesis by (simp add: redact_headers_def)
qed

text \<open>Two responses that differ in secrets only: sensitive headers, and values below sensitive keys of a JSON body.\<close>

definition differ_in_secrets :: "log_tools \<Rightarrow> logged_response \<Rightarrow> logged_response \<Rightarrow> bool" where
  "differ_in_secrets lt r q \<longleftrightarrow>
     lg_method r = lg_method q \<and> lg_url r = lg_url q \<and> lg_path r = lg_path q \<and> lg_status r = lg_status q \<and>
     list_all2 (\<lambda>a b. fst a = fst b \<and> (lower (fst a) \<in> set SENSITIVE_HEADER_NAMES \<or> snd a = snd b)) (lg_headers r) (lg_headers q) \<and>
     (lg_text r = lg_text q \<or>
      contains ''json'' (lower (case header_of r ''content-type'' of None \<Rightarrow> [] | Some t \<Rightarrow> t)) \<and>
      (\<exists>j k. lt_parse_json lt (lg_text r) = Some j \<and> lt_parse_json lt (lg_text q) = Some k \<and>
         agree_but_secrets (is_user_profile_response r) j k))"

lemma same_content_type:
  assumes "list_all2 (\<lambda>a b. fst a = fst b \<and> (lower (fst a) \<in> set SENSITIVE_HEADER_NAMES \<or> snd a = snd b)) hs ks"
  shows "map_of hs ''content-type'' = map_of ks ''content-type''"
proof -
  have "lower ''content-type'' \<notin> set SENSITIVE_HEADER_NAMES" by code_simp
  with assms show ?thesis
  proof (induction rule: list_all2_induct)
    case (Cons h hs k ks)
    then show ?case by (cases h; cases k) auto
  qed simp
qed

lemma body_prefix_agree:
  assumes "differ_in_secrets lt r q"
  shows "redact_body_prefix lt r = redact_body_prefix lt q"
proof -
  have ct: "header_of r ''content-type'' = header_of q ''content-type''"
    using assms same_content_type unfolding differ_in_secrets_def header_of_def by blast
  have profile: "is_user_profile_response r = is_user_profile_response q"
    using assms by (simp add: differ_in_secrets_def is_user_profile_response_def)
  consider "lg_text r = lg_text q"
    | j k where "contains ''json'' (lower (case header_of r ''content-type'' of None \<Rightarrow> [] | Some t \<Rightarrow> t))"
        "lt_parse_json lt (lg_text r) = Some j" "lt_parse_json lt (lg_text q) = Some k"
        "agree_but_secrets (is_user_profile_response r) j k"
    using assms unfolding differ_in_secrets_def by blast
  then show ?thesis
  proof cases
    case 1
    then show ?thesis unfolding redact_body_prefix_def ct profile 1 by simp
  next
    case 2
    then show ?thesis using redact_json_agree [OF 2(4)] unfolding redact_body_prefix_def ct profile by simp
  qed
qed

text \<open>
  C14. The request log does not depend on secrets: two responses that differ in sensitive headers, and in what a JSON body
  has below sensitive keys, extend the log by the same line, and have the same message in a failure.
\<close>

theorem log_does_not_depend_on_secrets:
  assumes "differ_in_secrets lt r q"
  shows "log_response lt started now r logged = log_response lt started now q logged \<and>
    redacted_response_context lt r limit = redacted_response_context lt q limit"
proof -
  have parts: "lg_method r = lg_method q" "lg_url r = lg_url q" "lg_status r = lg_status q"
    "redact_headers (lg_headers r) = redact_headers (lg_headers q)" "header_of r ''content-type'' = header_of q ''content-type''"
    using assms redact_headers_agree same_content_type unfolding differ_in_secrets_def header_of_def by blast+
  show ?thesis
    unfolding log_response_def log_entry_def redacted_response_context_def body_prefix_agree [OF assms] parts by simp
qed

definition small_log_tools :: log_tools where
  "small_log_tools = \<lparr>lt_parse_json = (\<lambda>text. Some (JObj [(''token'', JStr text), (''name'', JStr ''x'')])), lt_float_text = (\<lambda>q. []),
     lt_unquote = (\<lambda>s. s), lt_round = (\<lambda>q. q)\<rparr>"

definition secret_response :: "string \<Rightarrow> string \<Rightarrow> logged_response" where
  "secret_response cookie token = \<lparr>lg_method = ''GET'', lg_url = ''https://a.b/v1/x'', lg_path = Some ''/v1/x'', lg_status = 200,
     lg_headers = [(''content-type'', ''application/json''), (''set-cookie'', cookie)], lg_text = token\<rparr>"

lemma small_secrets: "differ_in_secrets small_log_tools (secret_response ''a=1'' ''t1'') (secret_response ''b=2'' ''t2'')"
proof -
  have sensitive: "lower ''set-cookie'' \<in> set SENSITIVE_HEADER_NAMES" "sensitive_key False ''token''" by code_simp+
  have profile: "is_user_profile_response (secret_response ''a=1'' ''t1'') = False" by code_simp
  have json: "contains ''json'' (lower (case header_of (secret_response ''a=1'' ''t1'') ''content-type'' of None \<Rightarrow> [] | Some t \<Rightarrow> t))"
    by code_simp
  have "agree_but_secrets False (JObj [(''token'', JStr ''t1''), (''name'', JStr ''x'')]) (JObj [(''token'', JStr ''t2''), (''name'', JStr ''x'')])"
    by (rule members) (simp add: sensitive(2) agree_but_secrets.same)
  then show ?thesis
    using sensitive(1) json
    by (simp add: differ_in_secrets_def profile) (simp add: secret_response_def small_log_tools_def)
qed

theorem log_does_not_depend_on_secrets_witness:
  "log_response small_log_tools None 0 (secret_response ''a=1'' ''t1'') [] =
     log_response small_log_tools None 0 (secret_response ''b=2'' ''t2'') []"
  using log_does_not_depend_on_secrets [OF small_secrets] by blast

end
