(* ===== verification/Py_Cookies.thy ===== *)
theory Py_Cookies
  imports Py_Sub
begin

text \<open>
  \<open>http.cookies.SimpleCookie.load\<close> on the text of a \<open>Set-Cookie\<close> header, as the pinned interpreter reads it.  The pattern of
  the library is ASCII only; its key is the one lazy repetition, so the ways of a match are listed by the length of the key.
  A header is read completely before it is applied: an invalid pair drops everything, a key or a value that a cookie may
  not have raises \<open>CookieError\<close> (\<open>None\<close>).
\<close>

section \<open>Characters\<close>

definition cookie_space :: "char \<Rightarrow> bool" where
  "cookie_space c \<longleftrightarrow> c = CHR '' '' \<or> (let n = (of_char c :: int) in 9 \<le> n \<and> n \<le> 13)"

definition ascii_word :: "char \<Rightarrow> bool" where
  "ascii_word c \<longleftrightarrow> is_ascii_alnum c \<or> c = CHR ''_''"

definition key_char :: "char \<Rightarrow> bool" where
  "key_char c \<longleftrightarrow> ascii_word c \<or> c \<in> set ''!#%&~`><@,:/$*+-.^|)(?}{='' \<or> c = CHR 0x27"

definition value_char :: "char \<Rightarrow> bool" where
  "value_char c \<longleftrightarrow> key_char c \<or> c = CHR ''['' \<or> c = CHR '']''"

definition legal_char :: "char \<Rightarrow> bool" where
  "legal_char c \<longleftrightarrow> is_ascii_alnum c \<or> c \<in> set ''!#$%&*+-.^_`|~:'' \<or> c = CHR 0x27"

definition control_char :: "char \<Rightarrow> bool" where
  "control_char c \<longleftrightarrow> (let n = (of_char c :: int) in n < 32 \<or> n = 127)"

section \<open>One pair\<close>

definition QUOTED :: rx where
  "QUOTED = Seqs [Lit [CHR 0x22],
     Star (Alt (Cls (\<lambda>c. c \<noteq> CHR 0x5C \<and> c \<noteq> CHR 0x22)) (Seq (Lit [CHR 0x5C]) (Cls (\<lambda>c. c \<noteq> LF)))), Lit [CHR 0x22]]"

definition EXPIRES :: rx where
  "EXPIRES = Seqs [Rep 3 (Cls ascii_word), Lit '','', Cls cookie_space,
     Rep 9 (Cls (\<lambda>c. ascii_word c \<or> cookie_space c \<or> c = CHR ''-'')),
     Opt (Seq (Cls (\<lambda>c. ascii_word c \<or> cookie_space c \<or> c = CHR ''-'')) (Opt (Cls (\<lambda>c. ascii_word c \<or> cookie_space c \<or> c = CHR ''-'')))),
     Cls cookie_space, Rep 8 (Cls (\<lambda>c. is_ascii_digit c \<or> c = CHR '':'')), Cls cookie_space, Lit ''GMT'']"

definition ASSIGNED :: rx where
  "ASSIGNED = Seqs [Star (Cls cookie_space), Lit ''='', Star (Cls cookie_space),
     Grp ''val'' (Alts [QUOTED, EXPIRES, Star (Cls value_char)])]"

text \<open>The end of a pair: white space, a semicolon, or the end of the text, which is also before a final line feed.\<close>

definition pair_ends :: "string \<Rightarrow> way list" where
  "pair_ends s = ways (Alt (Plus (Cls cookie_space)) (Lit '';'')) s @ (if s = [] \<or> s = [LF] then [Way [] [] s] else [])"

definition after_key :: "string \<Rightarrow> way list" where
  "after_key s = concat (map (\<lambda>w. map (way_then w) (pair_ends (way_rest w))) (ways (Seq (Opt ASSIGNED) (Star (Cls cookie_space))) s))"

definition lazy_keys :: "string \<Rightarrow> (string \<times> string) list" where
  "lazy_keys s = map (\<lambda>n. (take n s, drop n s)) [1..<Suc (length (takeWhile key_char s))]"

record cookie_pair =
  cp_key :: string
  cp_value :: "string option"
  cp_rest :: string

definition cookie_matches :: "string \<Rightarrow> cookie_pair list" where
  "cookie_matches s = concat (map (\<lambda>w. concat (map (\<lambda>kr.
       map (\<lambda>v. \<lparr>cp_key = fst kr, cp_value = rx_group ''val'' v, cp_rest = way_rest v\<rparr>) (after_key (snd kr)))
       (lazy_keys (way_rest w)))) (ways (Star (Cls cookie_space)) s))"

definition cookie_match :: "string \<Rightarrow> cookie_pair option" where
  "cookie_match s = (case cookie_matches s of [] \<Rightarrow> None | p # _ \<Rightarrow> Some p)"

section \<open>Quoted values\<close>

definition is_octal :: "char \<Rightarrow> bool" where
  "is_octal c = (let n = (of_char c :: int) in 48 \<le> n \<and> n \<le> 55)"

definition octal_char :: "char \<Rightarrow> char \<Rightarrow> char \<Rightarrow> char" where
  "octal_char a b c = char_of (64 * ((of_char a :: nat) - 48) + 8 * ((of_char b :: nat) - 48) + ((of_char c :: nat) - 48))"

fun unescape :: "string \<Rightarrow> string" where
  "unescape [] = []"
| "unescape (x # xs) =
     (if x \<noteq> CHR 0x5C then x # unescape xs
      else case xs of
        a # b # c # rest \<Rightarrow>
          (if (of_char a :: int) \<in> {48, 49, 50, 51} \<and> is_octal b \<and> is_octal c then octal_char a b c # unescape rest
           else if a = LF then x # unescape xs else a # unescape (b # c # rest))
      | a # rest \<Rightarrow> if a = LF then x # unescape xs else a # unescape rest
      | [] \<Rightarrow> [x])"

definition cookie_unquote :: "string \<Rightarrow> string" where
  "cookie_unquote s = (if length s < 2 \<or> hd s \<noteq> CHR 0x22 \<or> last s \<noteq> CHR 0x22 then s else unescape (butlast (tl s)))"

section \<open>The header\<close>

definition reserved_keys :: "string list" where
  "reserved_keys = [''expires'', ''path'', ''comment'', ''domain'', ''max-age'', ''secure'', ''httponly'', ''version'', ''samesite'']"

definition flag_keys :: "string list" where
  "flag_keys = [''secure'', ''httponly'']"

datatype attribute = AttrText string | AttrTrue | AttrNone

datatype cookie_item = Attribute string attribute | KeyValue string string string

definition attribute_of :: "string option \<Rightarrow> attribute" where
  "attribute_of v = (case v of None \<Rightarrow> AttrNone | Some s \<Rightarrow> AttrText s)"

lemma concat_mapE:
  assumes "x \<in> set (concat (map f xs))"
  obtains a where "a \<in> set xs" "x \<in> set (f a)"
  using assms by auto

lemma in_mapE:
  assumes "x \<in> set (map f xs)"
  obtains a where "a \<in> set xs" "x = f a"
  using assms by auto

lemma lazy_keys_split:
  assumes "(k, r) \<in> set (lazy_keys s)"
  shows "s = k @ r" and "k \<noteq> []"
proof -
  obtain n where n: "1 \<le> n" "n \<le> length (takeWhile key_char s)" "k = take n s" "r = drop n s"
    using assms by (auto simp: lazy_keys_def)
  show "s = k @ r" using n by simp
  have "n \<le> length s" using n(2) length_takeWhile_le [of key_char s] by simp
  then show "k \<noteq> []" using n by auto
qed

lemma pair_ends_rest: "w \<in> set (pair_ends s) \<Longrightarrow> s = way_text w @ way_rest w"
  using ways_sound by (auto simp: pair_ends_def split: if_splits)

lemma after_key_rest:
  assumes "v \<in> set (after_key s)"
  shows "length (way_rest v) \<le> length s"
proof -
  obtain w u where w: "w \<in> set (ways (Seq (Opt ASSIGNED) (Star (Cls cookie_space))) s)"
    and u: "u \<in> set (pair_ends (way_rest w))" and v: "v = way_then w u"
    using assms unfolding after_key_def by (elim concat_mapE in_mapE)
  have "s = way_text w @ way_rest w" using ways_sound [OF w] by simp
  moreover have "way_rest w = way_text u @ way_rest u" using pair_ends_rest [OF u] .
  ultimately have "length s = length (way_text w) + length (way_text u) + length (way_rest u)"
    by (metis add.assoc length_append)
  then show ?thesis by (simp add: v)
qed

lemma cookie_match_shorter:
  assumes "cookie_match s = Some p"
  shows "length (cp_rest p) < length s" and "cp_key p \<noteq> []"
proof -
  have "p \<in> set (cookie_matches s)" using assms by (auto simp: cookie_match_def split: list.splits)
  then obtain w kr v where w: "w \<in> set (ways (Star (Cls cookie_space)) s)" and kr: "kr \<in> set (lazy_keys (way_rest w))"
    and v: "v \<in> set (after_key (snd kr))" and p: "p = \<lparr>cp_key = fst kr, cp_value = rx_group ''val'' v, cp_rest = way_rest v\<rparr>"
    unfolding cookie_matches_def by (elim concat_mapE in_mapE)
  obtain k r where k: "(k, r) \<in> set (lazy_keys (way_rest w))" "kr = (k, r)" using kr by (metis surj_pair)
  have "s = way_text w @ k @ r" using ways_sound [OF w] lazy_keys_split(1) [OF k(1)] by simp
  moreover have "0 < length k" using lazy_keys_split(2) [OF k(1)] by simp
  ultimately show "length (cp_rest p) < length s" "cp_key p \<noteq> []" using after_key_rest [OF v] by (auto simp: p k(2) simp del: length_greater_0_conv)
qed

text \<open>The items of a header, \<open>None\<close> when it is invalid.\<close>

function cookie_items :: "bool \<Rightarrow> string \<Rightarrow> cookie_item list option" where
  "cookie_items morsel_seen s =
     (case cookie_match s of
        None \<Rightarrow> Some []
      | Some p \<Rightarrow>
          let key = cp_key p; behind = cp_rest p; folded = lower key in
          if s = [] then Some []
          else if hd key = CHR ''$'' then
            (if \<not> morsel_seen then cookie_items morsel_seen behind
             else map_option ((#) (Attribute (tl key) (attribute_of (cp_value p)))) (cookie_items morsel_seen behind))
          else if folded \<in> set reserved_keys then
            (if \<not> morsel_seen then None
             else case cp_value p of
               None \<Rightarrow> if folded \<in> set flag_keys
                         then map_option ((#) (Attribute key AttrTrue)) (cookie_items morsel_seen behind) else None
             | Some v \<Rightarrow> map_option ((#) (Attribute key (AttrText (cookie_unquote v)))) (cookie_items morsel_seen behind))
          else case cp_value p of
            None \<Rightarrow> None
          | Some v \<Rightarrow> map_option ((#) (KeyValue key (cookie_unquote v) v)) (cookie_items True behind))"
  by pat_completeness auto
termination
  by (relation "measure (\<lambda>(seen, s). length s)") (auto dest: cookie_match_shorter(1))

declare cookie_items.simps [simp del]

section \<open>The cookies\<close>

record morsel =
  mo_value :: string
  mo_attributes :: "(string \<times> attribute) list"

definition mo_attribute :: "morsel \<Rightarrow> string \<Rightarrow> attribute" where
  "mo_attribute m name = (case map_of (mo_attributes m) name of None \<Rightarrow> AttrText [] | Some a \<Rightarrow> a)"

definition has_control :: "string \<Rightarrow> bool" where
  "has_control s \<longleftrightarrow> list_ex control_char s"

type_synonym jar = "(string \<times> morsel) list"

definition set_attribute :: "string \<Rightarrow> attribute \<Rightarrow> morsel \<Rightarrow> morsel option" where
  "set_attribute name a m =
     (if lower name \<notin> set reserved_keys \<or> (case a of AttrText v \<Rightarrow> has_control v | _ \<Rightarrow> False) then None
      else Some (m\<lparr>mo_attributes := AList.update (lower name) a (mo_attributes m)\<rparr>))"

definition set_morsel :: "string \<Rightarrow> string \<Rightarrow> string \<Rightarrow> morsel \<Rightarrow> morsel option" where
  "set_morsel key real coded m =
     (if lower key \<in> set reserved_keys \<or> key = [] \<or> \<not> list_all legal_char key \<or> has_control real \<or> has_control coded then None
      else Some (m\<lparr>mo_value := real\<rparr>))"

text \<open>The items are applied in order; an attribute goes to the morsel last set.\<close>

fun apply_items :: "string \<Rightarrow> jar \<Rightarrow> cookie_item list \<Rightarrow> jar option" where
  "apply_items current jar [] = Some jar"
| "apply_items current jar (Attribute name a # items) =
     (case map_of jar current of
        None \<Rightarrow> None
      | Some m \<Rightarrow> (case set_attribute name a m of
            None \<Rightarrow> None | Some m' \<Rightarrow> apply_items current (AList.update current m' jar) items))"
| "apply_items current jar (KeyValue key real coded # items) =
     (case set_morsel key real coded (case map_of jar key of None \<Rightarrow> \<lparr>mo_value = [], mo_attributes = []\<rparr> | Some m \<Rightarrow> m) of
        None \<Rightarrow> None | Some m \<Rightarrow> apply_items key (AList.update key m jar) items)"

definition load_cookies :: "string \<Rightarrow> jar option" where
  "load_cookies header = (case cookie_items False header of None \<Rightarrow> Some [] | Some items \<Rightarrow> apply_items [] [] items)"

section \<open>A header as servers write it\<close>

text \<open>
  A pair and its attributes, each behind a semicolon and a blank: read back, the cookie has the value and the attributes.
  The first lemmas follow the pattern on such a text.
\<close>

definition render_attribute :: "string \<times> string option \<Rightarrow> string" where
  "render_attribute nv = ''; '' @ fst nv @ (case snd nv of None \<Rightarrow> [] | Some v \<Rightarrow> ''='' @ v)"

definition render_cookie :: "string \<Rightarrow> string \<Rightarrow> (string \<times> string option) list \<Rightarrow> string" where
  "render_cookie name v attributes = name @ ''='' @ v @ concat (map render_attribute attributes)"

definition cookie_tail :: "string \<Rightarrow> string \<Rightarrow> bool" where
  "cookie_tail t r \<longleftrightarrow> t = [] \<and> r = [] \<or> t = CHR '';'' # r"

lemma cookie_chars:
  "key_char c \<Longrightarrow> \<not> cookie_space c" "key_char c \<Longrightarrow> c \<noteq> CHR '';''" "key_char c \<Longrightarrow> value_char c"
  "value_char c \<Longrightarrow> \<not> cookie_space c" "value_char c \<Longrightarrow> c \<noteq> CHR '';''" "value_char c \<Longrightarrow> c \<noteq> CHR 0x22"
  "value_char c \<Longrightarrow> \<not> control_char c" "legal_char c \<Longrightarrow> key_char c \<and> c \<noteq> CHR ''=''"
proof -
  have "list_all (\<lambda>c. (key_char c \<longrightarrow> \<not> cookie_space c \<and> c \<noteq> CHR '';'' \<and> value_char c) \<and>
      (value_char c \<longrightarrow> \<not> cookie_space c \<and> c \<noteq> CHR '';'' \<and> c \<noteq> CHR 0x22 \<and> \<not> control_char c) \<and>
      (legal_char c \<longrightarrow> key_char c \<and> c \<noteq> CHR ''='')) Enum.enum"
    by code_simp
  then have all: "(key_char c \<longrightarrow> \<not> cookie_space c \<and> c \<noteq> CHR '';'' \<and> value_char c) \<and>
      (value_char c \<longrightarrow> \<not> cookie_space c \<and> c \<noteq> CHR '';'' \<and> c \<noteq> CHR 0x22 \<and> \<not> control_char c) \<and>
      (legal_char c \<longrightarrow> key_char c \<and> c \<noteq> CHR ''='')" for c :: char
    unfolding list_all_iff by (metis UNIV_I enum_UNIV)
  show "key_char c \<Longrightarrow> \<not> cookie_space c" "key_char c \<Longrightarrow> c \<noteq> CHR '';''" "key_char c \<Longrightarrow> value_char c"
    "value_char c \<Longrightarrow> \<not> cookie_space c" "value_char c \<Longrightarrow> c \<noteq> CHR '';''" "value_char c \<Longrightarrow> c \<noteq> CHR 0x22"
    "value_char c \<Longrightarrow> \<not> control_char c" "legal_char c \<Longrightarrow> key_char c \<and> c \<noteq> CHR ''=''"
    using all by blast+
qed

lemma no_leading_space:
  "s = [] \<or> \<not> cookie_space (hd s) \<Longrightarrow> ways (Star (Cls cookie_space)) s = [Way [] [] s]"
  by (cases s) (simp_all add: ways.simps(5) [of "Cls cookie_space"])

lemma no_pair_end: "\<not> cookie_space c \<Longrightarrow> c \<noteq> CHR '';'' \<Longrightarrow> c \<noteq> LF \<Longrightarrow> pair_ends (c # s) = []"
  by (simp add: pair_ends_def Plus_def)

lemma tail_ends: "cookie_tail t r \<Longrightarrow> \<exists>u. pair_ends t = [Way u [] r]"
proof -
  have "\<not> cookie_space CHR '';''" by code_simp
  then show "cookie_tail t r \<Longrightarrow> \<exists>u. pair_ends t = [Way u [] r]" by (auto simp: cookie_tail_def pair_ends_def Plus_def way_then_def)
qed

lemma tail_no_space: "cookie_tail t r \<Longrightarrow> t = [] \<or> \<not> cookie_space (hd t)"
proof -
  have "\<not> cookie_space CHR '';''" by code_simp
  then show "cookie_tail t r \<Longrightarrow> t = [] \<or> \<not> cookie_space (hd t)" by (auto simp: cookie_tail_def)
qed

lemma no_assignment:
  assumes "s = [] \<or> \<not> cookie_space (hd s) \<and> hd s \<noteq> CHR ''=''"
  shows "ways (Seq (Opt ASSIGNED) (Star (Cls cookie_space))) s = [Way [] [] s]"
proof -
  have "ways (Star (Cls cookie_space)) s = [Way [] [] s]" using assms by (intro no_leading_space) auto
  moreover have "ways (Seq (Lit ''='') r) s = []" for r using assms by (cases s) auto
  ultimately show ?thesis by (simp add: ASSIGNED_def Opt_def)
qed

lemma after_key_inside:
  assumes "key_char c" "c \<noteq> CHR ''=''"
  shows "after_key (c # s) = []"
proof -
  have "c \<noteq> LF" using cookie_chars(1) [OF assms(1)] by (auto simp: cookie_space_def)
  then have "pair_ends (c # s) = []" using cookie_chars(1,2) [OF assms(1)] by (intro no_pair_end)
  moreover have "ways (Seq (Opt ASSIGNED) (Star (Cls cookie_space))) (c # s) = [Way [] [] (c # s)]"
    using assms cookie_chars(1) by (intro no_assignment) simp
  ultimately show ?thesis unfolding after_key_def by simp
qed

lemma after_key_flag:
  assumes "cookie_tail t r"
  shows "\<exists>v vs. after_key t = v # vs \<and> rx_group ''val'' v = None \<and> way_rest v = r"
proof -
  obtain u where "pair_ends t = [Way u [] r]" using tail_ends [OF assms] by blast
  moreover have "ways (Seq (Opt ASSIGNED) (Star (Cls cookie_space))) t = [Way [] [] t]"
    using tail_no_space [OF assms] assms by (intro no_assignment) (auto simp: cookie_tail_def)
  ultimately show ?thesis unfolding after_key_def by (simp add: rx_group_def)
qed

lemma no_quoted: "s = [] \<or> hd s \<noteq> CHR 0x22 \<Longrightarrow> ways QUOTED s = []"
  by (cases s) (simp_all add: QUOTED_def)

lemma expires_start:
  assumes "m \<in> lang (Seq (Rep 3 (Cls P)) (Seq (Lit '','') (Seq (Cls Q) R)))"
  shows "\<exists>a b c d k. m = a # b # c # CHR '','' # d # k \<and> P a \<and> P b \<and> P c \<and> Q d"
  using assms by (auto simp: eval_nat_numeral)

lemma EXPIRES_start: "\<exists>R. EXPIRES = Seq (Rep 3 (Cls ascii_word)) (Seq (Lit '','') (Seq (Cls cookie_space) R))"
  unfolding EXPIRES_def Seqs.simps by blast

lemma no_expires:
  assumes "list_all value_char v" "cookie_tail t r"
  shows "ways EXPIRES (v @ t) = []"
proof (rule ccontr)
  assume "ways EXPIRES (v @ t) \<noteq> []"
  then obtain w where "w \<in> set (ways EXPIRES (v @ t))" by (meson last_in_set)
  then have "v @ t = way_text w @ way_rest w" "way_text w \<in> lang EXPIRES" using ways_sound by blast+
  then have "\<exists>a b c d k. way_text w = a # b # c # CHR '','' # d # k \<and> ascii_word a \<and> ascii_word b \<and> ascii_word c \<and> cookie_space d"
    using EXPIRES_start expires_start by metis
  then obtain a b c d m where abc: "v @ t = a # b # c # CHR '','' # d # m" "ascii_word a" "ascii_word b" "ascii_word c"
    "cookie_space d"
    using \<open>v @ t = way_text w @ way_rest w\<close> by (metis append_Cons)
  have semi: "\<not> ascii_word CHR '';''" "\<not> cookie_space CHR '';''" by code_simp+
  have step: "\<exists>v'. v = x # v' \<and> v' @ t = xs" if "v @ t = x # xs" "x \<noteq> CHR '';''" for v x xs
    using that assms(2) by (cases v) (auto simp: cookie_tail_def)
  obtain v1 where v1: "v = a # v1" "v1 @ t = b # c # CHR '','' # d # m" using step [OF abc(1)] abc(2) semi by metis
  obtain v2 where v2: "v1 = b # v2" "v2 @ t = c # CHR '','' # d # m" using step [OF v1(2)] abc(3) semi by metis
  obtain v3 where v3: "v2 = c # v3" "v3 @ t = CHR '','' # d # m" using step [OF v2(2)] abc(4) semi by metis
  obtain v4 where v4: "v3 = CHR '','' # v4" "v4 @ t = d # m" using step [OF v3(2)] by auto
  obtain v5 where "v4 = d # v5" using step [OF v4(2)] abc(5) semi by metis
  then have "value_char d" using assms(1) by (simp add: v1 v2 v3 v4)
  then show False using cookie_chars(4) abc(5) by blast
qed

lemma after_key_value:
  assumes "list_all value_char v" "cookie_tail t r"
  shows "\<exists>w ws. after_key (CHR ''='' # v @ t) = w # ws \<and> rx_group ''val'' w = Some v \<and> way_rest w = r"
proof -
  have plain: "v @ t = [] \<or> \<not> cookie_space (hd (v @ t))" "v @ t = [] \<or> hd (v @ t) \<noteq> CHR 0x22"
    using assms cookie_chars(4,6) tail_no_space [OF assms(2)] by (cases v; auto simp: cookie_tail_def)+
  have tv: "takeWhile value_char (v @ t) = v" "dropWhile value_char (v @ t) = t"
  proof -
    have "\<not> value_char CHR '';''" by code_simp
    then have "t = [] \<or> \<not> value_char (hd t)" using assms(2) by (auto simp: cookie_tail_def)
    then show "takeWhile value_char (v @ t) = v" "dropWhile value_char (v @ t) = t"
      using assms(1) by (cases t; simp add: list_all_iff takeWhile_append2 dropWhile_append2)+
  qed
  have value_ways: "ways QUOTED (v @ t) = []" "ways EXPIRES (v @ t) = []"
    "\<exists>ws. ways (Star (Cls value_char)) (v @ t) = Way v [] t # ws"
    using no_quoted [OF plain(2)] no_expires [OF assms] ways_Star_Cls_first [of value_char "v @ t"] by (simp_all add: tv)
  have "\<not> cookie_space CHR ''=''" by code_simp
  then have no_space: "ways (Star (Cls cookie_space)) (CHR ''='' # v @ t) = [Way [] [] (CHR ''='' # v @ t)]"
    "ways (Star (Cls cookie_space)) (v @ t) = [Way [] [] (v @ t)]"
    using no_leading_space [of "CHR ''='' # v @ t"] no_leading_space [OF plain(1)] by simp_all
  obtain vs where assigned: "ways ASSIGNED (CHR ''='' # v @ t) = Way (CHR ''='' # v) [(''val'', v)] t # vs"
    using value_ways by (auto simp: ASSIGNED_def no_space way_then_def)
  obtain u where ends: "pair_ends t = [Way u [] r]" using tail_ends [OF assms(2)] by blast
  show ?thesis
    unfolding after_key_def
    by (simp add: Opt_def assigned no_leading_space tail_no_space [OF assms(2)] ends way_then_def rx_group_def)
qed

lemma concat_map_first:
  assumes "\<And>x. x \<in> set xs \<Longrightarrow> f x = []" "f y = z # zs"
  shows "\<exists>us. concat (map f (xs @ y # ys)) = z # us"
proof -
  have "concat (map f xs) = []" using assms(1) by simp
  then have "concat (map f (xs @ y # ys)) = z # zs @ concat (map f ys)"
    unfolding map_append concat_append list.map concat.simps assms(2) by simp
  then show ?thesis by blast
qed

text \<open>The key of a pair ends at the assignment or at the end of the pair, wherever the lazy repetition started.\<close>

lemma cookie_match_key:
  assumes name: "name \<noteq> []" "list_all legal_char name" and spaces: "list_all cookie_space u"
    and found: "\<exists>w ws. after_key b = w # ws \<and> rx_group ''val'' w = v \<and> way_rest w = r"
  shows "cookie_match (u @ name @ b) = Some \<lparr>cp_key = name, cp_value = v, cp_rest = r\<rparr>"
proof -
  let ?f = "\<lambda>kr. map (\<lambda>v. \<lparr>cp_key = fst kr, cp_value = rx_group ''val'' v, cp_rest = way_rest v\<rparr>) (after_key (snd kr))"
  let ?s = "name @ b" and ?n = "length name"
  have keys: "list_all (\<lambda>c. key_char c \<and> c \<noteq> CHR ''='') name" using name(2) cookie_chars(8) by (auto simp: list_all_iff)
  have "?n \<le> length (takeWhile key_char ?s)" using keys by (simp add: list_all_iff takeWhile_append2)
  then obtain k where k: "Suc (length (takeWhile key_char ?s)) = ?n + Suc k" by (metis add_Suc_right le_Suc_ex)
  have "1 \<le> ?n" using name(1) by (cases name) simp_all
  then have "[1..<?n + Suc k] = [1..<?n] @ [?n..<?n + Suc k]" by (rule upt_add_eq_append)
  moreover have "[?n..<?n + Suc k] = ?n # [Suc ?n..<?n + Suc k]" by (rule upt_conv_Cons) simp
  ultimately have upt: "[1..<Suc (length (takeWhile key_char ?s))] =
      [1..<?n] @ ?n # [Suc ?n..<Suc (length (takeWhile key_char ?s))]"
    unfolding k by metis
  have split: "lazy_keys ?s = map (\<lambda>n. (take n ?s, drop n ?s)) [1..<?n] @ (name, b) #
      map (\<lambda>n. (take n ?s, drop n ?s)) [Suc ?n..<Suc (length (takeWhile key_char ?s))]"
    unfolding lazy_keys_def upt by simp
  have inside: "?f kr = []" if "kr \<in> set (map (\<lambda>n. (take n ?s, drop n ?s)) [1..<?n])" for kr
  proof -
    from that obtain n where "n \<in> set [1..<?n]" and kr: "kr = (take n ?s, drop n ?s)" by (elim in_mapE) blast
    then have "n < ?n" by simp
    note n = this kr
    have "drop n ?s = name ! n # drop (Suc n) name @ b" using n(1) by (simp add: Cons_nth_drop_Suc)
    moreover have "key_char (name ! n)" "name ! n \<noteq> CHR ''=''" using keys n(1) by (auto simp: list_all_length)
    ultimately show ?thesis using after_key_inside n(2) by simp
  qed
  obtain w ws where w: "after_key b = w # ws" "rx_group ''val'' w = v" "way_rest w = r" using found by blast
  have "?f (name, b) = \<lparr>cp_key = name, cp_value = v, cp_rest = r\<rparr> #
      map (\<lambda>v. \<lparr>cp_key = name, cp_value = rx_group ''val'' v, cp_rest = way_rest v\<rparr>) ws"
    by (simp add: w)
  from concat_map_first [of _ ?f, OF inside this] obtain us
    where keys_found: "concat (map ?f (lazy_keys ?s)) = \<lparr>cp_key = name, cp_value = v, cp_rest = r\<rparr> # us"
    unfolding split by blast
  have "\<not> cookie_space (hd name)" using keys name(1) cookie_chars(1) by (cases name) auto
  then have "takeWhile cookie_space (u @ ?s) = u" "dropWhile cookie_space (u @ ?s) = ?s"
    using spaces name(1) by (cases name; simp add: list_all_iff takeWhile_append2 dropWhile_append2)+
  then obtain ls where "ways (Star (Cls cookie_space)) (u @ ?s) = Way u [] ?s # ls"
    using ways_Star_Cls_first [of cookie_space "u @ ?s"] by auto
  then show ?thesis by (simp add: cookie_match_def cookie_matches_def keys_found)
qed

section \<open>A header reads back\<close>

definition plain_attribute :: "string \<times> string option \<Rightarrow> bool" where
  "plain_attribute nv \<longleftrightarrow> lower (fst nv) \<in> set reserved_keys \<and>
     (case snd nv of None \<Rightarrow> lower (fst nv) \<in> set flag_keys | Some v \<Rightarrow> list_all value_char v)"

definition plain_cookie :: "string \<Rightarrow> string \<Rightarrow> bool" where
  "plain_cookie name v \<longleftrightarrow> name \<noteq> [] \<and> list_all legal_char name \<and> hd name \<noteq> CHR ''$'' \<and> lower name \<notin> set reserved_keys \<and>
     list_all value_char v"

definition attribute_item :: "string \<times> string option \<Rightarrow> cookie_item" where
  "attribute_item nv = Attribute (fst nv) (case snd nv of None \<Rightarrow> AttrTrue | Some v \<Rightarrow> AttrText v)"

lemma legal_lower: "legal_char (lower_char c) \<longleftrightarrow> legal_char c" "lower_char c = CHR ''$'' \<longleftrightarrow> c = CHR ''$''"
proof -
  have "list_all (\<lambda>c. legal_char (lower_char c) \<longrightarrow> legal_char c \<or> 192 \<le> (of_char c :: int)) Enum.enum" by code_simp
  show "legal_char (lower_char c) \<longleftrightarrow> legal_char c"
  proof -
    have "list_all (\<lambda>c. legal_char (lower_char c) = legal_char c) Enum.enum" by code_simp
    then show ?thesis unfolding list_all_iff by (metis UNIV_I enum_UNIV)
  qed
  have "list_all (\<lambda>c. (lower_char c = CHR ''$'') = (c = CHR ''$'')) Enum.enum" by code_simp
  then show "lower_char c = CHR ''$'' \<longleftrightarrow> c = CHR ''$''" unfolding list_all_iff by (metis UNIV_I enum_UNIV)
qed

lemma reserved_plain:
  assumes "lower name \<in> set reserved_keys"
  shows "name \<noteq> []" "list_all legal_char name" "hd name \<noteq> CHR ''$''"
proof -
  have "list_all (\<lambda>k. k \<noteq> [] \<and> list_all legal_char k \<and> hd k \<noteq> CHR ''$'') reserved_keys" by code_simp
  then have r: "lower name \<noteq> []" "list_all legal_char (lower name)" "hd (lower name) \<noteq> CHR ''$''"
    using assms by (auto simp: list_all_iff)
  show "name \<noteq> []" using r(1) by (auto simp: lower_def)
  then show "list_all legal_char name" "hd name \<noteq> CHR ''$''"
    using r(2,3) by (cases name; simp add: lower_def list_all_iff legal_lower)+
qed

lemma plain_unquote: "list_all value_char v \<Longrightarrow> cookie_unquote v = v"
  using cookie_chars(6) by (cases v) (auto simp: cookie_unquote_def)

lemma render_attribute_tail:
  "cookie_tail (concat (map render_attribute as))
     (case as of [] \<Rightarrow> [] | a # as \<Rightarrow> '' '' @ fst a @ (case snd a of None \<Rightarrow> [] | Some v \<Rightarrow> ''='' @ v) @ concat (map render_attribute as))"
  by (cases as) (simp_all add: cookie_tail_def render_attribute_def)

lemma cookie_items_of_match:
  assumes "cookie_match s = Some \<lparr>cp_key = k, cp_value = v, cp_rest = r\<rparr>" "s \<noteq> []" "hd k \<noteq> CHR ''$''"
  shows "lower k \<in> set reserved_keys \<Longrightarrow> v = None \<Longrightarrow> lower k \<in> set flag_keys \<Longrightarrow>
      cookie_items True s = map_option ((#) (Attribute k AttrTrue)) (cookie_items True r)"
    and "lower k \<in> set reserved_keys \<Longrightarrow> v = Some x \<Longrightarrow>
      cookie_items True s = map_option ((#) (Attribute k (AttrText (cookie_unquote x)))) (cookie_items True r)"
    and "lower k \<notin> set reserved_keys \<Longrightarrow> v = Some x \<Longrightarrow>
      cookie_items seen s = map_option ((#) (KeyValue k (cookie_unquote x) x)) (cookie_items True r)"
  using assms by (subst cookie_items.simps; simp)+

lemma attribute_items:
  assumes "list_all plain_attribute as"
  shows "cookie_items True (case as of [] \<Rightarrow> [] | a # as' \<Rightarrow>
      '' '' @ fst a @ (case snd a of None \<Rightarrow> [] | Some v \<Rightarrow> ''='' @ v) @ concat (map render_attribute as')) = Some (map attribute_item as)"
  using assms
proof (induction as)
  case Nil
  then show ?case by (subst cookie_items.simps) (simp split: option.split)
next
  case (Cons a as)
  let ?t = "concat (map render_attribute as)"
  let ?r = "case as of [] \<Rightarrow> [] | a # as' \<Rightarrow>
      '' '' @ fst a @ (case snd a of None \<Rightarrow> [] | Some v \<Rightarrow> ''='' @ v) @ concat (map render_attribute as')"
  have plain: "plain_attribute a" and rest: "cookie_items True ?r = Some (map attribute_item as)"
    using Cons by simp_all
  have res: "lower (fst a) \<in> set reserved_keys" using plain by (simp add: plain_attribute_def)
  note name = reserved_plain [OF res]
  have sp: "list_all cookie_space '' ''" by code_simp
  show ?case
  proof (cases "snd a")
    case None
    then have flag: "lower (fst a) \<in> set flag_keys" using plain by (simp add: plain_attribute_def)
    have m: "cookie_match ('' '' @ fst a @ ?t) = Some \<lparr>cp_key = fst a, cp_value = None, cp_rest = ?r\<rparr>"
      by (rule cookie_match_key [OF name(1,2) sp after_key_flag [OF render_attribute_tail]])
    show ?thesis
      using cookie_items_of_match(1) [OF m _ name(3) res refl flag] rest by (simp add: None attribute_item_def)
  next
    case (Some v)
    then have v: "list_all value_char v" using plain by (simp add: plain_attribute_def)
    have m: "cookie_match ('' '' @ fst a @ CHR ''='' # v @ ?t) = Some \<lparr>cp_key = fst a, cp_value = Some v, cp_rest = ?r\<rparr>"
      by (rule cookie_match_key [OF name(1,2) sp after_key_value [OF v render_attribute_tail]])
    show ?thesis
      using cookie_items_of_match(2) [OF m _ name(3) res refl] rest by (simp add: Some attribute_item_def plain_unquote [OF v])
  qed
qed

definition stored_attributes :: "(string \<times> string option) list \<Rightarrow> (string \<times> attribute) list" where
  "stored_attributes attributes = fold (\<lambda>nv. AList.update (lower (fst nv))
     (case snd nv of None \<Rightarrow> AttrTrue | Some v \<Rightarrow> AttrText v)) attributes []"

lemma plain_no_control: "list_all value_char v \<Longrightarrow> \<not> has_control v"
  using cookie_chars(7) by (auto simp: has_control_def list_all_iff list_ex_iff)

lemma apply_attributes:
  assumes "list_all plain_attribute as"
  shows "apply_items name [(name, m)] (map attribute_item as) = Some [(name, m\<lparr>mo_attributes :=
    fold (\<lambda>nv. AList.update (lower (fst nv)) (case snd nv of None \<Rightarrow> AttrTrue | Some v \<Rightarrow> AttrText v)) as (mo_attributes m)\<rparr>)]"
  using assms
proof (induction as arbitrary: m)
  case Nil
  then show ?case by simp
next
  case (Cons a as)
  let ?a = "case snd a of None \<Rightarrow> AttrTrue | Some v \<Rightarrow> AttrText v"
  have plain: "plain_attribute a" using Cons.prems by simp
  have "lower (fst a) \<in> set reserved_keys" using plain by (simp add: plain_attribute_def)
  moreover have "\<not> (case ?a of AttrText v \<Rightarrow> has_control v | _ \<Rightarrow> False)"
    using plain plain_no_control by (auto simp: plain_attribute_def split: option.split)
  ultimately have "set_attribute (fst a) ?a m = Some (m\<lparr>mo_attributes := AList.update (lower (fst a)) ?a (mo_attributes m)\<rparr>)"
    by (simp add: set_attribute_def)
  then show ?case using Cons.IH Cons.prems by (simp add: attribute_item_def)
qed

lemma rendered_cookie_reads_back:
  assumes "plain_cookie name v" "list_all plain_attribute as"
  shows "load_cookies (render_cookie name v as) = Some [(name, \<lparr>mo_value = v, mo_attributes = stored_attributes as\<rparr>)]"
proof -
  let ?t = "concat (map render_attribute as)"
  let ?r = "case as of [] \<Rightarrow> [] | a # as' \<Rightarrow>
      '' '' @ fst a @ (case snd a of None \<Rightarrow> [] | Some v \<Rightarrow> ''='' @ v) @ concat (map render_attribute as')"
  have name: "name \<noteq> []" "list_all legal_char name" "hd name \<noteq> CHR ''$''" "lower name \<notin> set reserved_keys"
    and v: "list_all value_char v"
    using assms(1) by (auto simp: plain_cookie_def)
  have m: "cookie_match ([] @ name @ CHR ''='' # v @ ?t) = Some \<lparr>cp_key = name, cp_value = Some v, cp_rest = ?r\<rparr>"
    by (rule cookie_match_key [OF name(1,2) _ after_key_value [OF v render_attribute_tail]]) simp
  have "cookie_items False ([] @ name @ CHR ''='' # v @ ?t) = Some (KeyValue name v v # map attribute_item as)"
    using cookie_items_of_match(3) [OF m _ name(3,4) refl] attribute_items [OF assms(2)] name(1)
    by (simp add: plain_unquote [OF v])
  then have "load_cookies (render_cookie name v as) = apply_items [] [] (KeyValue name v v # map attribute_item as)"
    by (simp add: load_cookies_def render_cookie_def)
  moreover have "set_morsel name v v \<lparr>mo_value = [], mo_attributes = []\<rparr> = Some \<lparr>mo_value = v, mo_attributes = []\<rparr>"
    using name plain_no_control [OF v] by (simp add: set_morsel_def)
  ultimately show ?thesis by (simp add: apply_attributes [OF assms(2)] stored_attributes_def)
qed

end
