(* ===== verification/Response_Checks.thy ===== *)
theory Response_Checks
  imports Redaction Open_Api Py_Cookies
begin

text \<open>
  \<open>src/api_tests/assertions.py\<close> and \<open>src/api_tests/schemas.py\<close>: what a test demands of a response.  A response is what the
  library gives: the decoded text, the bytes, the value of \<open>response.json()\<close> (\<open>None\<close> is its \<open>JSONDecodeError\<close>) and the
  \<open>Set-Cookie\<close> headers one by one.  One constructor of \<open>check_error\<close> per failure; the texts of failures that quote the
  response go through \<^const>\<open>redacted_response_context\<close> and are left out.  The JSON Schema validator is a parameter.
\<close>

record http_response = logged_response +
  rs_content :: "int list"
  rs_json :: "json option"
  rs_set_cookie :: "string list"

datatype check_error =
    WrongStatus
  | HtmlResponse
  | InvalidJson
  | NotAnObject
  | NotAnArray
  | NotAString string
  | NotAnInteger string
  | NotABoolean string
  | NotAStringArray string
  | WrongValue string
  | BodyNotEmpty
  | CookieNotCleared string
  | CookieAttribute string
  | NotAText string
  | CookieSet string
  | NoPaths
  | NoResponses string string
  | UndocumentedStatus string string
  | UnknownOperation string
  | WrongMediaType
  | SchemaMissing string
  | SchemaInvalid string
  | SchemaViolated string string

type_synonym 'a check = "check_error + 'a"

definition ensure :: "bool \<Rightarrow> check_error \<Rightarrow> unit check" where
  "ensure b e = (if b then Inr () else Inl e)"

lemma ensure_ok [ok_iff]: "ensure b e = Inr u \<longleftrightarrow> b"
  by (simp add: ensure_def)

definition content_type :: "('a) http_response_scheme \<Rightarrow> string" where
  "content_type r = (case map_of (lg_headers r) ''content-type'' of None \<Rightarrow> [] | Some t \<Rightarrow> t)"

section \<open>Statuses and bodies\<close>

definition assert_status :: "http_response \<Rightarrow> int \<Rightarrow> unit check" where
  "assert_status r expected = ensure (lg_status r = expected) WrongStatus"

definition HTML_STARTS :: "string list" where
  "HTML_STARTS = [''<!doctype html'', ''<html'']"

definition assert_non_html_response :: "http_response \<Rightarrow> unit check" where
  "assert_non_html_response r =
     bindE (ensure (lower (before_first '';'' (content_type r)) \<noteq> ''text/html'') HtmlResponse) (\<lambda>_.
     let body_prefix = lower (take 200 (lstrip_of is_space (lg_text r)))
     in ensure (\<not> list_ex (startswith body_prefix) HTML_STARTS) HtmlResponse)"

definition response_json :: "http_response \<Rightarrow> json check" where
  "response_json r = requireE (rs_json r) InvalidJson"

definition json_object_response :: "http_response \<Rightarrow> int \<Rightarrow> object check" where
  "json_object_response r expected =
     bindE (assert_status r expected) (\<lambda>_. bindE (response_json r) (\<lambda>body. requireE (as_object body) NotAnObject))"

definition json_array_response :: "http_response \<Rightarrow> int \<Rightarrow> json list check" where
  "json_array_response r expected =
     bindE (assert_status r expected) (\<lambda>_. bindE (response_json r) (\<lambda>body. requireE (as_list body) NotAnArray))"

definition json_scalar_response :: "http_response \<Rightarrow> int \<Rightarrow> json check" where
  "json_scalar_response r expected = bindE (assert_status r expected) (\<lambda>_. response_json r)"

section \<open>Fields\<close>

definition string_field :: "object \<Rightarrow> string \<Rightarrow> string check" where
  "string_field body name =
     (case jget body name of JStr s \<Rightarrow> if s = [] then Inl (NotAString name) else Inr s | _ \<Rightarrow> Inl (NotAString name))"

text \<open>A boolean is an integer of Python.\<close>

definition int_field :: "object \<Rightarrow> string \<Rightarrow> int check" where
  "int_field body name =
     (case jget body name of JInt i \<Rightarrow> Inr i | JBool b \<Rightarrow> Inr (if b then 1 else 0) | _ \<Rightarrow> Inl (NotAnInteger name))"

definition bool_field :: "object \<Rightarrow> string \<Rightarrow> bool check" where
  "bool_field body name = (case jget body name of JBool b \<Rightarrow> Inr b | _ \<Rightarrow> Inl (NotABoolean name))"

definition object_item :: "json \<Rightarrow> object check" where
  "object_item j = requireE (as_object j) NotAnObject"

definition object_field :: "object \<Rightarrow> string \<Rightarrow> object check" where
  "object_field body name = object_item (jget body name)"

definition array_field :: "object \<Rightarrow> string \<Rightarrow> json list check" where
  "array_field body name = requireE (as_list (jget body name)) NotAnArray"

definition string_array_field :: "object \<Rightarrow> string \<Rightarrow> string list check" where
  "string_array_field body name =
     bindE (array_field body name) (mapE (\<lambda>j. requireE (as_string j) (NotAStringArray name)))"

definition assert_api_error :: "http_response \<Rightarrow> int \<Rightarrow> string \<Rightarrow> string option \<Rightarrow> object check" where
  "assert_api_error r expected error_type code =
     bindE (json_object_response r expected) (\<lambda>body.
     bindE (string_field body ''type'') (\<lambda>t.
     bindE (ensure (t = error_type) (WrongValue ''type'')) (\<lambda>_.
     bindE (string_field body ''message'') (\<lambda>_.
     case code of
       None \<Rightarrow> Inr body
     | Some c \<Rightarrow> bindE (string_field body ''code'') (\<lambda>found.
         bindE (ensure (found = c) (WrongValue ''code'')) (\<lambda>_. Inr body))))))"

definition assert_no_content :: "http_response \<Rightarrow> unit check" where
  "assert_no_content r = bindE (assert_status r 204) (\<lambda>_. ensure (rs_content r = []) BodyNotEmpty)"

section \<open>Cookies\<close>

text \<open>The first header that parses and sets the cookie.\<close>

definition response_cookie :: "http_response \<Rightarrow> string \<Rightarrow> morsel option" where
  "response_cookie r name =
     (case List.map_filter (\<lambda>header. case load_cookies header of None \<Rightarrow> None | Some jar \<Rightarrow> map_of jar name) (rs_set_cookie r) of
        [] \<Rightarrow> None | m # _ \<Rightarrow> Some m)"

text \<open>\<open>bool(cookie[...])\<close>\<close>

definition attribute_truth :: "attribute \<Rightarrow> bool" where
  "attribute_truth a = (case a of AttrText s \<Rightarrow> s \<noteq> [] | AttrTrue \<Rightarrow> True | AttrNone \<Rightarrow> False)"

definition expect_flag :: "morsel \<Rightarrow> string \<Rightarrow> bool option \<Rightarrow> unit check" where
  "expect_flag m name expected = ensure (case expected of None \<Rightarrow> True | Some b \<Rightarrow> attribute_truth (mo_attribute m name) = b) (CookieAttribute name)"

definition expect_same_site :: "morsel \<Rightarrow> string option \<Rightarrow> unit check" where
  "expect_same_site m expected =
     (case expected of
        None \<Rightarrow> Inr ()
      | Some s \<Rightarrow> (case mo_attribute m ''samesite'' of
            AttrText found \<Rightarrow> ensure (casefold found = casefold s) (CookieAttribute ''samesite'')
          | _ \<Rightarrow> Inl (NotAText ''samesite'')))"

record cleared_scope =
  cs_path :: string
  cs_http_only :: "bool option"
  cs_secure :: "bool option"
  cs_same_site :: "string option"

definition default_scope :: cleared_scope where
  "default_scope = \<lparr>cs_path = ''/'', cs_http_only = None, cs_secure = None, cs_same_site = None\<rparr>"

definition assert_cookie_cleared :: "http_response \<Rightarrow> string \<Rightarrow> cleared_scope \<Rightarrow> unit check" where
  "assert_cookie_cleared r name scope =
     bindE (requireE (response_cookie r name) (CookieNotCleared name)) (\<lambda>cookie.
     bindE (ensure (mo_value cookie = []) (CookieNotCleared name)) (\<lambda>_.
     bindE (ensure (mo_attribute cookie ''max-age'' = AttrText ''0'') (CookieAttribute ''max-age'')) (\<lambda>_.
     bindE (ensure (mo_attribute cookie ''path'' = AttrText (cs_path scope)) (CookieAttribute ''path'')) (\<lambda>_.
     bindE (expect_flag cookie ''httponly'' (cs_http_only scope)) (\<lambda>_.
     bindE (expect_flag cookie ''secure'' (cs_secure scope)) (\<lambda>_.
     expect_same_site cookie (cs_same_site scope)))))))"

definition assert_cookie_not_set :: "http_response \<Rightarrow> string \<Rightarrow> unit check" where
  "assert_cookie_not_set r name = ensure (response_cookie r name = None) (CookieSet name)"

section \<open>Documented responses\<close>

definition escape_pointer :: "string \<Rightarrow> string" where
  "escape_pointer s = replace_chr CHR ''/'' ''~1'' (replace_chr CHR ''~'' ''~0'' s)"

definition is_success_status :: "int \<Rightarrow> bool" where
  "is_success_status status \<longleftrightarrow> 200 \<le> status \<and> status < 300"

record documented_response =
  dc_response :: object
  dc_path :: string

record json_content =
  jc_content :: object
  jc_path :: string

text \<open>The operations of a document with their path and method, in the order of the loops.\<close>

definition located_operations :: "object \<Rightarrow> (string \<times> string \<times> object) list" where
  "located_operations paths =
     concat (map (\<lambda>(openapi_path, path_item). case as_object path_item of
         None \<Rightarrow> []
       | Some item \<Rightarrow> List.map_filter (\<lambda>(method, operation).
           if method \<in> set HTTP_METHODS then map_option (\<lambda>op. (openapi_path, method, op)) (as_object operation) else None) item) paths)"

definition documented_response_of :: "string \<Rightarrow> int \<Rightarrow> string \<times> string \<times> object \<Rightarrow> documented_response check" where
  "documented_response_of operation_id expected located =
     (let (openapi_path, method, operation) = located;
          operation_path = ''#/paths/'' @ escape_pointer openapi_path @ ''/'' @ method;
          status_key = int_str expected
      in bindE (requireE (as_object (jget operation ''responses'')) (NoResponses operation_id operation_path)) (\<lambda>responses.
         let response_key = (if map_of responses status_key \<noteq> None then status_key else ''default'')
         in bindE (requireE (as_object (jget responses response_key))
              (UndocumentedStatus operation_id (operation_path @ ''/responses/'' @ escape_pointer status_key))) (\<lambda>response.
            Inr \<lparr>dc_response = response, dc_path = operation_path @ ''/responses/'' @ escape_pointer response_key\<rparr>)))"

definition find_documented_response :: "object \<Rightarrow> string \<Rightarrow> int \<Rightarrow> documented_response check" where
  "find_documented_response doc operation_id expected =
     bindE (requireE (as_object (jget doc ''paths'')) NoPaths) (\<lambda>paths.
     bindE (requireE (List.find (\<lambda>(p, m, operation). jget operation ''operationId'' = JStr operation_id) (located_operations paths))
              (UnknownOperation operation_id)) (\<lambda>located.
     documented_response_of operation_id expected located))"

definition json_content_of :: "documented_response \<Rightarrow> json_content option" where
  "json_content_of d =
     (case as_object (jget (dc_response d) ''content'') of
        None \<Rightarrow> None
      | Some content \<Rightarrow> (case as_object (jget content ''application/json'') of
            None \<Rightarrow> None
          | Some media \<Rightarrow> Some \<lparr>jc_content = media, jc_path = dc_path d @ ''/content/application~1json''\<rparr>))"

definition lookup_response_schema :: "object \<Rightarrow> string \<Rightarrow> int \<Rightarrow> json check" where
  "lookup_response_schema doc operation_id expected =
     (case operation_response_schema doc operation_id (StatusInt expected) of
        Inl e \<Rightarrow> Inl (UnknownOperation operation_id)
      | Inr schema \<Rightarrow> Inr schema)"

section \<open>Validation\<close>

text \<open>What the validator reports: the text it sorts by, its message and the two paths, as texts.\<close>

record violation =
  vi_text :: string
  vi_message :: string
  vi_path :: "string list"
  vi_schema_path :: "string list"

text \<open>The validator: the document, the reference of the schema in it, and the value.\<close>

type_synonym validator = "object \<Rightarrow> string \<Rightarrow> json \<Rightarrow> violation list"

definition format_path :: "string list \<Rightarrow> string" where
  "format_path segments = (if segments = [] then ''$'' else ''$.'' @ join ''.'' segments)"

definition format_validation_error :: "violation \<Rightarrow> string" where
  "format_validation_error e =
     redact_sensitive_text (vi_message e) @ '' (response path: '' @ format_path (vi_path e) @ '', schema path: '' @
     format_path (vi_schema_path e) @ '')''"

definition media_type :: "http_response \<Rightarrow> string" where
  "media_type r = lower (strip (before_first '';'' (content_type r)))"

definition validate_body :: "validator \<Rightarrow> http_response \<Rightarrow> object \<Rightarrow> string \<Rightarrow> unit check" where
  "validate_body iter_errors r doc schema_path =
     bindE (response_json r) (\<lambda>body.
     case sort_key vi_text (iter_errors doc schema_path body) of
       [] \<Rightarrow> Inr ()
     | e # _ \<Rightarrow> Inl (SchemaViolated schema_path (format_validation_error e)))"

definition assert_response_matches_openapi :: "validator \<Rightarrow> http_response \<Rightarrow> string \<Rightarrow> int \<Rightarrow> object \<Rightarrow> unit check" where
  "assert_response_matches_openapi iter_errors r operation_id expected doc =
     bindE (ensure (lg_status r = expected) WrongStatus) (\<lambda>_.
     bindE (find_documented_response doc operation_id expected) (\<lambda>documented.
     case json_content_of documented of
       None \<Rightarrow> ensure (expected = 204 \<longrightarrow> rs_content r = []) BodyNotEmpty
     | Some content \<Rightarrow>
         bindE (ensure (media_type r = ''application/json'') WrongMediaType) (\<lambda>_.
         bindE (lookup_response_schema doc operation_id expected) (\<lambda>schema.
         let schema_path = jc_path content @ ''/schema'' in
         case schema of
           JNull \<Rightarrow> ensure (\<not> is_success_status expected) (SchemaMissing schema_path)
         | JBool _ \<Rightarrow> validate_body iter_errors r doc schema_path
         | JObj _ \<Rightarrow> validate_body iter_errors r doc schema_path
         | _ \<Rightarrow> Inl (SchemaInvalid schema_path)))))"

section \<open>References into the document\<close>

text \<open>
  What a reference of the validator means: behind the number sign, the percent-decoded text is a JSON pointer, a path of
  escaped member names.
\<close>

fun unescape_pointer :: "string \<Rightarrow> string" where
  "unescape_pointer (c # d # s) =
     (if c = CHR ''~'' \<and> d = CHR ''1'' then CHR ''/'' # unescape_pointer s
      else if c = CHR ''~'' \<and> d = CHR ''0'' then CHR ''~'' # unescape_pointer s
      else c # unescape_pointer (d # s))"
| "unescape_pointer s = s"

fun member_at :: "json \<Rightarrow> string list \<Rightarrow> json option" where
  "member_at j [] = Some j"
| "member_at j (k # ks) = (case as_object j of None \<Rightarrow> None | Some d \<Rightarrow> (case map_of d k of None \<Rightarrow> None | Some v \<Rightarrow> member_at v ks))"

definition resolve_reference :: "(string \<Rightarrow> string) \<Rightarrow> object \<Rightarrow> string \<Rightarrow> json option" where
  "resolve_reference unquote doc ref =
     (if startswith ref ''#/'' then member_at (JObj doc) (map unescape_pointer (split_chr CHR ''/'' (unquote (drop 2 ref)))) else None)"

lemma escape_simps [simp]:
  "escape_pointer [] = []"
  "escape_pointer (c # s) =
     (if c = CHR ''~'' then ''~0'' else if c = CHR ''/'' then ''~1'' else [c]) @ escape_pointer s"
  by (simp_all add: escape_pointer_def replace_chr_def)

lemma escape_free: "CHR ''/'' \<notin> set (escape_pointer s)"
  by (induction s) auto

lemma unescape_plain: "c \<noteq> CHR ''~'' \<Longrightarrow> unescape_pointer (c # s) = c # unescape_pointer s"
  by (cases s) auto

lemma unescape_escape [simp]: "unescape_pointer (escape_pointer s) = s"
  by (induction s) (auto simp: unescape_plain)

lemma plain_segment:
  assumes "CHR ''~'' \<notin> set s"
  shows "unescape_pointer s = s"
  using assms by (induction s) (auto simp: unescape_plain)

text \<open>The parts of a pointer are the members it walks through.\<close>

lemma split_join:
  "list_all (\<lambda>k. CHR ''/'' \<notin> set k) (k # ks) \<Longrightarrow> split_chr CHR ''/'' (join ''/'' (k # ks)) = k # ks"
  by (induction ks arbitrary: k) (simp_all add: split_chr_notin split_chr_app)

lemma percent_free_join: "CHR ''%'' \<notin> set (join ''/'' ks) \<longleftrightarrow> (\<forall>k \<in> set ks. CHR ''%'' \<notin> set k)"
  by (induction ks rule: induct_list012) auto

definition plain_unquoting :: "(string \<Rightarrow> string) \<Rightarrow> bool" where
  "plain_unquoting unquote \<longleftrightarrow> (\<forall>s. CHR ''%'' \<notin> set s \<longrightarrow> unquote s = s)"

lemma resolve_join:
  assumes "plain_unquoting unquote" "CHR ''%'' \<notin> set (join ''/'' (k # ks))" "list_all (\<lambda>k. CHR ''/'' \<notin> set k) (k # ks)"
  shows "resolve_reference unquote doc (''#/'' @ join ''/'' (k # ks)) = member_at (JObj doc) (map unescape_pointer (k # ks))"
proof -
  have "unquote (join ''/'' (k # ks)) = join ''/'' (k # ks)" using assms(1,2) by (simp add: plain_unquoting_def)
  then show ?thesis using split_join [OF assms(3)] by (simp add: resolve_reference_def del: join.simps)
qed

section \<open>The schema a response is validated against\<close>

lemma located_raw: "raw_operations paths = map (\<lambda>(p, m, operation). operation) (located_operations paths)"
proof -
  have "List.map_filter (\<lambda>(m, op). if m \<in> set HTTP_METHODS then as_object op else None) item =
      map (\<lambda>(p, m, operation). operation) (List.map_filter (\<lambda>(m, op).
        if m \<in> set HTTP_METHODS then map_option (\<lambda>op. (path, m, op)) (as_object op) else None) item)" for item :: object and path :: string
    by (induction item) (auto simp: map_filter_simps split: option.splits if_splits)
  then show ?thesis
    unfolding raw_operations_def located_operations_def
    by (induction paths) (auto split: option.splits)
qed

lemma set_map_filter: "x \<in> set (List.map_filter f xs) \<longleftrightarrow> (\<exists>a \<in> set xs. f a = Some x)"
  by (induction xs) (auto simp: map_filter_simps split: option.split)

lemma find_member: "List.find P xs = Some x \<Longrightarrow> x \<in> set xs \<and> P x"
  by (auto simp: find_Some_iff)

lemma find_map: "List.find P (map f xs) = map_option f (List.find (\<lambda>x. P (f x)) xs)"
  by (induction xs) auto

lemma located_members:
  assumes "(p, m, operation) \<in> set (located_operations paths)" "wf_json (JObj paths)"
  shows "m \<in> set HTTP_METHODS \<and> (\<exists>item. map_of paths p = Some (JObj item) \<and> map_of item m = Some (JObj operation))"
proof -
  obtain item where item: "(p, JObj item) \<in> set paths" and op: "(m, JObj operation) \<in> set item" and m: "m \<in> set HTTP_METHODS"
    using assms(1) by (auto simp: located_operations_def set_map_filter split: option.splits if_splits)
  have "map_of paths p = Some (JObj item)" using item assms(2) by simp
  moreover have "wf_json (JObj item)" using assms(2) item by (rule wf_member)
  then have "map_of item m = Some (JObj operation)" using op by simp
  ultimately show ?thesis using m by blast
qed

text \<open>The documented response with JSON content, opened up.\<close>

lemma documented_content:
  assumes "find_documented_response doc operation_id expected = Inr d" "json_content_of d = Some c"
  obtains paths p m operation responses key content where
    "map_of doc ''paths'' = Some (JObj paths)" "(p, m, operation) \<in> set (located_operations paths)"
    "List.find (\<lambda>(p, m, operation). jget operation ''operationId'' = JStr operation_id) (located_operations paths) = Some (p, m, operation)"
    "map_of operation ''responses'' = Some (JObj responses)"
    "key = (if map_of responses (int_str expected) \<noteq> None then int_str expected else ''default'')"
    "map_of responses key = Some (JObj (dc_response d))"
    "map_of (dc_response d) ''content'' = Some (JObj content)"
    "map_of content ''application/json'' = Some (JObj (jc_content c))"
    "jc_path c = ''#/'' @ join ''/'' [''paths'', escape_pointer p, m, ''responses'', escape_pointer key, ''content'', ''application~1json'']"
proof -
  obtain paths p m operation where paths: "jget doc ''paths'' = JObj paths"
    and find: "List.find (\<lambda>(p, m, operation). jget operation ''operationId'' = JStr operation_id) (located_operations paths) = Some (p, m, operation)"
    and d: "documented_response_of operation_id expected (p, m, operation) = Inr d"
    using assms(1) by (auto simp: find_documented_response_def ok_iff)
  obtain responses key where r: "jget operation ''responses'' = JObj responses"
    and key: "key = (if map_of responses (int_str expected) \<noteq> None then int_str expected else ''default'')"
    and dr: "jget responses key = JObj (dc_response d)"
    and path: "dc_path d = ''#/paths/'' @ escape_pointer p @ ''/'' @ m @ ''/responses/'' @ escape_pointer key"
    using d by (auto simp: documented_response_of_def Let_def ok_iff simp del: escape_simps)
  obtain content where content: "jget (dc_response d) ''content'' = JObj content"
    and media: "jget content ''application/json'' = JObj (jc_content c)"
    and cp: "jc_path c = dc_path d @ ''/content/application~1json''"
    using assms(2) by (auto simp: json_content_of_def split: option.splits)
  have got: "jget e k = JObj x \<Longrightarrow> map_of e k = Some (JObj x)" for e k x
    by (auto simp: jget_def split: option.splits)
  show thesis
    by (rule that [OF got [OF paths] conjunct1 [OF find_member [OF find]] find got [OF r] key got [OF dr] got [OF content]
          got [OF media]]) (simp add: cp path)
qed

lemma looked_up_schema:
  assumes "find_documented_response doc operation_id expected = Inr d" "json_content_of d = Some c"
  shows "operation_response_schema doc operation_id (StatusInt expected) = Inr (jget (jc_content c) ''schema'')"
proof -
  obtain paths p m operation responses key content where
    paths: "map_of doc ''paths'' = Some (JObj paths)" and
    found: "List.find (\<lambda>(p, m, operation). jget operation ''operationId'' = JStr operation_id) (located_operations paths) = Some (p, m, operation)"
    and rs: "map_of operation ''responses'' = Some (JObj responses)"
    and key: "key = (if map_of responses (int_str expected) \<noteq> None then int_str expected else ''default'')"
    and r: "map_of responses key = Some (JObj (dc_response d))"
    and ct: "map_of (dc_response d) ''content'' = Some (JObj content)"
    and media: "map_of content ''application/json'' = Some (JObj (jc_content c))"
    using documented_content [OF assms] by metis
  have truthy: "truthy (jget responses key)" "dc_response d \<noteq> []" using r ct by (auto simp: truthy_def jget_def)
  have response: "(if truthy (jget responses (int_str expected)) then jget responses (int_str expected)
      else jget responses ''default'') = JObj (dc_response d)"
  proof (cases "map_of responses (int_str expected)")
    case None
    then show ?thesis using r key by (simp add: jget_def truthy_def)
  next
    case (Some x)
    then have "key = int_str expected" using key by simp
    then show ?thesis using r truthy by (simp add: jget_def)
  qed
  have "List.find (\<lambda>operation. jget operation ''operationId'' = JStr operation_id) (raw_operations paths) = Some operation"
    unfolding located_raw find_map using found by (simp add: case_prod_unfold)
  moreover have "response_schema_of operation (int_str expected) = jget (jc_content c) ''schema''"
    using rs response ct media by (simp add: response_schema_of_def jget_def [of operation] jget_def [of "dc_response d"] jget_def [of content] Let_def)
  moreover have "required_mapping doc ''paths'' = Inr paths" using paths by (simp add: required_mapping_def jget_def)
  ultimately show ?thesis by (simp add: operation_response_schema_def)
qed

lemma resolved_schema:
  assumes "find_documented_response doc operation_id expected = Inr d" "json_content_of d = Some c" "wf_json (JObj doc)"
    and "plain_unquoting unquote" "CHR ''%'' \<notin> set (jc_path c)" "jget (jc_content c) ''schema'' \<noteq> JNull"
  shows "resolve_reference unquote doc (jc_path c @ ''/schema'') = Some (jget (jc_content c) ''schema'')"
proof -
  obtain paths p m operation responses key content where
    paths: "map_of doc ''paths'' = Some (JObj paths)" and located: "(p, m, operation) \<in> set (located_operations paths)"
    and rs: "map_of operation ''responses'' = Some (JObj responses)"
    and r: "map_of responses key = Some (JObj (dc_response d))"
    and ct: "map_of (dc_response d) ''content'' = Some (JObj content)"
    and media: "map_of content ''application/json'' = Some (JObj (jc_content c))"
    and path: "jc_path c = ''#/'' @ join ''/'' [''paths'', escape_pointer p, m, ''responses'', escape_pointer key, ''content'', ''application~1json'']"
    using documented_content [OF assms(1,2)] by metis
  have "wf_json (JObj paths)" using assms(3) paths by (metis map_of_SomeD wf_member)
  then obtain item where item: "map_of paths p = Some (JObj item)" "map_of item m = Some (JObj operation)" and m: "m \<in> set HTTP_METHODS"
    using located_members [OF located] by blast
  have "list_all (\<lambda>m. CHR ''/'' \<notin> set m \<and> CHR ''~'' \<notin> set m) HTTP_METHODS" by code_simp
  then have http_method: "CHR ''/'' \<notin> set m" "unescape_pointer m = m" using m plain_segment by (auto simp: list_all_iff)
  have schema: "map_of (jc_content c) ''schema'' = Some (jget (jc_content c) ''schema'')"
    using assms(6) by (auto simp: jget_def split: option.splits)
  let ?ks = "[escape_pointer p, m, ''responses'', escape_pointer key, ''content'', ''application~1json'', ''schema'']"
  have ref: "jc_path c @ ''/schema'' = ''#/'' @ join ''/'' (''paths'' # ?ks)" by (simp add: path)
  have "CHR ''%'' \<notin> set (join ''/'' (''paths'' # ?ks))" using assms(5) by (simp add: path)
  moreover have "list_all (\<lambda>k. CHR ''/'' \<notin> set k) (''paths'' # ?ks)" using escape_free http_method(1) by simp
  ultimately have "resolve_reference unquote doc (jc_path c @ ''/schema'') = member_at (JObj doc) (map unescape_pointer (''paths'' # ?ks))"
    unfolding ref by (rule resolve_join [OF assms(4)])
  also have "map unescape_pointer (''paths'' # ?ks) = [''paths'', p, m, ''responses'', key, ''content'', ''application/json'', ''schema'']"
    by (simp add: http_method(2))
  finally show ?thesis using paths item rs r ct media schema by simp
qed

lemma validate_body_ok:
  "validate_body iter_errors r doc ref = Inr u \<longleftrightarrow> (\<exists>body. rs_json r = Some body \<and> iter_errors doc ref body = [])"
proof -
  have "(case sort_key vi_text es of [] \<Rightarrow> Inr () | e # _ \<Rightarrow> Inl (SchemaViolated ref (format_validation_error e))) = Inr u \<longleftrightarrow> es = []" for es
  proof (cases es)
    case (Cons e fs)
    then have "sort_key vi_text es \<noteq> []" by (metis length_0_conv length_sort list.distinct(1))
    with Cons show ?thesis by (cases "sort_key vi_text es") simp_all
  qed simp
  then show ?thesis by (simp add: validate_body_def response_json_def ok_iff)
qed

lemma accepted_content:
  assumes "assert_response_matches_openapi iter_errors r operation_id expected doc = Inr ()"
    and "find_documented_response doc operation_id expected = Inr d" "json_content_of d = Some c"
  shows "lg_status r = expected \<and> media_type r = ''application/json'' \<and>
    (case jget (jc_content c) ''schema'' of JNull \<Rightarrow> \<not> is_success_status expected
       | schema \<Rightarrow> validate_body iter_errors r doc (jc_path c @ ''/schema'') = Inr ())"
  using assms(1)
  by (auto simp: assert_response_matches_openapi_def assms(2,3) looked_up_schema [OF assms(2,3)] lookup_response_schema_def
      ok_iff Let_def split: json.splits)


section \<open>Cleared cookies\<close>

text \<open>The last attribute of a name counts.\<close>

definition last_attribute :: "(string \<times> string option) list \<Rightarrow> string \<Rightarrow> attribute" where
  "last_attribute attributes name =
     (case map_of (rev (map (\<lambda>nv. (lower (fst nv), snd nv)) attributes)) name of
        None \<Rightarrow> AttrText [] | Some None \<Rightarrow> AttrTrue | Some (Some v) \<Rightarrow> AttrText v)"

lemma stored_last: "mo_attribute \<lparr>mo_value = v, mo_attributes = stored_attributes as\<rparr> name = last_attribute as name"
proof -
  have "map_of (fold (\<lambda>nv. AList.update (lower (fst nv)) (case snd nv of None \<Rightarrow> AttrTrue | Some v \<Rightarrow> AttrText v)) as d) name =
    (case map_of (rev (map (\<lambda>nv. (lower (fst nv), snd nv)) as)) name of None \<Rightarrow> map_of d name
       | Some None \<Rightarrow> Some AttrTrue | Some (Some v) \<Rightarrow> Some (AttrText v))" for d
    by (induction as arbitrary: d) (auto simp: dict_simps map_add_def split: option.splits)
  from this [of "[]"] show ?thesis
    by (auto simp: mo_attribute_def stored_attributes_def last_attribute_def split: option.splits)
qed

lemma response_cookie_first:
  assumes "rs_set_cookie r = others @ header # later" "load_cookies header = Some [(name, m)]"
    and "list_all (\<lambda>h. case load_cookies h of None \<Rightarrow> True | Some jar \<Rightarrow> map_of jar name = None) others"
  shows "response_cookie r name = Some m"
proof -
  have "List.map_filter (\<lambda>header. case load_cookies header of None \<Rightarrow> None | Some jar \<Rightarrow> map_of jar name) others = []"
    using assms(3) by (induction others) (auto simp: map_filter_simps split: option.splits)
  then show ?thesis by (simp add: response_cookie_def assms(1,2) map_filter_simps map_filter_def)
qed

text \<open>
  C16. The check of a cleared cookie reads what servers write: behind headers of other cookies, a header with the
  cookie and its attributes is accepted exactly when its value is empty, the last Max-Age is zero, the last Path is the
  expected one, and the flags and SameSite are those the test demands.
\<close>

theorem cleared_cookie_is_recognised:
  assumes "rs_set_cookie r = others @ render_cookie name v as # later" "plain_cookie name v" "list_all plain_attribute as"
    and "list_all (\<lambda>h. case load_cookies h of None \<Rightarrow> True | Some jar \<Rightarrow> map_of jar name = None) others"
  shows "assert_cookie_cleared r name \<lparr>cs_path = path, cs_http_only = http_only, cs_secure = secure, cs_same_site = Some site\<rparr> = Inr () \<longleftrightarrow>
    v = [] \<and> last_attribute as ''max-age'' = AttrText ''0'' \<and> last_attribute as ''path'' = AttrText path \<and>
    (\<forall>b. http_only = Some b \<longrightarrow> attribute_truth (last_attribute as ''httponly'') = b) \<and>
    (\<forall>b. secure = Some b \<longrightarrow> attribute_truth (last_attribute as ''secure'') = b) \<and>
    (\<exists>s. last_attribute as ''samesite'' = AttrText s \<and> casefold s = casefold site)"
proof -
  have "response_cookie r name = Some \<lparr>mo_value = v, mo_attributes = stored_attributes as\<rparr>"
    by (rule response_cookie_first [OF assms(1) rendered_cookie_reads_back [OF assms(2,3)] assms(4)])
  then show ?thesis
    by (auto simp: assert_cookie_cleared_def ok_iff expect_flag_def expect_same_site_def stored_last split: option.splits attribute.splits)
qed

section \<open>Examples\<close>

definition sample_contract :: object where
  "sample_contract = [(''paths'', JObj [(''/v1/~users/{id}'', JObj [(''get'', JObj
     [(''operationId'', JStr ''getUser''),
      (''responses'', JObj [(''200'', JObj [(''content'', JObj [(''application/json'', JObj [(''schema'', JBool True)])])])])])])])]"

definition sample_response :: http_response where
  "sample_response = \<lparr>lg_method = ''GET'', lg_url = ''https://a.b/v1/users/1'', lg_path = Some ''/v1/users/1'', lg_status = 200,
     lg_headers = [(''content-type'', ''Application/JSON; charset=utf-8'')], lg_text = ''1'', rs_content = [49], rs_json = Some (JInt 1),
     rs_set_cookie = [render_cookie ''other'' ''x'' [], render_cookie ''S'' [] [(''Path'', Some ''/''), (''Max-Age'', Some ''0''),
       (''HttpOnly'', None), (''SameSite'', Some ''LAX'')]]\<rparr>"


theorem cleared_cookie_is_recognised_witness:
  "assert_cookie_cleared sample_response ''S''
     \<lparr>cs_path = ''/'', cs_http_only = Some True, cs_secure = None, cs_same_site = Some ''Lax''\<rparr> = Inr ()"
proof -
  let ?as = "[(''Path'', Some ''/''), (''Max-Age'', Some ''0''), (''HttpOnly'', None), (''SameSite'', Some ''LAX'')]"
  have "rs_set_cookie sample_response = [render_cookie ''other'' ''x'' []] @ render_cookie ''S'' [] ?as # []"
    by (simp add: sample_response_def)
  moreover have "plain_cookie ''S'' []" "list_all plain_attribute ?as" by code_simp+
  moreover have "list_all (\<lambda>h. case load_cookies h of None \<Rightarrow> True | Some jar \<Rightarrow> map_of jar ''S'' = None) [render_cookie ''other'' ''x'' []]"
    by code_simp
  moreover have "last_attribute ?as ''max-age'' = AttrText ''0''" "last_attribute ?as ''path'' = AttrText ''/''"
    "attribute_truth (last_attribute ?as ''httponly'')" "last_attribute ?as ''samesite'' = AttrText ''LAX''"
    "casefold ''LAX'' = casefold ''Lax''"
    by code_simp+
  ultimately show ?thesis
    using cleared_cookie_is_recognised [of sample_response "[render_cookie ''other'' ''x'' []]" "''S''" "[]" ?as "[]" "''/''" "Some True" None "''Lax''"]
    by simp
qed

end
