(* ===== verification/Gateway.thy ===== *)
theory Gateway
  imports Response_Checks Auth
begin

text \<open>
  Tests talk to the gateway through \<open>GatewayClient\<close> (\<open>src/api_tests/client.py\<close>).  The HTTP library is a parameter: it opens
  a client for a session, sends a request on it and closes it; the clients of the library keep the cookies they were
  given, so a client is a value of the library (\<open>'c\<close>).  The state is the world behind the library, the shared pacing, and
  the exchanges so far, which no operation reads.
\<close>

record upload =
  up_name :: "string option"
  up_content :: string
  up_type :: string

record http_request =
  hr_method :: string
  hr_target :: string
  hr_params :: "(string \<times> json) list"
  hr_json :: "json option"
  hr_files :: "(string \<times> upload) list"

definition plain_request :: "string \<Rightarrow> string \<Rightarrow> http_request" where
  "plain_request method path = \<lparr>hr_method = method, hr_target = path, hr_params = [], hr_json = None, hr_files = []\<rparr>"

datatype 'c exchange =
    Opened "session option"
  | Exchanged 'c http_request "http_response option"
  | Closed 'c

record ('c, 'w) http_library =
  hl_open :: "environment_config \<Rightarrow> session option \<Rightarrow> 'w \<Rightarrow> 'c \<times> 'w"
  hl_send :: "'c \<Rightarrow> http_request \<Rightarrow> 'w \<Rightarrow> http_response option \<times> 'w"
  hl_close :: "'c \<Rightarrow> 'w \<Rightarrow> 'w"
  hl_clock :: "'w \<Rightarrow> rat \<times> rat"
  hl_validator :: validator

record ('c, 'w) gateway_state =
  gs_world :: 'w
  gs_pacing :: pacing
  gs_exchanges :: "'c exchange list"

text \<open>The client of a test: its configuration and the client of the library.\<close>

record 'c api_client =
  ac_config :: environment_config
  ac_handle :: 'c

datatype gateway_error =
    BadTarget url_error
  | Unreachable
  | Check check_error
  | PartialDeactivation string
  | NotOneUser
  | WrongSubject
  | WrongUser
  | WrongDenial
  | BadOptional string

type_synonym ('c, 'w, 'a) gateway_io = "(('c, 'w) gateway_state, gateway_error, 'a) io"

definition checked :: "'a check \<Rightarrow> gateway_error + 'a" where
  "checked r = (case r of Inl e \<Rightarrow> Inl (Check e) | Inr x \<Rightarrow> Inr x)"

lemma checked_ok [ok_iff]: "checked r = Inr x \<longleftrightarrow> r = Inr x"
  by (simp add: checked_def split: sum.split)

text \<open>\<open>raw_request\<close> and \<open>api_request\<close> with the arguments of the library (\<open>request\<close> has them beside the method and the path).\<close>

definition send_raw :: "('c, 'w) http_library \<Rightarrow> 'c api_client \<Rightarrow> http_request \<Rightarrow> ('c, 'w, http_response) gateway_io" where
  "send_raw lib client request s =
     (case raw_request (\<lambda>m target w. hl_send lib (ac_handle client) (request\<lparr>hr_target := target\<rparr>) w)
             (hl_clock lib (gs_world s)) \<lparr>gc_api_base_path = api_base_path (ac_config client), gc_pacing = gs_pacing s\<rparr>
             (hr_method request) (hr_target request) (gs_world s) of
        Inl e \<Rightarrow> (Inl (BadTarget e), s)
      | Inr (response, client', w) \<Rightarrow>
          (requireE response Unreachable,
           s\<lparr>gs_world := w, gs_pacing := gc_pacing client',
             gs_exchanges := gs_exchanges s @ [Exchanged (ac_handle client) (request\<lparr>hr_target := absolute_path (hr_target request)\<rparr>) response]\<rparr>))"

definition send_api :: "('c, 'w) http_library \<Rightarrow> 'c api_client \<Rightarrow> http_request \<Rightarrow> ('c, 'w, http_response) gateway_io" where
  "send_api lib client request =
     send_raw lib client (request\<lparr>hr_target := join_paths (api_base_path (ac_config client)) (hr_target request)\<rparr>)"

text \<open>\<open>with GatewayClient(...) as client\<close>: the client is closed on every path.\<close>

definition with_client ::
  "('c, 'w) http_library \<Rightarrow> environment_config \<Rightarrow> session option \<Rightarrow> ('c api_client \<Rightarrow> ('c, 'w, 'a) gateway_io) \<Rightarrow> ('c, 'w, 'a) gateway_io" where
  "with_client lib config sess body s =
     (case hl_open lib config sess (gs_world s) of (c, w) \<Rightarrow>
      (case body \<lparr>ac_config = config, ac_handle = c\<rparr> (s\<lparr>gs_world := w, gs_exchanges := gs_exchanges s @ [Opened sess]\<rparr>) of
         (r, t) \<Rightarrow> (r, t\<lparr>gs_world := hl_close lib c (gs_world t), gs_exchanges := gs_exchanges t @ [Closed c]\<rparr>)))"

section \<open>What a request leaves\<close>

lemma send_raw_exchanges:
  "gs_exchanges (snd (send_raw lib client request s)) = gs_exchanges s \<and> (\<exists>e. fst (send_raw lib client request s) = Inl (BadTarget e)) \<or>
   (\<exists>response. gs_exchanges (snd (send_raw lib client request s)) =
      gs_exchanges s @ [Exchanged (ac_handle client) (request\<lparr>hr_target := absolute_path (hr_target request)\<rparr>) response] \<and>
      fst (send_raw lib client request s) = requireE response Unreachable)"
  by (simp add: send_raw_def split: sum.split prod.split)

lemma send_raw_ok:
  assumes "send_raw lib client request s = (Inr r, t)"
  shows "gs_exchanges t = gs_exchanges s @ [Exchanged (ac_handle client) (request\<lparr>hr_target := absolute_path (hr_target request)\<rparr>) (Some r)]"
  using send_raw_exchanges [of lib client request s] by (auto simp: assms ok_iff requireE_def split: option.splits)

lemma with_client_ok:
  assumes "with_client lib config sess body s = (Inr x, t)"
  obtains c w u where "hl_open lib config sess (gs_world s) = (c, w)"
    "body \<lparr>ac_config = config, ac_handle = c\<rparr> (s\<lparr>gs_world := w, gs_exchanges := gs_exchanges s @ [Opened sess]\<rparr>) = (Inr x, u)"
    "gs_exchanges t = gs_exchanges u @ [Closed c]"
  using assms by (auto simp: with_client_def split: prod.splits)

end
