(* ===== verification/Deactivation.thy ===== *)
theory Deactivation
  imports Gateway
begin

text \<open>
  \<open>src/api_tests/admin_deactivation.py\<close>: finding the user of a subject, reading and deactivating it, and the check that
  its sessions are revoked.  A response that fails a check raises; what was sent stays among the exchanges.
\<close>

section \<open>Users\<close>

definition user_path :: "string \<Rightarrow> string" where
  "user_path user_id = ''/v1/users/'' @ user_id"

definition deactivation_path :: "string \<Rightarrow> string" where
  "deactivation_path user_id = ''/v1/users/'' @ user_id @ ''/deactivate''"

record admin_user_record =
  au_id :: string
  au_subject :: string
  au_email :: string
  au_display_name :: string
  au_status :: string
  au_role_ids :: "string set"
  au_created_at :: string
  au_updated_at :: "string option"
  au_deactivated_at :: "string option"
  au_deactivated_by_id :: "string option"

record user_deactivation_result =
  ud_user_id :: string
  ud_status :: string
  ud_roles_removed :: int
  ud_sessions_revoked :: bool

definition optional_string :: "object \<Rightarrow> string \<Rightarrow> gateway_error + string option" where
  "optional_string body name =
     (case jget body name of JNull \<Rightarrow> Inr None | JStr s \<Rightarrow> Inr (Some s) | _ \<Rightarrow> Inl (BadOptional name))"

definition admin_user_record_of :: "object \<Rightarrow> gateway_error + admin_user_record" where
  "admin_user_record_of body =
     bindE (case jget body ''deactivatedBy'' of
              JNull \<Rightarrow> Inr None
            | j \<Rightarrow> checked (bindE (object_item j) (\<lambda>actor. bindE (string_field actor ''id'') (\<lambda>i. Inr (Some i))))) (\<lambda>deactivated_by.
     bindE (checked (string_field body ''id'')) (\<lambda>i.
     bindE (checked (string_field body ''idpSub'')) (\<lambda>subject.
     bindE (checked (string_field body ''email'')) (\<lambda>email.
     bindE (checked (string_field body ''displayName'')) (\<lambda>display_name.
     bindE (checked (string_field body ''status'')) (\<lambda>st.
     bindE (checked (string_array_field body ''roleIds'')) (\<lambda>roles.
     bindE (checked (string_field body ''createdAt'')) (\<lambda>created.
     bindE (optional_string body ''updatedAt'') (\<lambda>updated.
     bindE (optional_string body ''deactivatedAt'') (\<lambda>deactivated.
     Inr \<lparr>au_id = i, au_subject = subject, au_email = email, au_display_name = display_name, au_status = st,
       au_role_ids = set roles, au_created_at = created, au_updated_at = updated, au_deactivated_at = deactivated,
       au_deactivated_by_id = deactivated_by\<rparr>))))))))))"

text \<open>\<open>assert_response_matches_openapi\<close> and \<open>json_object_response\<close> on a response that was received.\<close>

definition matched_body ::
  "('c, 'w) http_library \<Rightarrow> object \<Rightarrow> string \<Rightarrow> int \<Rightarrow> http_response \<Rightarrow> gateway_error + object" where
  "matched_body lib doc operation_id expected r =
     checked (bindE (assert_response_matches_openapi (hl_validator lib) r operation_id expected doc) (\<lambda>_.
       json_object_response r expected))"

definition resolved_user :: "string \<Rightarrow> object \<Rightarrow> gateway_error + admin_user_record" where
  "resolved_user subject body =
     bindE (checked (array_field body ''content'')) (\<lambda>rows.
     bindE (checked (object_field body ''metadata'')) (\<lambda>metadata.
     if length rows \<noteq> 1 then Inl NotOneUser
     else
     bindE (checked (int_field metadata ''totalElements'')) (\<lambda>total.
     if total \<noteq> 1 then Inl NotOneUser
     else
     bindE (checked (object_item (hd rows))) (\<lambda>row.
     bindE (admin_user_record_of row) (\<lambda>r.
     if au_subject r \<noteq> subject then Inl WrongSubject else Inr r)))))"

definition resolve_user_by_subject ::
  "('c, 'w) http_library \<Rightarrow> 'c api_client \<Rightarrow> string \<Rightarrow> object \<Rightarrow> ('c, 'w, admin_user_record) gateway_io" where
  "resolve_user_by_subject lib client subject openapi_snapshot =
     bindS (send_api lib client ((plain_request ''GET'' ''/v1/users'')\<lparr>hr_params := [(''idpSub'', JStr subject)]\<rparr>)) (\<lambda>response.
     liftE (bindE (matched_body lib openapi_snapshot ''getUsers'' 200 response) (resolved_user subject)))"

definition read_user ::
  "('c, 'w) http_library \<Rightarrow> 'c api_client \<Rightarrow> string \<Rightarrow> object \<Rightarrow> ('c, 'w, admin_user_record \<times> object) gateway_io" where
  "read_user lib client user_id openapi_snapshot =
     bindS (send_api lib client (plain_request ''GET'' (user_path user_id))) (\<lambda>response.
     liftE (bindE (matched_body lib openapi_snapshot ''getUser'' 200 response) (\<lambda>body.
       bindE (admin_user_record_of body) (\<lambda>r.
       if au_id r \<noteq> user_id then Inl WrongUser else Inr (r, body)))))"

section \<open>Deactivation\<close>

definition deactivation_of :: "object \<Rightarrow> user_deactivation_result check" where
  "deactivation_of body =
     bindE (string_field body ''userId'') (\<lambda>user_id.
     bindE (string_field body ''status'') (\<lambda>st.
     bindE (int_field body ''rolesRemoved'') (\<lambda>roles_removed.
     bindE (bool_field body ''sessionsRevoked'') (\<lambda>sessions_revoked.
     Inr \<lparr>ud_user_id = user_id, ud_status = st, ud_roles_removed = roles_removed, ud_sessions_revoked = sessions_revoked\<rparr>))))"

definition deactivate_user_once ::
  "('c, 'w) http_library \<Rightarrow> 'c api_client \<Rightarrow> string \<Rightarrow> object \<Rightarrow> ('c, 'w, user_deactivation_result) gateway_io" where
  "deactivate_user_once lib client user_id openapi_snapshot =
     bindS (send_api lib client (plain_request ''POST'' (deactivation_path user_id))) (\<lambda>response.
     if lg_status response = 503 then
       bindS (liftE (checked (bindE (assert_response_matches_openapi (hl_validator lib) response ''deactivateUser'' 503 openapi_snapshot) (\<lambda>_.
                assert_api_error response 503 ''SERVICE_UNAVAILABLE'' None)))) (\<lambda>_.
       bindS (read_user lib client user_id openapi_snapshot) (\<lambda>(current, _).
       liftE (Inl (PartialDeactivation (au_status current)))))
     else
       liftE (bindE (matched_body lib openapi_snapshot ''deactivateUser'' 200 response) (\<lambda>body.
         checked (deactivation_of body))))"

section \<open>Revoked sessions\<close>

datatype request_kind = Raw | Api

definition revocation_requests :: "object \<Rightarrow> object \<Rightarrow> (request_kind \<times> string \<times> string \<times> object) list" where
  "revocation_requests session_gateway_openapi_snapshot openapi_snapshot =
     [(Raw, ''/auth/v1/user'', ''getCurrentUser'', session_gateway_openapi_snapshot),
      (Api, ''/v1/currencies'', ''getAll'', openapi_snapshot),
      (Raw, ''/auth/v1/session'', ''getSessionStatus'', session_gateway_openapi_snapshot)]"

text \<open>The checks of one denied response.\<close>

definition denied ::
  "('c, 'w) http_library \<Rightarrow> environment_config \<Rightarrow> string \<Rightarrow> string \<Rightarrow> object \<Rightarrow> http_response \<Rightarrow> gateway_error + unit" where
  "denied lib config path operation_id doc response =
     bindE (checked (assert_api_error response 401 ''UNAUTHORIZED'' None)) (\<lambda>body.
     bindE (checked (string_field body ''message'')) (\<lambda>message.
     if message \<noteq> ''Authentication required'' then Inl WrongDenial
     else
     bindE (checked (assert_response_matches_openapi (hl_validator lib) response operation_id 401 doc)) (\<lambda>_.
     if path = ''/auth/v1/session''
     then checked (assert_cookie_cleared response (session_cookie_name config) default_scope) else Inr ())))"

definition reject_step ::
  "('c, 'w) http_library \<Rightarrow> environment_config \<Rightarrow> session \<Rightarrow> request_kind \<times> string \<times> string \<times> object \<Rightarrow> ('c, 'w, unit) gateway_io" where
  "reject_step lib config sess request =
     (let (kind, path, operation_id, doc) = request in
      bindS (with_client lib config (Some sess) (\<lambda>client.
               case kind of Api \<Rightarrow> send_api lib client (plain_request ''GET'' path)
                 | Raw \<Rightarrow> send_raw lib client (plain_request ''GET'' path))) (\<lambda>response.
      liftE (denied lib config path operation_id doc response)))"

fun each :: "('a \<Rightarrow> ('s, 'e, unit) io) \<Rightarrow> 'a list \<Rightarrow> ('s, 'e, unit) io" where
  "each f [] = liftE (Inr ())"
| "each f (x # xs) = bindS (f x) (\<lambda>_. each f xs)"

definition assert_original_cookie_rejected ::
  "('c, 'w) http_library \<Rightarrow> environment_config \<Rightarrow> object \<Rightarrow> object \<Rightarrow> session \<Rightarrow> ('c, 'w, unit) gateway_io" where
  "assert_original_cookie_rejected lib config session_gateway_openapi_snapshot openapi_snapshot sess =
     each (reject_step lib config sess) (revocation_requests session_gateway_openapi_snapshot openapi_snapshot)"

definition assert_sessions_revoked ::
  "('c, 'w) http_library \<Rightarrow> environment_config \<Rightarrow> session list \<Rightarrow> object \<Rightarrow> object \<Rightarrow> ('c, 'w, unit) gateway_io" where
  "assert_sessions_revoked lib config sessions session_gateway_openapi_snapshot openapi_snapshot =
     each (assert_original_cookie_rejected lib config session_gateway_openapi_snapshot openapi_snapshot) sessions"

text \<open>
  \<open>parse_timestamp\<close>; \<open>datetime.fromisoformat\<close> is the parameter \<open>fromisoformat\<close>, which gives the moment and whether the text
  had a time zone.
\<close>

definition parse_timestamp :: "(string \<Rightarrow> ('t \<times> bool) option) \<Rightarrow> string \<Rightarrow> 't option" where
  "parse_timestamp fromisoformat s =
     (case fromisoformat (replace_chr CHR ''Z'' ''+00:00'' s) of
        None \<Rightarrow> None | Some (moment, aware) \<Rightarrow> if aware then Some moment else None)"

section \<open>One attempt\<close>

definition api_target :: "'c api_client \<Rightarrow> string \<Rightarrow> string" where
  "api_target client path = absolute_path (join_paths (api_base_path (ac_config client)) path)"


lemma send_api_cases [case_names unsent lost received]:
  assumes "\<And>e. fst (send_api lib client request s) = Inl (BadTarget e) \<Longrightarrow>
      gs_exchanges (snd (send_api lib client request s)) = gs_exchanges s \<Longrightarrow> P"
    and "fst (send_api lib client request s) = Inl Unreachable \<Longrightarrow> gs_exchanges (snd (send_api lib client request s)) =
      gs_exchanges s @ [Exchanged (ac_handle client) (request\<lparr>hr_target := api_target client (hr_target request)\<rparr>) None] \<Longrightarrow> P"
    and "\<And>r. fst (send_api lib client request s) = Inr r \<Longrightarrow> gs_exchanges (snd (send_api lib client request s)) =
      gs_exchanges s @ [Exchanged (ac_handle client) (request\<lparr>hr_target := api_target client (hr_target request)\<rparr>) (Some r)] \<Longrightarrow> P"
  shows P
proof -
  let ?m = "send_api lib client request s"
  have "gs_exchanges (snd ?m) = gs_exchanges s \<and> (\<exists>e. fst ?m = Inl (BadTarget e)) \<or>
    (\<exists>response. gs_exchanges (snd ?m) =
      gs_exchanges s @ [Exchanged (ac_handle client) (request\<lparr>hr_target := api_target client (hr_target request)\<rparr>) response] \<and>
      fst ?m = requireE response Unreachable)"
    using send_raw_exchanges [of lib client "request\<lparr>hr_target := join_paths (api_base_path (ac_config client)) (hr_target request)\<rparr>" s]
    by (simp add: send_api_def api_target_def)
  then show P
  proof (elim disjE conjE exE)
    fix response
    assume r: "gs_exchanges (snd ?m) =
        gs_exchanges s @ [Exchanged (ac_handle client) (request\<lparr>hr_target := api_target client (hr_target request)\<rparr>) response]"
      "fst ?m = requireE response Unreachable"
    show P
    proof (cases response)
      case None
      then show P using assms(2) r by simp
    next
      case (Some x)
      then show P using assms(3) [of x] r by simp
    qed
  qed (use assms(1) in blast)
qed

lemma bindS_split: "bindS m f s = (case fst (m s) of Inl e \<Rightarrow> (Inl e, snd (m s)) | Inr x \<Rightarrow> f x (snd (m s)))"
  by (cases "m s") (simp add: bindS_def split: sum.split)

definition deactivation_post :: "'c api_client \<Rightarrow> string \<Rightarrow> http_response option \<Rightarrow> 'c exchange" where
  "deactivation_post client user_id response =
     Exchanged (ac_handle client) (plain_request ''POST'' (api_target client (deactivation_path user_id))) response"

definition user_get :: "'c api_client \<Rightarrow> string \<Rightarrow> http_response option \<Rightarrow> 'c exchange" where
  "user_get client user_id response =
     Exchanged (ac_handle client) (plain_request ''GET'' (api_target client (user_path user_id))) response"

lemma plain_request_target [simp]: "(plain_request m p)\<lparr>hr_target := q\<rparr> = plain_request m q" "hr_target (plain_request m p) = p"
  by (simp_all add: plain_request_def)

definition never_partial :: "gateway_error + 'a \<Rightarrow> bool" where
  "never_partial r \<longleftrightarrow> (\<forall>st. r \<noteq> Inl (PartialDeactivation st))"

lemma never_partial_simps [simp]:
  "never_partial (Inl (BadTarget e))" "never_partial (Inl Unreachable)" "never_partial (Inr x)" "never_partial (checked c)"
  "never_partial (Inl NotOneUser)" "never_partial (Inl WrongUser)" "never_partial (Inl (BadOptional n))" "never_partial (Inl (Check k))"
  by (auto simp: never_partial_def checked_def split: sum.splits)

lemma never_partial_bind: "never_partial m \<Longrightarrow> (\<And>x. never_partial (f x)) \<Longrightarrow> never_partial (bindE m f)"
  by (cases m) (auto simp: never_partial_def)

lemma never_partial_optional [simp]: "never_partial (optional_string body name)"
  by (simp add: optional_string_def split: json.split)

lemma never_partial_user [simp]: "never_partial (admin_user_record_of body)"
  unfolding admin_user_record_of_def by (intro never_partial_bind) (simp_all split: json.split)

lemma never_partial_matched [simp]: "never_partial (matched_body lib doc i e r)"
  by (simp add: matched_body_def)

lemma read_user_cases:
  assumes "read_user lib client user_id doc s = (res, t)"
  shows "never_partial res \<and> (case res of
      Inl e \<Rightarrow> gs_exchanges t = gs_exchanges s \<or> (\<exists>response. gs_exchanges t = gs_exchanges s @ [user_get client user_id response])
    | Inr cb \<Rightarrow> \<exists>r. gs_exchanges t = gs_exchanges s @ [user_get client user_id (Some r)] \<and> rs_json r = Some (JObj (snd cb)) \<and>
        lg_status r = 200 \<and> au_id (fst cb) = user_id \<and> jget (snd cb) ''status'' = JStr (au_status (fst cb)))"
proof (cases rule: send_api_cases [of lib client "plain_request ''GET'' (user_path user_id)" s])
  case (unsent e)
  then show ?thesis using assms by (auto simp: read_user_def bindS_split [of "send_api lib client r" for r] unsent(1))
next
  case lost
  then show ?thesis using assms by (auto simp: read_user_def bindS_split [of "send_api lib client r" for r] lost(1) user_get_def)
next
  case (received r)
  let ?res = "bindE (matched_body lib doc ''getUser'' 200 r) (\<lambda>body.
       bindE (admin_user_record_of body) (\<lambda>r. if au_id r \<noteq> user_id then Inl WrongUser else Inr (r, body)))"
  have res: "res = ?res" and t: "gs_exchanges t = gs_exchanges s @ [user_get client user_id (Some r)]"
    using assms received(2) by (auto simp: read_user_def bindS_split [of "send_api lib client r" for r] received(1) liftE_def user_get_def)
  have "never_partial ?res" by (intro never_partial_bind) simp_all
  moreover have *: "rs_json r = Some (JObj body) \<and> lg_status r = 200 \<and> au_id current = user_id \<and> jget body ''status'' = JStr (au_status current)"
    if "?res = Inr (current, body)" for current body
  proof -
    have b: "matched_body lib doc ''getUser'' 200 r = Inr body" and c: "admin_user_record_of body = Inr current" "au_id current = user_id"
      using that by (auto simp: ok_iff split: if_splits)
    have "rs_json r = Some (JObj body) \<and> lg_status r = 200"
      using b by (auto simp: matched_body_def json_object_response_def assert_status_def response_json_def ok_iff)
    moreover obtain st where "string_field body ''status'' = Inr st" "au_status current = st"
      using c(1) unfolding admin_user_record_of_def bindE_ok checked_ok by auto
    then have "jget body ''status'' = JStr (au_status current)"
      by (auto simp: string_field_def split: json.splits if_splits)
    ultimately show ?thesis using c(2) by blast
  qed
  ultimately show ?thesis
  proof (cases ?res)
    case (Inr cb)
    then have "?res = Inr (fst cb, snd cb)" by simp
    from * [OF this] show ?thesis using t \<open>never_partial ?res\<close> unfolding res Inr sum.case by blast
  qed (use t res in auto)
qed

lemma read_user_error:
  assumes "read_user lib client user_id doc s = (Inl e, t)"
  shows "(\<forall>st. e \<noteq> PartialDeactivation st) \<and>
    (gs_exchanges t = gs_exchanges s \<or> (\<exists>response. gs_exchanges t = gs_exchanges s @ [user_get client user_id response]))"
  using read_user_cases [OF assms] by (simp add: never_partial_def)

lemma read_user_ok:
  assumes "read_user lib client user_id doc s = (Inr (current, body), t)"
  obtains r where "gs_exchanges t = gs_exchanges s @ [user_get client user_id (Some r)]" "rs_json r = Some (JObj body)"
    "lg_status r = 200" "au_id current = user_id" "jget body ''status'' = JStr (au_status current)"
  using read_user_cases [OF assms] by auto

text \<open>
  C17. A deactivation is attempted at most once: whatever the service answers, one POST is sent (none when the target is no
  URL) and nothing else, except that after a documented 503 one GET reads the user.  A result is only returned for a 200,
  and the error of a partial deactivation carries the status of that user as the GET found it.
\<close>

theorem deactivation_is_attempted_once:
  assumes "deactivate_user_once lib client user_id doc s = (res, t)"
  shows "gs_exchanges t = gs_exchanges s \<and> (\<exists>e. res = Inl (BadTarget e)) \<or>
    (\<exists>response. gs_exchanges t = gs_exchanges s @ [deactivation_post client user_id response] \<and> never_partial res \<and>
       (\<forall>d. res = Inr d \<longrightarrow> (\<exists>r. response = Some r \<and> lg_status r = 200))) \<or>
    (\<exists>r response. lg_status r = 503 \<and>
       gs_exchanges t = gs_exchanges s @ [deactivation_post client user_id (Some r), user_get client user_id response] \<and>
       (\<exists>e. res = Inl e) \<and>
       (\<forall>st. res = Inl (PartialDeactivation st) \<longrightarrow> (\<exists>q body. response = Some q \<and> lg_status q = 200 \<and>
          rs_json q = Some (JObj body) \<and> jget body ''status'' = JStr st)))"
proof (cases rule: send_api_cases [of lib client "plain_request ''POST'' (deactivation_path user_id)" s])
  case (unsent e)
  then show ?thesis using assms by (auto simp: deactivate_user_once_def bindS_split [of "send_api lib client r" for r] unsent(1))
next
  case lost
  then show ?thesis
    using assms by (auto simp: deactivate_user_once_def bindS_split [of "send_api lib client r" for r] lost(1) deactivation_post_def never_partial_def)
next
  case (received r)
  let ?u = "snd (send_api lib client (plain_request ''POST'' (deactivation_path user_id)) s)"
  have u: "gs_exchanges ?u = gs_exchanges s @ [deactivation_post client user_id (Some r)]"
    using received(2) by (simp add: deactivation_post_def)
  show ?thesis
  proof (cases "lg_status r = 503")
    case False
    let ?res = "bindE (matched_body lib doc ''deactivateUser'' 200 r) (\<lambda>body. checked (deactivation_of body))"
    have res: "res = ?res" "t = ?u"
      using assms False by (auto simp: deactivate_user_once_def bindS_split [of "send_api lib client r" for r] received(1) liftE_def)
    have "never_partial ?res" by (intro never_partial_bind) simp_all
    moreover have "lg_status r = 200" if "?res = Inr d" for d
      using that by (auto simp: matched_body_def json_object_response_def assert_status_def ok_iff)
    ultimately show ?thesis using u unfolding res by blast
  next
    case True
    let ?checks = "checked (bindE (assert_response_matches_openapi (hl_validator lib) r ''deactivateUser'' 503 doc) (\<lambda>_.
                assert_api_error r 503 ''SERVICE_UNAVAILABLE'' None))"
    have run: "bindS (liftE ?checks) (\<lambda>_. bindS (read_user lib client user_id doc) (\<lambda>(current, _).
        liftE (Inl (PartialDeactivation (au_status current))))) ?u = (res, t)"
      using assms True by (simp add: deactivate_user_once_def bindS_split [of "send_api lib client r" for r] received(1))
    show ?thesis
    proof (cases ?checks)
      case (Inl e)
      then have rt: "res = Inl e" "t = ?u" using run unfolding Inl by simp_all
      have "never_partial ?checks" by (rule never_partial_simps(4))
      then have partial: "never_partial res" unfolding Inl rt by (simp add: never_partial_def)
      show ?thesis using u partial unfolding rt by blast
    next
      case (Inr x)
      obtain q v where q: "read_user lib client user_id doc ?u = (q, v)" by fastforce
      show ?thesis
      proof (cases q)
        case (Inl e)
        then have rt: "res = Inl e" "t = v"
          using run unfolding \<open>?checks = Inr x\<close> by (simp_all add: bindS_split [of "read_user lib client user_id doc"] q)
        have partial: "never_partial res" and ex: "gs_exchanges v = gs_exchanges ?u \<or>
            (\<exists>response. gs_exchanges v = gs_exchanges ?u @ [user_get client user_id response])"
          using read_user_error [OF q [unfolded Inl]] by (simp_all add: never_partial_def rt)
        from ex show ?thesis
        proof (elim disjE exE)
          assume "gs_exchanges v = gs_exchanges ?u"
          then have "gs_exchanges t = gs_exchanges s @ [deactivation_post client user_id (Some r)]" using u rt by simp
          then show ?thesis using partial rt(1) by blast
        next
          fix response assume "gs_exchanges v = gs_exchanges ?u @ [user_get client user_id response]"
          then have "gs_exchanges t = gs_exchanges s @ [deactivation_post client user_id (Some r), user_get client user_id response]"
            using u rt by simp
          then show ?thesis using partial True rt(1) unfolding never_partial_def by blast
        qed
      next
        case (Inr cb)
        obtain current body where cb: "cb = (current, body)" by fastforce
        have rt: "res = Inl (PartialDeactivation (au_status current))" "t = v"
          using run unfolding \<open>?checks = Inr x\<close> by (simp_all add: bindS_split [of "read_user lib client user_id doc"] q Inr cb liftE_def)
        obtain p where p: "gs_exchanges v = gs_exchanges ?u @ [user_get client user_id (Some p)]"
          "rs_json p = Some (JObj body)" "lg_status p = 200" "jget body ''status'' = JStr (au_status current)"
          using read_user_ok [OF q [unfolded Inr cb]] by metis
        have "gs_exchanges t = gs_exchanges s @ [deactivation_post client user_id (Some r), user_get client user_id (Some p)]"
          using p(1) u rt(2) by simp
        then show ?thesis using p(2-4) True unfolding rt(1) by blast
      qed
    qed
  qed
qed

section \<open>Revoked sessions are denied everywhere\<close>

text \<open>A probe: a client opened with the session alone, one request on it, its response, and the client closed.\<close>

datatype 'c probe = Probe (probe_session: session) (probe_client: 'c) (probe_target: string) (probe_response: http_response)

definition probe_exchanges :: "'c probe \<Rightarrow> 'c exchange list" where
  "probe_exchanges p =
     [Opened (Some (probe_session p)),
      Exchanged (probe_client p) (plain_request ''GET'' (probe_target p)) (Some (probe_response p)), Closed (probe_client p)]"

definition is_denial :: "http_response \<Rightarrow> bool" where
  "is_denial r \<longleftrightarrow> lg_status r = 401 \<and> (\<exists>body. rs_json r = Some (JObj body) \<and>
     jget body ''type'' = JStr ''UNAUTHORIZED'' \<and> jget body ''message'' = JStr ''Authentication required'')"

definition revocation_targets :: "environment_config \<Rightarrow> string list" where
  "revocation_targets config = [''/auth/v1/user'', absolute_path (join_paths (api_base_path config) ''/v1/currencies''), ''/auth/v1/session'']"

lemma string_field_Inr: "string_field body name = Inr v \<longleftrightarrow> jget body name = JStr v \<and> v \<noteq> []"
  by (auto simp: string_field_def split: json.splits)

lemma denied_ok:
  assumes "denied lib config path operation_id doc r = Inr u"
  shows "is_denial r"
proof -
  obtain body where body: "assert_api_error r 401 ''UNAUTHORIZED'' None = Inr body"
    "string_field body ''message'' = Inr ''Authentication required''"
    using assms unfolding denied_def bindE_ok checked_ok by (auto split: if_splits)
  then have "lg_status r = 401 \<and> rs_json r = Some (JObj body) \<and> string_field body ''type'' = Inr ''UNAUTHORIZED''"
    by (auto simp: assert_api_error_def json_object_response_def assert_status_def response_json_def ok_iff)
  then show ?thesis using body(2) by (auto simp: is_denial_def string_field_Inr)
qed

lemma reject_step_ok:
  assumes "reject_step lib config sess (kind, path, operation_id, doc) s = (Inr u, t)"
  shows "\<exists>c r. gs_exchanges t = gs_exchanges s @ probe_exchanges (Probe sess c
      (absolute_path (case kind of Raw \<Rightarrow> path | Api \<Rightarrow> join_paths (api_base_path config) path)) r) \<and> is_denial r"
proof -
  obtain r v where v: "with_client lib config (Some sess) (\<lambda>client. case kind of Api \<Rightarrow> send_api lib client (plain_request ''GET'' path)
      | Raw \<Rightarrow> send_raw lib client (plain_request ''GET'' path)) s = (Inr r, v)"
    and d: "denied lib config path operation_id doc r = Inr u" "t = v"
    using assms by (auto simp: reject_step_def ok_iff)
  obtain c w x where x: "(case kind of Api \<Rightarrow> send_api lib \<lparr>ac_config = config, ac_handle = c\<rparr> (plain_request ''GET'' path)
      | Raw \<Rightarrow> send_raw lib \<lparr>ac_config = config, ac_handle = c\<rparr> (plain_request ''GET'' path))
      (s\<lparr>gs_world := w, gs_exchanges := gs_exchanges s @ [Opened (Some sess)]\<rparr>) = (Inr r, x)"
    and t: "gs_exchanges v = gs_exchanges x @ [Closed c]"
    using with_client_ok [OF v] by metis
  have "gs_exchanges x = gs_exchanges s @ [Opened (Some sess)] @ [Exchanged c (plain_request ''GET''
      (absolute_path (case kind of Raw \<Rightarrow> path | Api \<Rightarrow> join_paths (api_base_path config) path))) (Some r)]"
    using x by (cases kind) (auto simp: send_api_def dest!: send_raw_ok)
  then show ?thesis using t d(2) denied_ok [OF d(1)] by (auto simp: probe_exchanges_def)
qed

text \<open>A loop of probes: what every round leaves, the loop leaves in order.\<close>

lemma each_probes:
  assumes "each f xs s = (Inr u, t)"
    and "\<And>x s u t. x \<in> set xs \<Longrightarrow> f x s = (Inr u, t) \<Longrightarrow>
      \<exists>ps. gs_exchanges t = gs_exchanges s @ concat (map probe_exchanges ps) \<and> map (\<lambda>p. (probe_session p, probe_target p)) ps = g x \<and>
        list_all (\<lambda>p. is_denial (probe_response p)) ps"
  shows "\<exists>ps. gs_exchanges t = gs_exchanges s @ concat (map probe_exchanges ps) \<and>
    map (\<lambda>p. (probe_session p, probe_target p)) ps = concat (map g xs) \<and> list_all (\<lambda>p. is_denial (probe_response p)) ps"
  using assms
proof (induction xs arbitrary: s)
  case Nil
  then show ?case by (intro exI [of _ "[]"]) (simp add: liftE_def)
next
  case (Cons x xs)
  obtain v w where v: "f x s = (Inr v, w)" and w: "each f xs w = (Inr u, t)"
    using Cons.prems(1) by (auto simp: ok_iff)
  obtain ps where ps: "gs_exchanges w = gs_exchanges s @ concat (map probe_exchanges ps)"
      "map (\<lambda>p. (probe_session p, probe_target p)) ps = g x" "list_all (\<lambda>p. is_denial (probe_response p)) ps"
    using Cons.prems(2) [OF _ v] by auto
  obtain qs where qs: "gs_exchanges t = gs_exchanges w @ concat (map probe_exchanges qs)"
      "map (\<lambda>p. (probe_session p, probe_target p)) qs = concat (map g xs)" "list_all (\<lambda>p. is_denial (probe_response p)) qs"
    using Cons.IH [OF w Cons.prems(2)] by auto
  show ?case using ps qs by (intro exI [of _ "ps @ qs"]) simp
qed

text \<open>
  C18. Sessions that pass the revocation check are denied everywhere: for every session, in order, the current user, an API
  operation and the session status were requested, each on a client of its own that was opened with the original session
  and closed again, and every response was the documented denial.
\<close>

theorem revoked_sessions_are_denied_everywhere:
  assumes "assert_sessions_revoked lib config sessions gateway_doc doc s = (Inr u, t)"
  shows "\<exists>ps. gs_exchanges t = gs_exchanges s @ concat (map probe_exchanges ps) \<and>
    map (\<lambda>p. (probe_session p, probe_target p)) ps = concat (map (\<lambda>sess. map (Pair sess) (revocation_targets config)) sessions) \<and>
    list_all (\<lambda>p. is_denial (probe_response p)) ps"
proof -
  have one: "\<exists>ps. gs_exchanges t = gs_exchanges s @ concat (map probe_exchanges ps) \<and>
      map (\<lambda>p. (probe_session p, probe_target p)) ps =
        [(sess, absolute_path (case fst request of Raw \<Rightarrow> fst (snd request) | Api \<Rightarrow> join_paths (api_base_path config) (fst (snd request))))] \<and>
      list_all (\<lambda>p. is_denial (probe_response p)) ps"
    if step: "reject_step lib config sess request s = (Inr u, t)" for sess request s u t
  proof -
    obtain kind path i d where request: "request = (kind, path, i, d)" by (cases request)
    obtain c r where "gs_exchanges t = gs_exchanges s @ probe_exchanges (Probe sess c
        (absolute_path (case kind of Raw \<Rightarrow> path | Api \<Rightarrow> join_paths (api_base_path config) path)) r)" "is_denial r"
      using reject_step_ok [OF step [unfolded request]] by blast
    then show ?thesis unfolding request
      by (intro exI [of _ "[Probe sess c (absolute_path (case kind of Raw \<Rightarrow> path | Api \<Rightarrow> join_paths (api_base_path config) path)) r]"])
        (simp split: request_kind.split)
  qed
  have session: "\<exists>ps. gs_exchanges t = gs_exchanges s @ concat (map probe_exchanges ps) \<and>
      map (\<lambda>p. (probe_session p, probe_target p)) ps = map (Pair sess) (revocation_targets config) \<and>
      list_all (\<lambda>p. is_denial (probe_response p)) ps"
    if "assert_original_cookie_rejected lib config gateway_doc doc sess s = (Inr u, t)" for sess s u t
    using each_probes [where g = "\<lambda>request. [(sess, absolute_path (case fst request of Raw \<Rightarrow> fst (snd request)
        | Api \<Rightarrow> join_paths (api_base_path config) (fst (snd request))))]",
        OF that [unfolded assert_original_cookie_rejected_def] one]
    by (simp add: revocation_requests_def revocation_targets_def absolute_path_def cong: if_cong)
  show ?thesis
    by (rule each_probes [OF assms [unfolded assert_sessions_revoked_def] session])
qed

section \<open>Examples\<close>

definition empty_response :: http_response where
  "empty_response = \<lparr>lg_method = ''GET'', lg_url = [], lg_path = None, lg_status = 200, lg_headers = [(''content-type'', ''application/json'')],
     lg_text = [], rs_content = [], rs_json = None, rs_set_cookie = []\<rparr>"

text \<open>A service that accepts the state change, cannot confirm it, and denies the user its sessions.\<close>

definition committed_service :: "nat \<Rightarrow> http_request \<Rightarrow> nat \<Rightarrow> http_response option \<times> nat" where
  "committed_service c request w =
     (Some (if hr_method request = ''POST'' then empty_response\<lparr>lg_status := 503, rs_json := Some (JObj
              [(''type'', JStr ''SERVICE_UNAVAILABLE''), (''message'', JStr ''later'')])\<rparr>
            else if c = 0 then empty_response\<lparr>rs_json := Some (JObj [(''id'', JStr ''u1''), (''idpSub'', JStr ''s''), (''email'', JStr ''e''),
              (''displayName'', JStr ''d''), (''status'', JStr ''DEACTIVATED''), (''roleIds'', JList []), (''createdAt'', JStr ''now'')])\<rparr>
            else empty_response\<lparr>lg_status := 401, rs_json := Some (JObj
              [(''type'', JStr ''UNAUTHORIZED''), (''message'', JStr ''Authentication required'')]),
              rs_set_cookie := [session_cookie_name sample_config @ ''=; Path=/; Max-Age=0'']\<rparr>), w)"

definition committed_library :: "(nat, nat) http_library" where
  "committed_library = \<lparr>hl_open = (\<lambda>config sess w. (w + 1, w + 1)), hl_send = committed_service, hl_close = (\<lambda>c w. w),
     hl_clock = (\<lambda>w. (0, 0)), hl_validator = (\<lambda>doc ref body. [])\<rparr>"

definition plain_operation :: "string \<Rightarrow> string \<Rightarrow> string \<Rightarrow> string \<times> json" where
  "plain_operation path verb name = (path, JObj [(verb, JObj [(''operationId'', JStr name), (''responses'', JObj [(''default'', JObj [])])])])"

definition user_contract :: object where
  "user_contract = [(''paths'', JObj [plain_operation ''/u'' ''get'' ''getUser'', plain_operation ''/d'' ''post'' ''deactivateUser'',
     plain_operation ''/a'' ''get'' ''getCurrentUser'', plain_operation ''/c'' ''get'' ''getAll'', plain_operation ''/s'' ''get'' ''getSessionStatus''])]"

definition start_state :: "(nat, nat) gateway_state" where
  "start_state = \<lparr>gs_world = 0, gs_pacing = (\<lambda>p. \<lparr>pc_minimum_interval = 0, pc_next_request_at = None\<rparr>), gs_exchanges = []\<rparr>"

theorem deactivation_is_attempted_once_witness:
  "fst (deactivate_user_once committed_library \<lparr>ac_config = sample_config, ac_handle = 0\<rparr> ''u1'' user_contract start_state) =
     Inl (PartialDeactivation ''DEACTIVATED'') \<and>
   length (gs_exchanges (snd (deactivate_user_once committed_library \<lparr>ac_config = sample_config, ac_handle = 0\<rparr> ''u1''
     user_contract start_state))) = 2"
proof -
  let ?run = "deactivate_user_once committed_library \<lparr>ac_config = sample_config, ac_handle = 0\<rparr> ''u1'' user_contract start_state"
  have res: "fst ?run = Inl (PartialDeactivation ''DEACTIVATED'')" by code_simp
  then have run: "?run = (Inl (PartialDeactivation ''DEACTIVATED''), snd ?run)" by (metis prod.collapse)
  have "gs_exchanges start_state = []" by (simp add: start_state_def)
  then show ?thesis
    using deactivation_is_attempted_once [OF run] res by (auto simp: never_partial_def)
qed

theorem revoked_sessions_are_denied_everywhere_witness:
  "\<exists>ps. gs_exchanges (snd (assert_sessions_revoked committed_library sample_config [\<lparr>cookie_name = ''S'', cookie_value = ''1''\<rparr>]
      user_contract user_contract start_state)) = concat (map probe_exchanges ps) \<and> length ps = 3"
proof -
  let ?run = "assert_sessions_revoked committed_library sample_config [\<lparr>cookie_name = ''S'', cookie_value = ''1''\<rparr>]
      user_contract user_contract start_state"
  have "fst ?run = Inr ()" by code_simp
  then have run: "?run = (Inr (), snd ?run)" by (metis prod.collapse)
  obtain ps where ps: "gs_exchanges (snd ?run) = gs_exchanges start_state @ concat (map probe_exchanges ps)"
    "map (\<lambda>p. (probe_session p, probe_target p)) ps =
      concat (map (\<lambda>sess. map (Pair sess) (revocation_targets sample_config)) [\<lparr>cookie_name = ''S'', cookie_value = ''1''\<rparr>])"
    using revoked_sessions_are_denied_everywhere [OF run] by blast
  have "length (map (\<lambda>p. (probe_session p, probe_target p)) ps) = 3"
    unfolding ps(2) by (simp add: revocation_targets_def)
  then show ?thesis using ps(1) by (auto simp: start_state_def)
qed

end
