(* ===== verification/Run_Data.thy ===== *)
theory Run_Data
  imports Py_Repr Py_Regex
begin

text \<open>
  \<open>src/api_tests/run_state.py\<close> and \<open>src/api_tests/builders/\<close>: the id of a run and the requests that carry it.  A request is
  the JSON object the code builds; the \<open>TypedDict\<close> classes are descriptions of objects, and \<open>has_type\<close> is what they promise
  of a value.  The civil time in UTC and the random token are arguments.
\<close>

section \<open>Run ids\<close>

definition RUN_ID_PATTERN :: rx where
  "RUN_ID_PATTERN = Seqs [Lit ''ba-api-test-'', Rep 8 (Cls is_ascii_digit), Lit ''T'', Rep 6 (Cls is_ascii_digit), Lit ''Z-'',
     Rep 8 (Cls (\<lambda>c. is_ascii_lower c \<or> is_ascii_digit c))]"

record run_state =
  run_id :: string

record civil_time =
  ct_year :: nat
  ct_month :: nat
  ct_day :: nat
  ct_hour :: nat
  ct_minute :: nat
  ct_second :: nat

definition two_digits :: "nat \<Rightarrow> string" where
  "two_digits n = (if n < 10 then CHR ''0'' # nat_str n else nat_str n)"

text \<open>\<open>strftime("%Y%m%dT%H%M%SZ")\<close>; the year is not padded.\<close>

definition utc_stamp :: "civil_time \<Rightarrow> string" where
  "utc_stamp t = nat_str (ct_year t) @ two_digits (ct_month t) @ two_digits (ct_day t) @ ''T'' @
     two_digits (ct_hour t) @ two_digits (ct_minute t) @ two_digits (ct_second t) @ ''Z''"

text \<open>\<open>None\<close> is the \<open>ValueError\<close>.\<close>

definition generate_run_id :: "civil_time \<Rightarrow> string option \<Rightarrow> string \<Rightarrow> string option" where
  "generate_run_id now random_suffix token =
     (let suffix = (case random_suffix of None \<Rightarrow> token | Some s \<Rightarrow> if s = [] then token else s);
          run_id = ''ba-api-test-'' @ utc_stamp now @ ''-'' @ suffix
      in if fullmatches RUN_ID_PATTERN run_id then Some run_id else None)"

definition new_run_state :: "civil_time \<Rightarrow> string \<Rightarrow> run_state option" where
  "new_run_state now token = map_option (\<lambda>i. \<lparr>run_id = i\<rparr>) (generate_run_id now None token)"

section \<open>Declared types\<close>

datatype field_type =
    TStr
  | TInt
  | TFloat
  | TBool
  | TLiteral "string list"
  | TList field_type
  | TDict "typed_field list"
and typed_field = Field string bool field_type

fun field_name :: "typed_field \<Rightarrow> string" where
  "field_name (Field n required t) = n"

fun has_type :: "field_type \<Rightarrow> json \<Rightarrow> bool"
  and has_fields :: "typed_field list \<Rightarrow> object \<Rightarrow> bool" where
  "has_type TStr j = (case j of JStr s \<Rightarrow> True | _ \<Rightarrow> False)"
| "has_type TInt j = (case j of JInt i \<Rightarrow> True | _ \<Rightarrow> False)"
| "has_type TFloat j = (case j of JFloat q \<Rightarrow> True | _ \<Rightarrow> False)"
| "has_type TBool j = (case j of JBool b \<Rightarrow> True | _ \<Rightarrow> False)"
| "has_type (TLiteral xs) j = (case j of JStr s \<Rightarrow> s \<in> set xs | _ \<Rightarrow> False)"
| "has_type (TList t) j = (case j of JList xs \<Rightarrow> list_all (\<lambda>x. has_type t x) xs | _ \<Rightarrow> False)"
| "has_type (TDict fs) j = (case j of
     JObj d \<Rightarrow> list_all (\<lambda>k. k \<in> set (map field_name fs)) (map fst d) \<and> has_fields fs d | _ \<Rightarrow> False)"
| "has_fields [] d = True"
| "has_fields (Field n required t # fs) d =
     ((case map_of d n of None \<Rightarrow> \<not> required | Some v \<Rightarrow> has_type t v) \<and> has_fields fs d)"

abbreviation Required :: "string \<Rightarrow> field_type \<Rightarrow> typed_field" where "Required n \<equiv> Field n True"
abbreviation NotRequired :: "string \<Rightarrow> field_type \<Rightarrow> typed_field" where "NotRequired n \<equiv> Field n False"

section \<open>Statement formats\<close>

definition StatementFormatType :: field_type where "StatementFormatType = TLiteral [''CSV'', ''PDF'', ''XLSX'']"
definition StatementFormatScope :: field_type where "StatementFormatScope = TLiteral [''SYSTEM'', ''USER'']"
definition CsvAmountMode :: field_type where "CsvAmountMode = TLiteral [''SINGLE_AMOUNT_WITH_TYPE'', ''DEBIT_CREDIT_COLUMNS'']"
definition PdfAmountMode :: field_type where "PdfAmountMode = TLiteral [''SIGNED_AMOUNT'', ''DEBIT_CREDIT_COLUMNS'']"
definition TransactionDirection :: field_type where "TransactionDirection = TLiteral [''CREDIT'', ''DEBIT'']"
definition PdfYearSource :: field_type where "PdfYearSource = TLiteral [''EXPLICIT_DATE'', ''STATEMENT_PERIOD'']"

definition CreateStatementFormatRequest :: field_type where
  "CreateStatementFormatRequest = TDict
     [Required ''displayName'' TStr, Required ''formatType'' StatementFormatType, Required ''bankName'' TStr,
      Required ''defaultCurrencyIsoCode'' TStr, NotRequired ''scope'' StatementFormatScope, NotRequired ''dateHeader'' TStr,
      NotRequired ''dateFormat'' TStr, NotRequired ''descriptionHeader'' TStr, NotRequired ''creditHeader'' TStr,
      NotRequired ''debitHeader'' TStr, NotRequired ''typeHeader'' TStr, NotRequired ''categoryHeader'' TStr]"

definition UpdateStatementFormatRequest :: field_type where
  "UpdateStatementFormatRequest = TDict
     [NotRequired ''displayName'' TStr, NotRequired ''bankName'' TStr, NotRequired ''defaultCurrencyIsoCode'' TStr,
      NotRequired ''enabled'' TBool]"

definition CsvWizardColumnMappingRequest :: field_type where
  "CsvWizardColumnMappingRequest = TDict
     [Required ''amountMode'' CsvAmountMode, NotRequired ''dateColumn'' TStr, NotRequired ''dateFormat'' TStr,
      NotRequired ''descriptionColumn'' TStr, NotRequired ''amountColumn'' TStr, NotRequired ''debitColumn'' TStr,
      NotRequired ''creditColumn'' TStr, NotRequired ''typeColumn'' TStr, NotRequired ''categoryColumn'' TStr]"

definition CsvWizardMappingPreviewRequest :: field_type where
  "CsvWizardMappingPreviewRequest = TDict
     [Required ''bankName'' TStr, Required ''defaultCurrencyIsoCode'' TStr,
      Required ''mapping'' CsvWizardColumnMappingRequest, NotRequired ''accountId'' TStr]"

definition CsvWizardSaveRequest :: field_type where
  "CsvWizardSaveRequest = TDict
     [Required ''displayName'' TStr, Required ''bankName'' TStr, Required ''defaultCurrencyIsoCode'' TStr,
      Required ''mapping'' CsvWizardColumnMappingRequest]"

definition PdfWizardColumnMappingRequest :: field_type where
  "PdfWizardColumnMappingRequest = TDict
     [Required ''amountMode'' PdfAmountMode, NotRequired ''dateHeader'' TStr, NotRequired ''dateFormat'' TStr,
      NotRequired ''descriptionHeader'' TStr, NotRequired ''amountHeader'' TStr, NotRequired ''debitHeader'' TStr,
      NotRequired ''creditHeader'' TStr, NotRequired ''typeHeader'' TStr, NotRequired ''negativeMeans'' TransactionDirection]"

definition PdfWizardMappingPreviewRequest :: field_type where
  "PdfWizardMappingPreviewRequest = TDict
     [Required ''bankName'' TStr, Required ''defaultCurrencyIsoCode'' TStr, Required ''yearSource'' PdfYearSource,
      Required ''mapping'' PdfWizardColumnMappingRequest, NotRequired ''accountId'' TStr,
      NotRequired ''headerMustContain'' (TList TStr), NotRequired ''minimumRows'' TInt]"

definition PdfWizardSaveRequest :: field_type where
  "PdfWizardSaveRequest = TDict
     [Required ''displayName'' TStr, Required ''bankName'' TStr, Required ''defaultCurrencyIsoCode'' TStr,
      Required ''yearSource'' PdfYearSource, Required ''mapping'' PdfWizardColumnMappingRequest,
      NotRequired ''headerMustContain'' (TList TStr), NotRequired ''minimumRows'' TInt]"

definition create_statement_format_request :: "run_state \<Rightarrow> string \<Rightarrow> object" where
  "create_statement_format_request rs label =
     [(''displayName'', JStr (run_id rs @ '' '' @ label @ '' CSV'')), (''formatType'', JStr ''CSV''),
      (''bankName'', JStr (run_id rs @ '' '' @ label @ '' Bank'')), (''defaultCurrencyIsoCode'', JStr ''USD''),
      (''scope'', JStr ''USER''), (''dateHeader'', JStr ''Date''), (''dateFormat'', JStr ''uuuu-MM-dd''),
      (''descriptionHeader'', JStr ''Description''), (''creditHeader'', JStr ''Credit''), (''debitHeader'', JStr ''Debit''),
      (''categoryHeader'', JStr ''Category'')]"

definition update_statement_format_request :: "run_state \<Rightarrow> string \<Rightarrow> object" where
  "update_statement_format_request rs label =
     [(''displayName'', JStr (run_id rs @ '' '' @ label @ '' Updated CSV'')),
      (''bankName'', JStr (run_id rs @ '' '' @ label @ '' Updated Bank'')),
      (''defaultCurrencyIsoCode'', JStr ''USD''), (''enabled'', JBool True)]"

definition csv_sample :: "run_state \<Rightarrow> string \<Rightarrow> string" where
  "csv_sample rs label =
     ''Date,Description,Amount,Type,Category'' @ [LF] @
     ''2026-01-15,'' @ run_id rs @ '' '' @ label @ '' debit,12.34,DEBIT,API Test'' @ [LF] @
     ''2026-01-16,'' @ run_id rs @ '' '' @ label @ '' credit,5.67,CREDIT,API Test'' @ [LF]"

definition csv_wizard_mapping :: object where
  "csv_wizard_mapping =
     [(''dateColumn'', JStr ''Date''), (''dateFormat'', JStr ''uuuu-MM-dd''), (''descriptionColumn'', JStr ''Description''),
      (''amountMode'', JStr ''SINGLE_AMOUNT_WITH_TYPE''), (''amountColumn'', JStr ''Amount''), (''typeColumn'', JStr ''Type''),
      (''categoryColumn'', JStr ''Category'')]"

definition csv_preview_request :: "run_state \<Rightarrow> string \<Rightarrow> string option \<Rightarrow> object" where
  "csv_preview_request rs label account_id =
     [(''bankName'', JStr (run_id rs @ '' '' @ label @ '' Bank'')), (''defaultCurrencyIsoCode'', JStr ''USD''),
      (''mapping'', JObj csv_wizard_mapping)] @
     (case account_id of None \<Rightarrow> [] | Some a \<Rightarrow> [(''accountId'', JStr a)])"

definition csv_save_request :: "run_state \<Rightarrow> string \<Rightarrow> object" where
  "csv_save_request rs label =
     [(''displayName'', JStr (run_id rs @ '' '' @ label @ '' Wizard CSV'')),
      (''bankName'', JStr (run_id rs @ '' '' @ label @ '' Bank'')), (''defaultCurrencyIsoCode'', JStr ''USD''),
      (''mapping'', JObj csv_wizard_mapping)]"

definition pdf_wizard_mapping :: object where
  "pdf_wizard_mapping =
     [(''dateHeader'', JStr ''Date''), (''dateFormat'', JStr ''uuuu-MM-dd''), (''descriptionHeader'', JStr ''Description''),
      (''amountMode'', JStr ''SIGNED_AMOUNT''), (''amountHeader'', JStr ''Amount''), (''negativeMeans'', JStr ''DEBIT'')]"

definition pdf_preview_request :: "run_state \<Rightarrow> string \<Rightarrow> string option \<Rightarrow> object" where
  "pdf_preview_request rs label account_id =
     [(''bankName'', JStr (run_id rs @ '' '' @ label @ '' Bank'')), (''defaultCurrencyIsoCode'', JStr ''USD''),
      (''yearSource'', JStr ''EXPLICIT_DATE''),
      (''headerMustContain'', JList [JStr ''Date'', JStr ''Description'', JStr ''Amount'']), (''minimumRows'', JInt 1),
      (''mapping'', JObj pdf_wizard_mapping)] @
     (case account_id of None \<Rightarrow> [] | Some a \<Rightarrow> [(''accountId'', JStr a)])"

definition pdf_save_request :: "run_state \<Rightarrow> string \<Rightarrow> object" where
  "pdf_save_request rs label =
     [(''displayName'', JStr (run_id rs @ '' '' @ label @ '' Wizard PDF'')),
      (''bankName'', JStr (run_id rs @ '' '' @ label @ '' Bank'')), (''defaultCurrencyIsoCode'', JStr ''USD''),
      (''yearSource'', JStr ''EXPLICIT_DATE''),
      (''headerMustContain'', JList [JStr ''Date'', JStr ''Description'', JStr ''Amount'']), (''minimumRows'', JInt 1),
      (''mapping'', JObj pdf_wizard_mapping)]"

text \<open>The part of a multipart body: no name of a file, the JSON text, its type.\<close>

definition multipart_json :: "(rat \<Rightarrow> string) \<Rightarrow> json \<Rightarrow> string option \<times> string \<times> string" where
  "multipart_json float_text j = (None, dump_json float_text j, ''application/json'')"

section \<open>Transactions\<close>

definition TransactionType :: field_type where "TransactionType = TLiteral [''CREDIT'', ''DEBIT'']"

definition BatchImportTransactionRequest :: field_type where
  "BatchImportTransactionRequest = TDict
     [Required ''date'' TStr, Required ''description'' TStr, Required ''amount'' TFloat, Required ''type'' TransactionType,
      Required ''bankName'' TStr, Required ''currencyIsoCode'' TStr, NotRequired ''category'' TStr,
      NotRequired ''accountId'' TStr, NotRequired ''allowDuplicate'' TBool]"

definition BatchImportFileRequest :: field_type where
  "BatchImportFileRequest = TDict
     [Required ''previewImportToken'' TStr, Required ''transactions'' (TList BatchImportTransactionRequest)]"

definition BatchImportRequest :: field_type where
  "BatchImportRequest = TDict [Required ''files'' (TList BatchImportFileRequest)]"

definition CreateTransactionRequest :: field_type where
  "CreateTransactionRequest = TDict
     [Required ''date'' TStr, Required ''description'' TStr, Required ''amount'' TFloat, Required ''currencyIsoCode'' TStr,
      Required ''type'' TransactionType, NotRequired ''bankName'' TStr, NotRequired ''accountId'' TStr]"

definition TransactionUpdateRequest :: field_type where
  "TransactionUpdateRequest = TDict [NotRequired ''description'' TStr, NotRequired ''accountId'' TStr]"

definition BulkDeleteRequest :: field_type where
  "BulkDeleteRequest = TDict [Required ''ids'' (TList TInt)]"

datatype transaction_type = CREDIT | DEBIT

fun transaction_type_name :: "transaction_type \<Rightarrow> string" where
  "transaction_type_name CREDIT = ''CREDIT''"
| "transaction_type_name DEBIT = ''DEBIT''"

definition generated_account_id :: "run_state \<Rightarrow> string \<Rightarrow> string" where
  "generated_account_id rs label = run_id rs @ ''-'' @ label @ ''-acct''"

definition generated_bank_name :: "run_state \<Rightarrow> string \<Rightarrow> string" where
  "generated_bank_name rs label = run_id rs @ '' '' @ label @ '' Bank''"

text \<open>\<open>value or default\<close> of an optional text.\<close>

definition text_or :: "string option \<Rightarrow> string \<Rightarrow> string" where
  "text_or v otherwise = (case v of None \<Rightarrow> otherwise | Some s \<Rightarrow> if s = [] then otherwise else s)"

definition import_transaction_request :: "run_state \<Rightarrow> string \<Rightarrow> string option \<Rightarrow> rat \<Rightarrow> transaction_type \<Rightarrow> bool \<Rightarrow> object" where
  "import_transaction_request rs label account_id amount transaction_type allow_duplicate =
     [(''date'', JStr ''2026-01-15''), (''description'', JStr (run_id rs @ '' '' @ label @ '' transaction'')),
      (''amount'', JFloat amount), (''type'', JStr (transaction_type_name transaction_type)), (''category'', JStr ''API Test''),
      (''bankName'', JStr (generated_bank_name rs label)), (''currencyIsoCode'', JStr ''USD''),
      (''accountId'', JStr (text_or account_id (generated_account_id rs label))), (''allowDuplicate'', JBool allow_duplicate)]"

record manual_transaction =
  mt_account_id :: "string option"
  mt_bank_name :: "string option"
  mt_description :: "string option"
  mt_amount :: rat
  mt_currency_iso_code :: string
  mt_transaction_type :: transaction_type
  mt_date :: string

text \<open>The defaults of the keyword arguments; the amount is the float nearest to \<open>12.34\<close>.\<close>

definition DEFAULT_AMOUNT :: rat where
  "DEFAULT_AMOUNT = 3473401212609495 / 281474976710656"

definition default_transaction :: manual_transaction where
  "default_transaction = \<lparr>mt_account_id = None, mt_bank_name = None, mt_description = None, mt_amount = DEFAULT_AMOUNT,
     mt_currency_iso_code = ''USD'', mt_transaction_type = DEBIT, mt_date = ''2026-01-15''\<rparr>"

definition manual_transaction_request :: "run_state \<Rightarrow> string \<Rightarrow> manual_transaction \<Rightarrow> object" where
  "manual_transaction_request rs label mt =
     [(''date'', JStr (mt_date mt)),
      (''description'', JStr (text_or (mt_description mt) (run_id rs @ '' '' @ label @ '' transaction''))),
      (''amount'', JFloat (mt_amount mt)), (''currencyIsoCode'', JStr (mt_currency_iso_code mt)),
      (''type'', JStr (transaction_type_name (mt_transaction_type mt))),
      (''accountId'', JStr (text_or (mt_account_id mt) (generated_account_id rs label)))] @
     (case mt_bank_name mt of None \<Rightarrow> [] | Some b \<Rightarrow> [(''bankName'', JStr b)])"

definition batch_import_file_request :: "string \<Rightarrow> object list \<Rightarrow> object" where
  "batch_import_file_request preview_import_token transactions =
     [(''previewImportToken'', JStr preview_import_token), (''transactions'', JList (map JObj transactions))]"

definition batch_import_request :: "object list \<Rightarrow> object" where
  "batch_import_request files = [(''files'', JList (map JObj files))]"

definition transaction_update_request :: "run_state \<Rightarrow> string \<Rightarrow> object" where
  "transaction_update_request rs label =
     [(''description'', JStr (run_id rs @ '' '' @ label @ '' updated transaction'')),
      (''accountId'', JStr (generated_account_id rs (label @ ''-updated'')))]"

definition bulk_delete_request :: "int list \<Rightarrow> object" where
  "bulk_delete_request transaction_ids = [(''ids'', JList (map JInt transaction_ids))]"

section \<open>Saved views\<close>

definition CreateSavedViewRequest :: field_type where
  "CreateSavedViewRequest = TDict [Required ''name'' TStr, Required ''transactionIds'' (TList TInt)]"

definition UpdateSavedViewRequest :: field_type where
  "UpdateSavedViewRequest = TDict [Required ''name'' TStr]"

definition UpdateSavedViewTransactionsRequest :: field_type where
  "UpdateSavedViewTransactionsRequest = TDict
     [Required ''addTransactionIds'' (TList TInt), Required ''removeTransactionIds'' (TList TInt)]"

definition CloneSavedViewRequest :: field_type where
  "CloneSavedViewRequest = TDict [Required ''name'' TStr]"

definition create_saved_view_request :: "run_state \<Rightarrow> string \<Rightarrow> int list \<Rightarrow> object" where
  "create_saved_view_request rs label transaction_ids =
     [(''name'', JStr (run_id rs @ '' '' @ label @ '' view'')), (''transactionIds'', JList (map JInt transaction_ids))]"

definition update_saved_view_request :: "run_state \<Rightarrow> string \<Rightarrow> object" where
  "update_saved_view_request rs label = [(''name'', JStr (run_id rs @ '' '' @ label @ '' updated view''))]"

definition update_saved_view_transactions_request :: "int list \<Rightarrow> int list \<Rightarrow> object" where
  "update_saved_view_transactions_request add_transaction_ids remove_transaction_ids =
     [(''addTransactionIds'', JList (map JInt add_transaction_ids)),
      (''removeTransactionIds'', JList (map JInt remove_transaction_ids))]"

definition clone_saved_view_request :: "run_state \<Rightarrow> string \<Rightarrow> object" where
  "clone_saved_view_request rs label = [(''name'', JStr (run_id rs @ '' '' @ label @ '' cloned view''))]"

section \<open>Every request has its declared type\<close>

lemma transaction_type_text [simp]: "has_type TransactionType (JStr (transaction_type_name t))"
  by (cases t) (simp_all add: TransactionType_def)

lemma wizard_mappings [simp]:
  "has_type CsvWizardColumnMappingRequest (JObj csv_wizard_mapping)"
  "has_type PdfWizardColumnMappingRequest (JObj pdf_wizard_mapping)"
  by code_simp+

lemma import_request_type:
  "has_type BatchImportTransactionRequest (JObj (import_transaction_request rs label account_id amount t dup))"
  by (simp add: BatchImportTransactionRequest_def import_transaction_request_def)

lemma file_request_type:
  "list_all (\<lambda>t. has_type BatchImportTransactionRequest (JObj t)) ts \<Longrightarrow>
     has_type BatchImportFileRequest (JObj (batch_import_file_request token ts))"
  by (simp add: BatchImportFileRequest_def batch_import_file_request_def list_all_iff)

lemma import_request_types:
  "list_all (\<lambda>f. has_type BatchImportFileRequest (JObj f)) fs \<Longrightarrow> has_type BatchImportRequest (JObj (batch_import_request fs))"
  by (simp add: BatchImportRequest_def batch_import_request_def list_all_iff)

lemma transaction_request_type: "has_type CreateTransactionRequest (JObj (manual_transaction_request rs label mt))"
  by (cases "mt_bank_name mt") (simp_all add: CreateTransactionRequest_def manual_transaction_request_def)

text \<open>
  C22. Every builder builds an object of its declared type: for any run, label and arguments the request has all required
  fields, no field that the declaration does not name, and only values of the declared types and literals.
\<close>

theorem built_requests_have_their_declared_types:
  "has_type CreateStatementFormatRequest (JObj (create_statement_format_request rs label)) \<and>
   has_type UpdateStatementFormatRequest (JObj (update_statement_format_request rs label)) \<and>
   has_type CsvWizardMappingPreviewRequest (JObj (csv_preview_request rs label account_id)) \<and>
   has_type CsvWizardSaveRequest (JObj (csv_save_request rs label)) \<and>
   has_type PdfWizardMappingPreviewRequest (JObj (pdf_preview_request rs label account_id)) \<and>
   has_type PdfWizardSaveRequest (JObj (pdf_save_request rs label)) \<and>
   has_type BatchImportRequest (JObj (batch_import_request (map (\<lambda>(token, ts). batch_import_file_request token
     (map (\<lambda>(label, account_id, amount, t, dup). import_transaction_request rs label account_id amount t dup) ts)) files))) \<and>
   has_type CreateTransactionRequest (JObj (manual_transaction_request rs label mt)) \<and>
   has_type TransactionUpdateRequest (JObj (transaction_update_request rs label)) \<and>
   has_type BulkDeleteRequest (JObj (bulk_delete_request ids)) \<and>
   has_type CreateSavedViewRequest (JObj (create_saved_view_request rs label ids)) \<and>
   has_type UpdateSavedViewRequest (JObj (update_saved_view_request rs label)) \<and>
   has_type UpdateSavedViewTransactionsRequest (JObj (update_saved_view_transactions_request ids ids')) \<and>
   has_type CloneSavedViewRequest (JObj (clone_saved_view_request rs label))"
proof (intro conjI)
  show "has_type CreateStatementFormatRequest (JObj (create_statement_format_request rs label))"
    by (simp add: CreateStatementFormatRequest_def create_statement_format_request_def StatementFormatType_def StatementFormatScope_def)
  show "has_type UpdateStatementFormatRequest (JObj (update_statement_format_request rs label))"
    by (simp add: UpdateStatementFormatRequest_def update_statement_format_request_def)
  show "has_type CsvWizardMappingPreviewRequest (JObj (csv_preview_request rs label account_id))"
    by (cases account_id) (simp_all add: CsvWizardMappingPreviewRequest_def csv_preview_request_def)
  show "has_type CsvWizardSaveRequest (JObj (csv_save_request rs label))"
    by (simp add: CsvWizardSaveRequest_def csv_save_request_def)
  show "has_type PdfWizardMappingPreviewRequest (JObj (pdf_preview_request rs label account_id))"
    by (cases account_id) (simp_all add: PdfWizardMappingPreviewRequest_def pdf_preview_request_def PdfYearSource_def)
  show "has_type PdfWizardSaveRequest (JObj (pdf_save_request rs label))"
    by (simp add: PdfWizardSaveRequest_def pdf_save_request_def PdfYearSource_def)
  show "has_type BatchImportRequest (JObj (batch_import_request (map (\<lambda>(token, ts). batch_import_file_request token
     (map (\<lambda>(label, account_id, amount, t, dup). import_transaction_request rs label account_id amount t dup) ts)) files)))"
    by (rule import_request_types) (auto simp: list_all_iff intro!: file_request_type import_request_type)
  show "has_type CreateTransactionRequest (JObj (manual_transaction_request rs label mt))"
    by (rule transaction_request_type)
  show "has_type TransactionUpdateRequest (JObj (transaction_update_request rs label))"
    by (simp add: TransactionUpdateRequest_def transaction_update_request_def)
  show "has_type BulkDeleteRequest (JObj (bulk_delete_request ids))"
    by (simp add: BulkDeleteRequest_def bulk_delete_request_def list_all_iff)
  show "has_type CreateSavedViewRequest (JObj (create_saved_view_request rs label ids))"
    by (simp add: CreateSavedViewRequest_def create_saved_view_request_def list_all_iff)
  show "has_type UpdateSavedViewRequest (JObj (update_saved_view_request rs label))"
    by (simp add: UpdateSavedViewRequest_def update_saved_view_request_def)
  show "has_type UpdateSavedViewTransactionsRequest (JObj (update_saved_view_transactions_request ids ids'))"
    by (simp add: UpdateSavedViewTransactionsRequest_def update_saved_view_transactions_request_def list_all_iff)
  show "has_type CloneSavedViewRequest (JObj (clone_saved_view_request rs label))"
    by (simp add: CloneSavedViewRequest_def clone_saved_view_request_def)
qed

section \<open>Run ids tell runs apart\<close>

definition valid_run_id :: "string \<Rightarrow> bool" where
  "valid_run_id i \<longleftrightarrow> fullmatches RUN_ID_PATTERN i"

lemma valid_run_id_length: "valid_run_id i \<Longrightarrow> length i = 37"
  by (auto simp: valid_run_id_def fullmatches_lang RUN_ID_PATTERN_def lang_Rep_iff simp del: Rep.simps)

lemma same_run_prefix:
  assumes "valid_run_id i" "valid_run_id j" "i @ s = j @ t"
  shows "i = j"
  using assms valid_run_id_length by (metis append_eq_append_conv)

text \<open>The decimal text of a number reads back as the number.\<close>

definition digits_number :: "string \<Rightarrow> int" where
  "digits_number s = foldl (\<lambda>n c. 10 * n + (of_char c - 48)) 0 s"

lemma digit_char_value: "n < 10 \<Longrightarrow> (of_char (digit_char n) :: int) = 48 + int n"
proof -
  have "list_all (\<lambda>n. (of_char (digit_char n) :: int) = 48 + int n) [0..<10]" by code_simp
  then show "n < 10 \<Longrightarrow> (of_char (digit_char n) :: int) = 48 + int n" by (simp add: list_all_iff)
qed

lemma digit_char_digit: "n < 10 \<Longrightarrow> is_ascii_digit (digit_char n)"
  using digit_char_value [of n] by (simp add: is_ascii_digit_def Let_def)

lemma nat_str_number: "digits_number (nat_str n) = int n \<and> list_all is_ascii_digit (nat_str n)"
proof (induction n rule: nat_str.induct)
  case (1 n)
  have "10 * int (n div 10) + int (n mod 10) = int n" by presburger
  with 1 show ?case
    by (subst (1 2) nat_str.simps) (simp add: digits_number_def digit_char_value digit_char_digit)
qed

lemma two_digits_number:
  assumes "n < 100"
  shows "digits_number (two_digits n) = int n" "list_all is_ascii_digit (two_digits n)" "length (two_digits n) = 2"
proof -
  have "list_all (\<lambda>n. digits_number (two_digits n) = int n \<and> list_all is_ascii_digit (two_digits n) \<and> length (two_digits n) = 2) [0..<100]"
    by code_simp
  then show "digits_number (two_digits n) = int n" "list_all is_ascii_digit (two_digits n)" "length (two_digits n) = 2"
    using assms by (simp_all add: list_all_iff)
qed

text \<open>A moment whose fields below the year have at most two digits.\<close>

definition civil :: "civil_time \<Rightarrow> bool" where
  "civil t \<longleftrightarrow> ct_month t < 100 \<and> ct_day t < 100 \<and> ct_hour t < 100 \<and> ct_minute t < 100 \<and> ct_second t < 100"

lemma generated_parts:
  assumes "generate_run_id t chosen token = Some i" "civil t"
  obtains u where "i = ''ba-api-test-'' @ nat_str (ct_year t) @ two_digits (ct_month t) @ two_digits (ct_day t) @ ''T'' @
      two_digits (ct_hour t) @ two_digits (ct_minute t) @ two_digits (ct_second t) @ ''Z-'' @ u"
    "u = (case chosen of None \<Rightarrow> token | Some s \<Rightarrow> if s = [] then token else s)" "length (nat_str (ct_year t)) = 4" "valid_run_id i"
proof -
  let ?u = "case chosen of None \<Rightarrow> token | Some s \<Rightarrow> if s = [] then token else s"
  let ?date = "nat_str (ct_year t) @ two_digits (ct_month t) @ two_digits (ct_day t)"
  let ?rest = "''T'' @ two_digits (ct_hour t) @ two_digits (ct_minute t) @ two_digits (ct_second t) @ ''Z-'' @ ?u"
  have i: "i = ''ba-api-test-'' @ ?date @ ?rest" and valid: "valid_run_id i"
    using assms(1) by (auto simp: generate_run_id_def utc_stamp_def valid_run_id_def Let_def split: if_splits)
  have "\<exists>d r. i = ''ba-api-test-'' @ d @ ''T'' @ r \<and> length d = 8 \<and> list_all is_ascii_digit d"
    using valid by (auto simp: valid_run_id_def fullmatches_lang RUN_ID_PATTERN_def lang_Rep_iff simp del: Rep.simps)
  then obtain d r where d: "?date @ ?rest = d @ ''T'' @ r" "length d = 8" "list_all is_ascii_digit d"
    unfolding i by auto
  have date: "list_all is_ascii_digit ?date" using assms(2) nat_str_number two_digits_number(2) by (simp add: civil_def)
  have "\<not> is_ascii_digit CHR ''T''" by code_simp
  then have "takeWhile is_ascii_digit (?date @ ?rest) = ?date" "takeWhile is_ascii_digit (d @ ''T'' @ r) = d"
    using date d(3) by (simp_all add: list_all_iff takeWhile_append2)
  then have "length ?date = 8" using d(1,2) by metis
  then have "length (nat_str (ct_year t)) = 4" using assms(2) two_digits_number(3) by (simp add: civil_def)
  then show thesis using that [of ?u] i valid by simp
qed

lemma generated_injective:
  assumes "generate_run_id t chosen token = Some i" "generate_run_id t' chosen' token' = Some i" "civil t" "civil t'"
  shows "t = t' \<and> (case chosen of None \<Rightarrow> token | Some s \<Rightarrow> if s = [] then token else s) =
    (case chosen' of None \<Rightarrow> token' | Some s \<Rightarrow> if s = [] then token' else s)"
proof -
  obtain u where u: "i = ''ba-api-test-'' @ nat_str (ct_year t) @ two_digits (ct_month t) @ two_digits (ct_day t) @ ''T'' @
      two_digits (ct_hour t) @ two_digits (ct_minute t) @ two_digits (ct_second t) @ ''Z-'' @ u"
    "u = (case chosen of None \<Rightarrow> token | Some s \<Rightarrow> if s = [] then token else s)" "length (nat_str (ct_year t)) = 4"
    by (rule generated_parts [OF assms(1,3)])
  obtain v where v: "i = ''ba-api-test-'' @ nat_str (ct_year t') @ two_digits (ct_month t') @ two_digits (ct_day t') @ ''T'' @
      two_digits (ct_hour t') @ two_digits (ct_minute t') @ two_digits (ct_second t') @ ''Z-'' @ v"
    "v = (case chosen' of None \<Rightarrow> token' | Some s \<Rightarrow> if s = [] then token' else s)" "length (nat_str (ct_year t')) = 4"
    by (rule generated_parts [OF assms(2,4)])
  have same: "nat_str (ct_year t) = nat_str (ct_year t')" "two_digits (ct_month t) = two_digits (ct_month t')"
    "two_digits (ct_day t) = two_digits (ct_day t')" "two_digits (ct_hour t) = two_digits (ct_hour t')"
    "two_digits (ct_minute t) = two_digits (ct_minute t')" "two_digits (ct_second t) = two_digits (ct_second t')" "u = v"
    using u(1) [unfolded v(1)] u(3) v(3) assms(3,4) by (simp_all add: civil_def two_digits_number(3))
  have "t = t'"
    using same(1-6) nat_str_number two_digits_number(1) assms(3,4)
    by (intro civil_time.equality) (metis civil_def of_nat_eq_iff, metis civil_def of_nat_eq_iff, metis civil_def of_nat_eq_iff,
      metis civil_def of_nat_eq_iff, metis civil_def of_nat_eq_iff, metis civil_def of_nat_eq_iff, simp)
  then show ?thesis using same(7) u(2) v(2) by simp
qed

text \<open>
  C21. No two runs name the same thing: runs that started in different seconds, or in the same one with another token, have
  different ids, and the account ids, bank names, format names, descriptions and view names that the builders make up for
  one run differ from those of the other, whatever the labels are.
\<close>

theorem runs_never_share_a_name:
  assumes "new_run_state t token = Some a" "new_run_state t' token' = Some b" "civil t" "civil t'" "(t, token) \<noteq> (t', token')"
  shows "generated_account_id a l \<noteq> generated_account_id b m \<and> generated_bank_name a l \<noteq> generated_bank_name b m \<and>
    jget (create_statement_format_request a l) ''displayName'' \<noteq> jget (create_statement_format_request b m) ''displayName'' \<and>
    jget (update_statement_format_request a l) ''displayName'' \<noteq> jget (update_statement_format_request b m) ''displayName'' \<and>
    jget (csv_save_request a l) ''displayName'' \<noteq> jget (csv_save_request b m) ''displayName'' \<and>
    jget (pdf_save_request a l) ''displayName'' \<noteq> jget (pdf_save_request b m) ''displayName'' \<and>
    jget (create_saved_view_request a l ids) ''name'' \<noteq> jget (create_saved_view_request b m ids') ''name'' \<and>
    jget (clone_saved_view_request a l) ''name'' \<noteq> jget (clone_saved_view_request b m) ''name'' \<and>
    jget (import_transaction_request a l ac am ty d) ''description'' \<noteq> jget (import_transaction_request b m ac' am' ty' d') ''description''"
proof -
  have ids: "generate_run_id t None token = Some (run_id a)" "generate_run_id t' None token' = Some (run_id b)"
    using assms(1,2) by (auto simp: new_run_state_def)
  have "valid_run_id (run_id a)" "valid_run_id (run_id b)"
    using ids by (auto simp: generate_run_id_def valid_run_id_def Let_def split: if_splits)
  moreover have "run_id a \<noteq> run_id b" using generated_injective [of t None token _ t' None token'] ids assms(3-5) by auto
  ultimately have differ: "run_id a @ s \<noteq> run_id b @ u" for s u using same_run_prefix by blast
  show ?thesis
    using differ by (simp add: generated_account_id_def generated_bank_name_def create_statement_format_request_def
        update_statement_format_request_def csv_save_request_def pdf_save_request_def create_saved_view_request_def
        clone_saved_view_request_def import_transaction_request_def jget_def)
qed

theorem runs_never_share_a_name_witness:
  "\<exists>a b. new_run_state \<lparr>ct_year = 2026, ct_month = 1, ct_day = 15, ct_hour = 7, ct_minute = 5, ct_second = 9\<rparr> ''0a1b2c3d'' = Some a \<and>
     new_run_state \<lparr>ct_year = 2026, ct_month = 1, ct_day = 15, ct_hour = 7, ct_minute = 5, ct_second = 10\<rparr> ''0a1b2c3d'' = Some b \<and>
     generated_account_id a ''x'' \<noteq> generated_account_id b ''x''"
proof -
  let ?t = "\<lparr>ct_year = 2026, ct_month = 1, ct_day = 15, ct_hour = 7, ct_minute = 5, ct_second = 9\<rparr>"
  let ?u = "\<lparr>ct_year = 2026, ct_month = 1, ct_day = 15, ct_hour = 7, ct_minute = 5, ct_second = 10\<rparr>"
  have a: "new_run_state ?t ''0a1b2c3d'' = Some \<lparr>run_id = ''ba-api-test-20260115T070509Z-0a1b2c3d''\<rparr>" by code_simp
  have b: "new_run_state ?u ''0a1b2c3d'' = Some \<lparr>run_id = ''ba-api-test-20260115T070510Z-0a1b2c3d''\<rparr>" by code_simp
  have "civil ?t" "civil ?u" by (simp_all add: civil_def)
  with runs_never_share_a_name [OF a b] a b show ?thesis by auto
qed

end
