(* ===== verification/Resources.thy ===== *)
theory Resources
  imports Deactivation Run_Data
begin

text \<open>
  \<open>src/api_tests/resources.py\<close>: the resources a test creates through the public API.  Each operation sends one request that
  a builder made, checks the response against the contract when a snapshot is given, and returns the id and the body.  The
  text of an upload stands for its UTF-8 bytes.
\<close>

record created_statement_format =
  cf_id :: int
  cf_body :: object

record created_transaction =
  cn_id :: int
  cn_account_id :: string
  cn_body :: object

record created_saved_view =
  cv_id :: string
  cv_body :: object

definition post_request :: "string \<Rightarrow> object \<Rightarrow> http_request" where
  "post_request path body = (plain_request ''POST'' path)\<lparr>hr_json := Some (JObj body)\<rparr>"

definition assert_response_matches_snapshot ::
  "('c, 'w) http_library \<Rightarrow> http_response \<Rightarrow> string \<Rightarrow> int \<Rightarrow> object option \<Rightarrow> unit check" where
  "assert_response_matches_snapshot lib r operation_id expected openapi_snapshot =
     (case openapi_snapshot of None \<Rightarrow> Inr ()
      | Some doc \<Rightarrow> assert_response_matches_openapi (hl_validator lib) r operation_id expected doc)"

definition snapshot_body ::
  "('c, 'w) http_library \<Rightarrow> object option \<Rightarrow> string \<Rightarrow> int \<Rightarrow> http_response \<Rightarrow> object check" where
  "snapshot_body lib openapi_snapshot operation_id expected r =
     bindE (assert_response_matches_snapshot lib r operation_id expected openapi_snapshot) (\<lambda>_. json_object_response r expected)"

definition created_format :: "object \<Rightarrow> created_statement_format check" where
  "created_format body = bindE (int_field body ''id'') (\<lambda>i. Inr \<lparr>cf_id = i, cf_body = body\<rparr>)"

definition create_statement_format ::
  "('c, 'w) http_library \<Rightarrow> 'c api_client \<Rightarrow> run_state \<Rightarrow> string \<Rightarrow> object option \<Rightarrow> ('c, 'w, created_statement_format) gateway_io" where
  "create_statement_format lib client rs label openapi_snapshot =
     bindS (send_api lib client (post_request ''/v1/statement-formats'' (create_statement_format_request rs label))) (\<lambda>response.
     liftE (checked (bindE (snapshot_body lib openapi_snapshot ''createFormat'' 201 response) created_format)))"

definition csv_upload :: "run_state \<Rightarrow> string \<Rightarrow> upload" where
  "csv_upload rs label = \<lparr>up_name = Some (label @ ''.csv''), up_content = csv_sample rs label, up_type = ''text/csv''\<rparr>"

definition json_upload :: "(rat \<Rightarrow> string) \<Rightarrow> json \<Rightarrow> upload" where
  "json_upload float_text j = (case multipart_json float_text j of (name, content, t) \<Rightarrow>
     \<lparr>up_name = name, up_content = content, up_type = t\<rparr>)"

definition save_csv_wizard_statement_format ::
  "('c, 'w) http_library \<Rightarrow> (rat \<Rightarrow> string) \<Rightarrow> 'c api_client \<Rightarrow> run_state \<Rightarrow> string \<Rightarrow> object option \<Rightarrow>
     ('c, 'w, created_statement_format) gateway_io" where
  "save_csv_wizard_statement_format lib float_text client rs label openapi_snapshot =
     bindS (send_api lib client ((plain_request ''POST'' ''/v1/statement-formats/csv-wizard/save'')\<lparr>hr_files :=
              [(''file'', csv_upload rs label), (''request'', json_upload float_text (JObj (csv_save_request rs label)))]\<rparr>)) (\<lambda>response.
     liftE (checked (bindE (snapshot_body lib openapi_snapshot ''saveCsvWizardFormat'' 201 response) created_format)))"

definition preview_transaction_files ::
  "('c, 'w) http_library \<Rightarrow> 'c api_client \<Rightarrow> run_state \<Rightarrow> string list \<Rightarrow> int \<Rightarrow> string \<Rightarrow> object option \<Rightarrow> ('c, 'w, object) gateway_io" where
  "preview_transaction_files lib client rs labels statement_format_id account_id openapi_snapshot =
     bindS (send_api lib client ((plain_request ''POST'' ''/v1/transactions/preview'')\<lparr>
              hr_params := [(''statementFormatId'', JInt statement_format_id), (''accountId'', JStr account_id)],
              hr_files := map (\<lambda>label. (''files'', csv_upload rs label)) labels\<rparr>)) (\<lambda>response.
     liftE (checked (snapshot_body lib openapi_snapshot ''previewTransactions'' 200 response)))"

definition transaction_account :: "run_state \<Rightarrow> string \<Rightarrow> manual_transaction \<Rightarrow> string" where
  "transaction_account rs label mt = text_or (mt_account_id mt) (generated_account_id rs label)"

definition create_manual_transaction ::
  "('c, 'w) http_library \<Rightarrow> 'c api_client \<Rightarrow> run_state \<Rightarrow> string \<Rightarrow> manual_transaction \<Rightarrow> bool \<Rightarrow> object option \<Rightarrow>
     ('c, 'w, created_transaction) gateway_io" where
  "create_manual_transaction lib client rs label mt include_bank_name openapi_snapshot =
     (let transaction_account_id = transaction_account rs label mt;
          sent = mt\<lparr>mt_account_id := Some transaction_account_id,
            mt_bank_name := (if include_bank_name then Some (text_or (mt_bank_name mt) (generated_bank_name rs label)) else None)\<rparr>
      in bindS (send_api lib client (post_request ''/v1/transactions'' (manual_transaction_request rs label sent))) (\<lambda>response.
         liftE (checked (bindE (snapshot_body lib openapi_snapshot ''createTransaction'' 201 response) (\<lambda>body.
           bindE (int_field body ''id'') (\<lambda>i. Inr \<lparr>cn_id = i, cn_account_id = transaction_account_id, cn_body = body\<rparr>))))))"

definition create_saved_view ::
  "('c, 'w) http_library \<Rightarrow> 'c api_client \<Rightarrow> run_state \<Rightarrow> string \<Rightarrow> int list \<Rightarrow> object option \<Rightarrow> ('c, 'w, created_saved_view) gateway_io" where
  "create_saved_view lib client rs label transaction_ids openapi_snapshot =
     bindS (send_api lib client (post_request ''/v1/views'' (create_saved_view_request rs label transaction_ids))) (\<lambda>response.
     liftE (checked (bindE (snapshot_body lib openapi_snapshot ''createView'' 201 response) (\<lambda>body.
       bindE (string_field body ''id'') (\<lambda>i. Inr \<lparr>cv_id = i, cv_body = body\<rparr>)))))"

section \<open>One request per resource\<close>

lemma send_api_ok:
  assumes "send_api lib client request s = (Inr r, t)"
  shows "gs_exchanges t = gs_exchanges s @
    [Exchanged (ac_handle client) (request\<lparr>hr_target := api_target client (hr_target request)\<rparr>) (Some r)]"
  using send_raw_ok [of lib client "request\<lparr>hr_target := join_paths (api_base_path (ac_config client)) (hr_target request)\<rparr>" s r t] assms
  by (simp add: send_api_def api_target_def)

lemma snapshot_body_ok:
  "snapshot_body lib doc operation_id expected r = Inr body \<Longrightarrow> lg_status r = expected \<and> rs_json r = Some (JObj body)"
  by (auto simp: snapshot_body_def json_object_response_def assert_status_def response_json_def ok_iff)

lemma one_request:
  assumes "bindS (send_api lib client request) (\<lambda>r. liftE (checked (bindE (snapshot_body lib doc operation_id expected r) k))) s = (Inr x, t)"
  obtains r body where "gs_exchanges t = gs_exchanges s @
      [Exchanged (ac_handle client) (request\<lparr>hr_target := api_target client (hr_target request)\<rparr>) (Some r)]"
    "lg_status r = expected" "rs_json r = Some (JObj body)" "k body = Inr x"
proof -
  obtain r u body where u: "send_api lib client request s = (Inr r, u)" "t = u"
    and b: "snapshot_body lib doc operation_id expected r = Inr body" "k body = Inr x"
    using assms unfolding bindS_ok liftE_ok checked_ok bindE_ok by blast
  show thesis
    using that [of r body] send_api_ok [OF u(1)] snapshot_body_ok [OF b(1)] b(2) u(2) by simp
qed

text \<open>
  C20. A created transaction is the one that was asked for: exactly one POST of a well-typed request was sent, its account
  is the account the result names, which carries the id of the run unless the test chose one, and the id and the body of the
  result are those of a 201 response.
\<close>

theorem created_transaction_is_the_requested_one:
  assumes "create_manual_transaction lib client rs label mt include_bank_name doc s = (Inr created, t)"
  shows "\<exists>request r. has_type CreateTransactionRequest (JObj request) \<and>
    gs_exchanges t = gs_exchanges s @
      [Exchanged (ac_handle client) (post_request (api_target client ''/v1/transactions'') request) (Some r)] \<and>
    jget request ''accountId'' = JStr (cn_account_id created) \<and>
    cn_account_id created = text_or (mt_account_id mt) (generated_account_id rs label) \<and>
    lg_status r = 201 \<and> rs_json r = Some (JObj (cn_body created)) \<and> int_field (cn_body created) ''id'' = Inr (cn_id created)"
proof -
  let ?sent = "mt\<lparr>mt_account_id := Some (transaction_account rs label mt),
      mt_bank_name := (if include_bank_name then Some (text_or (mt_bank_name mt) (generated_bank_name rs label)) else None)\<rparr>"
  let ?request = "manual_transaction_request rs label ?sent"
  obtain r body where r: "gs_exchanges t = gs_exchanges s @
      [Exchanged (ac_handle client) ((post_request ''/v1/transactions'' ?request)\<lparr>hr_target :=
         api_target client (hr_target (post_request ''/v1/transactions'' ?request))\<rparr>) (Some r)]"
    "lg_status r = 201" "rs_json r = Some (JObj body)"
    "bindE (int_field body ''id'') (\<lambda>i. Inr \<lparr>cn_id = i, cn_account_id = transaction_account rs label mt, cn_body = body\<rparr>) = Inr created"
    by (rule one_request [OF assms [unfolded create_manual_transaction_def Let_def]])
  have created: "int_field body ''id'' = Inr (cn_id created)" "cn_account_id created = transaction_account rs label mt" "cn_body created = body"
    using r(4) by (auto simp: ok_iff)
  have target: "(post_request ''/v1/transactions'' ?request)\<lparr>hr_target := api_target client (hr_target (post_request ''/v1/transactions'' ?request))\<rparr>
      = post_request (api_target client ''/v1/transactions'') ?request"
    by (simp add: post_request_def plain_request_def)
  have "transaction_account rs label mt \<noteq> [] \<or> generated_account_id rs label = []"
    by (auto simp: transaction_account_def text_or_def split: option.split)
  then have "jget ?request ''accountId'' = JStr (transaction_account rs label mt)"
    by (simp add: jget_def manual_transaction_request_def text_or_def generated_account_id_def)
  moreover have "has_type CreateTransactionRequest (JObj ?request)"
    by (rule transaction_request_type)
  moreover note r(1) [unfolded target]
  moreover have "transaction_account rs label mt = text_or (mt_account_id mt) (generated_account_id rs label)"
    by (simp add: transaction_account_def)
  ultimately show ?thesis using r(2,3) created by metis
qed

definition created_library :: "(nat, nat) http_library" where
  "created_library = \<lparr>hl_open = (\<lambda>config sess w. (0, w)), hl_send = (\<lambda>c request w.
       (Some (empty_response\<lparr>lg_status := 201, rs_json := Some (JObj [(''id'', JInt 7)])\<rparr>), w)), hl_close = (\<lambda>c w. w),
     hl_clock = (\<lambda>w. (0, 0)), hl_validator = (\<lambda>doc ref body. [])\<rparr>"

theorem created_transaction_is_the_requested_one_witness:
  "\<exists>created t. create_manual_transaction created_library \<lparr>ac_config = sample_config, ac_handle = 0\<rparr> \<lparr>run_id = ''r1''\<rparr> ''x''
       default_transaction True None start_state = (Inr created, t) \<and>
     cn_account_id created = ''r1-x-acct'' \<and> length (gs_exchanges t) = 1"
proof -
  let ?run = "create_manual_transaction created_library \<lparr>ac_config = sample_config, ac_handle = 0\<rparr> \<lparr>run_id = ''r1''\<rparr> ''x''
       default_transaction True None start_state"
  have "case fst ?run of Inl e \<Rightarrow> False | Inr c \<Rightarrow> True" by code_simp
  then obtain created where run: "?run = (Inr created, snd ?run)" by (metis prod.collapse sum.case_eq_if sum.collapse(2))
  have start: "gs_exchanges start_state = []" by (simp add: start_state_def)
  have account: "text_or (mt_account_id default_transaction) (generated_account_id \<lparr>run_id = ''r1''\<rparr> ''x'') = ''r1-x-acct''" by code_simp
  have "cn_account_id created = ''r1-x-acct''" "length (gs_exchanges (snd ?run)) = 1"
    using created_transaction_is_the_requested_one [OF run] unfolding start account by auto
  with run show ?thesis by blast
qed

end
