(* ===== verification/Browser_Flow.thy ===== *)
theory Browser_Flow
  imports Auth Client Json "HOL-Library.List_Lexorder" "HOL-Library.Multiset"
begin

text \<open>
  \<open>src/api_tests/browser_login.py\<close>: the hosted login and signup driven through a browser.  The browser library
  is a record of actions on the state of the flow: it dispatches the events that the flow subscribed to while it
  navigates, so that an action may run the handlers below and raise what they raise.  The requests of the gateway
  client go through \<open>Client.raw_request\<close> with the shared pacing.  The texts of the errors are constructors, and
  the selectors of the form fields belong to the library.
\<close>

section \<open>Data\<close>

datatype host_classification = IdentityProvider | ExternalOther

record playwright_cookie =
  ck_name :: "string option"
  ck_value :: "string option"
  ck_domain :: "string option"
  ck_path :: "string option"
  ck_http_only :: bool
  ck_secure :: bool
  ck_same_site :: "string option"

record cookie_metadata =
  cm_name :: string
  cm_domain :: string
  cm_path :: string
  cm_http_only :: bool
  cm_secure :: bool
  cm_same_site :: string

record observation =
  ob_method :: string
  ob_status :: int
  ob_same_origin_path :: "string option"
  ob_classification :: "host_classification option"

record login_result =
  lr_session :: session
  lr_session_cookie :: cookie_metadata
  lr_cookie_names :: "string list"
  lr_final_path :: string
  lr_callback_observed :: bool
  lr_observations :: "observation list"

datatype login_error =
    InvalidEvent
  | MissingRequestMetadata
  | MissingRequestUrl
  | BypassedPacing string
  | NoBrowserSettings
  | BothReturnPaths
  | NoReturnPaths
  | UnsafeReturnPath
  | EmptyCookie
  | CookieNotSet
  | CookieMetadataMissing
  | EntryFailed int
  | WrongOrigin
  | UnexpectedReturn string "string list"
  | CallbackNotObserved
  | AccountAlreadyExists
  | SignupDidNotReturn
  | BrowserFailed
  | VerificationRequestFailed
  | VerificationStatus int

text \<open>What a flow can raise: an error of the library, an error of its own, or a malformed URL.\<close>

datatype flow_error = PlaywrightFailure | LoginFailure login_error | UrlFailure url_error

text \<open>
  The state of a flow: the world of the library, the shared pacing, the two lists of the observer, the requests
  that interception let through (identifier and URL), and the session once it is read.
\<close>

record 'w flow =
  fl_world :: 'w
  fl_pacing :: pacing
  fl_paced :: "string list"
  fl_observations :: "observation list"
  fl_continued :: "(string \<times> string) list"
  fl_session :: "session option"

type_synonym ('w, 'a) flow_io = "('w flow, flow_error, 'a) io"

definition url_of :: "url_error + 'a \<Rightarrow> flow_error + 'a" where
  "url_of r = (case r of Inl e \<Rightarrow> Inl (UrlFailure e) | Inr x \<Rightarrow> Inr x)"

section \<open>The handlers\<close>

definition external_host_classification :: "string \<Rightarrow> environment_config \<Rightarrow> url_error + host_classification" where
  "external_host_classification request_url config =
     bindE (requireE (urlsplit request_url) InvalidUrl) (\<lambda>u.
     Inr (case su_hostname u of
            None \<Rightarrow> ExternalOther
          | Some host \<Rightarrow>
              if list_ex (\<lambda>suf. casefold host = suf \<or> suffix (''.'' @ suf) (casefold host))
                   (provider_host_suffixes (browser_contract config))
              then IdentityProvider else ExternalOther))"

text \<open>The observation that \<open>record_response\<close> appends.\<close>

definition observation_of :: "environment_config \<Rightarrow> string \<Rightarrow> string \<Rightarrow> int \<Rightarrow> url_error + observation" where
  "observation_of config method request_url status =
     bindE (is_same_origin request_url (origin config)) (\<lambda>same.
       if same then
         bindE (request_path_from_url request_url) (\<lambda>path.
         Inr \<lparr>ob_method = method, ob_status = status, ob_same_origin_path = Some path, ob_classification = None\<rparr>)
       else
         bindE (external_host_classification request_url config) (\<lambda>c.
         Inr \<lparr>ob_method = method, ob_status = status, ob_same_origin_path = None, ob_classification = Some c\<rparr>))"

definition record_response :: "environment_config \<Rightarrow> string \<Rightarrow> string \<Rightarrow> int \<Rightarrow> ('w, unit) flow_io" where
  "record_response config method request_url status s =
     (case observation_of config method request_url status of
        Inl e \<Rightarrow> (Inl (UrlFailure e), s)
      | Inr ob \<Rightarrow> (Inr (), s\<lparr>fl_observations := fl_observations s @ [ob]\<rparr>))"

text \<open>\<open>GatewayClient.pace_shared_request\<close>: the clock of the library is read before and after the sleep.\<close>

definition pace_shared_request :: "('w \<Rightarrow> (rat \<times> rat) \<times> 'w) \<Rightarrow> string \<Rightarrow> ('w, unit) flow_io" where
  "pace_shared_request clock path s =
     (case clock (fl_world s) of (reading, w) \<Rightarrow>
        (case pacing_wait (fl_pacing s) path (fst reading) (snd reading) of
           Inl e \<Rightarrow> (Inl (UrlFailure e), s\<lparr>fl_world := w\<rparr>)
         | Inr p \<Rightarrow> (Inr (), s\<lparr>fl_world := w, fl_pacing := p\<rparr>)))"

definition event_request :: "json \<Rightarrow> login_error + (string \<times> string)" where
  "event_request event =
     bindE (requireE (as_object event) InvalidEvent) (\<lambda>d.
     case (as_string (jget d ''requestId''), as_object (jget d ''request'')) of
       (Some request_id, Some request) \<Rightarrow>
         bindE (requireE (as_string (jget request ''url'')) MissingRequestUrl) (\<lambda>url. Inr (request_id, url))
     | _ \<Rightarrow> Inl MissingRequestMetadata)"

definition login_failure :: "login_error + 'a \<Rightarrow> flow_error + 'a" where
  "login_failure r = (case r of Inl e \<Rightarrow> Inl (LoginFailure e) | Inr x \<Rightarrow> Inr x)"

definition continue_request :: "string \<Rightarrow> string \<Rightarrow> ('w, unit) flow_io" where
  "continue_request request_id url s = (Inr (), s\<lparr>fl_continued := fl_continued s @ [(request_id, url)]\<rparr>)"

definition record_paced_same_origin_path :: "string \<Rightarrow> ('w, unit) flow_io" where
  "record_paced_same_origin_path path s = (Inr (), s\<lparr>fl_paced := fl_paced s @ [path]\<rparr>)"

definition continue_paced_gateway_request ::
  "('w \<Rightarrow> (rat \<times> rat) \<times> 'w) \<Rightarrow> string \<Rightarrow> bool \<Rightarrow> json \<Rightarrow> ('w, unit) flow_io" where
  "continue_paced_gateway_request clock gateway_origin observed event =
     bindS (liftE (login_failure (event_request event))) (\<lambda>(request_id, url).
     bindS (liftE (url_of (is_same_origin url gateway_origin))) (\<lambda>same.
     bindS (if same then
              bindS (liftE (url_of (request_path_from_url url))) (\<lambda>path.
              bindS (pace_shared_request clock path) (\<lambda>_.
              if observed then record_paced_same_origin_path path else liftE (Inr ())))
            else liftE (Inr ())) (\<lambda>_.
     continue_request request_id url)))"

text \<open>Every rate-limited response takes one of the paced paths away; none may be missing.\<close>

fun unpaced_loop :: "string list \<Rightarrow> observation list \<Rightarrow> flow_error + unit" where
  "unpaced_loop paced [] = Inr ()"
| "unpaced_loop paced (ob # obs) =
     (case ob_same_origin_path ob of
        None \<Rightarrow> unpaced_loop paced obs
      | Some path \<Rightarrow>
          bindE (url_of (classify_public_rate_policy path)) (\<lambda>policy.
          if policy = None then unpaced_loop paced obs
          else if path \<in> set paced then unpaced_loop (remove1 path paced) obs
          else Inl (LoginFailure (BypassedPacing path))))"

definition assert_rate_limited_responses_were_paced :: "('w, unit) flow_io" where
  "assert_rate_limited_responses_were_paced s = (unpaced_loop (fl_paced s) (fl_observations s), s)"

section \<open>Return paths\<close>

text \<open>The path is split first, so that a malformed URL raises before any test.\<close>

definition validate_expected_return_path :: "string \<Rightarrow> flow_error + unit" where
  "validate_expected_return_path path =
     bindE (url_of (requireE (urlsplit path) InvalidUrl)) (\<lambda>parsed.
     if \<not> startswith path ''/'' \<or> startswith path ''//'' \<or> contains ''://'' path \<or> su_scheme parsed \<noteq> [] \<or>
        su_netloc parsed \<noteq> [] \<or> su_fragment parsed \<noteq> []
     then Inl (LoginFailure UnsafeReturnPath) else Inr ())"

text \<open>The paths a caller expects: one string, or a sequence of strings.\<close>

datatype return_paths = OnePath string | ManyPaths "string list"

definition keys_in_order :: "'a list \<Rightarrow> 'a list" where
  "keys_in_order xs = rev (remdups (rev xs))"

definition or_default :: "string option \<Rightarrow> string \<Rightarrow> string" where
  "or_default s d = (case s of None \<Rightarrow> d | Some x \<Rightarrow> if x = [] then d else x)"

definition resolve_expected_return_paths ::
  "environment_config \<Rightarrow> string option \<Rightarrow> return_paths option \<Rightarrow> flow_error + string list" where
  "resolve_expected_return_paths config wanted_path wanted_paths =
     (if wanted_path \<noteq> None \<and> wanted_paths \<noteq> None then Inl (LoginFailure BothReturnPaths)
      else
        bindE (case wanted_paths of
            None \<Rightarrow> Inr [or_default wanted_path (default_return_path (browser_contract config))]
          | Some (OnePath p) \<Rightarrow> Inr [p]
          | Some (ManyPaths ps) \<Rightarrow> if ps = [] then Inl (LoginFailure NoReturnPaths) else Inr (keys_in_order ps)) (\<lambda>paths.
        bindE (mapE validate_expected_return_path paths) (\<lambda>_.
        Inr paths)))"

definition same_origin_page_path :: "string \<Rightarrow> environment_config \<Rightarrow> flow_error + string" where
  "same_origin_page_path page_url config =
     bindE (url_of (is_same_origin page_url (origin config))) (\<lambda>same.
     if \<not> same then Inl (LoginFailure WrongOrigin)
     else
       bindE (url_of (requireE (urlsplit page_url) InvalidUrl)) (\<lambda>parsed.
       let path = (if su_path parsed = [] then ''/'' else su_path parsed)
       in Inr (if su_query parsed \<noteq> [] then path @ ''?'' @ su_query parsed else path)))"

section \<open>The session cookie\<close>

definition text_or_empty :: "string option \<Rightarrow> string" where
  "text_or_empty v = (case v of None \<Rightarrow> [] | Some x \<Rightarrow> x)"

definition read_session_cookie :: "playwright_cookie list \<Rightarrow> string \<Rightarrow> login_error + session" where
  "read_session_cookie cookies name =
     (case List.find (\<lambda>c. ck_name c = Some name) cookies of
        None \<Rightarrow> Inl CookieNotSet
      | Some c \<Rightarrow>
          if text_or_empty (ck_value c) = [] then Inl EmptyCookie
          else Inr \<lparr>cookie_name = name, cookie_value = text_or_empty (ck_value c)\<rparr>)"

definition read_session_cookie_metadata :: "playwright_cookie list \<Rightarrow> string \<Rightarrow> login_error + cookie_metadata" where
  "read_session_cookie_metadata cookies name =
     (case List.find (\<lambda>c. ck_name c = Some name) cookies of
        None \<Rightarrow> Inl CookieMetadataMissing
      | Some c \<Rightarrow> Inr \<lparr>cm_name = name, cm_domain = text_or_empty (ck_domain c), cm_path = text_or_empty (ck_path c),
          cm_http_only = ck_http_only c, cm_secure = ck_secure c, cm_same_site = text_or_empty (ck_same_site c)\<rparr>)"

section \<open>The library\<close>

text \<open>
  What the flow calls: the browser and its page, the clock of the pacer, and the HTTP client, which gives the status
  of the response or no response at all (\<open>httpx.RequestError\<close>).
\<close>

record 'w library =
  lb_clock :: "'w \<Rightarrow> (rat \<times> rat) \<times> 'w"
  lb_launch :: "bool \<Rightarrow> ('w, unit) flow_io"
  lb_new_context :: "('w, unit) flow_io"
  lb_new_page :: "('w, unit) flow_io"
  lb_close_context :: "('w, unit) flow_io"
  lb_close_browser :: "('w, unit) flow_io"
  lb_goto :: "string \<Rightarrow> ('w, int option) flow_io"
  lb_fill_login_form :: "credentials \<Rightarrow> ('w, unit) flow_io"
  lb_click_sign_up :: "('w, unit) flow_io"
  lb_fill_signup_form :: "credentials \<Rightarrow> ('w, unit) flow_io"
  lb_wait_for_url :: "string \<Rightarrow> ('w, unit) flow_io"
  lb_visible_error_texts :: "('w, string list) flow_io"
  lb_cookies :: "('w, playwright_cookie list) flow_io"
  lb_page_url :: "'w flow \<Rightarrow> string"
  lb_send :: "session \<Rightarrow> string \<Rightarrow> string \<Rightarrow> 'w \<Rightarrow> int option \<times> 'w"

text \<open>One request of a gateway client made for the session, paced by the shared pacing.\<close>

definition gateway_get :: "'w library \<Rightarrow> environment_config \<Rightarrow> session \<Rightarrow> string \<Rightarrow> ('w, int option) flow_io" where
  "gateway_get lib config sess path s =
     (case lb_clock lib (fl_world s) of (reading, w) \<Rightarrow>
        (case raw_request (lb_send lib sess) reading
                \<lparr>gc_api_base_path = api_base_path config, gc_pacing = fl_pacing s\<rparr> ''GET'' path w of
           Inl e \<Rightarrow> (Inl (UrlFailure e), s\<lparr>fl_world := w\<rparr>)
         | Inr (status, client, w') \<Rightarrow> (Inr status, s\<lparr>fl_world := w', fl_pacing := gc_pacing client\<rparr>)))"

definition verify_session :: "'w library \<Rightarrow> environment_config \<Rightarrow> session \<Rightarrow> ('w, unit) flow_io" where
  "verify_session lib config sess =
     bindS (gateway_get lib config sess ''/auth/v1/user'') (\<lambda>status. liftE (case status of
         None \<Rightarrow> Inl (LoginFailure VerificationRequestFailed)
       | Some n \<Rightarrow> if n \<noteq> 200 then Inl (LoginFailure (VerificationStatus n)) else Inr ()))"

text \<open>Logging out the session of a failed flow, whatever that raises.\<close>

definition cleanup_failed_browser_session :: "'w library \<Rightarrow> environment_config \<Rightarrow> session \<Rightarrow> 'w flow \<Rightarrow> 'w flow" where
  "cleanup_failed_browser_session lib config sess s = snd (gateway_get lib config sess ''/logout'' s)"

text \<open>\<open>try: ... finally: ...\<close>: the closing action runs on every path, and what it raises replaces the outcome.\<close>

definition finally_do :: "('s, 'e, 'a) io \<Rightarrow> ('s, 'e, unit) io \<Rightarrow> ('s, 'e, 'a) io" where
  "finally_do m closing s =
     (case m s of (r, t) \<Rightarrow> (case closing t of (Inl e, u) \<Rightarrow> (Inl e, u) | (Inr _, u) \<Rightarrow> (r, u)))"

definition in_browser :: "'w library \<Rightarrow> bool \<Rightarrow> ('w, 'a) flow_io \<Rightarrow> ('w, 'a) flow_io" where
  "in_browser lib is_headless m =
     bindS (lb_launch lib is_headless) (\<lambda>_.
     finally_do (bindS (lb_new_context lib) (\<lambda>_. finally_do m (lb_close_context lib))) (lb_close_browser lib))"

section \<open>The login flow\<close>

definition query_char :: "char \<Rightarrow> string" where
  "query_char c = (if c = CHR '' '' then ''+'' else quote_char c)"

definition login_url :: "environment_config \<Rightarrow> string option \<Rightarrow> string" where
  "login_url config return_url =
     origin config @ ''/oauth2/authorization/idp'' @
       (case return_url of None \<Rightarrow> [] | Some u \<Rightarrow> ''?returnUrl='' @ concat (map query_char u))"

definition open_public_login :: "'w library \<Rightarrow> environment_config \<Rightarrow> string option \<Rightarrow> ('w, unit) flow_io" where
  "open_public_login lib config return_url =
     bindS (lb_goto lib (login_url config return_url)) (\<lambda>response. liftE (case response of
         None \<Rightarrow> Inr ()
       | Some status \<Rightarrow> if status \<ge> 400 then Inl (LoginFailure (EntryFailed status)) else Inr ()))"

definition wait_for_application :: "'w library \<Rightarrow> environment_config \<Rightarrow> ('w, unit) flow_io" where
  "wait_for_application lib config = lb_wait_for_url lib (origin config @ ''/**'')"

definition remember_session :: "session \<Rightarrow> ('w, unit) flow_io" where
  "remember_session sess s = (Inr (), s\<lparr>fl_session := Some sess\<rparr>)"

definition read_state :: "('w flow \<Rightarrow> 'a) \<Rightarrow> ('w, 'a) flow_io" where
  "read_state f s = (Inr (f s), s)"

definition login_body ::
  "'w library \<Rightarrow> environment_config \<Rightarrow> credentials \<Rightarrow> string option \<Rightarrow> string list \<Rightarrow> ('w, login_result) flow_io" where
  "login_body lib config creds return_url allowed =
     bindS (lb_new_page lib) (\<lambda>_.
     bindS (open_public_login lib config return_url) (\<lambda>_.
     bindS (lb_fill_login_form lib creds) (\<lambda>_.
     bindS (wait_for_application lib config) (\<lambda>_.
     bindS (lb_cookies lib) (\<lambda>cookies1.
     bindS (liftE (login_failure (read_session_cookie cookies1 (session_cookie_name config)))) (\<lambda>sess.
     bindS (remember_session sess) (\<lambda>_.
     bindS (lb_cookies lib) (\<lambda>cookies2.
     bindS (liftE (login_failure (read_session_cookie_metadata cookies2 (session_cookie_name config)))) (\<lambda>metadata.
     bindS (lb_cookies lib) (\<lambda>cookies3.
     bindS (read_state fl_observations) (\<lambda>obs.
     bindS assert_rate_limited_responses_were_paced (\<lambda>_.
     bindS (read_state (lb_page_url lib)) (\<lambda>page_url.
     bindS (liftE (same_origin_page_path page_url config)) (\<lambda>final_path.
     if final_path \<notin> set allowed then liftE (Inl (LoginFailure (UnexpectedReturn final_path allowed)))
     else if \<not> list_ex (\<lambda>ob. ob_same_origin_path ob = Some (callback_path (browser_contract config))) obs
     then liftE (Inl (LoginFailure CallbackNotObserved))
     else liftE (Inr \<lparr>lr_session = sess, lr_session_cookie = metadata,
            lr_cookie_names = sort (List.map_filter ck_name cookies3), lr_final_path = final_path,
            lr_callback_observed = True, lr_observations = obs\<rparr>)))))))))))))))"

text \<open>The observer and the session variable of a new flow.\<close>

definition new_flow :: "'w flow \<Rightarrow> 'w flow" where
  "new_flow s = s\<lparr>fl_paced := [], fl_observations := [], fl_continued := [], fl_session := None\<rparr>"

definition cleanup_session :: "'w library \<Rightarrow> environment_config \<Rightarrow> 'w flow \<Rightarrow> 'w flow" where
  "cleanup_session lib config s =
     (case fl_session s of None \<Rightarrow> s | Some sess \<Rightarrow> cleanup_failed_browser_session lib config sess s)"

definition login_flow_with_browser ::
  "'w library \<Rightarrow> environment_config \<Rightarrow> credentials \<Rightarrow> string option \<Rightarrow> string option \<Rightarrow> return_paths option \<Rightarrow>
     ('w, login_result) flow_io" where
  "login_flow_with_browser lib config creds return_url wanted_path wanted_paths s0 =
     (let s = new_flow s0 in
      case browser (auth config) of
        None \<Rightarrow> (Inl (LoginFailure NoBrowserSettings), s)
      | Some b \<Rightarrow>
          (case resolve_expected_return_paths config wanted_path wanted_paths of
             Inl e \<Rightarrow> (Inl e, s)
           | Inr allowed \<Rightarrow>
               (case in_browser lib (headless b) (login_body lib config creds return_url allowed) s of
                  (Inl PlaywrightFailure, t) \<Rightarrow> (Inl (LoginFailure BrowserFailed), cleanup_session lib config t)
                | (Inl (LoginFailure e), t) \<Rightarrow> (Inl (LoginFailure e), cleanup_session lib config t)
                | r \<Rightarrow> r)))"

definition login_with_browser_flow ::
  "'w library \<Rightarrow> environment_config \<Rightarrow> credentials \<Rightarrow> return_paths option \<Rightarrow> ('w, session) flow_io" where
  "login_with_browser_flow lib config creds wanted_paths s0 =
     (case login_flow_with_browser lib config creds None None wanted_paths s0 of
        (Inl e, s) \<Rightarrow> (Inl e, s)
      | (Inr result, s) \<Rightarrow>
          (case verify_session lib config (lr_session result) s of
             (Inl (LoginFailure e), t) \<Rightarrow>
               (Inl (LoginFailure e), cleanup_failed_browser_session lib config (lr_session result) t)
           | (Inl e, t) \<Rightarrow> (Inl e, t)
           | (Inr _, t) \<Rightarrow> (Inr (lr_session result), t)))"

section \<open>The signup flow\<close>

definition hosted_error_text :: "'w library \<Rightarrow> ('w, string) flow_io" where
  "hosted_error_text lib =
     bindS (lb_visible_error_texts lib) (\<lambda>texts. liftE (Inr (join '' '' (filter (\<lambda>t. t \<noteq> []) (map strip texts)))))"

definition is_existing_account_error :: "string \<Rightarrow> bool" where
  "is_existing_account_error message \<longleftrightarrow>
     contains ''already exists'' (casefold message) \<or> contains ''user exists'' (casefold message)"

text \<open>The wait of the signup: when it fails, the visible errors of the page say whether the account exists.\<close>

definition wait_after_signup :: "'w library \<Rightarrow> environment_config \<Rightarrow> ('w, unit) flow_io" where
  "wait_after_signup lib config s =
     (case wait_for_application lib config s of
        (Inl PlaywrightFailure, t) \<Rightarrow>
          bindS (hosted_error_text lib) (\<lambda>text. liftE (Inl (LoginFailure
            (if is_existing_account_error text then AccountAlreadyExists else SignupDidNotReturn)))) t
      | r \<Rightarrow> r)"

definition signup_body :: "'w library \<Rightarrow> environment_config \<Rightarrow> credentials \<Rightarrow> ('w, session) flow_io" where
  "signup_body lib config creds =
     bindS (lb_new_page lib) (\<lambda>_.
     bindS (open_public_login lib config None) (\<lambda>_.
     bindS (lb_click_sign_up lib) (\<lambda>_.
     bindS (lb_fill_signup_form lib creds) (\<lambda>_.
     bindS (wait_after_signup lib config) (\<lambda>_.
     bindS (lb_cookies lib) (\<lambda>cookies.
     liftE (login_failure (read_session_cookie cookies (session_cookie_name config)))))))))"

definition signup_with_browser :: "'w library \<Rightarrow> environment_config \<Rightarrow> credentials \<Rightarrow> ('w, session) flow_io" where
  "signup_with_browser lib config creds s =
     (case browser (auth config) of
        None \<Rightarrow> (Inl (LoginFailure NoBrowserSettings), s)
      | Some b \<Rightarrow>
          (case in_browser lib (headless b) (signup_body lib config creds) s of
             (Inl PlaywrightFailure, t) \<Rightarrow> (Inl (LoginFailure BrowserFailed), t)
           | (Inl e, t) \<Rightarrow> (Inl e, t)
           | (Inr sess, t) \<Rightarrow> bindS (verify_session lib config sess) (\<lambda>_. liftE (Inr sess)) t))"

text \<open>The two browser functions that the authentication of \<open>Auth\<close> takes as arguments.\<close>

definition browser_error_of :: "flow_error \<Rightarrow> flow_error browser_error" where
  "browser_error_of e = (if e = LoginFailure AccountAlreadyExists then AccountExists else BrowserFailure e)"

definition with_browser_error :: "('w, 'a) flow_io \<Rightarrow> ('w flow, flow_error browser_error, 'a) io" where
  "with_browser_error m s = (case m s of (Inl e, t) \<Rightarrow> (Inl (browser_error_of e), t) | (Inr x, t) \<Rightarrow> (Inr x, t))"

definition default_browser :: "'w library \<Rightarrow> ('w flow, flow_error) browser_functions" where
  "default_browser lib = \<lparr>login = None,
     login_with_browser = (\<lambda>config creds paths.
       with_browser_error (login_with_browser_flow lib config creds (Some (ManyPaths paths)))),
     signup = (\<lambda>config creds. with_browser_error (signup_with_browser lib config creds))\<rparr>"

section \<open>The events of a flow\<close>

text \<open>
  What can happen to the state while a login runs: an intercepted request, a response, or anything in the world of the
  library.  A handler that raises leaves the state it reached.
\<close>

inductive flow_step :: "('w \<Rightarrow> (rat \<times> rat) \<times> 'w) \<Rightarrow> environment_config \<Rightarrow> 'w flow \<Rightarrow> 'w flow \<Rightarrow> bool"
  for clock :: "'w \<Rightarrow> (rat \<times> rat) \<times> 'w" and config :: environment_config where
  request_paused:
    "continue_paced_gateway_request clock (origin config) True event s = (r, t) \<Longrightarrow> flow_step clock config s t"
| response_received: "record_response config method url status s = (r, t) \<Longrightarrow> flow_step clock config s t"
| world_changed: "flow_step clock config s (s\<lparr>fl_world := w\<rparr>)"

inductive flow_reachable :: "('w \<Rightarrow> (rat \<times> rat) \<times> 'w) \<Rightarrow> environment_config \<Rightarrow> 'w flow \<Rightarrow> bool"
  for clock :: "'w \<Rightarrow> (rat \<times> rat) \<times> 'w" and config :: environment_config where
  flow_started: "flow_reachable clock config (new_flow s)"
| flow_stepped: "flow_reachable clock config s \<Longrightarrow> flow_step clock config s t \<Longrightarrow> flow_reachable clock config t"

text \<open>The paths of the requests to the gateway among the continued ones, in order.\<close>

definition gateway_path :: "string \<Rightarrow> string \<Rightarrow> string option" where
  "gateway_path gateway_origin url =
     (case (is_same_origin url gateway_origin, request_path_from_url url) of
        (Inr True, Inr path) \<Rightarrow> Some path | _ \<Rightarrow> None)"

definition continued_gateway_paths :: "string \<Rightarrow> 'w flow \<Rightarrow> string list" where
  "continued_gateway_paths gateway_origin s = List.map_filter (gateway_path gateway_origin) (map snd (fl_continued s))"

lemma pace_shared_request_frame:
  "pace_shared_request clock path s = (r, t) \<Longrightarrow>
     fl_paced t = fl_paced s \<and> fl_continued t = fl_continued s \<and> fl_observations t = fl_observations s"
  by (auto simp: pace_shared_request_def split: prod.splits sum.splits)

lemma record_response_frame:
  "record_response config method url status s = (r, t) \<Longrightarrow> fl_paced t = fl_paced s \<and> fl_continued t = fl_continued s"
  by (auto simp: record_response_def split: sum.splits)

lemma url_of_ok [ok_iff]: "url_of r = Inr x \<longleftrightarrow> r = Inr x"
  by (auto simp: url_of_def split: sum.splits)

lemma login_failure_ok [ok_iff]: "login_failure r = Inr x \<longleftrightarrow> r = Inr x"
  by (auto simp: login_failure_def split: sum.splits)

text \<open>A request is let through exactly once it is paced, and its path recorded, when it goes to the gateway.\<close>

lemma continue_paced_steps:
  assumes "continue_paced_gateway_request clock gateway_origin True event s = (r, t)"
  shows "fl_paced t = fl_paced s \<and> fl_continued t = fl_continued s \<or>
    (\<exists>i url. fl_continued t = fl_continued s @ [(i, url)] \<and>
       (gateway_path gateway_origin url = None \<and> fl_paced t = fl_paced s \<or>
        (\<exists>path. gateway_path gateway_origin url = Some path \<and> fl_paced t = fl_paced s @ [path])))"
proof (cases "event_request event")
  case (Inl e)
  then show ?thesis
    using assms by (simp add: continue_paced_gateway_request_def login_failure_def)
next
  case (Inr found)
  obtain i url where found: "found = (i, url)" by fastforce
  show ?thesis
  proof (cases "is_same_origin url gateway_origin")
    case (Inl e)
    then show ?thesis
      using assms Inr found by (simp add: continue_paced_gateway_request_def login_failure_def url_of_def)
  next
    case same: (Inr same)
    show ?thesis
    proof (cases same)
      case False
      then have "gateway_path gateway_origin url = None" by (simp add: gateway_path_def same)
      then show ?thesis
        using assms Inr found same False
        by (auto simp: continue_paced_gateway_request_def login_failure_def url_of_def continue_request_def)
    next
      case True
      show ?thesis
      proof (cases "request_path_from_url url")
        case (Inl e)
        then show ?thesis
          using assms Inr found same True
          by (simp add: continue_paced_gateway_request_def login_failure_def url_of_def bindS_def liftE_def)
      next
        case path: (Inr path)
        have gp: "gateway_path gateway_origin url = Some path" by (simp add: gateway_path_def same True path)
        obtain q u where q: "pace_shared_request clock path s = (q, u)" by fastforce
        show ?thesis
          using assms Inr found same True path gp q pace_shared_request_frame [OF q]
          by (cases q) (auto simp: continue_paced_gateway_request_def login_failure_def url_of_def
              bindS_def liftE_def record_paced_same_origin_path_def continue_request_def)
      qed
    qed
  qed
qed

lemma map_filter_snoc:
  "List.map_filter f (xs @ [x]) = List.map_filter f xs @ (case f x of None \<Rightarrow> [] | Some y \<Rightarrow> [y])"
  by (simp add: List.map_filter_def split: option.split)

lemma paced_paths_are_continued:
  "flow_reachable clock config s \<Longrightarrow> fl_paced s = continued_gateway_paths (origin config) s"
proof (induction rule: flow_reachable.induct)
  case (flow_started s)
  show ?case by (simp add: new_flow_def continued_gateway_paths_def)
next
  case (flow_stepped s t)
  from flow_stepped(2) show ?case
  proof (cases rule: flow_step.cases)
    case (request_paused event r)
    from continue_paced_steps [OF this] flow_stepped(3) show ?thesis
      by (auto simp: continued_gateway_paths_def map_filter_snoc)
  next
    case (response_received verb url status r)
    from record_response_frame [OF this] flow_stepped(3) show ?thesis
      by (simp add: continued_gateway_paths_def)
  qed (use flow_stepped(3) in \<open>simp add: continued_gateway_paths_def\<close>)
qed

section \<open>The pacing assertion\<close>

definition rate_limited :: "string \<Rightarrow> bool" where
  "rate_limited path \<longleftrightarrow> (case classify_public_rate_policy path of Inr (Some _) \<Rightarrow> True | _ \<Rightarrow> False)"

definition observed_paths :: "observation list \<Rightarrow> string list" where
  "observed_paths obs = List.map_filter ob_same_origin_path obs"

definition classifiable :: "string \<Rightarrow> bool" where
  "classifiable path \<longleftrightarrow> (case classify_public_rate_policy path of Inr _ \<Rightarrow> True | Inl _ \<Rightarrow> False)"

lemma unpaced_loop_iff:
  "unpaced_loop paced obs = Inr () \<longleftrightarrow>
     list_all classifiable (observed_paths obs) \<and> mset (filter rate_limited (observed_paths obs)) \<subseteq># mset paced"
proof (induction paced obs rule: unpaced_loop.induct)
  case (2 paced ob obs)
  show ?case
  proof (cases "ob_same_origin_path ob")
    case None
    with 2(1) show ?thesis by (simp add: observed_paths_def map_filter_simps)
  next
    case (Some path)
    show ?thesis
    proof (cases "classify_public_rate_policy path")
      case (Inl e)
      with Some show ?thesis by (simp add: observed_paths_def map_filter_simps url_of_def classifiable_def)
    next
      case (Inr policy)
      have here: "classifiable path" "rate_limited path \<longleftrightarrow> policy \<noteq> None"
        by (cases policy; simp add: classifiable_def rate_limited_def Inr)+
      have ok: "url_of (classify_public_rate_policy path) = Inr policy" by (simp add: url_of_def Inr)
      have loop: "unpaced_loop paced (ob # obs) =
        (if policy = None then unpaced_loop paced obs
         else if path \<in> set paced then unpaced_loop (remove1 path paced) obs else Inl (LoginFailure (BypassedPacing path)))"
        by (simp add: Some ok)
      have paths: "observed_paths (ob # obs) = path # observed_paths obs"
        by (simp add: observed_paths_def map_filter_simps Some)
      show ?thesis
      proof (cases "policy = None")
        case True
        with 2(2) [OF Some ok True] here show ?thesis unfolding loop paths by simp
      next
        case False
        show ?thesis
        proof (cases "path \<in> set paced")
          case True
          have "mset (path # filter rate_limited (observed_paths obs)) \<subseteq># mset paced \<longleftrightarrow>
              mset (filter rate_limited (observed_paths obs)) \<subseteq># mset (remove1 path paced)"
            using True by (simp add: insert_subset_eq_iff)
          with 2(3) [OF Some ok False True] here False True show ?thesis unfolding loop paths by (simp del: not_None_eq)
        next
          case missing: False
          have "\<not> mset (path # filter rate_limited (observed_paths obs)) \<subseteq># mset paced"
            using missing by (simp add: insert_subset_eq_iff)
          with here False missing show ?thesis unfolding loop paths by (simp del: not_None_eq)
        qed
      qed
    qed
  qed
qed (simp add: observed_paths_def map_filter_simps)


section \<open>Outcomes of a login\<close>

lemma finally_do_ok [ok_iff]:
  "finally_do m closing s = (Inr x, u) \<longleftrightarrow> (\<exists>t. m s = (Inr x, t) \<and> closing t = (Inr (), u))"
  by (auto simp: finally_do_def split: prod.splits sum.splits)

lemma in_browser_ok:
  "in_browser lib h m s = (Inr x, t) \<Longrightarrow> \<exists>u v. m u = (Inr x, v)"
  by (auto simp: in_browser_def ok_iff)

lemma login_body_ok:
  assumes "login_body lib config creds return_url allowed s = (Inr result, t)"
  shows "lr_final_path result \<in> set allowed \<and>
    list_ex (\<lambda>ob. ob_same_origin_path ob = Some (callback_path (browser_contract config))) (lr_observations result) \<and>
    cookie_name (lr_session result) = session_cookie_name config \<and> cookie_value (lr_session result) \<noteq> []"
proof -
  obtain cookies sess where read: "read_session_cookie cookies (session_cookie_name config) = Inr sess" and
    r: "lr_session result = sess" and rest: "lr_final_path result \<in> set allowed"
    "list_ex (\<lambda>ob. ob_same_origin_path ob = Some (callback_path (browser_contract config))) (lr_observations result)"
    using assms unfolding login_body_def
    by (auto simp: ok_iff simp del: list_ex_iff split: if_splits)
  from read have "cookie_name sess = session_cookie_name config \<and> cookie_value sess \<noteq> []"
    by (auto simp: read_session_cookie_def split: option.splits if_splits)
  with r rest show ?thesis by simp
qed

lemma login_flow_ok:
  assumes "login_flow_with_browser lib config creds return_url wanted_path wanted_paths s = (Inr result, t)"
  shows "\<exists>allowed u v. resolve_expected_return_paths config wanted_path wanted_paths = Inr allowed \<and>
    login_body lib config creds return_url allowed u = (Inr result, v)"
  using assms in_browser_ok
  by (fastforce simp: login_flow_with_browser_def Let_def split: option.splits sum.splits prod.splits flow_error.splits)

lemma resolved_paths_safe:
  assumes "resolve_expected_return_paths config wanted_path wanted_paths = Inr allowed" "p \<in> set allowed"
  shows "startswith p ''/'' \<and> \<not> startswith p ''//'' \<and> \<not> contains ''://'' p"
proof -
  obtain units where "list_all2 (\<lambda>x y. validate_expected_return_path x = Inr y) allowed units"
    using assms(1) by (auto simp: resolve_expected_return_paths_def ok_iff)
  then have "\<exists>y. validate_expected_return_path p = Inr y" using assms(2) list_all2_pre by fastforce
  then show ?thesis by (auto simp: validate_expected_return_path_def ok_iff)
qed



section \<open>A small browser\<close>

text \<open>
  A library whose world counts its requests: the navigation intercepts one request to the callback path and receives
  its response, the page ends on the default return path, and the gateway answers with the given status.
\<close>

definition small_event :: json where
  "small_event = JObj [(''requestId'', JStr ''1''),
     (''request'', JObj [(''url'', JStr (origin sample_config @ callback_path (browser_contract sample_config) @ ''?code=x''))])]"

definition small_clock :: "nat \<Rightarrow> (rat \<times> rat) \<times> nat" where
  "small_clock n = ((of_nat n, of_nat n), Suc n)"

definition small_library :: "int \<Rightarrow> nat library" where
  "small_library status =
     (let idle = liftE (Inr ()) in
      \<lparr>lb_clock = small_clock, lb_launch = (\<lambda>_. idle), lb_new_context = idle, lb_new_page = idle,
       lb_close_context = idle, lb_close_browser = idle,
       lb_goto = (\<lambda>url. bindS (continue_paced_gateway_request small_clock (origin sample_config) True small_event) (\<lambda>_.
          bindS (record_response sample_config ''GET''
                   (origin sample_config @ callback_path (browser_contract sample_config)) 302) (\<lambda>_. liftE (Inr (Some 200))))),
       lb_fill_login_form = (\<lambda>_. idle), lb_click_sign_up = idle, lb_fill_signup_form = (\<lambda>_. idle),
       lb_wait_for_url = (\<lambda>_. idle), lb_visible_error_texts = liftE (Inr []),
       lb_cookies = liftE (Inr [\<lparr>ck_name = Some (session_cookie_name sample_config), ck_value = Some ''abc'', ck_domain = None,
          ck_path = Some ''/'', ck_http_only = True, ck_secure = True, ck_same_site = Some ''Strict''\<rparr>]),
       lb_page_url = (\<lambda>_. origin sample_config @ default_return_path (browser_contract sample_config)),
       lb_send = (\<lambda>_ _ _ n. (Some status, Suc n))\<rparr>)"

definition idle_flow :: "nat flow" where
  "idle_flow = \<lparr>fl_world = 0, fl_pacing = (\<lambda>_. \<lparr>pc_minimum_interval = 1, pc_next_request_at = None\<rparr>),
     fl_paced = [], fl_observations = [], fl_continued = [], fl_session = None\<rparr>"

lemma small_login_verified:
  "fst (login_with_browser_flow (small_library 200) sample_config first_account None idle_flow) =
     Inr \<lparr>cookie_name = session_cookie_name sample_config, cookie_value = ''abc''\<rparr>"
  by code_simp

lemma small_login_refused:
  "fst (login_with_browser_flow (small_library 401) sample_config first_account None idle_flow) =
     Inl (LoginFailure (VerificationStatus 401))"
  by code_simp

definition observed_flow :: "nat flow" where
  "observed_flow = snd (record_response sample_config ''GET''
       (origin sample_config @ callback_path (browser_contract sample_config)) 302
     (snd (continue_paced_gateway_request small_clock (origin sample_config) True small_event (new_flow idle_flow))))"

lemma observed_flow_reachable: "flow_reachable small_clock sample_config observed_flow"
  unfolding observed_flow_def
  by (rule flow_stepped [OF flow_stepped [OF flow_started request_paused [OF prod.collapse [symmetric]]]
      response_received [OF prod.collapse [symmetric]]])




end
