(* ===== verification/Identity.thy ===== *)
theory Identity
  imports Deactivation Browser_Flow
begin

text \<open>
  \<open>src/api_tests/session_gateway_assertions.py\<close>: who a session belongs to, what roles and permissions a normal user and an
  administrator need, and the redirects of the authorization, callback and logout endpoints.  \<open>unquote\<close> is a parameter.
\<close>

definition REQUIRED_ADMIN_PERMISSIONS :: "string list" where
  "REQUIRED_ADMIN_PERMISSIONS = [''transactions:read:any'', ''users:read'', ''users:write'', ''statementformats:read:any'',
     ''statementformats:write:any'']"

record authenticated_identity =
  ai_subject :: string
  ai_roles :: "string set"
  ai_permissions :: "string set"
  ai_display_name :: "string option"
  ai_email :: "string option"

datatype authorization_error =
    MissingUser string
  | UnexpectedAdmin string
  | PromotionRequired string
  | MissingBothRoles
  | AdminWithoutUser
  | MissingPermissions "string list"
  | IndistinctIdentity string string

section \<open>Identities\<close>

definition assert_authenticated_user_response :: "validator \<Rightarrow> http_response \<Rightarrow> object \<Rightarrow> object check" where
  "assert_authenticated_user_response iter_errors r openapi_snapshot =
     bindE (assert_response_matches_openapi iter_errors r ''getCurrentUser'' 200 openapi_snapshot) (\<lambda>_.
     bindE (json_object_response r 200) (\<lambda>body.
     bindE (bool_field body ''authenticated'') (\<lambda>authenticated.
     bindE (ensure authenticated (WrongValue ''authenticated'')) (\<lambda>_.
     bindE (mapE (string_field body) [''sub'', ''name'', ''email'']) (\<lambda>_.
     bindE (string_array_field body ''roles'') (\<lambda>_.
     bindE (string_array_field body ''permissions'') (\<lambda>_. Inr body)))))))"

definition authenticated_identity_of :: "validator \<Rightarrow> http_response \<Rightarrow> object \<Rightarrow> authenticated_identity check" where
  "authenticated_identity_of iter_errors r openapi_snapshot =
     bindE (assert_authenticated_user_response iter_errors r openapi_snapshot) (\<lambda>body.
     bindE (string_field body ''sub'') (\<lambda>subject.
     bindE (string_array_field body ''roles'') (\<lambda>roles.
     bindE (string_array_field body ''permissions'') (\<lambda>permissions.
     bindE (string_field body ''name'') (\<lambda>name.
     bindE (string_field body ''email'') (\<lambda>email.
     Inr \<lparr>ai_subject = subject, ai_roles = set roles, ai_permissions = set permissions,
       ai_display_name = Some name, ai_email = Some email\<rparr>))))))"

definition require_normal_identity :: "authenticated_identity \<Rightarrow> string \<Rightarrow> authorization_error + unit" where
  "require_normal_identity identity label =
     (if ''USER'' \<notin> ai_roles identity then Inl (MissingUser label)
      else if ''ADMIN'' \<in> ai_roles identity then Inl (UnexpectedAdmin label) else Inr ())"

definition require_admin_identity :: "authenticated_identity \<Rightarrow> authorization_error + unit" where
  "require_admin_identity identity =
     (if ''ADMIN'' \<notin> ai_roles identity then
        (if ''USER'' \<in> ai_roles identity then Inl (PromotionRequired (ai_subject identity)) else Inl MissingBothRoles)
      else if ''USER'' \<notin> ai_roles identity then Inl AdminWithoutUser
      else
        let missing = sort (filter (\<lambda>p. p \<notin> ai_permissions identity) REQUIRED_ADMIN_PERMISSIONS)
        in if missing \<noteq> [] then Inl (MissingPermissions missing) else Inr ())"

definition distinct_step :: "(string \<times> string) list \<Rightarrow> string \<times> authenticated_identity \<Rightarrow> authorization_error + (string \<times> string) list" where
  "distinct_step subjects labelled =
     (let (label, identity) = labelled in
      case map_of subjects (ai_subject identity) of
        Some existing_label \<Rightarrow> Inl (IndistinctIdentity existing_label label)
      | None \<Rightarrow> Inr (AList.update (ai_subject identity) label subjects))"

definition ensure_distinct_identities :: "(string \<times> authenticated_identity) list \<Rightarrow> authorization_error + unit" where
  "ensure_distinct_identities identities = bindE (foldE distinct_step [] identities) (\<lambda>_. Inr ())"

section \<open>Redirects\<close>

datatype redirect_error =
    RedirectCheck check_error
  | NoLocation
  | BadLocation
  | NotAbsoluteHttps
  | NotAllowlisted
  | NotExactlyOnce string
  | WrongFlow
  | WrongCallback
  | MissingScopes
  | WrongChallengeMethod
  | WrongLoginPath
  | WrongClassification
  | WrongReturnUrl
  | WrongEndpoint
  | WrongLoginContract string

record oauth_authorization_redirect =
  oa_provider_host :: string
  oa_state :: string

definition redirect_check :: "'a check \<Rightarrow> redirect_error + 'a" where
  "redirect_check r = (case r of Inl e \<Rightarrow> Inl (RedirectCheck e) | Inr x \<Rightarrow> Inr x)"

lemma redirect_check_ok [ok_iff]: "redirect_check r = Inr x \<longleftrightarrow> r = Inr x"
  by (simp add: redirect_check_def split: sum.split)

definition demand :: "bool \<Rightarrow> redirect_error \<Rightarrow> redirect_error + unit" where
  "demand b e = (if b then Inr () else Inl e)"

lemma demand_ok [ok_iff]: "demand b e = Inr u \<longleftrightarrow> b"
  by (simp add: demand_def)

definition assert_allowlisted_provider_uri :: "split_result \<Rightarrow> environment_config \<Rightarrow> redirect_error + string" where
  "assert_allowlisted_provider_uri parsed config =
     (case su_hostname parsed of
        None \<Rightarrow> Inl NotAbsoluteHttps
      | Some host \<Rightarrow>
          if su_scheme parsed \<noteq> ''https'' then Inl NotAbsoluteHttps
          else if list_ex (\<lambda>suf. casefold host = suf \<or> endswith (casefold host) (''.'' @ suf))
                    (provider_host_suffixes (browser_contract config))
          then Inr (casefold host) else Inl NotAllowlisted)"

text \<open>\<open>parse_qs\<close> with blank values, read at one name.\<close>

definition query_values :: "(string \<times> string) list \<Rightarrow> string \<Rightarrow> string list" where
  "query_values query name = map snd (filter (\<lambda>nv. fst nv = name) query)"

definition single_query_value :: "(string \<times> string) list \<Rightarrow> string \<Rightarrow> redirect_error + string" where
  "single_query_value query name =
     (case query_values query name of [v] \<Rightarrow> if v = [] then Inl (NotExactlyOnce name) else Inr v | _ \<Rightarrow> Inl (NotExactlyOnce name))"

text \<open>\<open>str.split()\<close>\<close>

fun blank_words :: "string \<Rightarrow> string list" where
  "blank_words [] = []"
| "blank_words (c # cs) =
     (if is_space c then blank_words cs
      else case cs of
        [] \<Rightarrow> [[c]]
      | d # ds \<Rightarrow> if is_space d then [c] # blank_words cs
          else (case blank_words cs of [] \<Rightarrow> [[c]] | w # ws \<Rightarrow> (c # w) # ws))"

definition redirect_location :: "http_response \<Rightarrow> redirect_error + split_result" where
  "redirect_location r =
     bindE (redirect_check (assert_status r 302)) (\<lambda>_.
     bindE (requireE (map_of (lg_headers r) ''location'') NoLocation) (\<lambda>location.
     requireE (urlsplit location) BadLocation))"

definition assert_oauth_authorization_redirect ::
  "(string \<Rightarrow> string) \<Rightarrow> http_response \<Rightarrow> environment_config \<Rightarrow> redirect_error + oauth_authorization_redirect" where
  "assert_oauth_authorization_redirect unquote r config =
     bindE (redirect_location r) (\<lambda>parsed.
     bindE (assert_allowlisted_provider_uri parsed config) (\<lambda>provider_host.
     let query = parse_qsl unquote (su_query parsed) in
     bindE (single_query_value query ''response_type'') (\<lambda>response_type.
     bindE (demand (response_type = ''code'') WrongFlow) (\<lambda>_.
     bindE (single_query_value query ''redirect_uri'') (\<lambda>callback_uri.
     bindE (demand (callback_uri = origin config @ callback_path (browser_contract config)) WrongCallback) (\<lambda>_.
     bindE (single_query_value query ''state'') (\<lambda>state.
     bindE (single_query_value query ''scope'') (\<lambda>scope.
     bindE (demand (set [''openid'', ''profile'', ''email''] \<subseteq> set (blank_words scope)) MissingScopes) (\<lambda>_.
     bindE (single_query_value query ''code_challenge'') (\<lambda>_.
     bindE (single_query_value query ''code_challenge_method'') (\<lambda>challenge_method.
     bindE (demand (challenge_method = ''S256'') WrongChallengeMethod) (\<lambda>_.
     Inr \<lparr>oa_provider_host = provider_host, oa_state = state\<rparr>))))))))))))"

definition assert_controlled_callback_failure_redirect ::
  "(string \<Rightarrow> string) \<Rightarrow> http_response \<Rightarrow> string option \<Rightarrow> redirect_error + unit" where
  "assert_controlled_callback_failure_redirect unquote r expected_return_url =
     bindE (redirect_location r) (\<lambda>parsed.
     bindE (demand (su_scheme parsed = [] \<and> su_netloc parsed = [] \<and> su_path parsed = ''/login'') WrongLoginPath) (\<lambda>_.
     let query = parse_qsl unquote (su_query parsed) in
     bindE (single_query_value query ''error'') (\<lambda>e.
     bindE (demand (e = ''auth_failed'') WrongClassification) (\<lambda>_.
     demand (query_values query ''returnUrl'' = (case expected_return_url of None \<Rightarrow> [] | Some url \<Rightarrow> [url])) WrongReturnUrl))))"

fun same_site_name :: "cookie_same_site \<Rightarrow> string" where
  "same_site_name SameSiteStrict = ''Strict''"
| "same_site_name SameSiteLax = ''Lax''"
| "same_site_name SameSiteNone = ''None''"

definition assert_browser_login_contract :: "login_result \<Rightarrow> environment_config \<Rightarrow> string \<Rightarrow> redirect_error + unit" where
  "assert_browser_login_contract result config expected_final_path =
     bindE (demand (lr_callback_observed result) (WrongLoginContract ''callback'')) (\<lambda>_.
     bindE (demand (lr_final_path result = expected_final_path) (WrongLoginContract ''final path'')) (\<lambda>_.
     let cookie = lr_session_cookie result in
     bindE (demand (cm_name cookie = session_cookie_name config) (WrongLoginContract ''cookie'')) (\<lambda>_.
     bindE (demand (cm_path cookie = ''/'') (WrongLoginContract ''cookie path'')) (\<lambda>_.
     bindE (demand (cm_http_only cookie) (WrongLoginContract ''http only'')) (\<lambda>_.
     bindE (demand (cm_secure cookie) (WrongLoginContract ''secure'')) (\<lambda>_.
     bindE (demand (cm_same_site cookie = same_site_name (session_cookie_same_site (browser_contract config)))
              (WrongLoginContract ''same site'')) (\<lambda>_.
     bindE (demand (cookie_name (lr_session result) = session_cookie_name config) (WrongLoginContract ''session cookie'')) (\<lambda>_.
     demand (cookie_name (lr_session result) \<noteq> ''SESSION'') (WrongLoginContract ''framework cookie'')))))))))"

definition logout_scope :: "environment_config \<Rightarrow> cleared_scope" where
  "logout_scope config = default_scope\<lparr>cs_http_only := Some True, cs_secure := Some True,
     cs_same_site := Some (same_site_name (session_cookie_same_site (browser_contract config)))\<rparr>"

definition assert_logout_redirect :: "(string \<Rightarrow> string) \<Rightarrow> http_response \<Rightarrow> environment_config \<Rightarrow> redirect_error + string" where
  "assert_logout_redirect unquote r config =
     bindE (redirect_location r) (\<lambda>parsed.
     bindE (assert_allowlisted_provider_uri parsed config) (\<lambda>provider_host.
     bindE (demand (su_path parsed = provider_logout_path (browser_contract config)) WrongEndpoint) (\<lambda>_.
     let query = parse_qsl unquote (su_query parsed);
         expected_return_to = origin config @ logout_return_path (browser_contract config) in
     bindE (demand (contains (''returnTo='' @ quote_plus expected_return_to) (su_query parsed)) WrongReturnUrl) (\<lambda>_.
     bindE (single_query_value query ''returnTo'') (\<lambda>return_to.
     bindE (demand (return_to = expected_return_to) WrongReturnUrl) (\<lambda>_.
     bindE (single_query_value query ''client_id'') (\<lambda>_.
     bindE (redirect_check (assert_cookie_cleared r (session_cookie_name config) (logout_scope config))) (\<lambda>_.
     Inr provider_host))))))))"

section \<open>What the checks admit\<close>

lemma no_missing_permission:
  "sort (filter (\<lambda>p. p \<notin> ai_permissions i) REQUIRED_ADMIN_PERMISSIONS) = [] \<longleftrightarrow> set REQUIRED_ADMIN_PERMISSIONS \<subseteq> ai_permissions i"
  unfolding sort_Nil_iff filter_empty_conv by blast

lemma full_administrator:
  "require_admin_identity i = Inr () \<longleftrightarrow>
     {''USER'', ''ADMIN''} \<subseteq> ai_roles i \<and> set REQUIRED_ADMIN_PERMISSIONS \<subseteq> ai_permissions i"
  using no_missing_permission [of i] by (auto simp: require_admin_identity_def Let_def)

text \<open>
  An identity is accepted as administrator exactly when it has both roles and every required permission; it is asked to
  be promoted exactly when it is a user without the administrator role.
\<close>

theorem admin_identity_accepted_iff_fully_authorized:
  "(require_admin_identity i = Inr () \<longleftrightarrow>
      {''USER'', ''ADMIN''} \<subseteq> ai_roles i \<and> set REQUIRED_ADMIN_PERMISSIONS \<subseteq> ai_permissions i) \<and>
   (require_admin_identity i = Inl (PromotionRequired subject) \<longleftrightarrow>
      ''USER'' \<in> ai_roles i \<and> ''ADMIN'' \<notin> ai_roles i \<and> ai_subject i = subject)"
  using full_administrator [of i] by (auto simp: require_admin_identity_def Let_def)

lemma distinct_step_ok:
  "distinct_step d (label, i) = Inr e \<longleftrightarrow> map_of d (ai_subject i) = None \<and> e = AList.update (ai_subject i) label d"
  by (auto simp: distinct_step_def split: option.split)

lemma distinct_fold:
  "foldE distinct_step d xs = Inr e \<Longrightarrow>
     distinct (map (\<lambda>x. ai_subject (snd x)) xs) \<and> (\<forall>x \<in> set xs. map_of d (ai_subject (snd x)) = None)"
proof (induction xs arbitrary: d)
  case (Cons x xs)
  obtain label i where x: "x = (label, i)" by fastforce
  have none: "map_of d (ai_subject i) = None" and rest: "foldE distinct_step (AList.update (ai_subject i) label d) xs = Inr e"
    using Cons.prems by (simp_all add: x distinct_step_ok ok_iff)
  from Cons.IH [OF rest] have "distinct (map (\<lambda>x. ai_subject (snd x)) xs)"
    "\<forall>x \<in> set xs. ai_subject (snd x) \<noteq> ai_subject i \<and> map_of d (ai_subject (snd x)) = None"
    by (auto simp: dict_simps split: if_splits)
  then show ?case using none by (auto simp: x)
qed simp

lemma distinct_fold_ok:
  assumes "distinct (map (\<lambda>x. ai_subject (snd x)) xs)" "\<forall>x \<in> set xs. map_of d (ai_subject (snd x)) = None"
  shows "\<exists>e. foldE distinct_step d xs = Inr e"
  using assms
proof (induction xs arbitrary: d)
  case (Cons x xs)
  obtain label i where x: "x = (label, i)" by fastforce
  have "\<forall>y \<in> set xs. map_of (AList.update (ai_subject i) label d) (ai_subject (snd y)) = None"
    using Cons.prems by (force simp: x dict_simps)
  moreover have "map_of d (ai_subject i) = None" using Cons.prems(2) by (simp add: x)
  ultimately show ?case using Cons.IH [of "AList.update (ai_subject i) label d"] Cons.prems(1) by (simp add: x ok_iff distinct_step_ok)
qed simp

text \<open>Identities are distinct exactly when their subjects are.\<close>

lemma ensure_distinct_identities_ok:
  "ensure_distinct_identities xs = Inr () \<longleftrightarrow> distinct (map (\<lambda>x. ai_subject (snd x)) xs)"
proof
  assume "ensure_distinct_identities xs = Inr ()"
  then show "distinct (map (\<lambda>x. ai_subject (snd x)) xs)" using distinct_fold by (auto simp: ensure_distinct_identities_def ok_iff)
next
  assume "distinct (map (\<lambda>x. ai_subject (snd x)) xs)"
  then show "ensure_distinct_identities xs = Inr ()"
    using distinct_fold_ok [of xs "[]"] by (auto simp: ensure_distinct_identities_def)
qed

text \<open>
  A redirect goes to the identity provider in the sense of the browser's observer: a location is accepted exactly when it
  is an HTTPS address that the observer of browser responses classifies as the identity provider, and then the host the
  check returns is the host of that address.
\<close>

theorem redirects_and_browser_agree_on_the_provider:
  assumes "urlsplit location = Some parsed"
  shows "assert_allowlisted_provider_uri parsed config = Inr host \<longleftrightarrow>
    su_scheme parsed = ''https'' \<and> external_host_classification location config = Inr IdentityProvider \<and>
    map_option casefold (su_hostname parsed) = Some host"
  using assms by (auto simp: assert_allowlisted_provider_uri_def external_host_classification_def split: option.splits)

theorem redirects_and_browser_agree_on_the_provider_witness:
  "external_host_classification ''https://login.IDP.example/authorize'' sample_config = Inr IdentityProvider"
proof -
  let ?u = "''https://login.IDP.example/authorize''"
  have "\<exists>u. urlsplit ?u = Some u \<and> assert_allowlisted_provider_uri u sample_config = Inr ''login.idp.example''"
  proof -
    have "case urlsplit ?u of None \<Rightarrow> False | Some u \<Rightarrow> assert_allowlisted_provider_uri u sample_config = Inr ''login.idp.example''"
      by code_simp
    then show ?thesis by (auto split: option.splits)
  qed
  then show ?thesis using redirects_and_browser_agree_on_the_provider by blast
qed

end
