(* ===== verification/Fixtures.thy ===== *)
theory Fixtures
  imports Identity
begin

text \<open>
  The session-scoped fixtures of \<open>src/api_tests/pytest_plugin.py\<close> and the promotion message of \<open>src/api_tests/auth.py\<close>.  A
  fixture either gives its value or ends the test: it fails as a prerequisite, is skipped, ends the whole run, or lets the
  error of a check through.
\<close>

datatype fixture_error =
    PrerequisiteFailed
  | Skipped
  | RunEnded string int
  | TestError gateway_error
  | NoBrowserSettings

definition map_error :: "('e \<Rightarrow> 'f) \<Rightarrow> ('s, 'e, 'a) io \<Rightarrow> ('s, 'f, 'a) io" where
  "map_error f m s = (case m s of (Inl e, t) \<Rightarrow> (Inl (f e), t) | (Inr x, t) \<Rightarrow> (Inr x, t))"

lemma map_error_ok [ok_iff]: "map_error f m s = (Inr x, t) \<longleftrightarrow> m s = (Inr x, t)"
  by (auto simp: map_error_def split: prod.split sum.split)

section \<open>The promotion message\<close>

definition promotion_identity_line :: "environment_config \<Rightarrow> string \<Rightarrow> lookup \<Rightarrow> fixture_error + string" where
  "promotion_identity_line config safe_subject source =
     (case auth_mode_of (auth config) of
        SuppliedSessions \<Rightarrow>
          (let session_env = admin_session_env (supplied_sessions (auth config));
               configured_source = (case session_env of None \<Rightarrow> ''the configured admin session variable''
                 | Some name \<Rightarrow> if name = [] then ''the configured admin session variable'' else name)
           in Inr (''The admin session is supplied by '' @ configured_source @ ''; its public subject is '' @ repr_text safe_subject @
                ''. After changing grants, supply a refreshed session.''))
      | BrowserPreprovisioned \<Rightarrow>
          bindE (requireE (browser (auth config)) NoBrowserSettings) (\<lambda>b.
          if get_stripped source (admin_username_env b) \<noteq> [] \<and> get_stripped source (admin_password_env b) \<noteq> [] then
            Inr (''The admin credentials are supplied by '' @ admin_username_env b @ '' and '' @ admin_password_env b @
              ''; the public subject is '' @ repr_text safe_subject @ ''.'')
          else if environment_type_of config = Local then
            Inr ''The local account username is stored as BA_ADMIN_TEST_USERNAME in .env.local.''
          else
            Inr (''The pre-provisioned admin credentials are supplied by '' @ admin_username_env b @ '' and '' @ admin_password_env b @
              ''; the public subject is '' @ repr_text safe_subject @ ''.'')))"

definition admin_promotion_message :: "environment_config \<Rightarrow> string \<Rightarrow> lookup \<Rightarrow> fixture_error + string" where
  "admin_promotion_message config subject source =
     bindE (promotion_identity_line config (redact_sensitive_text subject) source) (\<lambda>identity_line.
     Inr (''Please promote the test admin user to the ADMIN role in the database.'' @ [LF] @
       ''Add ADMIN while retaining USER. '' @ identity_line @ [LF] @ ''Then rerun the same command.''))"

section \<open>Session fixtures\<close>

text \<open>Every error of an acquisition but the missing secondary and administrator sessions is a configuration or login error.\<close>

definition primary_session ::
  "('w, 'b) browser_functions \<Rightarrow> environment_config \<Rightarrow> lookup \<Rightarrow> credentials \<Rightarrow> (node \<times> 'w, fixture_error, session) io" where
  "primary_session fs env_config source generated =
     map_error (\<lambda>e. PrerequisiteFailed) (acquire_session fs env_config Primary source generated)"

definition secondary_session ::
  "('w, 'b) browser_functions \<Rightarrow> environment_config \<Rightarrow> lookup \<Rightarrow> credentials \<Rightarrow> (node \<times> 'w, fixture_error, session) io" where
  "secondary_session fs env_config source generated =
     map_error (\<lambda>e. case e of
         MissingSecondarySession \<Rightarrow> if environment_type_of env_config = Local then PrerequisiteFailed else Skipped
       | _ \<Rightarrow> PrerequisiteFailed)
       (acquire_session fs env_config Secondary source generated)"

definition admin_session ::
  "('w, 'b) browser_functions \<Rightarrow> environment_config \<Rightarrow> lookup \<Rightarrow> credentials \<Rightarrow> (node \<times> 'w, fixture_error, session) io" where
  "admin_session fs env_config source generated =
     (if environment_type_of env_config = Production then liftE (Inl Skipped)
      else map_error (\<lambda>e. PrerequisiteFailed) (acquire_session fs env_config Admin source generated))"

section \<open>Identity fixtures\<close>

definition request_authenticated_identity ::
  "('c, 'w) http_library \<Rightarrow> object \<Rightarrow> 'c api_client \<Rightarrow> ('c, 'w, authenticated_identity) gateway_io" where
  "request_authenticated_identity lib openapi_snapshot client =
     bindS (send_raw lib client (plain_request ''GET'' ''/auth/v1/user'')) (\<lambda>response.
     liftE (checked (authenticated_identity_of (hl_validator lib) response openapi_snapshot)))"

type_synonym ('c, 'w, 'a) fixture_io = "(('c, 'w) gateway_state, fixture_error, 'a) io"

definition normal_identity ::
  "string \<Rightarrow> ('c, 'w) http_library \<Rightarrow> object \<Rightarrow> 'c api_client \<Rightarrow> ('c, 'w, authenticated_identity) fixture_io" where
  "normal_identity label lib openapi_snapshot client =
     bindS (map_error TestError (request_authenticated_identity lib openapi_snapshot client)) (\<lambda>identity.
     liftE (case require_normal_identity identity label of Inl e \<Rightarrow> Inl PrerequisiteFailed | Inr _ \<Rightarrow> Inr identity))"

definition primary_identity ::
  "('c, 'w) http_library \<Rightarrow> object \<Rightarrow> 'c api_client \<Rightarrow> ('c, 'w, authenticated_identity) fixture_io" where
  "primary_identity = normal_identity ''primary''"

definition secondary_identity ::
  "('c, 'w) http_library \<Rightarrow> object \<Rightarrow> 'c api_client \<Rightarrow> ('c, 'w, authenticated_identity) fixture_io" where
  "secondary_identity = normal_identity ''secondary''"

definition admin_identity ::
  "('c, 'w) http_library \<Rightarrow> environment_config \<Rightarrow> session \<Rightarrow> lookup \<Rightarrow> object \<Rightarrow> ('c, 'w, authenticated_identity) fixture_io" where
  "admin_identity lib env_config sess source openapi_snapshot =
     bindS (map_error TestError (with_client lib env_config (Some sess) (request_authenticated_identity lib openapi_snapshot))) (\<lambda>identity.
     liftE (case require_admin_identity identity of
         Inr _ \<Rightarrow> Inr identity
       | Inl (PromotionRequired subject) \<Rightarrow>
           (case admin_promotion_message env_config subject source of Inl e \<Rightarrow> Inl e | Inr message \<Rightarrow> Inl (RunEnded message 2))
       | Inl _ \<Rightarrow> Inl PrerequisiteFailed))"

definition distinct_user_sessions ::
  "session \<Rightarrow> session \<Rightarrow> authenticated_identity \<Rightarrow> authenticated_identity \<Rightarrow> fixture_error + unit" where
  "distinct_user_sessions primary secondary primary_id secondary_id =
     (if \<not> ensure_distinct_sessions primary secondary then Inl PrerequisiteFailed
      else case ensure_distinct_identities [(''primary'', primary_id), (''secondary'', secondary_id)] of
        Inl e \<Rightarrow> Inl PrerequisiteFailed | Inr _ \<Rightarrow> Inr ())"

definition distinct_admin_user_identities ::
  "authenticated_identity \<Rightarrow> authenticated_identity \<Rightarrow> authenticated_identity \<Rightarrow> fixture_error + unit" where
  "distinct_admin_user_identities primary_id secondary_id admin_id =
     (case ensure_distinct_identities [(''primary'', primary_id), (''secondary'', secondary_id), (''admin'', admin_id)] of
        Inl e \<Rightarrow> Inl PrerequisiteFailed | Inr _ \<Rightarrow> Inr ())"

section \<open>Client fixtures\<close>

text \<open>A fixture that yields a client runs the test with it and closes it; \<open>test\<close> is what the tests do with the client.\<close>

definition gateway_client_fixture ::
  "('c, 'w) http_library \<Rightarrow> environment_config \<Rightarrow> session \<Rightarrow> ('c api_client \<Rightarrow> ('c, 'w, 'a) gateway_io) \<Rightarrow> ('c, 'w, 'a) fixture_io" where
  "gateway_client_fixture lib env_config sess test = map_error TestError (with_client lib env_config (Some sess) test)"

definition admin_gateway_client ::
  "('c, 'w) http_library \<Rightarrow> environment_config \<Rightarrow> session \<Rightarrow> lookup \<Rightarrow> object \<Rightarrow> ('c api_client \<Rightarrow> ('c, 'w, 'a) gateway_io) \<Rightarrow>
     ('c, 'w, 'a) fixture_io" where
  "admin_gateway_client lib env_config sess source openapi_snapshot test =
     bindS (admin_identity lib env_config sess source openapi_snapshot) (\<lambda>_. gateway_client_fixture lib env_config sess test)"

definition unauthenticated_gateway_client ::
  "('c, 'w) http_library \<Rightarrow> environment_config \<Rightarrow> ('c api_client \<Rightarrow> ('c, 'w, 'a) gateway_io) \<Rightarrow> ('c, 'w, 'a) fixture_io" where
  "unauthenticated_gateway_client lib env_config test = map_error TestError (with_client lib env_config None test)"

definition invalid_session_gateway_client ::
  "('c, 'w) http_library \<Rightarrow> environment_config \<Rightarrow> string \<Rightarrow> ('c api_client \<Rightarrow> ('c, 'w, 'a) gateway_io) \<Rightarrow> ('c, 'w, 'a) fixture_io" where
  "invalid_session_gateway_client lib env_config token test =
     gateway_client_fixture lib env_config \<lparr>cookie_name = session_cookie_name env_config, cookie_value = token\<rparr> test"

text \<open>The option of the request log.\<close>

definition request_log_path :: "json \<Rightarrow> string option" where
  "request_log_path raw_path = (case raw_path of JStr s \<Rightarrow> if s = [] then None else Some s | _ \<Rightarrow> None)"

section \<open>Who runs the tests\<close>

lemma request_identity_ok:
  assumes "request_authenticated_identity lib doc client s = (Inr i, t)"
  obtains r where "gs_exchanges t = gs_exchanges s @ [Exchanged (ac_handle client) (plain_request ''GET'' ''/auth/v1/user'') (Some r)]"
    "authenticated_identity_of (hl_validator lib) r doc = Inr i"
proof -
  obtain r u where "send_raw lib client (plain_request ''GET'' ''/auth/v1/user'') s = (Inr r, u)" "t = u"
    "authenticated_identity_of (hl_validator lib) r doc = Inr i"
    using assms unfolding request_authenticated_identity_def bindS_ok liftE_ok checked_ok by blast
  moreover have "absolute_path ''/auth/v1/user'' = ''/auth/v1/user''" by (simp add: absolute_path_def)
  ultimately show thesis using that send_raw_ok by (metis plain_request_target)
qed

lemma identity_body:
  assumes "authenticated_identity_of iter_errors r doc = Inr i"
  obtains body roles permissions where "lg_status r = 200" "rs_json r = Some (JObj body)"
    "string_field body ''sub'' = Inr (ai_subject i)" "string_array_field body ''roles'' = Inr roles" "ai_roles i = set roles"
    "string_array_field body ''permissions'' = Inr permissions" "ai_permissions i = set permissions"
proof -
  obtain body subject roles permissions name email
    where body: "assert_authenticated_user_response iter_errors r doc = Inr body"
      and fs: "string_field body ''sub'' = Inr subject" "string_array_field body ''roles'' = Inr roles"
        "string_array_field body ''permissions'' = Inr permissions"
      and i: "\<lparr>ai_subject = subject, ai_roles = set roles, ai_permissions = set permissions,
       ai_display_name = Some name, ai_email = Some email\<rparr> = i"
    using assms unfolding authenticated_identity_of_def bindE_ok sum.inject by blast
  have "json_object_response r 200 = Inr body"
    using body unfolding assert_authenticated_user_response_def bindE_ok sum.inject by blast
  then have "lg_status r = 200" "rs_json r = Some (JObj body)"
    by (auto simp: json_object_response_def assert_status_def response_json_def ok_iff)
  then show thesis using that [of body roles permissions] fs i by auto
qed

lemma admin_verdict_ok:
  "(case require_admin_identity identity of
      Inr _ \<Rightarrow> Inr identity
    | Inl (PromotionRequired subject) \<Rightarrow> (case f subject of Inl e \<Rightarrow> Inl e | Inr message \<Rightarrow> Inl (RunEnded message 2))
    | Inl _ \<Rightarrow> Inl PrerequisiteFailed) = Inr i \<longleftrightarrow> require_admin_identity identity = Inr () \<and> i = identity"
  by (auto split: sum.split authorization_error.split)

lemma admin_identity_ok:
  assumes "admin_identity lib config sess source doc s = (Inr i, t)"
  obtains c r where "gs_exchanges t = gs_exchanges s @ [Opened (Some sess),
      Exchanged c (plain_request ''GET'' ''/auth/v1/user'') (Some r), Closed c]"
    "authenticated_identity_of (hl_validator lib) r doc = Inr i" "require_admin_identity i = Inr ()"
proof -
  obtain j where w: "with_client lib config (Some sess) (request_authenticated_identity lib doc) s = (Inr j, t)"
    and j: "require_admin_identity j = Inr ()" "i = j"
    using assms unfolding admin_identity_def bindS_ok liftE_ok map_error_ok admin_verdict_ok by blast
  obtain c v u where u: "request_authenticated_identity lib doc \<lparr>ac_config = config, ac_handle = c\<rparr>
      (s\<lparr>gs_world := v, gs_exchanges := gs_exchanges s @ [Opened (Some sess)]\<rparr>) = (Inr j, u)"
    and t: "gs_exchanges t = gs_exchanges u @ [Closed c]"
    by (rule with_client_ok [OF w])
  obtain r where "gs_exchanges u = gs_exchanges s @ [Opened (Some sess)] @
      [Exchanged c (plain_request ''GET'' ''/auth/v1/user'') (Some r)]"
    "authenticated_identity_of (hl_validator lib) r doc = Inr j"
    by (rule request_identity_ok [OF u]) simp
  then show thesis using that [of c r] t j by simp
qed

text \<open>
  C19. Administrator tests run as a fully authorised administrator: when the fixture of the administrator's client lets a
  test run, a client opened with the same session was told, in a 200 response to the current-user request, both roles and
  every required permission, and the test ran right after that on a client of that session.
\<close>

theorem admin_tests_run_as_a_full_administrator:
  assumes "admin_gateway_client lib config sess source doc test s = (Inr x, t)"
  shows "\<exists>c r u body roles permissions. gs_exchanges u = gs_exchanges s @ [Opened (Some sess),
      Exchanged c (plain_request ''GET'' ''/auth/v1/user'') (Some r), Closed c] \<and>
    lg_status r = 200 \<and> rs_json r = Some (JObj body) \<and>
    string_array_field body ''roles'' = Inr roles \<and> {''USER'', ''ADMIN''} \<subseteq> set roles \<and>
    string_array_field body ''permissions'' = Inr permissions \<and> set REQUIRED_ADMIN_PERMISSIONS \<subseteq> set permissions \<and>
    with_client lib config (Some sess) test u = (Inr x, t)"
proof -
  obtain i u where u: "admin_identity lib config sess source doc s = (Inr i, u)"
    and run: "with_client lib config (Some sess) test u = (Inr x, t)"
    using assms unfolding admin_gateway_client_def gateway_client_fixture_def bindS_ok map_error_ok by blast
  obtain c r where ex: "gs_exchanges u = gs_exchanges s @ [Opened (Some sess),
      Exchanged c (plain_request ''GET'' ''/auth/v1/user'') (Some r), Closed c]"
    "authenticated_identity_of (hl_validator lib) r doc = Inr i" and admin: "require_admin_identity i = Inr ()"
    by (rule admin_identity_ok [OF u])
  obtain body roles permissions where body: "lg_status r = 200" "rs_json r = Some (JObj body)"
    "string_array_field body ''roles'' = Inr roles" "ai_roles i = set roles"
    "string_array_field body ''permissions'' = Inr permissions" "ai_permissions i = set permissions"
    by (rule identity_body [OF ex(2)])
  have "{''USER'', ''ADMIN''} \<subseteq> set roles" "set REQUIRED_ADMIN_PERMISSIONS \<subseteq> set permissions"
    using admin unfolding full_administrator body(4,6) by blast+
  with ex(1) body(1-3,5) run show ?thesis by metis
qed

lemma returned: "(case fst run of Inl e \<Rightarrow> False | Inr x \<Rightarrow> True) \<Longrightarrow> \<exists>x. run = (Inr x, snd run)"
  by (cases run) (auto split: sum.splits)

text \<open>A service that answers every request with a full administrator, and its contract.\<close>

definition administrator_body :: object where
  "administrator_body = [(''authenticated'', JBool True), (''sub'', JStr ''auth0|7''), (''name'', JStr ''A''), (''email'', JStr ''a@b.c''),
     (''roles'', JList [JStr ''USER'', JStr ''ADMIN'']),
     (''permissions'', JList [JStr ''transactions:read:any'', JStr ''users:read'', JStr ''users:write'',
        JStr ''statementformats:read:any'', JStr ''statementformats:write:any''])]"

definition administrator_library :: "(nat, nat) http_library" where
  "administrator_library = \<lparr>hl_open = (\<lambda>config sess w. (w, w + 1)), hl_send = (\<lambda>c request w.
       (Some (empty_response\<lparr>lg_status := 200, rs_json := Some (JObj administrator_body)\<rparr>), w + 1)), hl_close = (\<lambda>c w. w),
     hl_clock = (\<lambda>w. (0, 0)), hl_validator = (\<lambda>doc ref body. [])\<rparr>"

definition identity_contract :: object where
  "identity_contract = [(''paths'', JObj [plain_operation ''/auth/v1/user'' ''get'' ''getCurrentUser''])]"

theorem admin_tests_run_as_a_full_administrator_witness:
  "\<exists>x t u. admin_gateway_client administrator_library sample_config \<lparr>cookie_name = ''S'', cookie_value = ''1''\<rparr> (\<lambda>n. None)
       identity_contract (\<lambda>client. send_api administrator_library client (plain_request ''GET'' ''/v1/users'')) start_state = (Inr x, t) \<and>
     length (gs_exchanges u) = 3 \<and>
     with_client administrator_library sample_config (Some \<lparr>cookie_name = ''S'', cookie_value = ''1''\<rparr>)
       (\<lambda>client. send_api administrator_library client (plain_request ''GET'' ''/v1/users'')) u = (Inr x, t)"
proof -
  let ?sess = "\<lparr>cookie_name = ''S'', cookie_value = ''1''\<rparr>"
  let ?test = "\<lambda>client. send_api administrator_library client (plain_request ''GET'' ''/v1/users'')"
  let ?run = "admin_gateway_client administrator_library sample_config ?sess (\<lambda>n. None) identity_contract ?test start_state"
  have "case fst ?run of Inl e \<Rightarrow> False | Inr x \<Rightarrow> True" by code_simp
  from returned [OF this] obtain x where run: "?run = (Inr x, snd ?run)" by blast
  have start: "gs_exchanges start_state = []" by (simp add: start_state_def)
  obtain c r u where ex: "gs_exchanges u = [Opened (Some ?sess), Exchanged c (plain_request ''GET'' ''/auth/v1/user'') (Some r), Closed c]"
    and u: "with_client administrator_library sample_config (Some ?sess) ?test u = (Inr x, snd ?run)"
    using admin_tests_run_as_a_full_administrator [OF run] unfolding start append_Nil by blast
  have "length (gs_exchanges u) = 3" unfolding ex by simp
  with run u show ?thesis by (intro exI [of _ x] exI [of _ "snd ?run"] exI [of _ u] conjI)
qed

text \<open>
  The promotion message reveals no credential: it depends on the environment only through which variables are set, so
  environments that set the same variables give the same message, whatever their secrets are.
\<close>

theorem promotion_message_reveals_no_secret:
  assumes "\<And>n. get_stripped source n = [] \<longleftrightarrow> get_stripped source' n = []"
  shows "admin_promotion_message config subject source = admin_promotion_message config subject source'"
  unfolding admin_promotion_message_def promotion_identity_line_def by (cases "auth_mode_of (auth config)") (simp_all only: assms)

theorem promotion_message_reveals_no_secret_witness:
  "admin_promotion_message sample_config ''s'' (\<lambda>n. Some ''secret'') = admin_promotion_message sample_config ''s'' (\<lambda>n. Some ''other'')"
  by (rule promotion_message_reveals_no_secret) code_simp

end
