(* ===== verification/Spec2Isabelle.thy ===== *)
theory Spec2Isabelle
  imports Drift Marker_Policy Regression Evidence_Setup Evidence_Redaction Resources Fixtures
begin

text \<open>
  A verification library for the API tests of the budget analyzer: the Python package \<open>src/api_tests/\<close>, which holds
  everything between pytest and the gateway that the tests talk to.

  \<^bold>\<open>The program and its parts.\<close>  A run of the tests loads an environment (\<open>config.py\<close>), collects the tests and decides from
  their markers which of them may run there (\<open>pytest_plugin.py\<close>), acquires sessions for the primary, the secondary and the
  administrator role (\<open>auth.py\<close>, with credentials kept in a file by \<open>local_credentials.py\<close> and a hosted login driven
  through a browser by \<open>browser_login.py\<close>), checks who the sessions belong to (\<open>session_gateway_assertions.py\<close>) and sends
  paced requests through a client (\<open>client.py\<close>).  Requests are built by \<open>builders/\<close> and sent by \<open>resources.py\<close> and
  \<open>admin_deactivation.py\<close>; responses are checked by \<open>assertions.py\<close> and \<open>schemas.py\<close> against the OpenAPI documents
  (\<open>openapi.py\<close>) and logged with secrets redacted (\<open>logging.py\<close>).  A full regression (\<open>local_runner.py\<close>) is gated by the
  drift of the live document (\<open>openapi_drift.py\<close>), by the coverage of the operations (\<open>coverage.py\<close>,
  \<open>tools/openapi_coverage.py\<close>) and of the gateway's routes (\<open>session_gateway_inventory.py\<close>).  A second group of modules
  keeps the machine reproducible: the contract of the dependencies (\<open>dependency_contract.py\<close>), the environment that is
  rebuilt from it (\<open>local_bootstrap.py\<close>), the inventory of what is installed (\<open>dependency_inventory.py\<close>) and the evidence
  that lock, tree, environment and scans agree (\<open>dependency_evidence.py\<close>, \<open>tools/dependency_evidence.py\<close>).

  \<^bold>\<open>Theories.\<close>

  \<^item> Shared.  \<open>Prelude\<close>: results of code that may raise (\<open>bindE\<close>, \<open>foldE\<close>, \<open>mapE\<close>), state passing with exceptions (\<open>io\<close>,
    \<open>bindS\<close>, \<open>liftE\<close>), dictionaries with insertion order, and the collections \<open>ok_iff\<close> and \<open>dict_simps\<close> that most proofs
    rest on.  \<open>Json\<close>: the values of the parsers with Python's equality.  \<open>Py_Text\<close>, \<open>Py_Regex\<close>, \<open>Py_Sub\<close>, \<open>Py_Repr\<close>, \<open>Py_Url\<close>,
    \<open>Py_Cookies\<close>: the parts of the standard library the program calls, from \<open>str\<close> and \<open>re\<close> to \<open>urllib.parse\<close> and
    \<open>http.cookies\<close>.
  \<^item> \<open>Client\<close> and \<open>Gateway\<close> (\<open>client.py\<close>): rate policies, pacers, the shared pacing and its origin tests; then the client as
    the tests use it, on an HTTP library that is a parameter, with the list of exchanges as history.
  \<^item> \<open>Config\<close> (\<open>config.py\<close>): records, field validators, the environment policy, loading, the session-mode override.
  \<^item> \<open>Open_Api\<close>, \<open>Drift\<close>, \<open>Coverage\<close>, \<open>Inventory\<close>, \<open>Marker_Policy\<close>, \<open>Regression\<close> (\<open>openapi.py\<close>, \<open>openapi_drift.py\<close>, \<open>coverage.py\<close>,
    \<open>session_gateway_inventory.py\<close>, \<open>pytest_plugin.py\<close>, \<open>local_runner.py\<close> and \<open>tools/openapi_coverage.py\<close>): documents and
    their operations, their comparison, markers and counters, reports, the skip policy, the gates of the regression.
  \<^item> \<open>Credential_File\<close>, \<open>Local_Credentials\<close>, \<open>Disposable_Credentials\<close> (\<open>local_credentials.py\<close>): the file as an abstract store,
    the accounts of the roles, the disposable accounts of the deactivation tests.
  \<^item> \<open>Auth\<close>, \<open>Browser_Flow\<close>, \<open>Identity\<close>, \<open>Fixtures\<close> (\<open>session.py\<close>, \<open>auth.py\<close>, \<open>browser_login.py\<close>,
    \<open>session_gateway_assertions.py\<close>, the fixtures of \<open>pytest_plugin.py\<close>): how sessions come about, the observer of the
    browser's requests as a step relation, whom a session belongs to, and on which sessions tests run.
  \<^item> \<open>Redaction\<close>, \<open>Response_Checks\<close>, \<open>Run_Data\<close>, \<open>Deactivation\<close>, \<open>Resources\<close> (\<open>logging.py\<close>, \<open>assertions.py\<close> and \<open>schemas.py\<close>,
    \<open>run_state.py\<close> and \<open>builders/\<close>, \<open>admin_deactivation.py\<close>, \<open>resources.py\<close>): what is logged, what is demanded of a response,
    the requests and their declared types, and the operations made of requests and checks.
  \<^item> \<open>Dependency_Contract\<close>, \<open>Bootstrap\<close>, \<open>Package_Inventory\<close>, \<open>Evidence\<close>, \<open>Evidence_Run\<close>, \<open>Evidence_Setup\<close>, \<open>Evidence_Redaction\<close>
    (\<open>dependency_contract.py\<close>, \<open>local_bootstrap.py\<close>, \<open>dependency_inventory.py\<close>, \<open>dependency_evidence.py\<close> with its command):
    declarations and locks, the rebuilding of the environment, the readers of the evidence, the stages and their handler,
    the command around them, and what the redaction of artifacts guarantees.

  A definition has the name of the Python function or class it models, in lower case for classes and without the leading
  underscore; fields of records carry a short prefix.  A function that raises returns a sum whose left side is an error
  type of its module; a function that also has effects takes and returns the state.  Texts of errors are constructors,
  except where a later part of the program reads or redacts them.

  \<^bold>\<open>Interfaces.\<close>  \<open>rate_limiter\<close> (\<open>Client\<close>) is what a pacer promises to the shared pacing, interpreted for each of the four
  policies.  \<open>operation_loop\<close> (\<open>Open_Api\<close>) is a loop over the operations of a document with a state and an early error,
  interpreted for the operation entries and for the contracts of the drift report.  \<open>credential_store\<close>
  (\<open>Credential_File\<close>) is a store of variables with a read and an update, interpreted on the file.

  \<^bold>\<open>What is proved.\<close>  Groups of lemmas follow the operations of each part: what a successful result implies (\<open>_ok\<close> lemmas),
  what an operation keeps, and how a loop relates to a comprehension.  The properties rest on them.
  Pacing: the starts of the requests of every policy keep their distance over any interleaving, and a browser flow passes
  its pacing assertion exactly when every observed request was paced.  Configuration: no loaded environment allows in
  production what production forbids, and in production only tests without side effects run.  Documents: the loops return
  exactly the documented operations, materialised paths fill their template, no drift means equal contracts, the
  readings of markers agree.  Credentials: an account is stored before it is used, is never lost, never bound twice, and
  nothing is touched against another target than the local one.  Sessions: a returned session was verified, a failed login
  logs out, administrator tests run as a fully authorised administrator, revoked sessions are denied everywhere, a
  deactivation is attempted once.  Data: requests have their declared types, names of different runs differ, a created
  transaction is the requested one.  Disclosure: the log does not depend on secrets, and no GitHub token survives the
  redaction of artifacts.  Dependencies: an accepted contract is locked, the marker vouches for a verified environment,
  evidence completes exactly when its sources agree, its completion record seals the directory, and the command that makes
  it is all or nothing.

  \<^bold>\<open>Parameters.\<close>  Not under \<open>src/\<close> and therefore arguments of the definitions: the JSON, YAML and TOML parsers, the JSON Schema
  validator, the packaging library, the HTTP client, the browser library, the commands of \<open>uv\<close>, \<open>pip\<close> and \<open>pip-audit\<close>, the
  operating system's refusals, clocks, random tokens, digests, \<open>unquote\<close>, \<open>datetime.fromisoformat\<close> and the decimal text of
  a float.  A hypothesis about one of them states documented behaviour (for instance that an installer leaves the output
  directory alone) and each property that has one is instantiated by a witness.

  \<^bold>\<open>Bounds.\<close>  No definition has fuel and none is partial: loops of the source run over finite collections and are structural
  recursion; the scans of \<open>re.sub\<close>, of cookies and of URLs end because the rest of the text gets shorter, which their
  termination proofs show.  Numbers are unbounded as in Python; times are rationals.  Text is a list of 8-bit characters,
  so code points above 255 are outside of the model; sizes in UTF-8 (the cut of a logged body) are computed for the
  characters there are.

  \<^bold>\<open>Not modelled.\<close>  Argument parsing, printing and the wrappers in \<open>tools/\<close>, which only call modelled functions
  (\<open>tools/dependency_contract.py\<close>, \<open>tools/validate_environment.py\<close>, the refresh of the committed document); the selectors
  and key strokes of the hosted login form; the sanitised process environment of commands; pytest's option parser and
  stash; the fixture files that are read as bytes; a crash in the middle of an atomic replacement of the credential file.
\<close>

end
